(* ===== verification/Prelude.thy ===== *)
theory Prelude
  imports Main "HOL-Library.Word"
begin

unbundle bit_operations_syntax

text \<open>
  What the components share: the names of the C integer types, the conversions the code
  does implicitly between \<open>int\<close> and \<open>size_t\<close>, memory faults as values, the
  byte order of on-disk integers, and the lemmas on lists and words used by several theories.

  Conventions of the whole development. A \<open>uintN_t\<close> whose wrap-around matters is an
  \<open>N word\<close>. A \<open>size_t\<close> that counts bytes or bits of an object in memory is a
  \<open>nat\<close>: such a value is below \<open>2^63\<close> on every supported target. A C \<open>int\<close> result is
  an \<open>int\<close>, and every conversion of a \<open>size_t\<close> to \<open>int\<close> goes through
  \<open>int_of_size\<close>, which truncates to 32 bits as the compilers do.
\<close>

named_theorems codec_simps \<open>decoders on the output of their encoders\<close>
named_theorems wf_intros \<open>operations keep the well-formedness of their component\<close>

type_synonym u8 = "8 word"
type_synonym u16 = "16 word"
type_synonym u32 = "32 word"
type_synonym u64 = "64 word"
type_synonym bytes = "8 word list"

section \<open>Implicit integer conversions\<close>

text \<open>\<open>(int)n\<close> for a \<open>size_t\<close> n: the low 32 bits, read as two's complement.\<close>

definition int_of_size :: "nat \<Rightarrow> int" where
  "int_of_size n = sint (word_of_nat n :: 32 word)"

text \<open>\<open>(size_t)i\<close> for an \<open>int\<close> i: the value modulo \<open>2^64\<close>.\<close>

definition size_of_int :: "int \<Rightarrow> nat" where
  "size_of_int i = nat (i mod 2 ^ 64)"

lemma int_of_size_small: "n < 2 ^ 31 \<Longrightarrow> int_of_size n = int n"
proof -
  assume a: "n < 2 ^ 31"
  have "sint (word_of_nat n :: 32 word) = signed_take_bit 31 (int n)"
    by (simp add: signed_of_nat)
  also have "\<dots> = int n"
    using a by (intro signed_take_bit_int_eq_self) auto
  finally show ?thesis by (simp add: int_of_size_def)
qed

lemma size_of_int_nat [simp]: "n < 2 ^ 64 \<Longrightarrow> size_of_int (int n) = n"
  by (simp add: size_of_int_def)

section \<open>Results of code that may leave its memory or may not stop\<close>

text \<open>
  \<open>Ok x\<close> is a normal return. \<open>Oob\<close> is an access outside the object the code indexes
  (undefined in C), \<open>NoFuel\<close> is a recursion that has not come back within the fuel given to
  the model.
\<close>

datatype 'a cres = Ok 'a | Oob | NoFuel

primrec cbind :: "'a cres \<Rightarrow> ('a \<Rightarrow> 'b cres) \<Rightarrow> 'b cres" where
  "cbind (Ok x) f = f x"
| "cbind Oob f = Oob"
| "cbind NoFuel f = NoFuel"

fun cmap :: "('a \<Rightarrow> 'b cres) \<Rightarrow> 'a list \<Rightarrow> 'b list cres" where
  "cmap f [] = Ok []"
| "cmap f (x # xs) = cbind (f x) (\<lambda>y. cbind (cmap f xs) (\<lambda>ys. Ok (y # ys)))"

lemma cmap_Ok: "\<forall>x\<in>set xs. f x = Ok (g x) \<Longrightarrow> cmap f xs = Ok (map g xs)"
  by (induction xs) auto

lemma cbind_eq_Ok: "cbind m f = Ok y \<longleftrightarrow> (\<exists>x. m = Ok x \<and> f x = Ok y)"
  by (cases m) auto

section \<open>Byte order\<close>

text \<open>
  \<open>le16toh\<close>, \<open>le32toh\<close> and \<open>le64toh\<close> of the bytes of a field read its
  bytes with the least significant one first; \<open>htole\<close> writes them so. The big endian
  pair is the reverse.
\<close>

fun le_decode :: "bytes \<Rightarrow> nat" where
  "le_decode [] = 0"
| "le_decode (b # bs) = unat b + 256 * le_decode bs"

fun le_encode :: "nat \<Rightarrow> nat \<Rightarrow> bytes" where
  "le_encode 0 n = []"
| "le_encode (Suc k) n = word_of_nat (n mod 256) # le_encode k (n div 256)"

definition be_decode :: "bytes \<Rightarrow> nat" where
  "be_decode bs = le_decode (rev bs)"

definition be_encode :: "nat \<Rightarrow> nat \<Rightarrow> bytes" where
  "be_encode k n = rev (le_encode k n)"

lemma length_le_encode [simp]: "length (le_encode k n) = k"
  by (induction k arbitrary: n) auto

lemma length_be_encode [simp]: "length (be_encode k n) = k"
  by (simp add: be_encode_def)

lemma unat_byte_of_nat: "unat (word_of_nat (n mod 256) :: 8 word) = n mod 256"
  by (simp add: unat_of_nat)

lemma unat_u8_less: "unat (b :: 8 word) < 256"
  using unsigned_less [of b] by simp

lemma le_decode_encode_mod: "le_decode (le_encode k n) = n mod 256 ^ k"
proof (induction k arbitrary: n)
  case 0
  then show ?case by simp
next
  case (Suc k)
  have "n mod 256 ^ Suc k = n mod (256 * 256 ^ k)" by simp
  also have "\<dots> = 256 * (n div 256 mod 256 ^ k) + n mod 256"
    by (rule mod_mult2_eq)
  finally show ?case by (simp add: Suc.IH unat_byte_of_nat)
qed

lemma le_decode_encode [codec_simps]: "n < 256 ^ k \<Longrightarrow> le_decode (le_encode k n) = n"
  by (simp add: le_decode_encode_mod)

lemma be_decode_encode [codec_simps]: "n < 256 ^ k \<Longrightarrow> be_decode (be_encode k n) = n"
  by (simp add: be_decode_def be_encode_def le_decode_encode)

lemma le_encode_decode [codec_simps]: "le_encode (length bs) (le_decode bs) = bs"
proof (induction bs)
  case Nil
  then show ?case by simp
next
  case (Cons b bs)
  have b: "unat b < 256" by (rule unat_u8_less)
  have "(unat b + 256 * le_decode bs) div 256 = le_decode bs" using b by simp
  moreover have "(unat b + 256 * le_decode bs) mod 256 = unat b" using b by simp
  ultimately show ?case by (simp add: Cons.IH)
qed

lemma le_decode_less: "le_decode bs < 256 ^ length bs"
proof (induction bs)
  case Nil
  then show ?case by simp
next
  case (Cons b bs)
  have b: "unat b < 256" by (rule unat_u8_less)
  have "256 * le_decode bs + 256 \<le> 256 * 256 ^ length bs"
    using Cons.IH by (metis Suc_leI mult_Suc_right mult_le_mono2 add.commute)
  with b show ?case by simp
qed

section \<open>Lists\<close>

lemma nth_take_drop_slice: "i < n \<Longrightarrow> off + i < length xs \<Longrightarrow> take n (drop off xs) ! i = xs ! (off + i)"
  by simp

lemma take_drop_append_exact:
  "length xs = n \<Longrightarrow> take m (drop n (xs @ ys)) = take m ys"
  by simp

lemma take_length_take: "take k xs = take (length (take k xs)) xs"
  by (metis append_eq_conv_conj append_take_drop_id)

lemma filter_upt_extend:
  assumes "a \<le> b" "\<And>k. a \<le> k \<Longrightarrow> k < b \<Longrightarrow> P k"
  shows "filter P [a..<b] = [a..<b]"
  using assms by (auto simp: filter_id_conv)

lemma filter_upt_skip:
  assumes "\<And>k. a \<le> k \<Longrightarrow> k < b \<Longrightarrow> \<not> P k"
  shows "filter P [a..<b] = []"
  using assms by (auto simp: filter_empty_conv)

lemma upt_split: "a \<le> b \<Longrightarrow> b \<le> c \<Longrightarrow> [a..<c] = [a..<b] @ [b..<c]"
  by (metis le_add_diff_inverse upt_add_eq_append)

section \<open>Arrays of elements in bytes\<close>

text \<open>The first n elements of k bytes.\<close>

fun elements :: "nat \<Rightarrow> nat \<Rightarrow> bytes \<Rightarrow> bytes list" where
  "elements 0 k bs = []"
| "elements (Suc n) k bs = take k bs # elements n k (drop k bs)"

lemma length_elements [simp]: "length (elements n k bs) = n"
  by (induction n arbitrary: bs) simp_all

lemma elements_add: "elements (n + m) k bs = elements n k bs @ elements m k (drop (n * k) bs)"
  by (induction n arbitrary: bs) (simp_all add: add.commute)

lemma elements_append: "n * k \<le> length xs \<Longrightarrow> elements n k (xs @ ys) = elements n k xs"
proof (induction n arbitrary: xs)
  case 0
  then show ?case by simp
next
  case (Suc n)
  then have "k \<le> length xs" "n * k \<le> length (drop k xs)" by simp_all
  then show ?case using Suc.IH [of "drop k xs"] by simp
qed

lemma elements_exact: "length xs = n * k \<Longrightarrow> elements (n + m) k (xs @ ys) = elements n k xs @ elements m k ys"
  by (simp add: elements_add elements_append)

section \<open>Encodings in parts\<close>

lemma le_encode_mod: "le_encode k (n mod 256 ^ k) = le_encode k n"
  by (metis le_decode_encode_mod le_encode_decode length_le_encode)

lemma le_encode_add: "le_encode (a + b) n = le_encode a n @ le_encode b (n div 256 ^ a)"
  by (induction a arbitrary: n) (simp_all add: div_mult2_eq)

lemma be_encode_add: "be_encode (a + b) n = be_encode a (n div 256 ^ b) @ be_encode b n"
  using le_encode_add [of b a n] by (simp add: be_encode_def add.commute)

lemma unat_drop_bit_div: "unat (drop_bit k (x :: u32)) = unat x div 2 ^ k"
  by (metis drop_bit_eq_div unat_drop_bit_eq)

section \<open>Fields of packed structures\<close>

definition le64 :: "u64 \<Rightarrow> bytes" where "le64 w = le_encode 8 (unat w)"
definition le32 :: "u32 \<Rightarrow> bytes" where "le32 w = le_encode 4 (unat w)"
definition le16 :: "u16 \<Rightarrow> bytes" where "le16 w = le_encode 2 (unat w)"

text \<open>The k bytes at an offset as a number.\<close>

definition get_le :: "nat \<Rightarrow> nat \<Rightarrow> bytes \<Rightarrow> 'a::len word" where
  "get_le off k b = word_of_nat (le_decode (take k (drop off b)))"

lemma length_le_fields [simp]: "length (le64 a) = 8" "length (le32 b) = 4" "length (le16 c) = 2"
  by (simp_all add: le64_def le32_def le16_def)

lemma unat_less_2p: "unat (w :: 'a::len word) < 2 ^ LENGTH('a)"
  by (rule unsigned_less)

lemma le_fields_decode:
  "word_of_nat (le_decode (le64 a)) = a" "word_of_nat (le_decode (le32 b)) = b" "word_of_nat (le_decode (le16 c)) = c"
proof -
  have "unat a < 256 ^ 8" "unat b < 256 ^ 4" "unat c < 256 ^ 2"
    using unat_less_2p [of a] unat_less_2p [of b] unat_less_2p [of c] by simp_all
  then show "word_of_nat (le_decode (le64 a)) = a" "word_of_nat (le_decode (le32 b)) = b" "word_of_nat (le_decode (le16 c)) = c"
    by (simp_all add: le64_def le32_def le16_def le_decode_encode)
qed

section \<open>Streams of bytes\<close>

text \<open>
  The contract of a checksum that is fed buffer by buffer (the \<open>bufscan\<close> callback of
  \<open>dd64\<close>): what it observes after two buffers is what it observes after their
  concatenation. Then the buffer boundaries never matter.
\<close>

locale byte_stream =
  fixes inv :: "'s \<Rightarrow> bool"
    and absorb :: "'s \<Rightarrow> bytes \<Rightarrow> 's"
    and obs :: "'s \<Rightarrow> 'o"
  assumes absorb_inv: "inv s \<Longrightarrow> inv (absorb s xs)"
    and absorb_nil: "inv s \<Longrightarrow> obs (absorb s []) = obs s"
    and absorb_append: "inv s \<Longrightarrow> obs (absorb s (xs @ ys)) = obs (absorb (absorb s xs) ys)"
    and absorb_obs: "inv s \<Longrightarrow> inv t \<Longrightarrow> obs s = obs t \<Longrightarrow> obs (absorb s xs) = obs (absorb t xs)"
begin

lemma foldl_inv: "inv s \<Longrightarrow> inv (foldl absorb s css)"
  by (induction css arbitrary: s) (simp_all add: absorb_inv)

lemma foldl_absorb: "inv s \<Longrightarrow> obs (foldl absorb s css) = obs (absorb s (concat css))"
proof (induction css arbitrary: s)
  case Nil
  then show ?case by (simp add: absorb_nil)
next
  case (Cons c css)
  then show ?case by (simp add: absorb_inv absorb_append)
qed

end

end
