(* ===== verification/Bitmask.thy ===== *)
theory Bitmask
  imports Prelude
begin

text \<open>
  The bitmask library (bitmask.h, bitmask.c): a bit array in a byte buffer, most significant
  bit of each byte first. \<open>struct bitmask\<close> is the record \<open>bitmask\<close>; a pointer that the
  code tests against NULL is a \<open>bitmask option\<close>. The last part holds the continue iterator,
  which walks the maximal runs of one bits and drives the android sparse writer.
\<close>

section \<open>Data and operations\<close>

record bitmask =
  total_bits :: nat
  bufsize :: nat
  buffer :: bytes

definition aligned_bytes :: "nat \<Rightarrow> nat" where
  "aligned_bytes bits = (bits + 7) div 8"

text \<open>\<open>mem\<close> says whether \<open>calloc\<close> finds the memory.\<close>

definition alloc_bitmask :: "bool \<Rightarrow> nat \<Rightarrow> bitmask option" where
  "alloc_bitmask mem n_bits =
     (let size = aligned_bytes n_bits
      in if mem then Some \<lparr>total_bits = n_bits, bufsize = size, buffer = replicate size 0\<rparr>
         else None)"

definition bitmask_memset :: "bitmask option \<Rightarrow> u8 \<Rightarrow> int \<times> bitmask option" where
  "bitmask_memset p c =
     (case p of None \<Rightarrow> (-1, None)
      | Some b \<Rightarrow>
          (0, Some (b\<lparr>buffer := replicate (bufsize b) c @ drop (bufsize b) (buffer b)\<rparr>)))"

definition bitmask_memcpy :: "bitmask option \<Rightarrow> bytes \<Rightarrow> nat \<Rightarrow> int \<times> bitmask option" where
  "bitmask_memcpy p src src_bytes =
     (case p of None \<Rightarrow> (-1, None)
      | Some b \<Rightarrow>
          if bufsize b < src_bytes then (-1, Some b)
          else (0, Some (b\<lparr>buffer := take src_bytes src @ drop src_bytes (buffer b)\<rparr>)))"

definition bitmask_not :: "bitmask option \<Rightarrow> int \<times> bitmask option" where
  "bitmask_not p =
     (case p of None \<Rightarrow> (-1, None)
      | Some b \<Rightarrow>
          (0, Some (b\<lparr>buffer := map (\<lambda>x. x XOR 0xff) (take (bufsize b) (buffer b))
                                @ drop (bufsize b) (buffer b)\<rparr>)))"

definition reverse8 :: "u8 \<Rightarrow> u8" where
  "reverse8 x0 =
     (let x1 = drop_bit 1 (x0 AND 0xaa) OR push_bit 1 (x0 AND 0x55);
          x2 = drop_bit 2 (x1 AND 0xcc) OR push_bit 2 (x1 AND 0x33);
          x3 = drop_bit 4 (x2 AND 0xf0) OR push_bit 4 (x2 AND 0x0f)
      in x3)"

definition bitmask_memcpy_lsbfirst ::
    "bitmask option \<Rightarrow> bytes \<Rightarrow> nat \<Rightarrow> int \<times> bitmask option" where
  "bitmask_memcpy_lsbfirst p src src_bytes =
     (case bitmask_memcpy p src src_bytes of
        (ret, None) \<Rightarrow> (ret, None)
      | (ret, Some b) \<Rightarrow>
          if ret < 0 then (ret, Some b)
          else (0, Some (b\<lparr>buffer := map reverse8 (take src_bytes (buffer b))
                                      @ drop src_bytes (buffer b)\<rparr>)))"

text \<open>The byte and the bit inside it, as the pair (bit, byte).\<close>

definition get_bit_index_msbfirst :: "nat \<Rightarrow> nat \<times> nat" where
  "get_bit_index_msbfirst bit_idx = (7 - bit_idx mod 8, bit_idx div 8)"

definition bitmask_write :: "bitmask \<Rightarrow> nat \<Rightarrow> int \<Rightarrow> int \<times> bitmask" where
  "bitmask_write b bit_idx v =
     (if total_bits b \<le> bit_idx then (-1, b)
      else
        let (bi, byte) = get_bit_index_msbfirst bit_idx;
            value = push_bit bi (1 :: u8);
            old = buffer b ! byte;
            new = (if v \<noteq> 0 then old OR value else old AND NOT value)
        in (0, b\<lparr>buffer := (buffer b)[byte := new]\<rparr>))"

text \<open>The loop of \<open>_bitmask_write_bits\<close>, which adds up the return values.\<close>

primrec bitmask_write_bits :: "bitmask \<Rightarrow> nat \<Rightarrow> nat \<Rightarrow> int \<Rightarrow> int \<times> bitmask" where
  "bitmask_write_bits b from_bit 0 v = (0, b)"
| "bitmask_write_bits b from_bit (Suc bits) v =
     (let (ret, b1) = bitmask_write_bits b from_bit bits v;
          (r, b2) = bitmask_write b1 (from_bit + bits) v
      in (ret + r, b2))"

definition bitmask_set :: "bitmask \<Rightarrow> nat \<Rightarrow> int \<times> bitmask" where
  "bitmask_set b bit_idx = bitmask_write b bit_idx 1"

definition bitmask_set_bits :: "bitmask \<Rightarrow> nat \<Rightarrow> nat \<Rightarrow> int \<times> bitmask" where
  "bitmask_set_bits b from_bit bits = bitmask_write_bits b from_bit bits 1"

definition bitmask_unset :: "bitmask \<Rightarrow> nat \<Rightarrow> int \<times> bitmask" where
  "bitmask_unset b bit_idx = bitmask_write b bit_idx 0"

text \<open>As in the source, \<open>bitmask_unset_bits\<close> passes the value 1.\<close>

definition bitmask_unset_bits :: "bitmask \<Rightarrow> nat \<Rightarrow> nat \<Rightarrow> int \<times> bitmask" where
  "bitmask_unset_bits b from_bit bits = bitmask_write_bits b from_bit bits 1"

definition bitmask_get :: "bitmask \<Rightarrow> nat \<Rightarrow> int" where
  "bitmask_get b bit_idx =
     (if total_bits b \<le> bit_idx then -1
      else
        let (bi, byte) = get_bit_index_msbfirst bit_idx
        in if buffer b ! byte AND push_bit bi 1 \<noteq> 0 then 1 else 0)"

text \<open>
  The inner loop of \<open>_bitmask_first_one\<close>: \<open>j\<close> counts the bits still to look at (the C
  variable is \<open>j - 1\<close>), \<open>pos\<close> is the C variable \<open>bit\<close>.
\<close>

fun bm_scan_byte :: "u8 \<Rightarrow> nat \<Rightarrow> nat \<Rightarrow> nat \<Rightarrow> nat option" where
  "bm_scan_byte m8 from_bit pos 0 = None"
| "bm_scan_byte m8 from_bit pos (Suc j) =
     (if from_bit \<le> pos \<and> m8 AND push_bit j 1 \<noteq> 0 then Some pos
      else bm_scan_byte m8 from_bit (Suc pos) j)"

function bm_first_one_from :: "bitmask \<Rightarrow> nat \<Rightarrow> u8 \<Rightarrow> nat \<Rightarrow> int" where
  "bm_first_one_from b from_bit x i =
     (if bufsize b \<le> i then -1
      else
        let m8 = (buffer b ! i) XOR x
        in if m8 = 0 then bm_first_one_from b from_bit x (Suc i)
           else case bm_scan_byte m8 from_bit (i * 8) 8 of
             None \<Rightarrow> bm_first_one_from b from_bit x (Suc i)
           | Some pos \<Rightarrow> if total_bits b \<le> pos then -1 else int_of_size pos)"
  by pat_completeness auto
termination
  by (relation "measure (\<lambda>(b, f, x, i). bufsize b - i)") auto

declare bm_first_one_from.simps [simp del]

definition bitmask_first_one :: "bitmask \<Rightarrow> nat \<Rightarrow> u8 \<Rightarrow> int" where
  "bitmask_first_one b from_bit x = bm_first_one_from b from_bit x (from_bit div 8)"

definition bitmask_next_zero :: "bitmask \<Rightarrow> nat \<Rightarrow> int" where
  "bitmask_next_zero b from_bit = bitmask_first_one b from_bit 0xff"

definition bitmask_next_one :: "bitmask \<Rightarrow> nat \<Rightarrow> int" where
  "bitmask_next_one b from_bit = bitmask_first_one b from_bit 0"

definition bitmask_xor :: "bool \<Rightarrow> bitmask \<Rightarrow> bitmask \<Rightarrow> bitmask option" where
  "bitmask_xor mem a b =
     (if total_bits a \<noteq> total_bits b then None
      else case alloc_bitmask mem (total_bits a) of
        None \<Rightarrow> None
      | Some result \<Rightarrow>
          Some (result\<lparr>buffer :=
            map (\<lambda>i. (buffer a ! i) XOR (buffer b ! i)) [0..<bufsize b]
            @ drop (bufsize b) (buffer result)\<rparr>))"

section \<open>Iterators\<close>

text \<open>\<open>bitmask_foreach\<close>: the indices the macro's loop visits, with fuel for the loop.\<close>

fun bitmask_foreach_from :: "nat \<Rightarrow> bitmask \<Rightarrow> int \<Rightarrow> int list option" where
  "bitmask_foreach_from 0 b i = None"
| "bitmask_foreach_from (Suc fuel) b i =
     (if i \<ge> 0
      then map_option ((#) i)
             (bitmask_foreach_from fuel b (bitmask_next_one b (size_of_int (i + 1))))
      else Some [])"

definition bitmask_foreach :: "nat \<Rightarrow> bitmask \<Rightarrow> int list option" where
  "bitmask_foreach fuel b = bitmask_foreach_from fuel b (bitmask_next_one b 0)"

record bitmask_continue_iterator =
  it_start :: int
  it_bits :: int
  it_end :: int

definition bitmask_continue_iterator_update ::
    "bitmask \<Rightarrow> bitmask_continue_iterator \<Rightarrow> bitmask_continue_iterator" where
  "bitmask_continue_iterator_update b it =
     (let it1 = it\<lparr>it_start := bitmask_next_one b (size_of_int (it_start it))\<rparr>
      in if it_start it1 < 0 then it1
         else
           let it2 = it1\<lparr>it_end := bitmask_next_zero b (size_of_int (it_start it1 + 1))\<rparr>
           in if it_end it2 < 0
              then it2\<lparr>it_bits := int_of_size (nat ((int (total_bits b)
                                     - int (size_of_int (it_start it2))) mod 2 ^ 64))\<rparr>
              else it2\<lparr>it_bits := it_end it2 - it_start it2\<rparr>)"

definition bitmask_continue_iterator_init :: "bitmask \<Rightarrow> bitmask_continue_iterator" where
  "bitmask_continue_iterator_init b =
     bitmask_continue_iterator_update b \<lparr>it_start = 0, it_bits = 0, it_end = 0\<rparr>"

definition bitmask_continue_iterator_next ::
    "bitmask \<Rightarrow> bitmask_continue_iterator \<Rightarrow> bitmask_continue_iterator" where
  "bitmask_continue_iterator_next b it =
     (let it1 = it\<lparr>it_start := it_end it\<rparr>
      in if it_start it1 < 0 then it1 else bitmask_continue_iterator_update b it1)"

text \<open>\<open>bitmask_foreach_continue\<close>: the runs (start, bits) that the macro's loop visits.\<close>

fun bitmask_runs_from ::
    "nat \<Rightarrow> bitmask \<Rightarrow> bitmask_continue_iterator \<Rightarrow> (int \<times> int) list option" where
  "bitmask_runs_from 0 b it = None"
| "bitmask_runs_from (Suc fuel) b it =
     (if it_start it < 0 then Some []
      else map_option ((#) (it_start it, it_bits it))
             (bitmask_runs_from fuel b (bitmask_continue_iterator_next b it)))"

definition bitmask_runs :: "nat \<Rightarrow> bitmask \<Rightarrow> (int \<times> int) list option" where
  "bitmask_runs fuel b = bitmask_runs_from fuel b (bitmask_continue_iterator_init b)"

section \<open>Well-formedness and the set of one bits\<close>

text \<open>
  A bitmask the library allocated: the buffer has exactly \<open>bufsize\<close> bytes, which is the
  byte size of \<open>total_bits\<close>. Its meaning is the predicate \<open>one b\<close> on bit indices.
\<close>

definition wf_bitmask :: "bitmask \<Rightarrow> bool" where
  "wf_bitmask b \<longleftrightarrow>
     bufsize b = aligned_bytes (total_bits b) \<and> length (buffer b) = bufsize b"

definition one :: "bitmask \<Rightarrow> nat \<Rightarrow> bool" where
  "one b i \<longleftrightarrow> bit (buffer b ! (i div 8)) (7 - i mod 8)"

lemma wf_byte_index: "wf_bitmask b \<Longrightarrow> i < total_bits b \<Longrightarrow> i div 8 < length (buffer b)"
  by (simp add: wf_bitmask_def aligned_bytes_def)

lemma alloc_bitmask_Some:
  "alloc_bitmask mem n = Some b \<Longrightarrow>
     wf_bitmask b \<and> total_bits b = n \<and> buffer b = replicate (aligned_bytes n) 0"
  by (auto simp: alloc_bitmask_def wf_bitmask_def Let_def split: if_splits)

lemma alloc_bitmask_none_set: "alloc_bitmask mem n = Some b \<Longrightarrow> i < n \<Longrightarrow> \<not> one b i"
  by (drule alloc_bitmask_Some) (simp add: one_def aligned_bytes_def)

lemma bitmask_memset_wf [wf_intros]:
  "wf_bitmask b \<Longrightarrow> \<exists>b'. bitmask_memset (Some b) c = (0, Some b') \<and> wf_bitmask b'"
  by (simp add: bitmask_memset_def wf_bitmask_def)

lemma bitmask_memcpy_wf [wf_intros]:
  "wf_bitmask b \<Longrightarrow> n \<le> length src \<Longrightarrow>
     \<exists>r b'. bitmask_memcpy (Some b) src n = (r, Some b') \<and> wf_bitmask b' \<and> total_bits b' = total_bits b"
  by (simp add: bitmask_memcpy_def wf_bitmask_def)

lemma bitmask_not_wf [wf_intros]:
  "wf_bitmask b \<Longrightarrow> \<exists>b'. bitmask_not (Some b) = (0, Some b') \<and> wf_bitmask b'"
  by (simp add: bitmask_not_def wf_bitmask_def)

lemma bitmask_write_wf [wf_intros]: "wf_bitmask b \<Longrightarrow> wf_bitmask (snd (bitmask_write b i v))"
  by (simp add: bitmask_write_def get_bit_index_msbfirst_def wf_bitmask_def Let_def)

lemma total_bits_write [simp]: "total_bits (snd (bitmask_write b i v)) = total_bits b"
  by (simp add: bitmask_write_def get_bit_index_msbfirst_def Let_def)

lemma write_bits_wf [wf_intros]:
  "wf_bitmask b \<Longrightarrow> wf_bitmask (snd (bitmask_write_bits b from_bit n v))"
  by (induction n) (simp_all add: bitmask_write_wf split_def Let_def)

lemma total_bits_write_bits [simp]:
  "total_bits (snd (bitmask_write_bits b from_bit n v)) = total_bits b"
  by (induction n) (simp_all add: split_def Let_def)

section \<open>Reading and writing bits\<close>

lemma bitmask_get_one:
  "bitmask_get b i = (if total_bits b \<le> i then -1 else if one b i then 1 else 0)"
  by (simp add: bitmask_get_def get_bit_index_msbfirst_def one_def bit_iff_and_push_bit_not_eq_0)

lemma bit_index_inj: "i div 8 = j div 8 \<Longrightarrow> 7 - i mod 8 = 7 - j mod 8 \<Longrightarrow> i = (j :: nat)"
proof -
  assume d: "i div 8 = j div 8" and m: "7 - i mod 8 = 7 - j mod 8"
  have "i mod 8 < 8" "j mod 8 < 8" by simp_all
  with m have "i mod 8 = j mod 8" by arith
  with d show "i = j" by (metis mod_mult_div_eq)
qed

lemma one_write:
  assumes wf: "wf_bitmask b" and i: "i < total_bits b"
  shows "one (snd (bitmask_write b i v)) j = (if j = i then v \<noteq> 0 else one b j)"
proof -
  have len: "i div 8 < length (buffer b)" using wf i by (rule wf_byte_index)
  have b8: "7 - i mod 8 < 8" by simp
  show ?thesis
  proof (cases "j div 8 = i div 8")
    case False
    then have "j \<noteq> i" by auto
    with False i show ?thesis
      by (simp add: bitmask_write_def get_bit_index_msbfirst_def one_def Let_def)
  next
    case True
    then have eq: "7 - j mod 8 = 7 - i mod 8 \<longleftrightarrow> j = i" using bit_index_inj by blast
    have jb: "7 - j mod 8 < 8" by simp
    show ?thesis
      using True i len eq jb b8
      by (auto simp: bitmask_write_def get_bit_index_msbfirst_def one_def Let_def
            bit_or_iff bit_and_iff bit_not_iff bit_exp_iff)
  qed
qed

lemma bitmask_write_ret: "fst (bitmask_write b i v) = (if i < total_bits b then 0 else -1)"
  by (simp add: bitmask_write_def get_bit_index_msbfirst_def Let_def)

lemma bitmask_write_out: "total_bits b \<le> i \<Longrightarrow> bitmask_write b i v = (-1, b)"
  by (simp add: bitmask_write_def)

lemma one_write_bits:
  assumes "wf_bitmask b" "j < total_bits b"
  shows "one (snd (bitmask_write_bits b from_bit n v)) j =
           (if from_bit \<le> j \<and> j < from_bit + n then v \<noteq> 0 else one b j)"
proof (induction n)
  case 0
  then show ?case by auto
next
  case (Suc n)
  let ?b1 = "snd (bitmask_write_bits b from_bit n v)"
  have wf: "wf_bitmask ?b1" using assms(1) by (rule write_bits_wf)
  have unf: "snd (bitmask_write_bits b from_bit (Suc n) v) = snd (bitmask_write ?b1 (from_bit + n) v)"
    by (simp add: split_def Let_def)
  show ?case
  proof (cases "from_bit + n < total_bits b")
    case True
    then show ?thesis unfolding unf using Suc.IH wf by (auto simp: one_write)
  next
    case False
    then have "snd (bitmask_write ?b1 (from_bit + n) v) = ?b1" by (simp add: bitmask_write_out)
    then show ?thesis unfolding unf using Suc.IH False assms(2) by auto
  qed
qed

lemma write_bits_ret:
  "fst (bitmask_write_bits b from_bit n v) =
     - int (from_bit + n - max from_bit (min (total_bits b) (from_bit + n)))"
  by (induction n) (auto simp: split_def Let_def bitmask_write_ret max_def min_def)

section \<open>Searching the next bit\<close>

text \<open>
  \<open>least_from P lo hi r\<close>: r is the least index in \<open>[lo, hi)\<close> with P, or -1 when
  there is none.
\<close>

definition least_from :: "(nat \<Rightarrow> bool) \<Rightarrow> nat \<Rightarrow> nat \<Rightarrow> int \<Rightarrow> bool" where
  "least_from P lo hi r \<longleftrightarrow>
     (r = -1 \<and> (\<forall>k. lo \<le> k \<and> k < hi \<longrightarrow> \<not> P k)) \<or>
     (\<exists>k. r = int k \<and> lo \<le> k \<and> k < hi \<and> P k \<and> (\<forall>j. lo \<le> j \<and> j < k \<longrightarrow> \<not> P j))"

lemma least_from_cases:
  assumes "least_from P lo hi r"
  obtains (none) "r = -1" "\<And>k. lo \<le> k \<Longrightarrow> k < hi \<Longrightarrow> \<not> P k"
  | (found) k where "r = int k" "lo \<le> k" "k < hi" "P k" "\<And>j. lo \<le> j \<Longrightarrow> j < k \<Longrightarrow> \<not> P j"
  using assms unfolding least_from_def by blast

lemma least_from_none:
  "(\<And>k. lo \<le> k \<Longrightarrow> k < hi \<Longrightarrow> \<not> P k) \<Longrightarrow> least_from P lo hi (-1)"
  by (simp add: least_from_def)

lemma least_from_found:
  "lo \<le> k \<Longrightarrow> k < hi \<Longrightarrow> P k \<Longrightarrow> (\<And>j. lo \<le> j \<Longrightarrow> j < k \<Longrightarrow> \<not> P j) \<Longrightarrow>
     least_from P lo hi (int k)"
  by (auto simp: least_from_def)

lemma least_from_mono:
  assumes "least_from P lo hi r" "lo' \<le> lo" "\<And>k. lo' \<le> k \<Longrightarrow> k < lo \<Longrightarrow> \<not> P k"
  shows "least_from P lo' hi r"
  using assms(1)
proof (cases rule: least_from_cases)
  case none
  then show ?thesis
    using assms(3) by (metis least_from_none not_le)
next
  case (found k)
  have "\<not> P j" if "lo' \<le> j" "j < k" for j
    using found(5) assms(3) that by (cases "lo \<le> j") auto
  then show ?thesis
    using found assms(2) by (auto intro: least_from_found)
qed

lemma least_from_weaken:
  assumes "least_from (\<lambda>k. lo \<le> k \<and> P k) lo' hi r" "lo' \<le> lo"
  shows "least_from P lo hi r"
  using assms(1)
proof (cases rule: least_from_cases)
  case none
  have "\<not> P k" if "lo \<le> k" "k < hi" for k
    using none(2) [of k] that assms(2) by auto
  then show ?thesis
    using none by (auto intro: least_from_none)
next
  case (found k)
  have "\<not> P j" if "lo \<le> j" "j < k" for j
    using found(5) [of j] that assms(2) by auto
  then show ?thesis
    using found by (auto intro: least_from_found)
qed

lemma least_from_cong:
  assumes "least_from P lo hi r" "\<And>k. P k \<longleftrightarrow> Q k"
  shows "least_from Q lo hi r"
  using assms(1) unfolding assms(2) .

lemma bm_scan_byte_None:
  "bm_scan_byte m from_bit pos n = None \<Longrightarrow> k < n \<Longrightarrow>
     \<not> (from_bit \<le> pos + k \<and> bit m (n - 1 - k))"
proof (induction m from_bit pos n arbitrary: k rule: bm_scan_byte.induct)
  case (1 m from_bit pos)
  then show ?case by simp
next
  case (2 m from_bit pos j)
  then show ?case
    by (cases k) (auto simp: bit_iff_and_push_bit_not_eq_0 split: if_splits)
qed

lemma bm_scan_byte_Some:
  "bm_scan_byte m from_bit pos n = Some p \<Longrightarrow>
     \<exists>k<n. p = pos + k \<and> from_bit \<le> p \<and> bit m (n - 1 - k) \<and>
       (\<forall>k'<k. \<not> (from_bit \<le> pos + k' \<and> bit m (n - 1 - k')))"
proof (induction m from_bit pos n rule: bm_scan_byte.induct)
  case (1 m from_bit pos)
  then show ?case by simp
next
  case (2 m from_bit pos j)
  show ?case
  proof (cases "from_bit \<le> pos \<and> m AND push_bit j 1 \<noteq> 0")
    case True
    with 2(2) show ?thesis
      by (intro exI [of _ 0]) (auto simp: bit_iff_and_push_bit_not_eq_0)
  next
    case False
    then have n0: "\<not> (from_bit \<le> pos \<and> bit m j)" by (simp add: bit_iff_and_push_bit_not_eq_0)
    from False 2 obtain k where k: "k < j" "p = Suc pos + k" "from_bit \<le> p" "bit m (j - 1 - k)"
      "\<forall>k'<k. \<not> (from_bit \<le> Suc pos + k' \<and> bit m (j - 1 - k'))"
      by auto
    have "\<forall>k'<Suc k. \<not> (from_bit \<le> pos + k' \<and> bit m (Suc j - 1 - k'))"
    proof (intro allI impI)
      fix k' assume "k' < Suc k"
      then show "\<not> (from_bit \<le> pos + k' \<and> bit m (Suc j - 1 - k'))"
        using n0 k(5) by (cases k') auto
    qed
    with k show ?thesis by (intro exI [of _ "Suc k"]) auto
  qed
qed

text \<open>What the search looks for: bit k of the buffer after the exclusive or.\<close>

definition xbit :: "bitmask \<Rightarrow> u8 \<Rightarrow> nat \<Rightarrow> bool" where
  "xbit b x k \<longleftrightarrow> bit ((buffer b ! (k div 8)) XOR x) (7 - k mod 8)"

lemma xbit_in_byte: "k < 8 \<Longrightarrow> xbit b x (i * 8 + k) = bit ((buffer b ! i) XOR x) (7 - k)"
  by (simp add: xbit_def)

lemma bm_first_one_from_least:
  assumes "total_bits b \<le> 8 * bufsize b" "total_bits b < 2 ^ 31"
  shows "least_from (\<lambda>k. from_bit \<le> k \<and> xbit b x k) (i * 8) (total_bits b)
           (bm_first_one_from b from_bit x i)"
  using assms
proof (induction b from_bit x i rule: bm_first_one_from.induct)
  case (1 b from_bit x i)
  let ?P = "\<lambda>k. from_bit \<le> k \<and> xbit b x k"
  let ?m = "(buffer b ! i) XOR x"
  have byte: "\<exists>k<8. p = i * 8 + k \<and> bit ?m (7 - k) = xbit b x p"
    if "i * 8 \<le> p" "p < Suc i * 8" for p
    using that xbit_in_byte [of "p - i * 8" b x i] by (intro exI [of _ "p - i * 8"]) auto
  show ?case
  proof (cases "bufsize b \<le> i")
    case True
    with 1(3) show ?thesis
      by (subst bm_first_one_from.simps) (auto intro: least_from_none)
  next
    case False
    consider (zero) "?m = 0" | (none) "?m \<noteq> 0" "bm_scan_byte ?m from_bit (i * 8) 8 = None"
      | (some) p where "?m \<noteq> 0" "bm_scan_byte ?m from_bit (i * 8) 8 = Some p"
      by (cases "bm_scan_byte ?m from_bit (i * 8) 8") auto
    then show ?thesis
    proof cases
      case zero
      have rec: "least_from ?P (Suc i * 8) (total_bits b) (bm_first_one_from b from_bit x (Suc i))"
        using False zero 1(1,3,4) by auto
      have nob: "\<not> ?P p" if "i * 8 \<le> p" "p < Suc i * 8" for p
        using byte [OF that] zero by auto
      have "least_from ?P (i * 8) (total_bits b) (bm_first_one_from b from_bit x (Suc i))"
        by (rule least_from_mono [OF rec _ nob]) simp_all
      then show ?thesis
        using False zero by (simp add: bm_first_one_from.simps [of b from_bit x i])
    next
      case none
      have rec: "least_from ?P (Suc i * 8) (total_bits b) (bm_first_one_from b from_bit x (Suc i))"
        using False none 1(2,3,4) by auto
      have nob: "\<not> ?P p" if "i * 8 \<le> p" "p < Suc i * 8" for p
        using byte [OF that] bm_scan_byte_None [OF none(2)] by force
      have "least_from ?P (i * 8) (total_bits b) (bm_first_one_from b from_bit x (Suc i))"
        by (rule least_from_mono [OF rec _ nob]) simp_all
      then show ?thesis
        using False none by (simp add: bm_first_one_from.simps [of b from_bit x i])
    next
      case (some p)
      from bm_scan_byte_Some [OF some(2)] obtain k where
        k: "k < 8" "p = i * 8 + k" "from_bit \<le> p" "bit ?m (7 - k)"
          "\<forall>k'<k. \<not> (from_bit \<le> i * 8 + k' \<and> bit ?m (7 - k'))"
        by auto
      have P: "?P p" using k by (simp add: xbit_in_byte)
      have before: "\<not> ?P j" if "i * 8 \<le> j" "j < p" for j
        using byte [of j] that k by auto
      have eq: "bm_first_one_from b from_bit x i = (if total_bits b \<le> p then -1 else int_of_size p)"
        using False some by (simp add: bm_first_one_from.simps [of b from_bit x i])
      show ?thesis
      proof (cases "total_bits b \<le> p")
        case True
        then have "least_from ?P (i * 8) (total_bits b) (-1)"
          using before by (intro least_from_none) auto
        then show ?thesis using eq True by simp
      next
        case False
        have "least_from ?P (i * 8) (total_bits b) (int p)"
          using P before False k(2) by (intro least_from_found) auto
        moreover have "int_of_size p = int p" using False 1(4) by (simp add: int_of_size_small)
        ultimately show ?thesis using eq False by simp
      qed
    qed
  qed
qed

lemma first_one_least:
  assumes "wf_bitmask b" "total_bits b < 2 ^ 31"
  shows "least_from (xbit b x) from_bit (total_bits b) (bitmask_first_one b from_bit x)"
  unfolding bitmask_first_one_def
proof (rule least_from_weaken [where lo' = "from_bit div 8 * 8"])
  have "total_bits b \<le> 8 * bufsize b"
    using assms(1) by (simp add: wf_bitmask_def aligned_bytes_def)
  then show "least_from (\<lambda>k. from_bit \<le> k \<and> xbit b x k) (from_bit div 8 * 8) (total_bits b)
      (bm_first_one_from b from_bit x (from_bit div 8))"
    using assms(2) by (rule bm_first_one_from_least)
qed simp

lemma xbit_zero: "xbit b 0 k = one b k"
  by (simp add: xbit_def one_def)

lemma bit_0xff_8: "n < 8 \<Longrightarrow> bit (0xff :: u8) n"
proof -
  have "(0xff :: u8) = -1" by simp
  then show "n < 8 \<Longrightarrow> ?thesis" by (simp only:) simp
qed

lemma xbit_ff: "xbit b 0xff k = (\<not> one b k)"
proof -
  have "bit (0xff :: u8) (7 - k mod 8)" by (rule bit_0xff_8) simp
  then show ?thesis by (simp add: xbit_def one_def bit_xor_iff)
qed

lemma next_one_least:
  "wf_bitmask b \<Longrightarrow> total_bits b < 2 ^ 31 \<Longrightarrow>
     least_from (one b) from_bit (total_bits b) (bitmask_next_one b from_bit)"
  unfolding bitmask_next_one_def
  by (rule least_from_cong [OF first_one_least]) (simp_all add: xbit_zero)

lemma next_zero_least:
  "wf_bitmask b \<Longrightarrow> total_bits b < 2 ^ 31 \<Longrightarrow>
     least_from (\<lambda>k. \<not> one b k) from_bit (total_bits b) (bitmask_next_zero b from_bit)"
  unfolding bitmask_next_zero_def
  by (rule least_from_cong [OF first_one_least]) (simp_all add: xbit_ff)

section \<open>Walking runs of one bits\<close>

text \<open>
  The interface the iterators rely on: two searches over an abstract bit set of
  \<open>size x\<close> bits. Inside the locale the walk over maximal runs is analysed once.
\<close>

locale bit_search =
  fixes inv :: "'b \<Rightarrow> bool"
    and size :: "'b \<Rightarrow> nat"
    and elem :: "'b \<Rightarrow> nat \<Rightarrow> bool"
    and next1 :: "'b \<Rightarrow> nat \<Rightarrow> int"
    and next0 :: "'b \<Rightarrow> nat \<Rightarrow> int"
  assumes next1_least: "inv x \<Longrightarrow> least_from (elem x) lo (size x) (next1 x lo)"
    and next0_least: "inv x \<Longrightarrow> least_from (\<lambda>k. \<not> elem x k) lo (size x) (next0 x lo)"
begin

lemma no_more: "inv x \<Longrightarrow> next1 x lo < 0 \<Longrightarrow> filter (elem x) [lo..<size x] = []"
  by (rule least_from_cases [OF next1_least [of x lo]]) (auto simp: filter_empty_conv)

text \<open>The next element splits the remaining ones.\<close>

lemma next_elem:
  assumes "inv x" "next1 x lo = int s"
  shows "s < size x" "lo \<le> s" "elem x s"
    "filter (elem x) [lo..<size x] = s # filter (elem x) [Suc s..<size x]"
proof -
  have "lo \<le> s \<and> s < size x \<and> elem x s \<and> (\<forall>j. lo \<le> j \<and> j < s \<longrightarrow> \<not> elem x j)"
    using next1_least [OF assms(1), of lo] assms(2) by (auto simp: least_from_def)
  then have a: "lo \<le> s" "s < size x" "elem x s" "\<And>j. lo \<le> j \<Longrightarrow> j < s \<Longrightarrow> \<not> elem x j"
    by auto
  then show "s < size x" "lo \<le> s" "elem x s" by auto
  have "[lo..<size x] = [lo..<s] @ [s..<size x]"
    using a(1,2) by (intro upt_split) simp_all
  then have "[lo..<size x] = [lo..<s] @ s # [Suc s..<size x]"
    using a(2) by (simp add: upt_conv_Cons)
  moreover have "filter (elem x) [lo..<s] = []"
    using a(4) by (intro filter_upt_skip) auto
  ultimately show "filter (elem x) [lo..<size x] = s # filter (elem x) [Suc s..<size x]"
    using a(3) by simp
qed

text \<open>The run that starts at s, as the two searches delimit it, and what is left after it.\<close>

lemma run_to_zero:
  assumes "inv x" "next1 x lo = int s" "next0 x (Suc s) = int e"
  shows "s < e" "e < size x" "\<not> elem x e"
    "filter (elem x) [lo..<size x] = [s..<e] @ filter (elem x) [e..<size x]"
proof -
  have "Suc s \<le> e \<and> e < size x \<and> \<not> elem x e \<and> (\<forall>j. Suc s \<le> j \<and> j < e \<longrightarrow> elem x j)"
    using next0_least [OF assms(1), of "Suc s"] assms(3) by (auto simp: least_from_def)
  then have a: "Suc s \<le> e" "e < size x" "\<not> elem x e" "\<And>j. Suc s \<le> j \<Longrightarrow> j < e \<Longrightarrow> elem x j"
    by auto
  then show "s < e" "e < size x" "\<not> elem x e" by auto
  have "[Suc s..<size x] = [Suc s..<e] @ [e..<size x]"
    using a(1,2) by (intro upt_split) simp_all
  then have "filter (elem x) [Suc s..<size x] = filter (elem x) [Suc s..<e] @ filter (elem x) [e..<size x]"
    by simp
  also have "filter (elem x) [Suc s..<e] = [Suc s..<e]"
    using a by (intro filter_upt_extend) auto
  finally show "filter (elem x) [lo..<size x] = [s..<e] @ filter (elem x) [e..<size x]"
    using next_elem(4) [OF assms(1,2)] a(1) by (simp add: upt_conv_Cons)
qed

lemma run_to_end:
  assumes "inv x" "next1 x lo = int s" "next0 x (Suc s) < 0"
  shows "filter (elem x) [lo..<size x] = [s..<size x]"
proof -
  have "elem x k" if "Suc s \<le> k" "k < size x" for k
    using next0_least [OF assms(1), of "Suc s"] assms(3) that by (auto simp: least_from_def)
  then have "filter (elem x) [Suc s..<size x] = [Suc s..<size x]"
    by (cases "Suc s \<le> size x") (auto intro: filter_upt_extend)
  then show ?thesis
    using next_elem [OF assms(1,2)] by (simp add: upt_conv_Cons)
qed

end

text \<open>The bitmask provides the interface, up to the size an \<open>int\<close> index can reach.\<close>

interpretation bms: bit_search "\<lambda>b. wf_bitmask b \<and> total_bits b < 2 ^ 31" total_bits one
  bitmask_next_one bitmask_next_zero
  by unfold_locales (auto intro: next_one_least next_zero_least)

lemma bitmask_foreach_from_ok:
  assumes b: "wf_bitmask b" "total_bits b < 2 ^ 31"
  shows "total_bits b - lo < fuel \<Longrightarrow>
     bitmask_foreach_from fuel b (bitmask_next_one b lo) =
       Some (map int (filter (one b) [lo..<total_bits b]))"
proof (induction fuel arbitrary: lo)
  case 0
  then show ?case by simp
next
  case (Suc fuel)
  have i: "wf_bitmask b \<and> total_bits b < 2 ^ 31" using b by simp
  show ?case
  proof (cases "bitmask_next_one b lo < 0")
    case True
    then show ?thesis using bms.no_more [OF i True] by simp
  next
    case False
    then obtain s where s: "bitmask_next_one b lo = int s" by (metis int_nat_eq not_less)
    note n = bms.next_elem [OF i s]
    have "size_of_int (int s + 1) = Suc s"
      using size_of_int_nat [of "Suc s"] n(1) b(2) by (simp add: add.commute)
    moreover have "total_bits b - Suc s < fuel" using Suc.prems n(1,2) by arith
    ultimately show ?thesis using Suc.IH [of "Suc s"] s n(4) by simp
  qed
qed

lemma bitmask_foreach_ok:
  assumes "wf_bitmask b" "total_bits b < 2 ^ 31"
  shows "bitmask_foreach (Suc (total_bits b)) b = Some (map int (filter (one b) [0..<total_bits b]))"
  unfolding bitmask_foreach_def by (rule bitmask_foreach_from_ok [OF assms]) simp

text \<open>The bits a list of runs covers, in order, and the gap between consecutive runs.\<close>

definition run_bits :: "(int \<times> int) list \<Rightarrow> nat list" where
  "run_bits rs = concat (map (\<lambda>(s, n). [nat s..<nat (s + n)]) rs)"

definition separated :: "(int \<times> int) list \<Rightarrow> bool" where
  "separated rs \<longleftrightarrow> sorted_wrt (\<lambda>(s, n) (s', n'). s + n < s') rs \<and> (\<forall>(s, n) \<in> set rs. 0 < n)"

text \<open>
  One update of the iterator that starts looking at \<open>lo\<close>: it stops, or it delimits a run
  [s, s + n) that ends before a zero bit or at the end of the bitmask.
\<close>

lemma iterator_update_cases:
  assumes b: "wf_bitmask b" "total_bits b < 2 ^ 31" and lo: "it_start it = int lo" "lo \<le> total_bits b"
  obtains
    (stop) "it_start (bitmask_continue_iterator_update b it) < 0"
      "filter (one b) [lo..<total_bits b] = []"
  | (inner) s e where "bitmask_continue_iterator_update b it =
        \<lparr>it_start = int s, it_bits = int e - int s, it_end = int e\<rparr>"
      "lo \<le> s" "s < e" "e < total_bits b" "\<not> one b e"
      "filter (one b) [lo..<total_bits b] = [s..<e] @ filter (one b) [e..<total_bits b]"
  | (last) s z where "bitmask_continue_iterator_update b it =
        \<lparr>it_start = int s, it_bits = int (total_bits b) - int s, it_end = z\<rparr>"
      "z < 0" "lo \<le> s" "s < total_bits b"
      "filter (one b) [lo..<total_bits b] = [s..<total_bits b]"
proof -
  have i: "wf_bitmask b \<and> total_bits b < 2 ^ 31" using b by simp
  have lo64: "size_of_int (it_start it) = lo" using lo b(2) by simp
  show thesis
  proof (cases "bitmask_next_one b lo < 0")
    case True
    show thesis
    proof (rule stop)
      show "it_start (bitmask_continue_iterator_update b it) < 0"
        using True lo64 by (simp add: bitmask_continue_iterator_update_def Let_def)
      show "filter (one b) [lo..<total_bits b] = []" using bms.no_more [OF i True] .
    qed
  next
    case False
    then obtain s where s: "bitmask_next_one b lo = int s" by (metis int_nat_eq not_less)
    note n = bms.next_elem [OF i s]
    have s64: "size_of_int (int s + 1) = Suc s" "size_of_int (int s) = s"
      using size_of_int_nat [of "Suc s"] n(1) b(2) by (simp_all add: add.commute)
    show thesis
    proof (cases "bitmask_next_zero b (Suc s) < 0")
      case True
      have "int_of_size (nat ((int (total_bits b) - int s) mod 2 ^ 64)) = int (total_bits b) - int s"
      proof -
        have "(int (total_bits b) - int s) mod 2 ^ 64 = int (total_bits b - s)"
          using n(1) b(2) by (simp add: of_nat_diff)
        then show ?thesis using n(1) b(2) by (simp add: int_of_size_small of_nat_diff)
      qed
      then have "bitmask_continue_iterator_update b it =
          \<lparr>it_start = int s, it_bits = int (total_bits b) - int s, it_end = bitmask_next_zero b (Suc s)\<rparr>"
        using True s s64 lo64
        by (cases it) (simp add: bitmask_continue_iterator_update_def Let_def)
      then show thesis using True n bms.run_to_end [OF i s True] by (rule_tac last) auto
    next
      case False
      then obtain e where e: "bitmask_next_zero b (Suc s) = int e" by (metis int_nat_eq not_less)
      have "bitmask_continue_iterator_update b it =
          \<lparr>it_start = int s, it_bits = int e - int s, it_end = int e\<rparr>"
        using e s s64 lo64
        by (cases it) (simp add: bitmask_continue_iterator_update_def Let_def)
      then show thesis using n bms.run_to_zero [OF i s e] by (rule_tac inner) auto
    qed
  qed
qed

lemma bitmask_runs_from_ok:
  assumes b: "wf_bitmask b" "total_bits b < 2 ^ 31"
  shows "it_start it = int lo \<Longrightarrow> lo \<le> total_bits b \<Longrightarrow> total_bits b - lo < fuel \<Longrightarrow>
     \<exists>rs. bitmask_runs_from fuel b (bitmask_continue_iterator_update b it) = Some rs \<and>
       run_bits rs = filter (one b) [lo..<total_bits b] \<and> separated rs \<and>
       (\<forall>(s, n) \<in> set rs. int lo \<le> s \<and> one b (nat s))"
proof (induction fuel arbitrary: lo it)
  case 0
  then show ?case by simp
next
  case (Suc fuel)
  from b Suc.prems(1,2) show ?case
  proof (cases rule: iterator_update_cases)
    case stop
    then show ?thesis by (auto simp: run_bits_def separated_def)
  next
    case (inner s e)
    let ?it = "\<lparr>it_start = int e, it_bits = int e - int s, it_end = int e\<rparr>"
    have "\<exists>rs. bitmask_runs_from fuel b (bitmask_continue_iterator_update b ?it) = Some rs \<and>
       run_bits rs = filter (one b) [e..<total_bits b] \<and> separated rs \<and>
       (\<forall>(s, n) \<in> set rs. int e \<le> s \<and> one b (nat s))"
      using Suc.prems inner by (intro Suc.IH) auto
    then obtain rs where rs: "bitmask_runs_from fuel b (bitmask_continue_iterator_update b ?it) = Some rs"
      "run_bits rs = filter (one b) [e..<total_bits b]" "separated rs"
      "\<forall>(s, n) \<in> set rs. int e \<le> s \<and> one b (nat s)" by blast
    have "s \<in> set (filter (one b) [lo..<total_bits b])" using inner(3) unfolding inner(6) by simp
    then have "one b s" by simp
    moreover have "\<forall>(s', n) \<in> set rs. int e < s'"
      using rs(4) inner(5) by (auto simp: order.order_iff_strict)
    ultimately have "bitmask_runs_from (Suc fuel) b (bitmask_continue_iterator_update b it) =
        Some ((int s, int e - int s) # rs) \<and>
      run_bits ((int s, int e - int s) # rs) = filter (one b) [lo..<total_bits b] \<and>
      separated ((int s, int e - int s) # rs) \<and>
      (\<forall>(s, n) \<in> set ((int s, int e - int s) # rs). int lo \<le> s \<and> one b (nat s))"
      using rs inner
      by (fastforce simp: bitmask_continue_iterator_next_def run_bits_def separated_def Let_def)
    then show ?thesis by blast
  next
    case (last s z)
    have "0 < fuel" using last(3,4) Suc.prems by arith
    then obtain f where f: "fuel = Suc f" by (cases fuel) auto
    have "s \<in> set (filter (one b) [lo..<total_bits b])" using last(4) unfolding last(5) by simp
    then have "one b s" by simp
    then show ?thesis
      using last f by (auto simp: bitmask_continue_iterator_next_def run_bits_def separated_def Let_def)
  qed
qed

lemma bitmask_runs_ok:
  assumes "wf_bitmask b" "total_bits b < 2 ^ 31"
  obtains rs where "bitmask_runs (Suc (total_bits b)) b = Some rs"
    "run_bits rs = filter (one b) [0..<total_bits b]" "separated rs"
    "\<forall>(s, n) \<in> set rs. 0 \<le> s \<and> one b (nat s)"
  using bitmask_runs_from_ok [OF assms, of "\<lparr>it_start = 0, it_bits = 0, it_end = 0\<rparr>" 0 "Suc (total_bits b)"]
  unfolding bitmask_runs_def bitmask_continue_iterator_init_def by auto

section \<open>Adding ranges\<close>

text \<open>
  A store of numbered cells to which ranges are added; \<open>add\<close> returns the status the
  code returns. Adding ranges one by one adds their union, whatever their order and overlap.
\<close>

locale range_store =
  fixes inv :: "'b \<Rightarrow> bool"
    and size :: "'b \<Rightarrow> nat"
    and elem :: "'b \<Rightarrow> nat \<Rightarrow> bool"
    and add :: "'b \<Rightarrow> nat \<Rightarrow> nat \<Rightarrow> int \<times> 'b"
  assumes add_inv: "inv x \<Longrightarrow> inv (snd (add x s n))"
    and add_size: "size (snd (add x s n)) = size x"
    and add_elem: "inv x \<Longrightarrow> k < size x \<Longrightarrow>
      elem (snd (add x s n)) k \<longleftrightarrow> (s \<le> k \<and> k < s + n) \<or> elem x k"
    and add_ok: "fst (add x s n) < 0 \<longleftrightarrow> size x < s + n \<and> 0 < n"
begin

lemma fold_add:
  "inv x \<Longrightarrow> inv (foldl (\<lambda>x (s, n). snd (add x s n)) x rs) \<and>
     size (foldl (\<lambda>x (s, n). snd (add x s n)) x rs) = size x \<and>
     (\<forall>k < size x. elem (foldl (\<lambda>x (s, n). snd (add x s n)) x rs) k \<longleftrightarrow>
        (\<exists>(s, n) \<in> set rs. s \<le> k \<and> k < s + n) \<or> elem x k)"
proof (induction rs arbitrary: x)
  case Nil
  then show ?case by simp
next
  case (Cons r rs)
  obtain s n where r: "r = (s, n)" by (cases r)
  from Cons.IH [OF add_inv [OF Cons.prems, of s n]] Cons.prems show ?case
    by (auto simp: r add_size add_elem)
qed

end

lemma set_bits_elem:
  "wf_bitmask b \<Longrightarrow> k < total_bits b \<Longrightarrow>
     one (snd (bitmask_set_bits b s n)) k \<longleftrightarrow> (s \<le> k \<and> k < s + n) \<or> one b k"
  by (auto simp: bitmask_set_bits_def one_write_bits)

lemma set_bits_ret_neg: "fst (bitmask_set_bits b s n) < 0 \<longleftrightarrow> total_bits b < s + n \<and> 0 < n"
  by (auto simp: bitmask_set_bits_def write_bits_ret max_def min_def)

interpretation bmr: range_store wf_bitmask total_bits one bitmask_set_bits
proof
  fix x s n k
  show "wf_bitmask x \<Longrightarrow> wf_bitmask (snd (bitmask_set_bits x s n))"
    by (simp add: bitmask_set_bits_def write_bits_wf)
  show "total_bits (snd (bitmask_set_bits x s n)) = total_bits x"
    by (simp add: bitmask_set_bits_def)
  show "wf_bitmask x \<Longrightarrow> k < total_bits x \<Longrightarrow>
      one (snd (bitmask_set_bits x s n)) k \<longleftrightarrow> (s \<le> k \<and> k < s + n) \<or> one x k"
    by (rule set_bits_elem)
  show "fst (bitmask_set_bits x s n) < 0 \<longleftrightarrow> total_bits x < s + n \<and> 0 < n"
    by (rule set_bits_ret_neg)
qed

section \<open>Byte-wise operations\<close>

lemma less8_cases:
  assumes "(i :: nat) < 8"
  obtains "i = 0" | "i = 1" | "i = 2" | "i = 3" | "i = 4" | "i = 5" | "i = 6" | "i = 7"
  using assms by (auto simp: less_Suc_eq numeral_eq_Suc)

lemma bit_reverse8: "i < 8 \<Longrightarrow> bit (reverse8 x) i = bit x (7 - i)"
  by (erule less8_cases)
    (simp_all add: reverse8_def Let_def bit_or_iff bit_and_iff bit_push_bit_iff bit_drop_bit_eq
      bit_double_iff mult.commute [of x 2])

lemma one_memcpy_lsbfirst:
  assumes wf: "wf_bitmask b" and n: "n \<le> bufsize b" "n \<le> length src"
    and r: "bitmask_memcpy_lsbfirst (Some b) src n = (r, Some b')" and i: "i < 8 * n"
  shows "one b' i = bit (src ! (i div 8)) (i mod 8)"
proof -
  have b': "buffer b' = map reverse8 (take n src) @ drop n (buffer b)"
    using r n by (auto simp: bitmask_memcpy_lsbfirst_def bitmask_memcpy_def)
  have "i div 8 < n" using i by simp
  then have "buffer b' ! (i div 8) = reverse8 (src ! (i div 8))"
    using n by (simp add: b' nth_append)
  then show ?thesis by (simp add: one_def bit_reverse8)
qed

lemma one_xor:
  assumes "wf_bitmask a" "wf_bitmask b" "bitmask_xor mem a b = Some c" "i < total_bits c"
  shows "one c i \<longleftrightarrow> one a i \<noteq> one b i"
proof -
  have t: "total_bits a = total_bits b" "total_bits c = total_bits a"
    "buffer c = map (\<lambda>i. (buffer a ! i) XOR (buffer b ! i)) [0..<bufsize b]"
    using assms(1-3) by (auto simp: bitmask_xor_def alloc_bitmask_def Let_def wf_bitmask_def split: if_splits)
  have "i div 8 < bufsize b"
    using wf_byte_index [OF assms(2), of i] assms(2,4) t by (simp add: wf_bitmask_def)
  then show ?thesis by (simp add: one_def t(3) bit_xor_iff)
qed

section \<open>Properties\<close>

text \<open>C31: Writing a bit in range succeeds, keeps the bitmask well formed, and afterwards
  every index reads as before except the written one, which reads as the value; an index out of
  range is refused and nothing changes.\<close>

theorem bitmask_write_get:
  assumes "wf_bitmask b"
  shows "(if i < total_bits b
          then fst (bitmask_write b i v) = 0 \<and> wf_bitmask (snd (bitmask_write b i v)) \<and>
            bitmask_get (snd (bitmask_write b i v)) j =
              (if j = i then if v \<noteq> 0 then 1 else 0 else bitmask_get b j)
          else bitmask_write b i v = (-1, b))"
  using assms by (auto simp: bitmask_write_ret bitmask_write_wf bitmask_get_one one_write bitmask_write_out)

lemma bitmask_write_get_witness:
  "bitmask_get (snd (bitmask_write \<lparr>total_bits = 10, bufsize = 2, buffer = [0x81, 0x40]\<rparr> 8 1)) 9 = 1"
  using bitmask_write_get [of "\<lparr>total_bits = 10, bufsize = 2, buffer = [0x81, 0x40]\<rparr>" 8 1 9]
  by (simp add: wf_bitmask_def aligned_bytes_def bitmask_get_def get_bit_index_msbfirst_def)

text \<open>Setting a range sets exactly the bits of the range that exist, leaves the other
  bits, and the returned status is minus the number of indices that lie beyond the bitmask.\<close>

theorem bitmask_set_bits_exact:
  assumes "wf_bitmask b"
  shows "wf_bitmask (snd (bitmask_set_bits b s n)) \<and>
    bitmask_get (snd (bitmask_set_bits b s n)) j =
      (if s \<le> j \<and> j < s + n \<and> j < total_bits b then 1 else bitmask_get b j) \<and>
    fst (bitmask_set_bits b s n) = - int (card {k. s \<le> k \<and> k < s + n \<and> total_bits b \<le> k})"
proof -
  have "{k. s \<le> k \<and> k < s + n \<and> total_bits b \<le> k} = {max s (total_bits b)..<s + n}" by auto
  then have "card {k. s \<le> k \<and> k < s + n \<and> total_bits b \<le> k} = s + n - max s (min (total_bits b) (s + n))"
    by (simp add: max_def min_def)
  then show ?thesis
    using assms by (auto simp: bitmask_set_bits_def write_bits_wf bitmask_get_one one_write_bits write_bits_ret)
qed

lemma bitmask_set_bits_exact_witness:
  "fst (bitmask_set_bits \<lparr>total_bits = 10, bufsize = 2, buffer = [0, 0]\<rparr> 9 3) =
     - int (card {k. 9 \<le> k \<and> k < 9 + 3 \<and> (10 :: nat) \<le> k})"
  using bitmask_set_bits_exact [of "\<lparr>total_bits = 10, bufsize = 2, buffer = [0, 0]\<rparr>" 9 3]
  by (simp add: wf_bitmask_def aligned_bytes_def)

text \<open>\<open>bitmask_unset_bits\<close> does not clear anything: after it, every existing bit of
  the range reads 1 and the other bits read as before. (The code passes 1 where its name and its
  sibling \<open>bitmask_unset\<close> ask for 0.)\<close>

theorem bitmask_unset_bits_sets:
  assumes "wf_bitmask b" "j < total_bits b"
  shows "bitmask_get (snd (bitmask_unset_bits b s n)) j =
    (if s \<le> j \<and> j < s + n then 1 else bitmask_get b j)"
  using assms by (simp add: bitmask_unset_bits_def bitmask_get_one one_write_bits)

lemma bitmask_unset_bits_sets_witness:
  "bitmask_get (snd (bitmask_unset_bits \<lparr>total_bits = 10, bufsize = 2, buffer = [0, 0]\<rparr> 2 4)) 3 = 1"
  using bitmask_unset_bits_sets [of "\<lparr>total_bits = 10, bufsize = 2, buffer = [0, 0]\<rparr>" 3 2 4]
  by (simp add: wf_bitmask_def aligned_bytes_def)

text \<open>\<open>bitmask_next_one\<close> returns the least index from the given one on that reads 1,
  \<open>bitmask_next_zero\<close> the least that reads 0, and both return -1 when there is none, for
  every bitmask whose indices an \<open>int\<close> can hold.\<close>

theorem bitmask_next_least:
  assumes "wf_bitmask b" "total_bits b < 2 ^ 31"
  shows "least_from (\<lambda>k. bitmask_get b k = 1) lo (total_bits b) (bitmask_next_one b lo) \<and>
         least_from (\<lambda>k. bitmask_get b k = 0) lo (total_bits b) (bitmask_next_zero b lo)"
proof
  show "least_from (\<lambda>k. bitmask_get b k = 1) lo (total_bits b) (bitmask_next_one b lo)"
    using next_one_least [OF assms, of lo]
    by (rule least_from_cases) (auto simp: bitmask_get_one intro!: least_from_none least_from_found)
  show "least_from (\<lambda>k. bitmask_get b k = 0) lo (total_bits b) (bitmask_next_zero b lo)"
    using next_zero_least [OF assms, of lo]
    by (rule least_from_cases) (auto simp: bitmask_get_one intro!: least_from_none least_from_found)
qed

lemma bitmask_next_least_witness:
  "least_from (\<lambda>k. bitmask_get \<lparr>total_bits = 10, bufsize = 2, buffer = [0x81, 0x40]\<rparr> k = 1) 1 10
     (bitmask_next_one \<lparr>total_bits = 10, bufsize = 2, buffer = [0x81, 0x40]\<rparr> 1)"
  using bitmask_next_least [of "\<lparr>total_bits = 10, bufsize = 2, buffer = [0x81, 0x40]\<rparr>" 1]
  by (simp add: wf_bitmask_def aligned_bytes_def)

text \<open>C30: The two iteration macros terminate and are complete: \<open>bitmask_foreach\<close> visits
  exactly the indices that read 1 in ascending order, and \<open>bitmask_foreach_continue\<close> visits
  non-empty runs that cover exactly the same indices in the same order, with a gap between any two
  (so each run is maximal).\<close>

theorem bitmask_iteration_complete:
  assumes "wf_bitmask b" "total_bits b < 2 ^ 31"
  shows "\<exists>rs. bitmask_runs (Suc (total_bits b)) b = Some rs \<and> separated rs \<and>
    run_bits rs = filter (\<lambda>k. bitmask_get b k = 1) [0..<total_bits b] \<and>
    bitmask_foreach (Suc (total_bits b)) b = Some (map int (run_bits rs))"
proof -
  have eq: "filter (\<lambda>k. bitmask_get b k = 1) [0..<total_bits b] = filter (one b) [0..<total_bits b]"
    by (rule filter_cong) (auto simp: bitmask_get_one)
  obtain rs where "bitmask_runs (Suc (total_bits b)) b = Some rs"
    "run_bits rs = filter (one b) [0..<total_bits b]" "separated rs"
    using bitmask_runs_ok [OF assms] by metis
  then show ?thesis using bitmask_foreach_ok [OF assms] by (simp add: eq)
qed

lemma bitmask_iteration_complete_witness:
  "\<exists>rs. bitmask_runs 11 \<lparr>total_bits = 10, bufsize = 2, buffer = [0x81, 0x40]\<rparr> = Some rs \<and> separated rs"
  using bitmask_iteration_complete [of "\<lparr>total_bits = 10, bufsize = 2, buffer = [0x81, 0x40]\<rparr>"]
  by (auto simp: wf_bitmask_def aligned_bytes_def)

text \<open>Loading a buffer whose bytes number their bits from the least significant one
  (the on-disk order of ext4 block bitmaps) gives bit i of the source as index i of the bitmask,
  and the difference of two bitmasks of the same size reads 1 exactly where they differ.\<close>

theorem bitmask_lsbfirst_xor:
  assumes "wf_bitmask a" "wf_bitmask b" "n \<le> bufsize a" "n \<le> length src"
    and "bitmask_memcpy_lsbfirst (Some a) src n = (r, Some a')"
    and "bitmask_xor mem a' b = Some c" "i < 8 * n" "i < total_bits c"
  shows "bitmask_get c i = (if bit (src ! (i div 8)) (i mod 8) = one b i then 0 else 1)"
proof -
  have "wf_bitmask a'"
    using assms(1,3,4,5)
    by (auto simp: bitmask_memcpy_lsbfirst_def bitmask_memcpy_def wf_bitmask_def)
  then have "one c i \<longleftrightarrow> one a' i \<noteq> one b i" using assms(2,6,8) by (rule one_xor)
  moreover have "one a' i = bit (src ! (i div 8)) (i mod 8)"
    using assms(1,3,4,5,7) by (rule one_memcpy_lsbfirst)
  ultimately show ?thesis using assms(8) by (auto simp: bitmask_get_one)
qed

lemma bitmask_lsbfirst_xor_witness:
  "\<exists>r a' c. bitmask_memcpy_lsbfirst (Some \<lparr>total_bits = 10, bufsize = 2, buffer = [0, 0]\<rparr>) [0x01, 0x02] 2
       = (r, Some a') \<and>
     bitmask_xor True a' \<lparr>total_bits = 10, bufsize = 2, buffer = [0, 0]\<rparr> = Some c \<and>
     bitmask_get c 9 = 1"
proof -
  let ?a = "\<lparr>total_bits = 10, bufsize = 2, buffer = [0, 0]\<rparr>"
  let ?a' = "\<lparr>total_bits = 10, bufsize = 2, buffer = [0x80, 0x40]\<rparr>"
  have wf: "wf_bitmask ?a" by (simp add: wf_bitmask_def aligned_bytes_def)
  have m: "bitmask_memcpy_lsbfirst (Some ?a) [0x01, 0x02] 2 = (0, Some ?a')"
    by (simp add: bitmask_memcpy_lsbfirst_def bitmask_memcpy_def reverse8_def)
  have x: "bitmask_xor True ?a' ?a = Some ?a'"
    by (simp add: bitmask_xor_def alloc_bitmask_def aligned_bytes_def Let_def upt_rec)
  have "bitmask_get ?a' 9 = 1"
    using bitmask_lsbfirst_xor [OF wf wf _ _ m x, of 9] by (simp add: one_def)
  with m x show ?thesis by blast
qed

end
