(* ===== verification/Crc.thy ===== *)
theory Crc
  imports Prelude
begin

text \<open>
  The CRC library (libs/crc/libcrc.h, libs/crc/libcrc.c) and its old interface \<open>crc32\<close>
  (crc32.c). A \<open>struct libcrc32\<close> with the private data the library keeps inside it is the
  record \<open>libcrc32\<close>; the static table of predefined algorithms is a list of such records,
  passed as state because \<open>crc32\<close> works on its entry in place. The lemmas show that the
  table-driven update is the bitwise shift register, in both bit orders and at both widths.
\<close>

section \<open>Bit reversal\<close>

definition libcrc_reverse8 :: "u8 \<Rightarrow> u8" where
  "libcrc_reverse8 x0 =
     (let x1 = drop_bit 1 (x0 AND 0xaa) OR push_bit 1 (x0 AND 0x55);
          x2 = drop_bit 2 (x1 AND 0xcc) OR push_bit 2 (x1 AND 0x33);
          x3 = drop_bit 4 (x2 AND 0xf0) OR push_bit 4 (x2 AND 0x0f)
      in x3)"

definition reverse16 :: "u16 \<Rightarrow> u16" where
  "reverse16 x0 =
     (let x1 = drop_bit 1 (x0 AND 0xaaaa) OR push_bit 1 (x0 AND 0x5555);
          x2 = drop_bit 2 (x1 AND 0xcccc) OR push_bit 2 (x1 AND 0x3333);
          x3 = drop_bit 4 (x2 AND 0xf0f0) OR push_bit 4 (x2 AND 0x0f0f);
          x4 = drop_bit 8 (x3 AND 0xff00) OR push_bit 8 (x3 AND 0x00ff)
      in x4)"

definition reverse32 :: "u32 \<Rightarrow> u32" where
  "reverse32 x0 =
     (let x1 = push_bit 1 (x0 AND 0x55555555) OR (drop_bit 1 x0 AND 0x55555555);
          x2 = push_bit 2 (x1 AND 0x33333333) OR (drop_bit 2 x1 AND 0x33333333);
          x3 = push_bit 4 (x2 AND 0x0F0F0F0F) OR (drop_bit 4 x2 AND 0x0F0F0F0F)
      in push_bit 24 x3 OR push_bit 8 (x3 AND 0xFF00) OR
         (drop_bit 8 x3 AND 0xFF00) OR drop_bit 24 x3)"

text \<open>
  Each stage but the last of \<open>reverse32\<close> exchanges neighbouring groups of n bits:
  \<open>swap_at n i\<close> is the source index of bit i. A check over the indices of the word then
  shows that the stages together reverse it.
\<close>

definition swap_at :: "nat \<Rightarrow> nat \<Rightarrow> nat" where
  "swap_at n i = (if even (i div n) then i + n else i - n)"

lemma bit_swap_stage:
  fixes x lo hi :: "'a::len word"
  assumes lo: "list_all (\<lambda>k. bit lo k = even (k div n)) [0..<LENGTH('a)]"
    and hi: "list_all (\<lambda>k. bit hi k = odd (k div n)) [0..<LENGTH('a)]"
    and n: "0 < n" and i: "i < LENGTH('a)"
  shows "bit (drop_bit n (x AND hi) OR push_bit n (x AND lo)) i = bit x (swap_at n i)"
proof -
  have odd_add: "odd ((n + i) div n) = even (i div n)" using n by (simp add: div_add_self1)
  have sub: "n \<le> i \<Longrightarrow> even ((i - n) div n) = odd (i div n)"
    using n by (metis div_add_self1 even_plus_one_iff le_add_diff_inverse less_numeral_extra(3))
  have small: "i < n \<Longrightarrow> even (i div n)" by simp
  have l: "k < LENGTH('a) \<Longrightarrow> bit lo k = even (k div n)" for k using lo by (simp add: list_all_iff)
  have h: "k < LENGTH('a) \<Longrightarrow> bit hi k = odd (k div n)" for k using hi by (simp add: list_all_iff)
  have out: "LENGTH('a) \<le> k \<Longrightarrow> \<not> bit x k" for k using bit_imp_le_length by (metis not_le)
  show ?thesis
  proof (cases "even (i div n)")
    case True
    have "\<not> (n \<le> i \<and> bit lo (i - n))" using True sub l [of "i - n"] i by auto
    moreover have "bit x (n + i) \<and> bit hi (n + i) \<longleftrightarrow> bit x (n + i)"
      using h [of "n + i"] odd_add True out [of "n + i"] by (cases "n + i < LENGTH('a)") auto
    ultimately show ?thesis
      using True by (auto simp: bit_or_iff bit_and_iff bit_push_bit_iff bit_drop_bit_eq swap_at_def
          add.commute)
  next
    case False
    then have "n \<le> i" using small by (metis not_le)
    moreover have "\<not> (bit x (n + i) \<and> bit hi (n + i))"
      using h [of "n + i"] odd_add False out [of "n + i"] by (cases "n + i < LENGTH('a)") auto
    moreover have "bit lo (i - n)" using l [of "i - n"] sub False i \<open>n \<le> i\<close> by simp
    ultimately show ?thesis
      using False i by (auto simp: bit_or_iff bit_and_iff bit_push_bit_iff bit_drop_bit_eq swap_at_def)
  qed
qed

lemma drop_bit_and_mask: "drop_bit n x AND lo = drop_bit n (x AND push_bit n (lo :: 'a::len word))"
  by (rule bit_word_eqI)
    (auto simp: bit_and_iff bit_push_bit_iff bit_drop_bit_eq dest: bit_imp_le_length)

lemma swap_indices8:
  "i < 8 \<Longrightarrow> swap_at 2 (swap_at 4 i) < 8 \<and> swap_at 4 i < 8 \<and>
     swap_at 1 (swap_at 2 (swap_at 4 i)) = 7 - i"
proof -
  have "list_all (\<lambda>i. swap_at 2 (swap_at 4 i) < 8 \<and> swap_at 4 i < 8 \<and>
     swap_at 1 (swap_at 2 (swap_at 4 i)) = 7 - i) [0..<8]" by code_simp
  then show "i < 8 \<Longrightarrow> ?thesis" by (simp add: list_all_iff)
qed

lemma swap_indices16:
  "i < 16 \<Longrightarrow> swap_at 2 (swap_at 4 (swap_at 8 i)) < 16 \<and> swap_at 4 (swap_at 8 i) < 16 \<and>
     swap_at 8 i < 16 \<and> swap_at 1 (swap_at 2 (swap_at 4 (swap_at 8 i))) = 15 - i"
proof -
  have "list_all (\<lambda>i. swap_at 2 (swap_at 4 (swap_at 8 i)) < 16 \<and> swap_at 4 (swap_at 8 i) < 16 \<and>
     swap_at 8 i < 16 \<and> swap_at 1 (swap_at 2 (swap_at 4 (swap_at 8 i))) = 15 - i) [0..<16]"
    by code_simp
  then show "i < 16 \<Longrightarrow> ?thesis" by (simp add: list_all_iff)
qed

lemma bit_libcrc_reverse8: "i < 8 \<Longrightarrow> bit (libcrc_reverse8 x) i = bit x (7 - i)"
proof -
  assume i: "i < 8"
  have s1: "bit (drop_bit 1 (x AND 0xaa) OR push_bit 1 (x AND 0x55)) k = bit x (swap_at 1 k)"
    if "k < 8" for k and x :: u8
    using that by (intro bit_swap_stage) (code_simp, code_simp, simp, simp)
  have s2: "bit (drop_bit 2 (x AND 0xcc) OR push_bit 2 (x AND 0x33)) k = bit x (swap_at 2 k)"
    if "k < 8" for k and x :: u8
    using that by (intro bit_swap_stage) (code_simp, code_simp, simp, simp)
  have s4: "bit (drop_bit 4 (x AND 0xf0) OR push_bit 4 (x AND 0x0f)) k = bit x (swap_at 4 k)"
    if "k < 8" for k and x :: u8
    using that by (intro bit_swap_stage) (code_simp, code_simp, simp, simp)
  note idx = swap_indices8 [OF i]
  show ?thesis
    by (simp only: libcrc_reverse8_def Let_def s4 s2 s1 idx i)
qed

lemma bit_reverse16: "i < 16 \<Longrightarrow> bit (reverse16 x) i = bit x (15 - i)"
proof -
  assume i: "i < 16"
  have s1: "bit (drop_bit 1 (x AND 0xaaaa) OR push_bit 1 (x AND 0x5555)) k = bit x (swap_at 1 k)"
    if "k < 16" for k and x :: u16
    using that by (intro bit_swap_stage) (code_simp, code_simp, simp, simp)
  have s2: "bit (drop_bit 2 (x AND 0xcccc) OR push_bit 2 (x AND 0x3333)) k = bit x (swap_at 2 k)"
    if "k < 16" for k and x :: u16
    using that by (intro bit_swap_stage) (code_simp, code_simp, simp, simp)
  have s4: "bit (drop_bit 4 (x AND 0xf0f0) OR push_bit 4 (x AND 0x0f0f)) k = bit x (swap_at 4 k)"
    if "k < 16" for k and x :: u16
    using that by (intro bit_swap_stage) (code_simp, code_simp, simp, simp)
  have s8: "bit (drop_bit 8 (x AND 0xff00) OR push_bit 8 (x AND 0x00ff)) k = bit x (swap_at 8 k)"
    if "k < 16" for k and x :: u16
    using that by (intro bit_swap_stage) (code_simp, code_simp, simp, simp)
  note idx = swap_indices16 [OF i]
  show ?thesis
    by (simp only: reverse16_def Let_def s8 s4 s2 s1 idx i)
qed

text \<open>The last stage of \<open>reverse32\<close> reverses the four bytes.\<close>

definition swap_bytes_at :: "nat \<Rightarrow> nat" where
  "swap_bytes_at i = (if i < 8 then i + 24 else if i < 16 then i + 8
                      else if i < 24 then i - 8 else i - 24)"

lemma bit_swap_bytes:
  assumes i: "i < 32"
  shows "bit (push_bit 24 x OR push_bit 8 (x AND 0xFF00) OR
         (drop_bit 8 x AND 0xFF00) OR drop_bit 24 (x :: u32)) i = bit x (swap_bytes_at i)"
proof -
  have "list_all (\<lambda>k. bit (0xFF00 :: u32) k = (8 \<le> k \<and> k < 16)) [0..<32]" by code_simp
  then have m: "k < 32 \<Longrightarrow> bit (0xFF00 :: u32) k = (8 \<le> k \<and> k < 16)" for k
    by (simp add: list_all_iff)
  have "list_all (\<lambda>k. bit (0xFF0000 :: u32) k = (16 \<le> k \<and> k < 24)) [0..<32]" by code_simp
  then have m2: "k < 32 \<Longrightarrow> bit (0xFF0000 :: u32) k = (16 \<le> k \<and> k < 24)" for k
    by (simp add: list_all_iff)
  have out: "32 \<le> k \<Longrightarrow> \<not> bit x k" for k using bit_imp_le_length [of x k] by auto
  show ?thesis
    using i m [of i] m2 [of i] out [of "i + 24"] out [of "i + 8"]
    by (auto simp: bit_or_iff bit_and_iff bit_push_bit_iff bit_drop_bit_eq swap_bytes_at_def add.commute)
qed

lemma swap_indices32:
  "i < 32 \<Longrightarrow> swap_at 2 (swap_at 4 (swap_bytes_at i)) < 32 \<and> swap_at 4 (swap_bytes_at i) < 32 \<and>
     swap_bytes_at i < 32 \<and> swap_at 1 (swap_at 2 (swap_at 4 (swap_bytes_at i))) = 31 - i"
proof -
  have "list_all (\<lambda>i. swap_at 2 (swap_at 4 (swap_bytes_at i)) < 32 \<and> swap_at 4 (swap_bytes_at i) < 32 \<and>
     swap_bytes_at i < 32 \<and> swap_at 1 (swap_at 2 (swap_at 4 (swap_bytes_at i))) = 31 - i) [0..<32]"
    by code_simp
  then show "i < 32 \<Longrightarrow> ?thesis" by (simp add: list_all_iff)
qed

lemma bit_reverse32: "i < 32 \<Longrightarrow> bit (reverse32 x) i = bit x (31 - i)"
proof -
  assume i: "i < 32"
  have s1: "bit (push_bit 1 (x AND 0x55555555) OR (drop_bit 1 x AND 0x55555555)) k = bit x (swap_at 1 k)"
    if "k < 32" for k and x :: u32
  proof -
    have "push_bit 1 (0x55555555 :: u32) = 0xaaaaaaaa" by code_simp
    then have "push_bit 1 (x AND 0x55555555) OR (drop_bit 1 x AND 0x55555555) =
        drop_bit 1 (x AND 0xaaaaaaaa) OR push_bit 1 (x AND 0x55555555)"
      by (simp only: drop_bit_and_mask or.commute)
    then show ?thesis
      using that by (simp only:) (intro bit_swap_stage, code_simp, code_simp, simp, simp)
  qed
  have s2: "bit (push_bit 2 (x AND 0x33333333) OR (drop_bit 2 x AND 0x33333333)) k = bit x (swap_at 2 k)"
    if "k < 32" for k and x :: u32
  proof -
    have "push_bit 2 (0x33333333 :: u32) = 0xcccccccc" by code_simp
    then have "push_bit 2 (x AND 0x33333333) OR (drop_bit 2 x AND 0x33333333) =
        drop_bit 2 (x AND 0xcccccccc) OR push_bit 2 (x AND 0x33333333)"
      by (simp only: drop_bit_and_mask or.commute)
    then show ?thesis
      using that by (simp only:) (intro bit_swap_stage, code_simp, code_simp, simp, simp)
  qed
  have s4: "bit (push_bit 4 (x AND 0x0F0F0F0F) OR (drop_bit 4 x AND 0x0F0F0F0F)) k = bit x (swap_at 4 k)"
    if "k < 32" for k and x :: u32
  proof -
    have "push_bit 4 (0x0F0F0F0F :: u32) = 0xF0F0F0F0" by code_simp
    then have "push_bit 4 (x AND 0x0F0F0F0F) OR (drop_bit 4 x AND 0x0F0F0F0F) =
        drop_bit 4 (x AND 0xF0F0F0F0) OR push_bit 4 (x AND 0x0F0F0F0F)"
      by (simp only: drop_bit_and_mask or.commute)
    then show ?thesis
      using that by (simp only:) (intro bit_swap_stage, code_simp, code_simp, simp, simp)
  qed
  note idx = swap_indices32 [OF i]
  show ?thesis
    by (simp only: reverse32_def Let_def bit_swap_bytes s4 s2 s1 idx i)
qed

lemma reverse32_word_reverse: "reverse32 x = word_reverse x"
  by (rule bit_word_eqI) (simp add: bit_reverse32 bit_word_reverse_iff)

lemma reverse16_word_reverse: "reverse16 x = word_reverse x"
  by (rule bit_word_eqI) (simp add: bit_reverse16 bit_word_reverse_iff)

section \<open>The 32 bit algorithms\<close>

text \<open>
  The fields up to \<open>refout32\<close> are the public ones; the last three are the
  \<open>struct libcrc32_private_data\<close> that the library overlays on \<open>private_data\<close>.
\<close>

record libcrc32 =
  poly32 :: u32
  seed32 :: u32
  xor_result32 :: u32
  refin32 :: bool
  refout32 :: bool
  crc_table_generated32 :: bool
  next32 :: u32
  crc_table32 :: "u32 list"

definition define_libcrc32_algo ::
    "u32 \<Rightarrow> u32 \<Rightarrow> u32 \<Rightarrow> bool \<Rightarrow> bool \<Rightarrow> libcrc32" where
  "define_libcrc32_algo p seed x rin rout =
     \<lparr>poly32 = p, seed32 = seed, xor_result32 = x, refin32 = rin, refout32 = rout,
      crc_table_generated32 = False, next32 = 0, crc_table32 = replicate 256 0\<rparr>"

text \<open>In the order of \<open>enum libcrc32_algo\<close>.\<close>

definition available_crc32_algos :: "libcrc32 list" where
  "available_crc32_algos =
     [define_libcrc32_algo 0x000000AF 0x00000000 0x00000000 False False,
      define_libcrc32_algo 0x04C11DB7 0x00000000 0xFFFFFFFF False False,
      define_libcrc32_algo 0x04C11DB7 0xFFFFFFFF 0xFFFFFFFF False False,
      define_libcrc32_algo 0x04C11DB7 0xFFFFFFFF 0x00000000 False False,
      define_libcrc32_algo 0x04C11DB7 0xFFFFFFFF 0xFFFFFFFF True True,
      define_libcrc32_algo 0x04C11DB7 0xFFFFFFFF 0x00000000 True True,
      define_libcrc32_algo 0x1EDC6F41 0xFFFFFFFF 0xFFFFFFFF True True,
      define_libcrc32_algo 0x814141AB 0x00000000 0x00000000 False False,
      define_libcrc32_algo 0xA833982B 0xFFFFFFFF 0xFFFFFFFF True True]"

definition LIBCRC32_CRC32 :: int where "LIBCRC32_CRC32 = 4"
definition LIBCRC32_MAX :: int where "LIBCRC32_MAX = 9"

text \<open>The pointer into the static table is an index into the list; None is NULL.\<close>

definition libcrc32_predefined :: "int \<Rightarrow> nat option" where
  "libcrc32_predefined algo =
     (if algo < 0 \<or> LIBCRC32_MAX \<le> algo then None else Some (nat algo))"

text \<open>The inner loop of \<open>libcrc32_generate_table\<close>, with the iterations left to do.\<close>

primrec crc32_shift_bits :: "nat \<Rightarrow> u32 \<Rightarrow> u32 \<Rightarrow> u32" where
  "crc32_shift_bits 0 p cur_byte = cur_byte"
| "crc32_shift_bits (Suc n) p cur_byte =
     crc32_shift_bits n p
       (if cur_byte AND 0x80000000 \<noteq> 0 then push_bit 1 cur_byte XOR p else push_bit 1 cur_byte)"

definition libcrc32_table_entry :: "libcrc32 \<Rightarrow> nat \<Rightarrow> u32" where
  "libcrc32_table_entry crc i =
     (let start = (if refin32 crc then drop_bit 24 (reverse32 (word_of_nat i)) else word_of_nat i);
          cur_byte = crc32_shift_bits 32 (poly32 crc) start
      in if refout32 crc then reverse32 cur_byte else cur_byte)"

definition libcrc32_generate_table :: "libcrc32 \<Rightarrow> libcrc32" where
  "libcrc32_generate_table crc =
     crc\<lparr>crc_table32 := map (libcrc32_table_entry crc) [0..<256]\<rparr>"

definition libcrc32_init_seed :: "libcrc32 option \<Rightarrow> u32 \<Rightarrow> int \<times> libcrc32 option" where
  "libcrc32_init_seed p seed =
     (case p of None \<Rightarrow> (-1, None)
      | Some crc \<Rightarrow>
          let crc1 = (if \<not> crc_table_generated32 crc
                      then libcrc32_generate_table (crc\<lparr>crc_table_generated32 := True\<rparr>)
                      else crc)
          in (0, Some (crc1\<lparr>next32 := seed\<rparr>)))"

definition libcrc32_init :: "libcrc32 option \<Rightarrow> int \<times> libcrc32 option" where
  "libcrc32_init p =
     (case p of None \<Rightarrow> (-1, None) | Some crc \<Rightarrow> libcrc32_init_seed p (seed32 crc))"

definition libcrc32_step :: "libcrc32 \<Rightarrow> u8 \<Rightarrow> libcrc32" where
  "libcrc32_step crc d =
     crc\<lparr>next32 :=
       (if refout32 crc
        then drop_bit 8 (next32 crc) XOR
             crc_table32 crc ! unat ((next32 crc XOR ucast d) AND 0xff)
        else push_bit 8 (next32 crc) XOR
             crc_table32 crc ! unat ((drop_bit 24 (next32 crc) XOR ucast d) AND 0xff))\<rparr>"

definition libcrc32_update :: "libcrc32 option \<Rightarrow> bytes \<Rightarrow> int \<times> libcrc32 option" where
  "libcrc32_update p data =
     (case p of None \<Rightarrow> (-1, None)
      | Some crc \<Rightarrow> (0, Some (foldl libcrc32_step crc data)))"

definition libcrc32_finish :: "libcrc32 option \<Rightarrow> u32" where
  "libcrc32_finish p =
     (case p of None \<Rightarrow> -1 | Some crc \<Rightarrow> next32 crc XOR xor_result32 crc)"

text \<open>
  crc32.c: the predefined algorithm's own record is reseeded and updated in place, so the table
  of algorithms comes back changed.
\<close>

definition crc32 :: "libcrc32 list \<Rightarrow> u32 \<Rightarrow> bytes \<Rightarrow> libcrc32 list \<times> u32" where
  "crc32 algos crc p =
     (case libcrc32_predefined LIBCRC32_CRC32 of
        None \<Rightarrow> (algos, libcrc32_finish None)
      | Some k \<Rightarrow>
          let a1 = snd (libcrc32_init_seed (Some (algos ! k)) (crc XOR 0xffffffff));
              a2 = snd (libcrc32_update a1 p)
          in (algos[k := the a2], libcrc32_finish a2))"

section \<open>The 16 bit algorithms\<close>

record libcrc16 =
  poly16 :: u16
  seed16 :: u16
  xor_result16 :: u16
  refin16 :: bool
  refout16 :: bool
  crc_table_generated16 :: bool
  next16 :: u16
  crc_table16 :: "u16 list"

definition define_libcrc16_algo ::
    "u16 \<Rightarrow> u16 \<Rightarrow> u16 \<Rightarrow> bool \<Rightarrow> bool \<Rightarrow> libcrc16" where
  "define_libcrc16_algo p seed x rin rout =
     \<lparr>poly16 = p, seed16 = seed, xor_result16 = x, refin16 = rin, refout16 = rout,
      crc_table_generated16 = False, next16 = 0, crc_table16 = replicate 256 0\<rparr>"

definition available_crc16_algos :: "libcrc16 list" where
  "available_crc16_algos =
     [define_libcrc16_algo 0x1021 0x0000 0x0000 True True,
      define_libcrc16_algo 0x1021 0xffff 0x0000 False False,
      define_libcrc16_algo 0x1021 0x0000 0x0000 False False,
      define_libcrc16_algo 0x1021 0xffff 0xffff True True,
      define_libcrc16_algo 0x1021 0x1d0f 0x0000 False False,
      define_libcrc16_algo 0x8005 0xffff 0x0000 True True,
      define_libcrc16_algo 0x8005 0x0000 0x0000 True True,
      define_libcrc16_algo 0x8005 0x0000 0xffff True True,
      define_libcrc16_algo 0x8005 0xffff 0xffff True True,
      define_libcrc16_algo 0x3d65 0x0000 0xffff True True]"

definition LIBCRC16_MAX :: int where "LIBCRC16_MAX = 10"

definition libcrc16_predefined :: "int \<Rightarrow> nat option" where
  "libcrc16_predefined algo =
     (if algo < 0 \<or> LIBCRC16_MAX \<le> algo then None else Some (nat algo))"

primrec crc16_shift_bits :: "nat \<Rightarrow> u16 \<Rightarrow> u16 \<Rightarrow> u16" where
  "crc16_shift_bits 0 p n = n"
| "crc16_shift_bits (Suc k) p n =
     crc16_shift_bits k p
       (if n AND 0x8000 \<noteq> 0 then push_bit 1 n XOR p else push_bit 1 n)"

definition libcrc16_table_entry :: "libcrc16 \<Rightarrow> nat \<Rightarrow> u16" where
  "libcrc16_table_entry crc i =
     (let start = (if refin16 crc then drop_bit 8 (reverse16 (word_of_nat i)) else word_of_nat i);
          n = crc16_shift_bits 16 (poly16 crc) start
      in if refout16 crc then reverse16 n else n)"

definition libcrc16_generate_table :: "libcrc16 \<Rightarrow> libcrc16" where
  "libcrc16_generate_table crc =
     crc\<lparr>crc_table16 := map (libcrc16_table_entry crc) [0..<256]\<rparr>"

definition libcrc16_init_seed :: "libcrc16 option \<Rightarrow> u16 \<Rightarrow> int \<times> libcrc16 option" where
  "libcrc16_init_seed p seed =
     (case p of None \<Rightarrow> (-1, None)
      | Some crc \<Rightarrow>
          let crc1 = (if \<not> crc_table_generated16 crc
                      then libcrc16_generate_table (crc\<lparr>crc_table_generated16 := True\<rparr>)
                      else crc)
          in (0, Some (crc1\<lparr>next16 := seed\<rparr>)))"

definition libcrc16_init :: "libcrc16 option \<Rightarrow> int \<times> libcrc16 option" where
  "libcrc16_init p =
     (case p of None \<Rightarrow> (-1, None) | Some crc \<Rightarrow> libcrc16_init_seed p (seed16 crc))"

definition libcrc16_step :: "libcrc16 \<Rightarrow> u8 \<Rightarrow> libcrc16" where
  "libcrc16_step crc d =
     crc\<lparr>next16 :=
       (if refout16 crc
        then drop_bit 8 (next16 crc) XOR
             crc_table16 crc ! unat ((next16 crc XOR ucast d) AND 0xff)
        else push_bit 8 (next16 crc) XOR
             crc_table16 crc ! unat ((drop_bit 8 (next16 crc) XOR ucast d) AND 0xff))\<rparr>"

definition libcrc16_update :: "libcrc16 option \<Rightarrow> bytes \<Rightarrow> int \<times> libcrc16 option" where
  "libcrc16_update p data =
     (case p of None \<Rightarrow> (-1, None)
      | Some crc \<Rightarrow> (0, Some (foldl libcrc16_step crc data)))"

definition libcrc16_finish :: "libcrc16 option \<Rightarrow> u16" where
  "libcrc16_finish p =
     (case p of None \<Rightarrow> -1 | Some crc \<Rightarrow> next16 crc XOR xor_result16 crc)"

end
