(* ===== verification/CrcLaws.thy ===== *)
theory CrcLaws
  imports Crc
begin

text \<open>
  What the CRC library computes. The shift registers below are the definition of a CRC, one bit
  at a time, in the normal and in the reflected bit order, over words of any width. The
  table-driven code of Crc is shown to be these registers; the consequences are that an update
  may be split at any point, and that the published check values come out.
\<close>

section \<open>Bitwise shift registers\<close>

definition crc_shift :: "'a::len word \<Rightarrow> 'a word \<Rightarrow> 'a word" where
  "crc_shift p x = (if bit x (LENGTH('a) - 1) then push_bit 1 x XOR p else push_bit 1 x)"

definition crc_shift_refl :: "'a::len word \<Rightarrow> 'a word \<Rightarrow> 'a word" where
  "crc_shift_refl p x = (if bit x 0 then drop_bit 1 x XOR word_reverse p else drop_bit 1 x)"

text \<open>One byte: it enters at the top of the register, or at the bottom when reflected.\<close>

definition crc_byte :: "bool \<Rightarrow> 'a::len word \<Rightarrow> 'a word \<Rightarrow> u8 \<Rightarrow> 'a word" where
  "crc_byte rf p c d =
     (if rf then (crc_shift_refl p ^^ 8) (c XOR ucast d)
      else (crc_shift p ^^ 8) (c XOR push_bit (LENGTH('a) - 8) (ucast d)))"

definition crc_bytes :: "bool \<Rightarrow> 'a::len word \<Rightarrow> 'a word \<Rightarrow> bytes \<Rightarrow> 'a word" where
  "crc_bytes rf p c data = foldl (crc_byte rf p) c data"

lemma crc_bytes_append: "crc_bytes rf p c (xs @ ys) = crc_bytes rf p (crc_bytes rf p c xs) ys"
  by (simp add: crc_bytes_def)

lemma push_bit_xor_word: "push_bit n (a XOR b) = push_bit n a XOR push_bit n (b :: 'a::len word)"
  by (rule bit_word_eqI) (auto simp: bit_push_bit_iff bit_xor_iff)

lemma drop_bit_xor_word: "drop_bit n (a XOR b) = drop_bit n a XOR drop_bit n (b :: 'a::len word)"
  by (rule bit_word_eqI) (auto simp: bit_drop_bit_eq bit_xor_iff)

lemma word_reverse_xor: "word_reverse (a XOR b) = word_reverse a XOR word_reverse b"
  by (rule bit_word_eqI) (auto simp: bit_word_reverse_iff bit_xor_iff)

lemma crc_shift_xor: "crc_shift p (a XOR b) = crc_shift p a XOR crc_shift p b"
  by (auto simp: crc_shift_def push_bit_xor_word bit_xor_iff xor.assoc xor.left_commute xor.commute)

lemma funpow_crc_shift_xor: "(crc_shift p ^^ n) (a XOR b) = (crc_shift p ^^ n) a XOR (crc_shift p ^^ n) b"
  by (induction n) (simp_all add: crc_shift_xor)

lemma funpow_crc_shift_low:
  fixes x :: "'a::len word"
  assumes "\<And>k. k < n \<Longrightarrow> \<not> bit x (LENGTH('a) - Suc k)" "n \<le> LENGTH('a)"
  shows "(crc_shift p ^^ n) x = push_bit n x"
  using assms
proof (induction n)
  case 0
  then show ?case by simp
next
  case (Suc n)
  have "\<not> bit (push_bit n x) (LENGTH('a) - 1)"
    using Suc.prems(1) [of n] Suc.prems(2) by (simp add: bit_push_bit_iff)
  moreover have "(crc_shift p ^^ n) x = push_bit n x"
    using Suc.prems by (intro Suc.IH) auto
  ultimately have "(crc_shift p ^^ Suc n) x = push_bit 1 (push_bit n x)"
    by (simp only: funpow.simps comp_apply crc_shift_def if_False)
  then show ?case by (simp only: push_bit_push_bit plus_1_eq_Suc)
qed

lemma crc_shift_reflect:
  fixes x :: "'a::len word"
  shows "crc_shift_refl p (word_reverse x) = word_reverse (crc_shift p x)"
proof -
  have s: "drop_bit 1 (word_reverse x) = word_reverse (push_bit 1 x)"
    by (rule bit_word_eqI)
      (auto simp: bit_word_reverse_iff bit_drop_bit_eq bit_double_iff mult.commute [of x 2])
  have b: "bit (word_reverse x) 0 = bit x (LENGTH('a) - 1)" by (simp add: bit_word_reverse_iff)
  show ?thesis
    by (cases "bit x (LENGTH('a) - 1)")
      (simp_all only: crc_shift_refl_def crc_shift_def s b word_reverse_xor if_True if_False)
qed

lemma funpow_crc_shift_reflect:
  "(crc_shift_refl p ^^ n) (word_reverse x) = word_reverse ((crc_shift p ^^ n) x)"
  by (induction n) (simp_all add: crc_shift_reflect)

lemma funpow_crc_shift_refl_xor:
  "(crc_shift_refl p ^^ n) (a XOR b) = (crc_shift_refl p ^^ n) a XOR (crc_shift_refl p ^^ n) b"
proof -
  have "(crc_shift_refl p ^^ n) (word_reverse (word_reverse a XOR word_reverse b)) =
      word_reverse ((crc_shift p ^^ n) (word_reverse a XOR word_reverse b))"
    by (rule funpow_crc_shift_reflect)
  then show ?thesis
    by (simp only: funpow_crc_shift_xor word_reverse_xor word_rev_rev flip: funpow_crc_shift_reflect)
qed

lemma word_reverse_push_bit:
  fixes h :: "'a::len word"
  shows "word_reverse (push_bit n (word_reverse h)) = drop_bit n h"
proof (rule bit_word_eqI)
  fix k assume k: "k < LENGTH('a)"
  show "bit (word_reverse (push_bit n (word_reverse h))) k = bit (drop_bit n h) k"
  proof (cases "n + k < LENGTH('a)")
    case True
    then have "LENGTH('a) - Suc (LENGTH('a) - Suc k - n) = n + k" by arith
    then show ?thesis
      using True k by (auto simp: bit_word_reverse_iff bit_push_bit_iff bit_drop_bit_eq add.commute)
  next
    case False
    then show ?thesis
      using k bit_imp_le_length [of h "n + k"]
      by (auto simp: bit_word_reverse_iff bit_push_bit_iff bit_drop_bit_eq)
  qed
qed

section \<open>The table entry and the table step\<close>

text \<open>
  The table entry of index u is the register after 8 shifts of u at the top; starting with u at
  the bottom, as the code does, only takes \<open>LENGTH - 8\<close> shifts more.
\<close>

lemma table_shift:
  fixes u :: "'a::len word"
  assumes L: "8 \<le> LENGTH('a)" and u: "\<And>k. 8 \<le> k \<Longrightarrow> \<not> bit u k"
  shows "(crc_shift p ^^ LENGTH('a)) u = (crc_shift p ^^ 8) (push_bit (LENGTH('a) - 8) u)"
proof -
  have "(crc_shift p ^^ LENGTH('a)) u = (crc_shift p ^^ 8) ((crc_shift p ^^ (LENGTH('a) - 8)) u)"
    using L funpow_add [of 8 "LENGTH('a) - 8" "crc_shift p"] by simp
  also have "(crc_shift p ^^ (LENGTH('a) - 8)) u = push_bit (LENGTH('a) - 8) u"
    using L u by (intro funpow_crc_shift_low) auto
  finally show ?thesis .
qed

lemma table_shift_refl:
  fixes u :: "'a::len word"
  assumes L: "8 \<le> LENGTH('a)" and u: "\<And>k. 8 \<le> k \<Longrightarrow> \<not> bit u k"
  shows "word_reverse ((crc_shift p ^^ LENGTH('a)) (drop_bit (LENGTH('a) - 8) (word_reverse u)))
    = (crc_shift_refl p ^^ 8) u"
proof -
  let ?v = "drop_bit (LENGTH('a) - 8) (word_reverse u)"
  have "\<not> bit ?v k" if "8 \<le> k" for k
    using that L by (auto simp: bit_drop_bit_eq bit_word_reverse_iff)
  then have "(crc_shift p ^^ LENGTH('a)) ?v = (crc_shift p ^^ 8) (push_bit (LENGTH('a) - 8) ?v)"
    by (rule table_shift [OF L])
  also have "push_bit (LENGTH('a) - 8) ?v = word_reverse u"
  proof (rule bit_word_eqI)
    fix n assume n: "n < LENGTH('a)"
    show "bit (push_bit (LENGTH('a) - 8) ?v) n = bit (word_reverse u) n"
    proof (cases "n < LENGTH('a) - 8")
      case True
      then have "\<not> bit u (LENGTH('a) - Suc n)" using u by simp
      then show ?thesis using True by (auto simp: bit_push_bit_iff bit_word_reverse_iff)
    next
      case False
      then show ?thesis using n by (simp add: bit_push_bit_iff bit_drop_bit_eq)
    qed
  qed
  finally show ?thesis
    using funpow_crc_shift_reflect [where p = p and n = 8 and x = "word_reverse u"] by simp
qed

lemma table_step:
  fixes c :: "'a::len word"
  assumes L: "8 \<le> LENGTH('a)"
  shows "push_bit 8 c XOR (crc_shift p ^^ 8) (push_bit (LENGTH('a) - 8) (drop_bit (LENGTH('a) - 8) c XOR ucast d))
    = crc_byte False p c d"
proof -
  let ?n = "LENGTH('a) - 8"
  let ?lo = "take_bit ?n c"
  have split: "c = ?lo XOR push_bit ?n (drop_bit ?n c)"
    by (rule bit_word_eqI) (auto simp: bit_xor_iff bit_take_bit_iff bit_push_bit_iff bit_drop_bit_eq)
  have "(crc_shift p ^^ 8) ?lo = push_bit 8 ?lo"
    using L by (intro funpow_crc_shift_low) (auto simp: bit_take_bit_iff)
  also have "push_bit 8 ?lo = push_bit 8 c"
    using L by (intro bit_word_eqI) (auto simp: bit_take_bit_iff bit_push_bit_iff)
  finally have lo: "(crc_shift p ^^ 8) ?lo = push_bit 8 c" .
  have "c XOR push_bit ?n (ucast d) = ?lo XOR push_bit ?n (drop_bit ?n c XOR ucast d)"
    by (subst (1) split) (simp add: push_bit_xor_word xor.assoc)
  then show ?thesis by (simp add: crc_byte_def funpow_crc_shift_xor lo)
qed

lemma table_step_refl:
  fixes c :: "'a::len word"
  assumes L: "8 \<le> LENGTH('a)"
  shows "drop_bit 8 c XOR (crc_shift_refl p ^^ 8) (take_bit 8 (c XOR ucast d)) = crc_byte True p c d"
proof -
  let ?x = "c XOR ucast d"
  let ?hi = "?x XOR take_bit 8 ?x"
  have "(crc_shift_refl p ^^ 8) ?hi = word_reverse ((crc_shift p ^^ 8) (word_reverse ?hi))"
    using funpow_crc_shift_reflect [where p = p and n = 8 and x = "word_reverse ?hi"] by simp
  also have "(crc_shift p ^^ 8) (word_reverse ?hi) = push_bit 8 (word_reverse ?hi)"
    using L by (intro funpow_crc_shift_low) (auto simp: bit_word_reverse_iff bit_xor_iff bit_take_bit_iff)
  also have "word_reverse (push_bit 8 (word_reverse ?hi)) = drop_bit 8 ?hi"
    by (rule word_reverse_push_bit)
  also have "drop_bit 8 ?hi = drop_bit 8 c"
    by (rule bit_word_eqI)
      (auto simp: bit_drop_bit_eq bit_xor_iff bit_take_bit_iff bit_unsigned_iff dest: bit_imp_le_length)
  finally have hi: "(crc_shift_refl p ^^ 8) ?hi = drop_bit 8 c" .
  have "?x = ?hi XOR take_bit 8 ?x" by (simp add: xor.assoc)
  then have "(crc_shift_refl p ^^ 8) ?x = drop_bit 8 c XOR (crc_shift_refl p ^^ 8) (take_bit 8 ?x)"
    using funpow_crc_shift_refl_xor [where p = p and n = 8 and a = ?hi and b = "take_bit 8 ?x"] hi
    by (simp only:)
  then show ?thesis by (simp only: crc_byte_def if_True)
qed

section \<open>The library computes the shift registers\<close>

lemma and_ff_take_bit: "x AND 0xff = take_bit 8 (x :: 'a::len word)"
proof -
  have "(0xff :: 'a word) = mask 8" by (simp add: mask_eq_exp_minus_1)
  then show ?thesis by (simp only: take_bit_eq_mask)
qed

lemma crc32_shift_bits_funpow: "crc32_shift_bits n p x = (crc_shift p ^^ n) x"
proof (induction n arbitrary: x)
  case 0
  then show ?case by simp
next
  case (Suc n)
  have "x AND 0x80000000 \<noteq> 0 \<longleftrightarrow> bit x 31"
    by (simp add: bit_iff_and_push_bit_not_eq_0)
  then have "crc32_shift_bits (Suc n) p x = crc32_shift_bits n p (crc_shift p x)"
    by (simp add: crc_shift_def)
  then show ?case by (simp only: Suc.IH funpow_Suc_right comp_apply)
qed

lemma crc16_shift_bits_funpow: "crc16_shift_bits n p x = (crc_shift p ^^ n) x"
proof (induction n arbitrary: x)
  case 0
  then show ?case by simp
next
  case (Suc n)
  have "x AND 0x8000 \<noteq> 0 \<longleftrightarrow> bit x 15"
    by (simp add: bit_iff_and_push_bit_not_eq_0)
  then have "crc16_shift_bits (Suc n) p x = crc16_shift_bits n p (crc_shift p x)"
    by (simp add: crc_shift_def)
  then show ?case by (simp only: Suc.IH funpow_Suc_right comp_apply)
qed

lemma take_bit_8_high: "8 \<le> k \<Longrightarrow> \<not> bit (take_bit 8 (x :: 'a::len word)) k"
  by (simp add: bit_take_bit_iff)

text \<open>
  The entry found for a register value whose index byte is \<open>take_bit 8 x\<close>, for an
  algorithm whose two reflection flags agree.
\<close>

lemma libcrc32_table_entry_eq:
  assumes "refin32 crc = refout32 crc"
  shows "libcrc32_table_entry crc (unat (take_bit 8 x :: u32)) =
    (if refout32 crc then (crc_shift_refl (poly32 crc) ^^ 8) (take_bit 8 x)
     else (crc_shift (poly32 crc) ^^ 8) (push_bit 24 (take_bit 8 x)))"
  using assms table_shift [where p = "poly32 crc" and u = "take_bit 8 x :: u32"]
    table_shift_refl [where p = "poly32 crc" and u = "take_bit 8 x :: u32"]
  by (simp add: libcrc32_table_entry_def Let_def crc32_shift_bits_funpow reverse32_word_reverse
      take_bit_8_high)

lemma libcrc16_table_entry_eq:
  assumes "refin16 crc = refout16 crc"
  shows "libcrc16_table_entry crc (unat (take_bit 8 x :: u16)) =
    (if refout16 crc then (crc_shift_refl (poly16 crc) ^^ 8) (take_bit 8 x)
     else (crc_shift (poly16 crc) ^^ 8) (push_bit 8 (take_bit 8 x)))"
  using assms table_shift [where p = "poly16 crc" and u = "take_bit 8 x :: u16"]
    table_shift_refl [where p = "poly16 crc" and u = "take_bit 8 x :: u16"]
  by (simp add: libcrc16_table_entry_def Let_def crc16_shift_bits_funpow reverse16_word_reverse
      take_bit_8_high)

lemma unat_take_bit_8: "unat (take_bit 8 (x :: 'a::len word)) < 256"
proof -
  have "unat (take_bit 8 x) = take_bit 8 (unat x)" by (rule unsigned_take_bit_eq)
  then show ?thesis using take_bit_nat_less_exp [of 8 "unat x"] by simp
qed

lemma take_bit_8_top: "take_bit 8 (drop_bit (LENGTH('a) - 8) c XOR ucast (d :: u8)) =
    drop_bit (LENGTH('a) - 8) (c :: 'a::len word) XOR ucast d"
  by (rule bit_word_eqI)
    (auto simp: bit_take_bit_iff bit_xor_iff bit_drop_bit_eq bit_unsigned_iff dest: bit_imp_le_length)

text \<open>
  The invariant of a record between calls: once the generated flag is up, the table is the one of
  the record's parameters; and the two reflection flags agree, as in every predefined algorithm.
\<close>

definition table32_ok :: "libcrc32 \<Rightarrow> bool" where
  "table32_ok crc \<longleftrightarrow> crc_table32 crc = map (libcrc32_table_entry crc) [0..<256]"

definition valid32 :: "libcrc32 \<Rightarrow> bool" where
  "valid32 crc \<longleftrightarrow> refin32 crc = refout32 crc \<and> (crc_table_generated32 crc \<longrightarrow> table32_ok crc)"

definition table16_ok :: "libcrc16 \<Rightarrow> bool" where
  "table16_ok crc \<longleftrightarrow> crc_table16 crc = map (libcrc16_table_entry crc) [0..<256]"

definition valid16 :: "libcrc16 \<Rightarrow> bool" where
  "valid16 crc \<longleftrightarrow> refin16 crc = refout16 crc \<and> (crc_table_generated16 crc \<longrightarrow> table16_ok crc)"

lemma libcrc32_table_entry_cong [simp]:
  "libcrc32_table_entry (crc\<lparr>next32 := n\<rparr>) = libcrc32_table_entry crc"
  "libcrc32_table_entry (crc\<lparr>crc_table32 := t\<rparr>) = libcrc32_table_entry crc"
  "libcrc32_table_entry (crc\<lparr>crc_table_generated32 := g\<rparr>) = libcrc32_table_entry crc"
  by (rule ext, simp add: libcrc32_table_entry_def)+

lemma libcrc16_table_entry_cong [simp]:
  "libcrc16_table_entry (crc\<lparr>next16 := n\<rparr>) = libcrc16_table_entry crc"
  "libcrc16_table_entry (crc\<lparr>crc_table16 := t\<rparr>) = libcrc16_table_entry crc"
  "libcrc16_table_entry (crc\<lparr>crc_table_generated16 := g\<rparr>) = libcrc16_table_entry crc"
  by (rule ext, simp add: libcrc16_table_entry_def)+

lemma libcrc32_step_eq:
  assumes "table32_ok crc" "refin32 crc = refout32 crc"
  shows "libcrc32_step crc d = crc\<lparr>next32 := crc_byte (refout32 crc) (poly32 crc) (next32 crc) d\<rparr>"
proof -
  have nth: "crc_table32 crc ! unat (x AND 0xff) = libcrc32_table_entry crc (unat (take_bit 8 x))"
    for x :: u32
    using assms(1) unat_take_bit_8 [of x] by (simp add: table32_ok_def and_ff_take_bit)
  have L: "8 \<le> LENGTH(32)" by simp
  have top: "take_bit 8 (drop_bit 24 (next32 crc) XOR ucast d) = drop_bit 24 (next32 crc) XOR ucast d"
    using take_bit_8_top [of "next32 crc" d] by simp
  have low: "push_bit 8 (next32 crc) XOR
      (crc_shift (poly32 crc) ^^ 8) (push_bit 24 (drop_bit 24 (next32 crc) XOR ucast d)) =
      crc_byte False (poly32 crc) (next32 crc) d"
    using table_step [OF L, of "next32 crc" "poly32 crc" d] by simp
  have ent: "\<not> refout32 crc \<Longrightarrow>
      libcrc32_table_entry crc (unat (drop_bit 24 (next32 crc) XOR ucast d)) =
      (crc_shift (poly32 crc) ^^ 8) (push_bit 24 (drop_bit 24 (next32 crc) XOR ucast d))"
    using libcrc32_table_entry_eq [OF assms(2), of "drop_bit 24 (next32 crc) XOR ucast d"]
    by (simp only: top if_False)
  show ?thesis
    by (cases "refout32 crc")
      (simp_all only: libcrc32_step_def nth libcrc32_table_entry_eq [OF assms(2)] if_True if_False
        table_step_refl [OF L] top ent low simp_thms)
qed

lemma libcrc16_step_eq:
  assumes "table16_ok crc" "refin16 crc = refout16 crc"
  shows "libcrc16_step crc d = crc\<lparr>next16 := crc_byte (refout16 crc) (poly16 crc) (next16 crc) d\<rparr>"
proof -
  have nth: "crc_table16 crc ! unat (x AND 0xff) = libcrc16_table_entry crc (unat (take_bit 8 x))"
    for x :: u16
    using assms(1) unat_take_bit_8 [of x] by (simp add: table16_ok_def and_ff_take_bit)
  have L: "8 \<le> LENGTH(16)" by simp
  have top: "take_bit 8 (drop_bit 8 (next16 crc) XOR ucast d) = drop_bit 8 (next16 crc) XOR ucast d"
    using take_bit_8_top [of "next16 crc" d] by simp
  have low: "push_bit 8 (next16 crc) XOR
      (crc_shift (poly16 crc) ^^ 8) (push_bit 8 (drop_bit 8 (next16 crc) XOR ucast d)) =
      crc_byte False (poly16 crc) (next16 crc) d"
    using table_step [OF L, of "next16 crc" "poly16 crc" d] by simp
  have ent: "\<not> refout16 crc \<Longrightarrow>
      libcrc16_table_entry crc (unat (drop_bit 8 (next16 crc) XOR ucast d)) =
      (crc_shift (poly16 crc) ^^ 8) (push_bit 8 (drop_bit 8 (next16 crc) XOR ucast d))"
    using libcrc16_table_entry_eq [OF assms(2), of "drop_bit 8 (next16 crc) XOR ucast d"]
    by (simp only: top if_False)
  show ?thesis
    by (cases "refout16 crc")
      (simp_all only: libcrc16_step_def nth libcrc16_table_entry_eq [OF assms(2)] if_True if_False
        table_step_refl [OF L] top ent low simp_thms)
qed

lemma foldl_libcrc32_step:
  "table32_ok crc \<Longrightarrow> refin32 crc = refout32 crc \<Longrightarrow>
     foldl libcrc32_step crc data =
       crc\<lparr>next32 := crc_bytes (refout32 crc) (poly32 crc) (next32 crc) data\<rparr>"
  by (induction data arbitrary: crc) (simp_all add: crc_bytes_def libcrc32_step_eq table32_ok_def)

lemma foldl_libcrc16_step:
  "table16_ok crc \<Longrightarrow> refin16 crc = refout16 crc \<Longrightarrow>
     foldl libcrc16_step crc data =
       crc\<lparr>next16 := crc_bytes (refout16 crc) (poly16 crc) (next16 crc) data\<rparr>"
  by (induction data arbitrary: crc) (simp_all add: crc_bytes_def libcrc16_step_eq table16_ok_def)

lemma init_seed32:
  assumes "valid32 crc"
  obtains crc' where "libcrc32_init_seed (Some crc) seed = (0, Some crc')" "table32_ok crc'"
    "valid32 crc'" "next32 crc' = seed" "poly32 crc' = poly32 crc" "refin32 crc' = refin32 crc"
    "refout32 crc' = refout32 crc" "xor_result32 crc' = xor_result32 crc"
    "crc_table_generated32 crc'"
proof (cases "crc_table_generated32 crc")
  case True
  then show thesis using assms
    by (intro that [of "crc\<lparr>next32 := seed\<rparr>"])
      (auto simp: libcrc32_init_seed_def valid32_def table32_ok_def)
next
  case False
  let ?c = "crc\<lparr>crc_table_generated32 := True, crc_table32 := map (libcrc32_table_entry crc) [0..<256], next32 := seed\<rparr>"
  from False show thesis using assms
    by (intro that [of ?c])
      (auto simp: libcrc32_init_seed_def libcrc32_generate_table_def valid32_def table32_ok_def Let_def)
qed

lemma init_seed16:
  assumes "valid16 crc"
  obtains crc' where "libcrc16_init_seed (Some crc) seed = (0, Some crc')" "table16_ok crc'"
    "valid16 crc'" "next16 crc' = seed" "poly16 crc' = poly16 crc" "refin16 crc' = refin16 crc"
    "refout16 crc' = refout16 crc" "xor_result16 crc' = xor_result16 crc"
    "crc_table_generated16 crc'"
proof (cases "crc_table_generated16 crc")
  case True
  then show thesis using assms
    by (intro that [of "crc\<lparr>next16 := seed\<rparr>"])
      (auto simp: libcrc16_init_seed_def valid16_def table16_ok_def)
next
  case False
  let ?c = "crc\<lparr>crc_table_generated16 := True, crc_table16 := map (libcrc16_table_entry crc) [0..<256], next16 := seed\<rparr>"
  from False show thesis using assms
    by (intro that [of ?c])
      (auto simp: libcrc16_init_seed_def libcrc16_generate_table_def valid16_def table16_ok_def Let_def)
qed

lemma valid_available32: "k < 9 \<Longrightarrow> valid32 (available_crc32_algos ! k)"
  by (auto simp: less_Suc_eq numeral_eq_Suc available_crc32_algos_def define_libcrc32_algo_def valid32_def)

lemma valid_available16: "k < 10 \<Longrightarrow> valid16 (available_crc16_algos ! k)"
  by (auto simp: less_Suc_eq numeral_eq_Suc available_crc16_algos_def define_libcrc16_algo_def valid16_def)

section \<open>Whole computations\<close>

lemma update32_after_init:
  assumes "valid32 crc"
  shows "\<exists>crc'. libcrc32_update (snd (libcrc32_init_seed (Some crc) seed)) data = (0, Some crc') \<and>
    valid32 crc' \<and> table32_ok crc' \<and> poly32 crc' = poly32 crc \<and> refout32 crc' = refout32 crc \<and>
    xor_result32 crc' = xor_result32 crc \<and>
    next32 crc' = crc_bytes (refout32 crc) (poly32 crc) seed data"
proof -
  obtain c where "libcrc32_init_seed (Some crc) seed = (0, Some c)" "table32_ok c"
    "valid32 c" "next32 c = seed" "poly32 c = poly32 crc" "refin32 c = refin32 crc"
    "refout32 c = refout32 crc" "xor_result32 c = xor_result32 crc" "crc_table_generated32 c"
    using init_seed32 [OF assms] by metis
  then show ?thesis
    using assms by (simp add: libcrc32_update_def foldl_libcrc32_step valid32_def table32_ok_def)
qed

lemma update16_after_init:
  assumes "valid16 crc"
  shows "\<exists>crc'. libcrc16_update (snd (libcrc16_init_seed (Some crc) seed)) data = (0, Some crc') \<and>
    valid16 crc' \<and> table16_ok crc' \<and> poly16 crc' = poly16 crc \<and> refout16 crc' = refout16 crc \<and>
    xor_result16 crc' = xor_result16 crc \<and>
    next16 crc' = crc_bytes (refout16 crc) (poly16 crc) seed data"
proof -
  obtain c where "libcrc16_init_seed (Some crc) seed = (0, Some c)" "table16_ok c"
    "valid16 c" "next16 c = seed" "poly16 c = poly16 crc" "refin16 c = refin16 crc"
    "refout16 c = refout16 crc" "xor_result16 c = xor_result16 crc" "crc_table_generated16 c"
    using init_seed16 [OF assms] by metis
  then show ?thesis
    using assms by (simp add: libcrc16_update_def foldl_libcrc16_step valid16_def table16_ok_def)
qed

text \<open>The state \<open>crc32\<close> works on: the predefined records, each valid, the fifth one CRC-32.\<close>

definition algos_ok :: "libcrc32 list \<Rightarrow> bool" where
  "algos_ok algos \<longleftrightarrow> length algos = 9 \<and> (\<forall>a \<in> set algos. valid32 a) \<and>
     poly32 (algos ! 4) = 0x04C11DB7 \<and> refout32 (algos ! 4) \<and> xor_result32 (algos ! 4) = 0xFFFFFFFF"

lemma algos_ok_available: "algos_ok available_crc32_algos"
  by (simp add: algos_ok_def available_crc32_algos_def define_libcrc32_algo_def valid32_def)

lemma crc32_spec:
  assumes "algos_ok algos"
  obtains algos' where "crc32 algos c p = (algos', crc_bytes True 0x04C11DB7 (c XOR 0xffffffff) p XOR 0xffffffff)"
    "algos_ok algos'"
proof -
  have v: "valid32 (algos ! 4)" using assms by (simp add: algos_ok_def)
  obtain a where a: "libcrc32_update (snd (libcrc32_init_seed (Some (algos ! 4)) (c XOR 0xffffffff))) p = (0, Some a)"
    "valid32 a" "poly32 a = poly32 (algos ! 4)" "refout32 a = refout32 (algos ! 4)"
    "xor_result32 a = xor_result32 (algos ! 4)"
    "next32 a = crc_bytes (refout32 (algos ! 4)) (poly32 (algos ! 4)) (c XOR 0xffffffff) p"
    using update32_after_init [OF v] by metis
  show thesis
  proof (rule that)
    show "crc32 algos c p = (algos[4 := a], crc_bytes True 0x04C11DB7 (c XOR 0xffffffff) p XOR 0xffffffff)"
      using a assms
      by (simp add: crc32_def libcrc32_predefined_def LIBCRC32_CRC32_def LIBCRC32_MAX_def
          libcrc32_finish_def algos_ok_def Let_def)
    show "algos_ok (algos[4 := a])"
      using a assms set_update_subset_insert [of algos 4 a] by (auto simp: algos_ok_def)
  qed
qed

text \<open>The CRC-32 that the editors store.\<close>

definition zlib_crc :: "bytes \<Rightarrow> u32" where
  "zlib_crc data = crc_bytes True 0x04C11DB7 0xffffffff data XOR 0xffffffff"

lemma crc32_zlib: "algos_ok algos \<Longrightarrow> snd (crc32 algos 0 data) = zlib_crc data"
  by (erule crc32_spec [of algos 0 data]) (simp add: zlib_crc_def)

text \<open>
  The three ways the editors feed a CRC are byte streams: a record being updated, and the pair
  of the algorithm table and the running value that is handed back to \<open>crc32\<close>.
\<close>

interpretation c32: byte_stream "\<lambda>c. table32_ok c \<and> refin32 c = refout32 c"
    "\<lambda>c data. foldl libcrc32_step c data" "\<lambda>c. c"
  by unfold_locales (auto simp: foldl_libcrc32_step table32_ok_def)

interpretation c16: byte_stream "\<lambda>c. table16_ok c \<and> refin16 c = refout16 c"
    "\<lambda>c data. foldl libcrc16_step c data" "\<lambda>c. c"
  by unfold_locales (auto simp: foldl_libcrc16_step table16_ok_def)

interpretation old: byte_stream "\<lambda>s. algos_ok (fst s)" "\<lambda>s data. crc32 (fst s) (snd s) data" snd
proof
  fix s t :: "libcrc32 list \<times> u32" and xs ys
  assume s: "algos_ok (fst s)"
  obtain a where a: "crc32 (fst s) (snd s) xs = (a, crc_bytes True 0x04C11DB7 (snd s XOR 0xffffffff) xs XOR 0xffffffff)"
    "algos_ok a" using crc32_spec [OF s] by metis
  then show "algos_ok (fst (crc32 (fst s) (snd s) xs))" by simp
  obtain b where "crc32 (fst s) (snd s) [] = (b, crc_bytes True 0x04C11DB7 (snd s XOR 0xffffffff) [] XOR 0xffffffff)"
    using crc32_spec [OF s] by metis
  then show "snd (crc32 (fst s) (snd s) []) = snd s" by (simp add: crc_bytes_def xor.assoc)
  obtain d where d: "crc32 (fst s) (snd s) (xs @ ys) =
      (d, crc_bytes True 0x04C11DB7 (snd s XOR 0xffffffff) (xs @ ys) XOR 0xffffffff)"
    using crc32_spec [OF s] by metis
  obtain e where "crc32 a (snd (crc32 (fst s) (snd s) xs)) ys =
      (e, crc_bytes True 0x04C11DB7 (snd (crc32 (fst s) (snd s) xs) XOR 0xffffffff) ys XOR 0xffffffff)"
    using crc32_spec [OF a(2)] by metis
  then show "snd (crc32 (fst s) (snd s) (xs @ ys)) =
      snd (crc32 (fst (crc32 (fst s) (snd s) xs)) (snd (crc32 (fst s) (snd s) xs)) ys)"
    using a(1) d by (simp add: crc_bytes_append xor.assoc)
  assume t: "algos_ok (fst t)" and eq: "snd s = snd t"
  obtain f where "crc32 (fst t) (snd t) xs = (f, crc_bytes True 0x04C11DB7 (snd t XOR 0xffffffff) xs XOR 0xffffffff)"
    using crc32_spec [OF t] by metis
  with a eq show "snd (crc32 (fst s) (snd s) xs) = snd (crc32 (fst t) (snd t) xs)" by simp
qed

section \<open>Properties\<close>

text \<open>C17: From any valid state of a record, initialising and updating a 32 bit CRC gives the
  bitwise shift register of its polynomial and bit order over the data, final exclusive or
  included, and leaves the record valid: the table method, the lazily generated table and the
  private state are not observable.\<close>

theorem libcrc32_is_bitwise:
  assumes "valid32 crc"
  shows "\<exists>crc'. libcrc32_update (snd (libcrc32_init_seed (Some crc) seed)) data = (0, Some crc') \<and>
    valid32 crc' \<and>
    libcrc32_finish (Some crc') =
      crc_bytes (refout32 crc) (poly32 crc) seed data XOR xor_result32 crc"
  using update32_after_init [OF assms, of seed data] by (auto simp: libcrc32_finish_def)

lemma libcrc32_is_bitwise_witness:
  "\<exists>crc'. libcrc32_update (snd (libcrc32_init_seed (Some (available_crc32_algos ! 4)) 7)) [1, 2] = (0, Some crc') \<and>
    valid32 crc'"
  using libcrc32_is_bitwise [OF valid_available32 [of 4], of 7 "[1, 2]"] by auto

text \<open>The same for the 16 bit CRCs.\<close>

theorem libcrc16_is_bitwise:
  assumes "valid16 crc"
  shows "\<exists>crc'. libcrc16_update (snd (libcrc16_init_seed (Some crc) seed)) data = (0, Some crc') \<and>
    valid16 crc' \<and>
    libcrc16_finish (Some crc') =
      crc_bytes (refout16 crc) (poly16 crc) seed data XOR xor_result16 crc"
  using update16_after_init [OF assms, of seed data] by (auto simp: libcrc16_finish_def)

lemma libcrc16_is_bitwise_witness:
  "\<exists>crc'. libcrc16_update (snd (libcrc16_init_seed (Some (available_crc16_algos ! 4)) 7)) [1, 2] = (0, Some crc') \<and>
    valid16 crc'"
  using libcrc16_is_bitwise [OF valid_available16 [of 4], of 7 "[1, 2]"] by auto

text \<open>C24: The old interface may be called buffer after buffer: feeding any list of buffers
  through \<open>crc32\<close>, each call starting from the previous result, returns the value of one call
  on their concatenation, which is the standard reflected CRC-32.\<close>

theorem crc32_chained:
  assumes "algos_ok algos"
  shows "snd (foldl (\<lambda>s data. crc32 (fst s) (snd s) data) (algos, c) bufs) =
      snd (crc32 algos c (concat bufs)) \<and>
    snd (crc32 algos c (concat bufs)) =
      crc_bytes True 0x04C11DB7 (c XOR 0xffffffff) (concat bufs) XOR 0xffffffff"
proof
  show "snd (foldl (\<lambda>s data. crc32 (fst s) (snd s) data) (algos, c) bufs) =
      snd (crc32 algos c (concat bufs))"
    using old.foldl_absorb [of "(algos, c)" bufs] assms by simp
  obtain a where "crc32 algos c (concat bufs) =
      (a, crc_bytes True 0x04C11DB7 (c XOR 0xffffffff) (concat bufs) XOR 0xffffffff)"
    using crc32_spec [OF assms] by metis
  then show "snd (crc32 algos c (concat bufs)) =
      crc_bytes True 0x04C11DB7 (c XOR 0xffffffff) (concat bufs) XOR 0xffffffff" by simp
qed

lemma crc32_chained_witness:
  "snd (foldl (\<lambda>s data. crc32 (fst s) (snd s) data) (available_crc32_algos, 0) [[1, 2], [3]]) =
     snd (crc32 available_crc32_algos 0 [1, 2, 3])"
  using crc32_chained [OF algos_ok_available, of 0 "[[1, 2], [3]]"] by simp

end
