(* ===== verification/CrcValues.thy ===== *)
theory CrcValues
  imports CrcLaws
begin

text \<open>
  The check values of the predefined CRC algorithms, evaluated in the kernel through the bitwise
  form that CrcLaws proves equal to the table-driven code.
\<close>

section \<open>Evaluating the registers\<close>

definition shift_right_by :: "'a::len word \<Rightarrow> 'a word \<Rightarrow> 'a word" where
  "shift_right_by q x = (if bit x 0 then drop_bit 1 x XOR q else drop_bit 1 x)"

lemma funpow8: "(f ^^ 8) x = f (f (f (f (f (f (f (f x)))))))"
  by (simp add: eval_nat_numeral)

lemma crc_bytes_refl_eval:
  assumes "word_reverse p = q"
  shows "crc_bytes True p c data = foldl (\<lambda>c d. (shift_right_by q ^^ 8) (c XOR ucast d)) c data"
proof -
  have "crc_shift_refl p = shift_right_by q"
    using assms by (intro ext) (simp only: crc_shift_refl_def shift_right_by_def)
  moreover have "crc_byte True p = (\<lambda>c d. (crc_shift_refl p ^^ 8) (c XOR ucast d))"
    by (intro ext) (simp add: crc_byte_def)
  ultimately show ?thesis by (simp only: crc_bytes_def)
qed

lemma updates32:
  assumes "valid32 crc" "xs \<noteq> []"
  shows "libcrc32_finish (foldl (\<lambda>c d. snd (libcrc32_update c [d])) (snd (libcrc32_init (Some crc))) xs)
    = crc_bytes (refout32 crc) (poly32 crc) (seed32 crc) xs XOR xor_result32 crc"
proof -
  have "foldl (\<lambda>c d. snd (libcrc32_update c [d])) (Some c) xs = Some (foldl libcrc32_step c xs)" for c
    by (induction xs arbitrary: c) (simp_all add: libcrc32_update_def)
  moreover obtain c where "libcrc32_init_seed (Some crc) (seed32 crc) = (0, Some c)"
    using init_seed32 [OF assms(1)] by metis
  ultimately show ?thesis
    using update32_after_init [OF assms(1), of "seed32 crc" xs]
    by (auto simp: libcrc32_init_def libcrc32_update_def libcrc32_finish_def)
qed

lemma updates16:
  assumes "valid16 crc" "xs \<noteq> []"
  shows "libcrc16_finish (foldl (\<lambda>c d. snd (libcrc16_update c [d])) (snd (libcrc16_init (Some crc))) xs)
    = crc_bytes (refout16 crc) (poly16 crc) (seed16 crc) xs XOR xor_result16 crc"
proof -
  have "foldl (\<lambda>c d. snd (libcrc16_update c [d])) (Some c) xs = Some (foldl libcrc16_step c xs)" for c
    by (induction xs arbitrary: c) (simp_all add: libcrc16_update_def)
  moreover obtain c where "libcrc16_init_seed (Some crc) (seed16 crc) = (0, Some c)"
    using init_seed16 [OF assms(1)] by metis
  ultimately show ?thesis
    using update16_after_init [OF assms(1), of "seed16 crc" xs]
    by (auto simp: libcrc16_init_def libcrc16_update_def libcrc16_finish_def)
qed

lemma rev32_04C11DB7: "word_reverse (0x04C11DB7 :: u32) = 0xedb88320"
  unfolding reverse32_word_reverse [symmetric] by (simp add: reverse32_def)

lemma rev32_1EDC6F41: "word_reverse (0x1EDC6F41 :: u32) = 0x82f63b78"
  unfolding reverse32_word_reverse [symmetric] by (simp add: reverse32_def)

lemma rev32_A833982B: "word_reverse (0xA833982B :: u32) = 0xd419cc15"
  unfolding reverse32_word_reverse [symmetric] by (simp add: reverse32_def)

lemma rev16_1021: "word_reverse (0x1021 :: u16) = 0x8408"
  unfolding reverse16_word_reverse [symmetric] by (simp add: reverse16_def)

lemma rev16_3d65: "word_reverse (0x3d65 :: u16) = 0xa6bc"
  unfolding reverse16_word_reverse [symmetric] by (simp add: reverse16_def)

lemma rev16_8005: "word_reverse (0x8005 :: u16) = 0xa001"
  unfolding reverse16_word_reverse [symmetric] by (simp add: reverse16_def)

section \<open>The values\<close>

lemma value32_0: "crc_bytes False (0x000000AF :: u32) 0 [1, 2, 3] XOR 0 = 0x00AE5FF1"
  by (simp add: crc_bytes_def crc_byte_def funpow8 crc_shift_def)

lemma value32_1: "crc_bytes False (0x04C11DB7 :: u32) 0 [1, 2, 3] XOR 0xFFFFFFFF = 0x5396EBAE"
  by (simp add: crc_bytes_def crc_byte_def funpow8 crc_shift_def)

lemma value32_2: "crc_bytes False (0x04C11DB7 :: u32) 0xFFFFFFFF [1, 2, 3] XOR 0xFFFFFFFF = 0xE4F296AE"
  by (simp add: crc_bytes_def crc_byte_def funpow8 crc_shift_def)

lemma value32_3: "crc_bytes False (0x04C11DB7 :: u32) 0xFFFFFFFF [1, 2, 3] XOR 0 = 0x1B0D6951"
  by (simp add: crc_bytes_def crc_byte_def funpow8 crc_shift_def)

lemma value32_4: "crc_bytes True (0x04C11DB7 :: u32) 0xFFFFFFFF [1, 2, 3] XOR 0xFFFFFFFF = 0x55BC801D"
  unfolding crc_bytes_refl_eval [OF rev32_04C11DB7] by (simp add: funpow8 shift_right_by_def)

lemma value32_5: "crc_bytes True (0x04C11DB7 :: u32) 0xFFFFFFFF [1, 2, 3] XOR 0 = 0xAA437FE2"
  unfolding crc_bytes_refl_eval [OF rev32_04C11DB7] by (simp add: funpow8 shift_right_by_def)

lemma value32_6: "crc_bytes True (0x1EDC6F41 :: u32) 0xFFFFFFFF [1, 2, 3] XOR 0xFFFFFFFF = 0xF130F21E"
  unfolding crc_bytes_refl_eval [OF rev32_1EDC6F41] by (simp add: funpow8 shift_right_by_def)

lemma value32_7: "crc_bytes False (0x814141AB :: u32) 0 [1, 2, 3] XOR 0 = 0xC371CF00"
  by (simp add: crc_bytes_def crc_byte_def funpow8 crc_shift_def)

lemma value32_8: "crc_bytes True (0xA833982B :: u32) 0xFFFFFFFF [1, 2, 3] XOR 0xFFFFFFFF = 0xE92F8EEC"
  unfolding crc_bytes_refl_eval [OF rev32_A833982B] by (simp add: funpow8 shift_right_by_def)

lemma value16_0: "crc_bytes True (0x1021 :: u16) 0 [1, 2, 3] XOR 0 = 0x5BF7"
  unfolding crc_bytes_refl_eval [OF rev16_1021] by (simp add: funpow8 shift_right_by_def)

lemma value16_1: "crc_bytes False (0x1021 :: u16) 0xffff [1, 2, 3] XOR 0 = 0xADAD"
  by (simp add: crc_bytes_def crc_byte_def funpow8 crc_shift_def)

lemma value16_2: "crc_bytes False (0x1021 :: u16) 0 [1, 2, 3] XOR 0 = 0x6131"
  by (simp add: crc_bytes_def crc_byte_def funpow8 crc_shift_def)

lemma value16_3: "crc_bytes True (0x1021 :: u16) 0xffff [1, 2, 3] XOR 0xffff = 0x9D3B"
  unfolding crc_bytes_refl_eval [OF rev16_1021] by (simp add: funpow8 shift_right_by_def)

lemma value16_4: "crc_bytes False (0x1021 :: u16) 0x1d0f [1, 2, 3] XOR 0 = 0x703D"
  by (simp add: crc_bytes_def crc_byte_def funpow8 crc_shift_def)

lemma value16_5: "crc_bytes True (0x8005 :: u16) 0xffff [1, 2, 3] XOR 0 = 0x6161"
  unfolding crc_bytes_refl_eval [OF rev16_8005] by (simp add: funpow8 shift_right_by_def)

lemma value16_6: "crc_bytes True (0x8005 :: u16) 0 [1, 2, 3] XOR 0 = 0xA110"
  unfolding crc_bytes_refl_eval [OF rev16_8005] by (simp add: funpow8 shift_right_by_def)

lemma value16_7: "crc_bytes True (0x8005 :: u16) 0 [1, 2, 3] XOR 0xffff = 0x5EEF"
  unfolding crc_bytes_refl_eval [OF rev16_8005] by (simp add: funpow8 shift_right_by_def)

lemma value16_8: "crc_bytes True (0x8005 :: u16) 0xffff [1, 2, 3] XOR 0xffff = 0x9E9E"
  unfolding crc_bytes_refl_eval [OF rev16_8005] by (simp add: funpow8 shift_right_by_def)

lemma value16_9: "crc_bytes True (0x3d65 :: u16) 0 [1, 2, 3] XOR 0xffff = 0xA740"
  unfolding crc_bytes_refl_eval [OF rev16_3d65] by (simp add: funpow8 shift_right_by_def)

section \<open>Properties\<close>

text \<open>C40: Every predefined algorithm, initialised with its own seed and fed the bytes 1, 2, 3
  one at a time, returns the check value that tests/api\_test/libcrc.c lists for it.\<close>

theorem libcrc_check_values:
  "map (\<lambda>crc. libcrc32_finish (foldl (\<lambda>c d. snd (libcrc32_update c [d]))
       (snd (libcrc32_init (Some crc))) [1, 2, 3])) available_crc32_algos =
     [0x00AE5FF1, 0x5396EBAE, 0xE4F296AE, 0x1B0D6951, 0x55BC801D, 0xAA437FE2, 0xF130F21E,
      0xC371CF00, 0xE92F8EEC] \<and>
   map (\<lambda>crc. libcrc16_finish (foldl (\<lambda>c d. snd (libcrc16_update c [d]))
       (snd (libcrc16_init (Some crc))) [1, 2, 3])) available_crc16_algos =
     [0x5BF7, 0xADAD, 0x6131, 0x9D3B, 0x703D, 0x6161, 0xA110, 0x5EEF, 0x9E9E, 0xA740]"
proof
  have v32: "valid32 c" if "c \<in> set available_crc32_algos" for c
    using that by (auto simp: available_crc32_algos_def define_libcrc32_algo_def valid32_def)
  have v16: "valid16 c" if "c \<in> set available_crc16_algos" for c
    using that by (auto simp: available_crc16_algos_def define_libcrc16_algo_def valid16_def)
  have "map (\<lambda>crc. libcrc32_finish (foldl (\<lambda>c d. snd (libcrc32_update c [d]))
       (snd (libcrc32_init (Some crc))) [1, 2, 3])) available_crc32_algos =
     map (\<lambda>crc. crc_bytes (refout32 crc) (poly32 crc) (seed32 crc) [1, 2, 3] XOR xor_result32 crc)
       available_crc32_algos"
    using v32 by (intro map_cong refl updates32) auto
  also have "\<dots> = [0x00AE5FF1, 0x5396EBAE, 0xE4F296AE, 0x1B0D6951, 0x55BC801D, 0xAA437FE2, 0xF130F21E, 0xC371CF00, 0xE92F8EEC]"
    by (simp only: available_crc32_algos_def define_libcrc32_algo_def list.map libcrc32.simps
        value32_0 value32_1 value32_2 value32_3 value32_4 value32_5 value32_6 value32_7 value32_8)
  finally show "map (\<lambda>crc. libcrc32_finish (foldl (\<lambda>c d. snd (libcrc32_update c [d]))
       (snd (libcrc32_init (Some crc))) [1, 2, 3])) available_crc32_algos =
     [0x00AE5FF1, 0x5396EBAE, 0xE4F296AE, 0x1B0D6951, 0x55BC801D, 0xAA437FE2, 0xF130F21E,
      0xC371CF00, 0xE92F8EEC]" .
  have "map (\<lambda>crc. libcrc16_finish (foldl (\<lambda>c d. snd (libcrc16_update c [d]))
       (snd (libcrc16_init (Some crc))) [1, 2, 3])) available_crc16_algos =
     map (\<lambda>crc. crc_bytes (refout16 crc) (poly16 crc) (seed16 crc) [1, 2, 3] XOR xor_result16 crc)
       available_crc16_algos"
    using v16 by (intro map_cong refl updates16) auto
  also have "\<dots> = [0x5BF7, 0xADAD, 0x6131, 0x9D3B, 0x703D, 0x6161, 0xA110, 0x5EEF, 0x9E9E, 0xA740]"
    by (simp only: available_crc16_algos_def define_libcrc16_algo_def list.map libcrc16.simps
        value16_0 value16_1 value16_2 value16_3 value16_4 value16_5 value16_6 value16_7 value16_8 value16_9)
  finally show "map (\<lambda>crc. libcrc16_finish (foldl (\<lambda>c d. snd (libcrc16_update c [d]))
       (snd (libcrc16_init (Some crc))) [1, 2, 3])) available_crc16_algos =
     [0x5BF7, 0xADAD, 0x6131, 0x9D3B, 0x703D, 0x6161, 0xA110, 0x5EEF, 0x9E9E, 0xA740]" .
qed

end
