(* ===== verification/Lists.thy ===== *)
theory Lists
  imports Prelude
begin

text \<open>
  The intrusive doubly linked lists of list\_head.h. A \<open>struct list_head *\<close> is a number, NULL is 0,
  and the memory is a heap that gives the \<open>prev\<close> and \<open>next\<close> field of every node. The operations
  are the assignments of the code in their order. They are then shown to implement sequences: other
  theories keep such a list as the sequence of its entries.
\<close>

section \<open>The code\<close>

record heap =
  prv :: "nat \<Rightarrow> nat"
  nxt :: "nat \<Rightarrow> nat"

definition set_prv :: "nat \<Rightarrow> nat \<Rightarrow> heap \<Rightarrow> heap" where
  "set_prv n v h = h\<lparr>prv := (prv h)(n := v)\<rparr>"

definition set_nxt :: "nat \<Rightarrow> nat \<Rightarrow> heap \<Rightarrow> heap" where
  "set_nxt n v h = h\<lparr>nxt := (nxt h)(n := v)\<rparr>"

definition list_empty :: "heap \<Rightarrow> nat \<Rightarrow> bool" where
  "list_empty h entry \<longleftrightarrow> nxt h entry = entry"

definition list_init :: "nat \<Rightarrow> heap \<Rightarrow> heap" where
  "list_init entry h = set_prv entry entry (set_nxt entry entry h)"

definition list_add :: "nat \<Rightarrow> nat \<Rightarrow> heap \<Rightarrow> heap" where
  "list_add entry head h =
     (let h1 = set_nxt entry (nxt h head) h;
          h2 = set_prv entry head h1;
          h3 = set_prv (nxt h2 head) entry h2
      in set_nxt head entry h3)"

definition list_add_tail :: "nat \<Rightarrow> nat \<Rightarrow> heap \<Rightarrow> heap" where
  "list_add_tail entry head h =
     (let h1 = set_nxt entry head h;
          h2 = set_prv entry (prv h1 head) h1;
          h3 = set_nxt (prv h2 head) entry h2
      in set_prv head entry h3)"

definition list_del :: "nat \<Rightarrow> heap \<Rightarrow> heap" where
  "list_del entry h =
     (let h1 = set_prv (nxt h entry) (prv h entry) h;
          h2 = set_nxt (prv h1 entry) (nxt h1 entry) h1
      in set_nxt entry 0 (set_prv entry 0 h2))"

definition list_cut :: "nat \<Rightarrow> nat \<Rightarrow> heap \<Rightarrow> heap" where
  "list_cut lst head h =
     (if list_empty h head then list_init lst h
      else
        let h1 = set_nxt lst (nxt h head) h;
            h2 = set_prv (nxt h1 lst) lst h1;
            h3 = set_prv lst (prv h2 head) h2;
            h4 = set_nxt (prv h3 lst) lst h3
        in list_init head h4)"

definition list_splice_front :: "nat \<Rightarrow> nat \<Rightarrow> heap \<Rightarrow> heap" where
  "list_splice_front lst head h =
     (let h1 = set_prv (nxt h lst) head h;
          h2 = set_nxt (prv h1 lst) (nxt h1 head) h1;
          h3 = set_prv (nxt h2 head) (prv h2 lst) h2
      in set_nxt head (nxt h3 lst) h3)"

text \<open>
  \<open>list_for_each_entry\<close>: the nodes visited from \<open>pos\<close> until the head comes back. The loop does not
  stop on a list that never returns to its head, so it takes fuel.
\<close>

fun list_for_each_from :: "nat \<Rightarrow> heap \<Rightarrow> nat \<Rightarrow> nat \<Rightarrow> nat list cres" where
  "list_for_each_from 0 h head pos = NoFuel"
| "list_for_each_from (Suc fuel) h head pos =
     (if pos = head then Ok []
      else cbind (list_for_each_from fuel h head (nxt h pos)) (\<lambda>rest. Ok (pos # rest)))"

definition list_for_each :: "nat \<Rightarrow> heap \<Rightarrow> nat \<Rightarrow> nat list cres" where
  "list_for_each fuel h head = list_for_each_from fuel h head (nxt h head)"

text \<open>
  \<open>list_for_each_entry_safe\<close> with a body that removes and frees each entry (the loops of the
  \<open>_free\<close> functions): \<open>n\<close> is read before the body changes the entry.
\<close>

fun list_drain_from :: "nat \<Rightarrow> heap \<Rightarrow> nat \<Rightarrow> nat \<Rightarrow> nat \<Rightarrow> (nat list \<times> heap) cres" where
  "list_drain_from 0 h head pos n = NoFuel"
| "list_drain_from (Suc fuel) h head pos n =
     (if pos = head then Ok ([], h)
      else let h' = list_del pos h
           in cbind (list_drain_from fuel h' head n (nxt h' n)) (\<lambda>(rest, h''). Ok (pos # rest, h'')))"

definition list_drain :: "nat \<Rightarrow> heap \<Rightarrow> nat \<Rightarrow> (nat list \<times> heap) cres" where
  "list_drain fuel h head = list_drain_from fuel h head (nxt h head) (nxt h (nxt h head))"

section \<open>Linked segments\<close>

text \<open>From a to b through the nodes xs, both links right at every step.\<close>

fun seg :: "heap \<Rightarrow> nat \<Rightarrow> nat list \<Rightarrow> nat \<Rightarrow> bool" where
  "seg h a [] b \<longleftrightarrow> nxt h a = b \<and> prv h b = a"
| "seg h a (x # xs) b \<longleftrightarrow> nxt h a = x \<and> prv h x = a \<and> seg h x xs b"

text \<open>The list with this head holds the nodes xs, in this order.\<close>

definition dlist :: "heap \<Rightarrow> nat \<Rightarrow> nat list \<Rightarrow> bool" where
  "dlist h head xs \<longleftrightarrow> seg h head xs head \<and> distinct (head # xs) \<and> 0 \<notin> set (head # xs)"

lemma heap_upd [simp]:
  "prv (set_prv n v h) = (prv h)(n := v)" "nxt (set_prv n v h) = nxt h"
  "nxt (set_nxt n v h) = (nxt h)(n := v)" "prv (set_nxt n v h) = prv h"
  by (simp_all add: set_prv_def set_nxt_def)

lemma seg_append: "seg h a (xs @ y # ys) b \<longleftrightarrow> seg h a xs y \<and> seg h y ys b"
  by (induction xs arbitrary: a) auto

lemma seg_first: "seg h a xs b \<Longrightarrow> nxt h a = hd (xs @ [b])"
  by (cases xs) auto

lemma seg_last: "seg h a xs b \<Longrightarrow> prv h b = last (a # xs)"
  by (induction xs arbitrary: a) auto

lemma seg_nxt_frame: "n \<noteq> a \<Longrightarrow> n \<notin> set xs \<Longrightarrow> seg (set_nxt n v h) a xs b = seg h a xs b"
  by (induction xs arbitrary: a) auto

lemma seg_prv_frame: "n \<noteq> b \<Longrightarrow> n \<notin> set xs \<Longrightarrow> seg (set_prv n v h) a xs b = seg h a xs b"
  by (induction xs arbitrary: a) auto

text \<open>Only the links inside the segment matter.\<close>

lemma seg_cong:
  "(\<And>n. n \<in> set (a # xs) \<Longrightarrow> nxt h' n = nxt h n) \<Longrightarrow> (\<And>n. n \<in> set (xs @ [b]) \<Longrightarrow> prv h' n = prv h n)
    \<Longrightarrow> seg h' a xs b = seg h a xs b"
  by (induction xs arbitrary: a) auto

lemma dlist_cong:
  assumes "\<And>n. n \<in> set (head # xs) \<Longrightarrow> nxt h' n = nxt h n \<and> prv h' n = prv h n"
  shows "dlist h' head xs = dlist h head xs"
  using seg_cong [of head xs h' h head] assms by (simp add: dlist_def)

lemma dlist_empty: "dlist h head xs \<Longrightarrow> list_empty h head \<longleftrightarrow> xs = []"
  by (cases xs) (auto simp: dlist_def list_empty_def)

lemma dlist_init: "n \<noteq> 0 \<Longrightarrow> dlist (list_init n h) n []"
  by (simp add: dlist_def list_init_def)

lemma dlist_add:
  assumes "dlist h head xs" "e \<notin> set (head # xs)" "e \<noteq> 0"
  shows "dlist (list_add e head h) head (e # xs)"
proof (cases xs)
  case Nil
  with assms show ?thesis by (auto simp: dlist_def list_add_def Let_def)
next
  case (Cons x ys)
  with assms show ?thesis
    by (auto simp: dlist_def list_add_def Let_def seg_nxt_frame seg_prv_frame)
qed

lemma dlist_add_tail:
  assumes "dlist h head xs" "e \<notin> set (head # xs)" "e \<noteq> 0"
  shows "dlist (list_add_tail e head h) head (xs @ [e])"
proof (cases xs rule: rev_cases)
  case Nil
  with assms show ?thesis by (auto simp: dlist_def list_add_tail_def Let_def)
next
  case (snoc ys y)
  with assms show ?thesis
    by (auto simp: dlist_def list_add_tail_def Let_def seg_append seg_nxt_frame seg_prv_frame)
qed

lemma dlist_del:
  assumes "dlist h head (ys @ e # zs)"
  shows "dlist (list_del e h) head (ys @ zs)"
proof -
  have s: "seg h head ys e" "seg h e zs head" and d: "distinct (head # ys @ e # zs)" "0 \<notin> set (head # ys @ e # zs)"
    using assms by (auto simp: dlist_def seg_append)
  have n: "nxt h e = hd (zs @ [head])" and p: "prv h e = last (head # ys)"
    using s by (simp_all add: seg_first seg_last)
  have "seg (list_del e h) head (ys @ zs) head"
  proof (cases ys rule: rev_cases)
    case Nil
    then show ?thesis using s d n p
      by (cases zs) (auto simp: list_del_def Let_def seg_nxt_frame seg_prv_frame)
  next
    case (snoc us u)
    then show ?thesis using s d n p
      by (cases zs) (auto simp: list_del_def Let_def seg_append seg_nxt_frame seg_prv_frame)
  qed
  with d show ?thesis by (simp add: dlist_def)
qed

lemma dlist_cut:
  assumes "dlist h head xs" "l \<notin> set (head # xs)" "l \<noteq> 0"
  shows "dlist (list_cut l head h) l xs \<and> dlist (list_cut l head h) head []"
proof (cases xs rule: rev_cases)
  case Nil
  with assms show ?thesis
    by (auto simp: dlist_def list_cut_def list_empty_def list_init_def)
next
  case (snoc ys y)
  have ne: "\<not> list_empty h head" using dlist_empty [OF assms(1)] snoc by simp
  show ?thesis
  proof (cases ys)
    case Nil
    with snoc ne assms show ?thesis
      by (auto simp: dlist_def list_cut_def list_init_def Let_def)
  next
    case (Cons z zs)
    with snoc ne assms show ?thesis
      by (auto simp: dlist_def list_cut_def list_init_def Let_def seg_append seg_nxt_frame seg_prv_frame)
  qed
qed

lemma dlist_splice_front:
  assumes "dlist h head xs" "dlist h l ys" "ys \<noteq> []" "set (l # ys) \<inter> set (head # xs) = {}"
  shows "dlist (list_splice_front l head h) head (ys @ xs)"
proof -
  obtain us u where u: "ys = us @ [u]" using assms(3) by (cases ys rule: rev_cases) auto
  show ?thesis
  proof (cases us)
    case Nil
    with u assms show ?thesis
      by (cases xs) (auto simp: dlist_def list_splice_front_def Let_def seg_append seg_nxt_frame seg_prv_frame)
  next
    case (Cons w ws)
    with u assms show ?thesis
      by (cases xs) (auto simp: dlist_def list_splice_front_def Let_def seg_append seg_nxt_frame seg_prv_frame)
  qed
qed

section \<open>Traversal\<close>

lemma list_for_each_from_seg:
  "seg h a xs head \<Longrightarrow> head \<notin> set xs \<Longrightarrow> length xs < fuel \<Longrightarrow>
     list_for_each_from fuel h head (nxt h a) = Ok xs"
proof (induction xs arbitrary: a fuel)
  case Nil
  then show ?case by (cases fuel) auto
next
  case (Cons x xs)
  then obtain k where "fuel = Suc k" by (cases fuel) auto
  with Cons show ?case by simp
qed

lemma list_for_each_dlist: "dlist h head xs \<Longrightarrow> length xs < fuel \<Longrightarrow> list_for_each fuel h head = Ok xs"
  unfolding list_for_each_def dlist_def by (rule list_for_each_from_seg) auto

lemma list_drain_from_dlist:
  "dlist h head xs \<Longrightarrow> length xs < fuel \<Longrightarrow>
     \<exists>h'. list_drain_from fuel h head (hd (xs @ [head])) (nxt h (hd (xs @ [head]))) = Ok (xs, h') \<and> dlist h' head []"
proof (induction xs arbitrary: h fuel)
  case Nil
  then show ?case by (cases fuel) auto
next
  case (Cons x xs)
  then obtain k where k: "fuel = Suc k" by (cases fuel) auto
  have "seg h x xs head" and d: "x \<noteq> head" "x \<notin> set xs" "head \<notin> set xs" "distinct xs"
    using Cons.prems(1) by (auto simp: dlist_def)
  then have n: "nxt h x = hd (xs @ [head])" by (simp add: seg_first)
  have del: "dlist (list_del x h) head xs"
    using dlist_del [of h head "[]" x xs] Cons.prems(1) by simp
  from Cons.IH [OF this, of k] Cons.prems(2) k d n show ?case by auto
qed

section \<open>The contract of a list\<close>

text \<open>
  What the users of the lists rely on: initialising gives an empty list, appending and removing act
  on the sequence, a traversal gives the sequence.
\<close>

locale sequence =
  fixes rep :: "'h \<Rightarrow> nat \<Rightarrow> nat list \<Rightarrow> bool"
    and init :: "nat \<Rightarrow> 'h \<Rightarrow> 'h"
    and app :: "nat \<Rightarrow> nat \<Rightarrow> 'h \<Rightarrow> 'h"
    and del :: "nat \<Rightarrow> 'h \<Rightarrow> 'h"
    and each :: "nat \<Rightarrow> 'h \<Rightarrow> nat \<Rightarrow> nat list cres"
  assumes rep_init: "n \<noteq> 0 \<Longrightarrow> rep (init n h) n []"
    and rep_app: "rep h n xs \<Longrightarrow> e \<notin> set (n # xs) \<Longrightarrow> e \<noteq> 0 \<Longrightarrow> rep (app e n h) n (xs @ [e])"
    and rep_del: "rep h n (xs @ e # ys) \<Longrightarrow> rep (del e h) n (xs @ ys)"
    and rep_each: "rep h n xs \<Longrightarrow> length xs < fuel \<Longrightarrow> each fuel h n = Ok xs"
begin

lemma rep_foldl_app:
  "rep h n xs \<Longrightarrow> distinct es \<Longrightarrow> set es \<inter> set (0 # n # xs) = {} \<Longrightarrow>
     rep (foldl (\<lambda>h e. app e n h) h es) n (xs @ es)"
proof (induction es arbitrary: h xs)
  case Nil
  then show ?case by simp
next
  case (Cons e es)
  then have "rep (app e n h) n (xs @ [e])" by (intro rep_app) auto
  from Cons.IH [OF this] Cons.prems show ?case by simp
qed

lemma build_each:
  "distinct (0 # n # es) \<Longrightarrow> length es < fuel \<Longrightarrow>
     each fuel (foldl (\<lambda>h e. app e n h) (init n h) es) n = Ok es"
  using rep_foldl_app [OF rep_init [of n h], of es] by (auto intro: rep_each)

lemma build_del_each:
  assumes "distinct (0 # n # xs @ e # ys)" "length (xs @ e # ys) \<le> fuel"
  shows "each fuel (del e (foldl (\<lambda>h e. app e n h) (init n h) (xs @ e # ys))) n = Ok (xs @ ys)"
proof -
  have "rep (foldl (\<lambda>h e. app e n h) (init n h) (xs @ e # ys)) n ([] @ xs @ e # ys)"
    using assms by (intro rep_foldl_app rep_init) auto
  then have "rep (del e (foldl (\<lambda>h e. app e n h) (init n h) (xs @ e # ys))) n (xs @ ys)"
    by (intro rep_del) simp
  then show ?thesis using assms(2) by (intro rep_each) auto
qed

end

interpretation lst: sequence dlist list_init list_add_tail list_del list_for_each
  by unfold_locales (auto intro: dlist_init dlist_add_tail dlist_del list_for_each_dlist)

section \<open>Lists that share the heap\<close>

text \<open>An operation on one list leaves every list with other nodes alone.\<close>

lemma dlist_links:
  assumes "dlist h head xs"
  shows "nxt h ` set (head # xs) = set (head # xs)" "prv h ` set (head # xs) = set (head # xs)"
proof -
  have n: "seg h a xs b \<Longrightarrow> nxt h ` set (a # xs) = set (xs @ [b])" for a b
    by (induction xs arbitrary: a) auto
  have p: "seg h a xs b \<Longrightarrow> prv h ` set (xs @ [b]) = set (a # xs)" for a b
    by (induction xs arbitrary: a) auto
  show "nxt h ` set (head # xs) = set (head # xs)" "prv h ` set (head # xs) = set (head # xs)"
    using n [of head head] p [of head head] assms by (auto simp: dlist_def)
qed

lemma dlist_link_in:
  "dlist h head xs \<Longrightarrow> n \<in> set (head # xs) \<Longrightarrow> nxt h n \<in> set (head # xs) \<and> prv h n \<in> set (head # xs)"
  using dlist_links by blast

lemma dlist_frame:
  assumes "dlist h head xs" "dlist h other ys" "set (other # ys) \<inter> set (e # head # xs) = {}"
  shows "dlist (list_add_tail e head h) other ys" "dlist (list_add e head h) other ys"
    "e \<in> set xs \<Longrightarrow> dlist (list_del e h) other ys"
proof -
  have out: "\<And>n. n \<in> set (other # ys) \<Longrightarrow> n \<notin> set (e # head # xs)" using assms(3) by blast
  have h: "nxt h head \<in> set (head # xs)" "prv h head \<in> set (head # xs)"
    using dlist_link_in [OF assms(1)] by auto
  show "dlist (list_add_tail e head h) other ys"
    using dlist_cong [of other ys "list_add_tail e head h" h] assms(2) out h
    by (force simp: list_add_tail_def Let_def)
  show "dlist (list_add e head h) other ys"
    using dlist_cong [of other ys "list_add e head h" h] assms(2) out h
    by (force simp: list_add_def Let_def)
  assume "e \<in> set xs"
  then have "nxt h e \<in> set (head # xs)" "prv h e \<in> set (head # xs)"
    using dlist_link_in [OF assms(1)] by auto
  then show "dlist (list_del e h) other ys"
    using dlist_cong [of other ys "list_del e h" h] assms(2) out
    by (force simp: list_del_def Let_def)
qed

lemma dlist_frame2:
  assumes "dlist h head xs" "dlist h other ys" "set (other # ys) \<inter> set (head # xs) = {}"
  shows "l \<notin> set (other # ys) \<Longrightarrow> dlist (list_init l h) other ys"
    "l \<notin> set (other # ys) \<Longrightarrow> dlist (list_cut l head h) other ys"
    "dlist h l zs \<Longrightarrow> set (other # ys) \<inter> set (l # zs) = {} \<Longrightarrow> dlist (list_splice_front l head h) other ys"
proof -
  have out: "\<And>n. n \<in> set (other # ys) \<Longrightarrow> n \<notin> set (head # xs)" using assms(3) by blast
  have h: "nxt h head \<in> set (head # xs)" "prv h head \<in> set (head # xs)"
    using dlist_link_in [OF assms(1)] by auto
  show init: "dlist (list_init l h) other ys" if "l \<notin> set (other # ys)"
    using dlist_cong [of other ys "list_init l h" h] assms(2) that by (force simp: list_init_def)
  show "dlist (list_cut l head h) other ys" if "l \<notin> set (other # ys)"
  proof (cases "list_empty h head")
    case True
    then show ?thesis using init [OF that] by (simp add: list_cut_def)
  next
    case False
    have "nxt (list_cut l head h) n = nxt h n \<and> prv (list_cut l head h) n = prv h n" if n: "n \<in> set (other # ys)" for n
    proof -
      have "n \<noteq> l" "n \<noteq> head" "n \<noteq> nxt h head" "n \<noteq> prv h head"
        using n \<open>l \<notin> set (other # ys)\<close> out [OF n] h by auto
      then show ?thesis using False by (auto simp: list_cut_def list_init_def Let_def)
    qed
    then show ?thesis using dlist_cong [of other ys "list_cut l head h" h] assms(2) by blast
  qed
  assume l: "dlist h l zs" "set (other # ys) \<inter> set (l # zs) = {}"
  have z: "nxt h l \<in> set (l # zs)" "prv h l \<in> set (l # zs)" using dlist_link_in [OF l(1)] by auto
  have "nxt (list_splice_front l head h) n = nxt h n \<and> prv (list_splice_front l head h) n = prv h n" if n: "n \<in> set (other # ys)" for n
  proof -
    have m: "n \<notin> set (l # zs)" using l(2) n by blast
    then have "n \<noteq> nxt h l" "n \<noteq> prv h l" "n \<noteq> head" "n \<noteq> nxt h head" "n \<noteq> l"
      using out [OF n] h z by auto
    then show ?thesis using m out [OF n] h z by (auto simp: list_splice_front_def Let_def)
  qed
  then show "dlist (list_splice_front l head h) other ys"
    using dlist_cong [of other ys "list_splice_front l head h" h] assms(2) by blast
qed

text \<open>C32: the list operations refine sequences: when a list holds the nodes xs, initialising a node that is not in it makes an empty
  list of it, adding the node puts it in front or at the end, cutting moves all nodes to it as their new head, removing a
  node takes out that node, and splicing puts the nodes of another, non-empty list in front. Every one of these operations leaves any
  list as it was that shares no node with those that it works on.\<close>

theorem list_ops_refine:
  assumes "dlist h head xs"
  shows "(e \<notin> set (head # xs) \<and> e \<noteq> 0 \<longrightarrow>
            dlist (list_init e h) e [] \<and> dlist (list_add e head h) head (e # xs) \<and>
            dlist (list_add_tail e head h) head (xs @ [e]) \<and>
            dlist (list_cut e head h) e xs \<and> dlist (list_cut e head h) head [])
      \<and> (\<forall>us vs. xs = us @ e # vs \<longrightarrow> dlist (list_del e h) head (us @ vs))
      \<and> (\<forall>l ys. dlist h l ys \<and> ys \<noteq> [] \<and> set (l # ys) \<inter> set (head # xs) = {} \<longrightarrow>
            dlist (list_splice_front l head h) head (ys @ xs))
      \<and> (\<forall>other ys. dlist h other ys \<and> set (other # ys) \<inter> set (head # xs) = {} \<longrightarrow>
            (e \<notin> set (other # ys) \<longrightarrow> dlist (list_init e h) other ys \<and> dlist (list_add e head h) other ys \<and>
               dlist (list_add_tail e head h) other ys \<and> dlist (list_cut e head h) other ys) \<and>
            (e \<in> set xs \<longrightarrow> dlist (list_del e h) other ys) \<and>
            (\<forall>l zs. dlist h l zs \<and> set (other # ys) \<inter> set (l # zs) = {} \<longrightarrow> dlist (list_splice_front l head h) other ys))"
    (is "?one \<and> ?del \<and> ?splice \<and> ?others")
proof (intro conjI)
  show ?one using assms dlist_init dlist_add dlist_add_tail dlist_cut by simp
  show ?del using assms dlist_del by blast
  show ?splice using assms dlist_splice_front by blast
  show ?others
  proof (intro allI impI)
    fix other ys
    assume o: "dlist h other ys \<and> set (other # ys) \<inter> set (head # xs) = {}"
    then have e: "set (other # ys) \<inter> set (e # head # xs) = {}" if "e \<notin> set (other # ys)" using that by simp
    note frame = dlist_frame [OF assms conjunct1 [OF o]] dlist_frame2 [OF assms conjunct1 [OF o] conjunct2 [OF o]]
    have "e \<notin> set (other # ys)" if "e \<in> set xs" using o that by auto
    then show "(e \<notin> set (other # ys) \<longrightarrow> dlist (list_init e h) other ys \<and> dlist (list_add e head h) other ys \<and>
               dlist (list_add_tail e head h) other ys \<and> dlist (list_cut e head h) other ys) \<and>
            (e \<in> set xs \<longrightarrow> dlist (list_del e h) other ys) \<and>
            (\<forall>l zs. dlist h l zs \<and> set (other # ys) \<inter> set (l # zs) = {} \<longrightarrow> dlist (list_splice_front l head h) other ys)"
      using frame e by blast
  qed
qed

definition heap0 :: heap where
  "heap0 = \<lparr>prv = (\<lambda>_. 0), nxt = (\<lambda>_. 0)\<rparr>"

theorem list_ops_refine_witness:
  "let h = list_add_tail 4 3 (list_init 3 (list_init 1 heap0))
   in dlist (list_add_tail 2 1 h) 1 [2] \<and> dlist (list_splice_front 3 1 h) 1 [4] \<and> dlist (list_cut 2 1 h) 3 [4]"
proof -
  define h where "h = list_add_tail 4 3 (list_init 3 (list_init 1 heap0))"
  have h: "dlist h 1 []" "dlist h 3 [4]"
    by (simp_all add: h_def dlist_def list_add_tail_def list_init_def Let_def)
  note r = list_ops_refine [OF h(1), of 2]
  have "dlist (list_add_tail 2 1 h) 1 [2]" using r by simp
  moreover have "dlist (list_splice_front 3 1 h) 1 [4]"
    using spec [OF spec [OF conjunct1 [OF conjunct2 [OF conjunct2 [OF r]]], of 3], of "[4]"] h by simp
  moreover have "dlist (list_cut 2 1 h) 3 [4]"
    using spec [OF spec [OF conjunct2 [OF conjunct2 [OF conjunct2 [OF r]]], of 3], of "[4]"] h by simp
  ultimately show ?thesis unfolding Let_def h_def [symmetric] by blast
qed

text \<open>C33: a list that is built by initialising its head and appending distinct new nodes one by one is
  traversed by \<open>list_for_each_entry\<close> in that order, with one of them removed without it, and the loop
  that frees every entry visits each of them once and leaves the head empty.\<close>

theorem list_build_traverse:
  assumes "distinct (0 # head # xs @ e # ys)" "length (xs @ e # ys) < fuel"
  shows "(let h' = foldl (\<lambda>h n. list_add_tail n head h) (list_init head h) (xs @ e # ys) in
           list_for_each fuel h' head = Ok (xs @ e # ys) \<and>
           list_for_each fuel (list_del e h') head = Ok (xs @ ys) \<and>
           (\<exists>h''. list_drain fuel h' head = Ok (xs @ e # ys, h'') \<and> dlist h'' head []))"
proof -
  define h' where "h' = foldl (\<lambda>h n. list_add_tail n head h) (list_init head h) (xs @ e # ys)"
  have d: "dlist h' head (xs @ e # ys)"
    using lst.rep_foldl_app [OF lst.rep_init [of head h], of "xs @ e # ys"] assms(1)
    by (auto simp: h'_def)
  then have "nxt h' head = hd ((xs @ e # ys) @ [head])" by (simp only: dlist_def seg_first)
  then have "\<exists>h''. list_drain fuel h' head = Ok (xs @ e # ys, h'') \<and> dlist h'' head []"
    using list_drain_from_dlist [OF d assms(2)] by (simp only: list_drain_def)
  moreover have "list_for_each fuel h' head = Ok (xs @ e # ys)"
    using assms unfolding h'_def by (intro lst.build_each) auto
  moreover have "list_for_each fuel (list_del e h') head = Ok (xs @ ys)"
    using assms unfolding h'_def by (intro lst.build_del_each) auto
  ultimately show ?thesis unfolding Let_def h'_def [symmetric] by blast
qed

theorem list_build_traverse_witness:
  "list_for_each 4 (list_del 3 (foldl (\<lambda>h n. list_add_tail n 1 h) (list_init 1 heap0) [2, 3, 4])) 1 = Ok [2, 4]"
  using list_build_traverse [of 1 "[2]" 3 "[4]" 4 heap0] by (simp add: Let_def)

end
