(* ===== verification/Rc4.thy ===== *)
theory Rc4
  imports Prelude "HOL-Library.Multiset"
begin

text \<open>
  The stream cipher of rc4.c. The state array is a list of 256 bytes; the indices, which the code keeps
  below 256 with \<open>% 256\<close> and \<open>& 0x0f\<close>, are numbers.
\<close>

section \<open>The cipher\<close>

text \<open>The three assignments that exchange two elements through \<open>temp\<close>.\<close>

definition rc4_swap :: "bytes \<Rightarrow> nat \<Rightarrow> nat \<Rightarrow> bytes" where
  "rc4_swap s i j = (let temp = s ! i; s1 = s[i := s ! j] in s1[j := temp])"

text \<open>The first loop: the key repeated over 256 bytes, by the index j that is reduced before each use.\<close>

fun rc4_expand :: "nat \<Rightarrow> nat \<Rightarrow> bytes \<Rightarrow> bytes" where
  "rc4_expand 0 j key = []"
| "rc4_expand (Suc n) j key = (let j' = j AND 0x0f in key ! j' # rc4_expand n (j' + 1) key)"

definition rc4_identity :: bytes where
  "rc4_identity = map word_of_nat [0..<256]"

text \<open>The second loop, with the iterations left, i and j.\<close>

fun rc4_schedule :: "nat \<Rightarrow> nat \<Rightarrow> nat \<Rightarrow> bytes \<Rightarrow> bytes \<Rightarrow> bytes" where
  "rc4_schedule 0 i j k s = s"
| "rc4_schedule (Suc n) i j k s =
     (let j' = (j + unat (s ! i) + unat (k ! i)) mod 256
      in rc4_schedule n (i + 1) j' k (rc4_swap s i j'))"

text \<open>The third loop over the bytes of the buffer.\<close>

fun rc4_stream :: "nat \<Rightarrow> nat \<Rightarrow> bytes \<Rightarrow> bytes \<Rightarrow> bytes" where
  "rc4_stream i j s [] = []"
| "rc4_stream i j s (b # buf) =
     (let i' = (i + 1) mod 256;
          j' = (j + unat (s ! i')) mod 256;
          s' = rc4_swap s i' j';
          t = (unat (s' ! i') + (unat (s' ! j') mod 256)) mod 256
      in (b XOR s' ! t) # rc4_stream i' j' s' buf)"

text \<open>\<open>rc4_encode\<close>: the first \<open>len\<close> bytes of the buffer, none when it is negative.\<close>

definition rc4_encode :: "bytes \<Rightarrow> int \<Rightarrow> bytes \<Rightarrow> bytes cres" where
  "rc4_encode buf len key =
     (if length key < 16 \<or> int (length buf) < len then Oob
      else let k = rc4_expand 256 0 key;
               s = rc4_schedule 256 0 0 k rc4_identity
           in Ok (rc4_stream 0 0 s (take (nat len) buf) @ drop (nat len) buf))"

section \<open>Its state is a permutation of all bytes\<close>

lemma length_rc4_swap [simp]: "length (rc4_swap s i j) = length s"
  by (simp add: rc4_swap_def Let_def)

lemma mset_rc4_swap [simp]: "i < length s \<Longrightarrow> j < length s \<Longrightarrow> mset (rc4_swap s i j) = mset s"
  unfolding rc4_swap_def Let_def by (rule mset_swap)

lemma length_rc4_identity [simp]: "length rc4_identity = 256"
  by (simp add: rc4_identity_def)

lemma rc4_schedule_perm:
  "length s = 256 \<Longrightarrow> i + n \<le> 256 \<Longrightarrow>
     length (rc4_schedule n i j k s) = 256 \<and> mset (rc4_schedule n i j k s) = mset s"
  by (induction n i j k s rule: rc4_schedule.induct) (simp_all add: Let_def)

lemma length_rc4_expand [simp]: "length (rc4_expand n j key) = n"
  by (induction n j key rule: rc4_expand.induct) (simp_all add: Let_def)

lemma rc4_expand_nth: "i < n \<Longrightarrow> rc4_expand n j key ! i = key ! ((j + i) mod 16)"
proof (induction n j key arbitrary: i rule: rc4_expand.induct)
  case (1 j key)
  then show ?case by simp
next
  case (2 n j key)
  have m: "j AND 15 = j mod 16"
    using take_bit_eq_mask [of 4 j] by (simp add: take_bit_eq_mod mask_eq_exp_minus_1)
  show ?case
  proof (cases i)
    case 0
    then show ?thesis by (simp add: Let_def m)
  next
    case (Suc i')
    then have "rc4_expand n (j mod 16 + 1) key ! i' = key ! ((j mod 16 + 1 + i') mod 16)"
      using 2 by (simp add: m)
    moreover have "(j mod 16 + 1 + i') mod 16 = (j + i) mod 16"
      using mod_add_left_eq [of j 16 "1 + i'"] Suc by (simp add: add.assoc)
    ultimately show ?thesis using Suc by (simp add: Let_def m)
  qed
qed

lemma rc4_schedule_is_permutation:
  "mset (rc4_schedule 256 0 0 (rc4_expand 256 0 key) rc4_identity) = mset rc4_identity"
  using rc4_schedule_perm [of rc4_identity 0 256] by simp

section \<open>The cipher undoes itself\<close>

text \<open>The key stream: what the third loop makes of zero bytes.\<close>

definition rc4_key_stream :: "bytes \<Rightarrow> nat \<Rightarrow> bytes" where
  "rc4_key_stream key n =
     rc4_stream 0 0 (rc4_schedule 256 0 0 (rc4_expand 256 0 key) rc4_identity) (replicate n 0)"

lemma length_rc4_stream [simp]: "length (rc4_stream i j s buf) = length buf"
  by (induction i j s buf rule: rc4_stream.induct) (simp_all add: Let_def)

lemma rc4_stream_xor:
  "rc4_stream i j s buf = map2 (XOR) buf (rc4_stream i j s (replicate (length buf) 0))"
  by (induction i j s buf rule: rc4_stream.induct) (simp_all add: Let_def)

lemma xor_twice: "length xs \<le> length ks \<Longrightarrow> map2 (XOR) (map2 (XOR) xs ks) ks = (xs :: bytes)"
proof (induction xs arbitrary: ks)
  case Nil
  then show ?case by simp
next
  case (Cons x xs)
  then show ?case by (cases ks) (simp_all add: xor.assoc)
qed

lemma rc4_encode_eq:
  assumes "16 \<le> length key" "len \<le> int (length buf)"
  shows "rc4_encode buf len key
    = Ok (map2 (XOR) (take (nat len) buf) (rc4_key_stream key (nat len)) @ drop (nat len) buf)"
proof -
  have "nat len \<le> length buf" using assms(2) by simp
  then have "length (take (nat len) buf) = nat len" by simp
  then show ?thesis
    using assms rc4_stream_xor [of 0 0 _ "take (nat len) buf"]
    by (simp add: rc4_encode_def rc4_key_stream_def Let_def min_def)
qed

text \<open>With a key of 16 bytes and a length inside the buffer \<open>rc4_encode\<close> stays inside its arrays, keeps
  the bytes behind the length, and applied twice gives the buffer back; the encoding is the exclusive or
  with a key stream that depends on the key and the position only.\<close>

theorem rc4_involution:
  assumes "16 \<le> length key" "len \<le> int (length buf)"
  shows "\<exists>enc. rc4_encode buf len key = Ok enc \<and> length enc = length buf \<and>
    drop (nat len) enc = drop (nat len) buf \<and> rc4_encode enc len key = Ok buf"
proof -
  define ks where "ks = rc4_key_stream key (nat len)"
  have l: "nat len \<le> length buf" using assms(2) by simp
  have lk: "length ks = nat len" by (simp add: ks_def rc4_key_stream_def)
  define body where "body = map2 (XOR) (take (nat len) buf) ks"
  have lb: "length body = nat len" using l lk by (simp add: body_def min_def)
  have e: "rc4_encode buf len key = Ok (body @ drop (nat len) buf)"
    using rc4_encode_eq [OF assms] by (simp add: body_def ks_def)
  have "rc4_encode (body @ drop (nat len) buf) len key
      = Ok (map2 (XOR) body ks @ drop (nat len) buf)"
    using rc4_encode_eq [of key len "body @ drop (nat len) buf"] assms lb
    by (simp add: ks_def)
  also have "map2 (XOR) body ks = take (nat len) buf"
    unfolding body_def using lk l by (intro xor_twice) simp
  finally show ?thesis using e lb l by simp
qed

theorem rc4_involution_witness:
  "\<exists>enc. rc4_encode [1, 2, 3] 2 (replicate 16 7) = Ok enc \<and> length enc = 3 \<and>
    drop 2 enc = [3] \<and> rc4_encode enc 2 (replicate 16 7) = Ok [1, 2, 3]"
  using rc4_involution [of "replicate 16 7" 2 "[1, 2, 3]"] by (simp add: numeral_3_eq_3)


end
