(* ===== verification/Strings.thy ===== *)
theory Strings
  imports Prelude "HOL-Library.Sublist"
begin

text \<open>
  The string helpers (string\_helper.h, string\_helper.c, xstring.c, keymap.c and the size
  formatter of misc.c) with the C library functions they rest on. A NUL terminated
  \<open>char\<close> string is a \<open>string\<close> without the terminator; a pointer into it is the suffix
  it points at. Printing with \<open>%s\<close> into a buffer of n bytes keeps the first n - 1 characters.
\<close>

section \<open>C library: character classes, numbers, tokens\<close>

definition isspace :: "char \<Rightarrow> bool" where
  "isspace c \<longleftrightarrow> c = CHR '' '' \<or> (9 \<le> (of_char c :: nat) \<and> (of_char c :: nat) \<le> 13)"

definition isdigit :: "char \<Rightarrow> bool" where
  "isdigit c \<longleftrightarrow> 48 \<le> (of_char c :: nat) \<and> (of_char c :: nat) \<le> 57"

definition isxdigit :: "char \<Rightarrow> bool" where
  "isxdigit c \<longleftrightarrow> isdigit c \<or> (65 \<le> (of_char c :: nat) \<and> (of_char c :: nat) \<le> 70)
     \<or> (97 \<le> (of_char c :: nat) \<and> (of_char c :: nat) \<le> 102)"

definition toupper :: "char \<Rightarrow> nat" where
  "toupper c = (let n = of_char c in if 97 \<le> n \<and> n \<le> 122 then n - 32 else n)"

text \<open>\<open>snprintf(buf, n, "%s", s)\<close> for n > 0: what the buffer holds afterwards.\<close>

definition snprintf_s :: "nat \<Rightarrow> string \<Rightarrow> string" where
  "snprintf_s n s = take (n - 1) s"

text \<open>
  \<open>strtoul\<close>: leading white space, an optional sign, the prefix of the base, then digits.
  The result is the value (an unbounded number, clamped by the callers of the two widths), the
  sign, and the suffix \<open>endp\<close> points at, which is the whole string when there is no digit.
\<close>

definition digit_value :: "char \<Rightarrow> nat option" where
  "digit_value c =
     (let n = of_char c in
      if 48 \<le> n \<and> n \<le> 57 then Some (n - 48)
      else if 65 \<le> n \<and> n \<le> 90 then Some (n - 65 + 10)
      else if 97 \<le> n \<and> n \<le> 122 then Some (n - 97 + 10)
      else None)"

definition is_digit_in :: "nat \<Rightarrow> char \<Rightarrow> bool" where
  "is_digit_in base c = (case digit_value c of None \<Rightarrow> False | Some d \<Rightarrow> d < base)"

fun read_digits :: "nat \<Rightarrow> nat \<Rightarrow> string \<Rightarrow> nat \<times> string" where
  "read_digits base acc [] = (acc, [])"
| "read_digits base acc (c # cs) =
     (if is_digit_in base c then read_digits base (acc * base + the (digit_value c)) cs
      else (acc, c # cs))"

definition strip_sign :: "string \<Rightarrow> bool \<times> string" where
  "strip_sign s =
     (case s of
        c # cs \<Rightarrow> if c = CHR ''-'' then (True, cs) else if c = CHR ''+'' then (False, cs) else (False, s)
      | [] \<Rightarrow> (False, s))"

text \<open>The base that base 0 or 16 selects, and the digits after the prefix.\<close>

definition strip_base :: "nat \<Rightarrow> string \<Rightarrow> nat \<times> string" where
  "strip_base base s =
     (if (base = 0 \<or> base = 16) \<and> length s \<ge> 3 \<and> s ! 0 = CHR ''0'' \<and>
         (s ! 1 = CHR ''x'' \<or> s ! 1 = CHR ''X'') \<and> is_digit_in 16 (s ! 2)
      then (16, drop 2 s)
      else if base = 0 then (if take 1 s = ''0'' then 8 else 10, s)
      else (base, s))"

definition strtonum :: "nat \<Rightarrow> string \<Rightarrow> bool \<times> nat \<times> string" where
  "strtonum base s =
     (let (neg, s1) = strip_sign (dropWhile isspace s);
          (b, s2) = strip_base base s1
      in case s2 of
           [] \<Rightarrow> (False, 0, s)
         | c # cs \<Rightarrow>
             if is_digit_in b c then let (n, rest) = read_digits b 0 s2 in (neg, n, rest)
             else (False, 0, s))"

definition strtoul :: "nat \<Rightarrow> string \<Rightarrow> u64 \<times> string" where
  "strtoul base s =
     (let (neg, n, rest) = strtonum base s
      in if 2 ^ 64 \<le> n then (-1, rest)
         else (if neg then - word_of_nat n else word_of_nat n, rest))"

definition strtol :: "nat \<Rightarrow> string \<Rightarrow> int \<times> string" where
  "strtol base s =
     (let (neg, n, rest) = strtonum base s
      in (if neg then max (- (2 ^ 63)) (- int n) else min (2 ^ 63 - 1) (int n), rest))"

text \<open>One call of \<open>strtok_r\<close>: the token and the text left for the next call.\<close>

definition strtok_r :: "string \<Rightarrow> string \<Rightarrow> (string \<times> string) option" where
  "strtok_r delim s =
     (let s1 = dropWhile (\<lambda>c. c \<in> set delim) s
      in if s1 = [] then None
         else Some (takeWhile (\<lambda>c. c \<notin> set delim) s1,
                    drop 1 (dropWhile (\<lambda>c. c \<notin> set delim) s1)))"

text \<open>\<open>strstr\<close>: the offset of the first occurrence.\<close>

fun strstr :: "string \<Rightarrow> string \<Rightarrow> nat option" where
  "strstr [] tok = (if tok = [] then Some 0 else None)"
| "strstr (c # cs) tok =
     (if prefix tok (c # cs) then Some 0 else map_option Suc (strstr cs tok))"

section \<open>Characters in memory, lines of a file\<close>

definition bytes_of_string :: "string \<Rightarrow> bytes" where
  "bytes_of_string s = map (\<lambda>c. word_of_nat (of_char c)) s"

text \<open>The C string that starts at these bytes.\<close>

definition string_of_bytes :: "bytes \<Rightarrow> string" where
  "string_of_bytes bs = map (\<lambda>b. char_of (unat b)) (takeWhile (\<lambda>b. b \<noteq> 0) bs)"

definition newline :: char where "newline = char_of (10 :: nat)"
definition nul :: char where "nul = char_of (0 :: nat)"
definition quote :: char where "quote = char_of (34 :: nat)"

text \<open>
  \<open>fgets(buf, n, fp)\<close> with room for n - 1 characters: the characters read, through the first
  newline, and the rest of the file. Nothing read is NULL.
\<close>

fun fgets_room :: "nat \<Rightarrow> string \<Rightarrow> string \<times> string" where
  "fgets_room n [] = ([], [])"
| "fgets_room n (c # fp) =
     (if n = 0 then ([], c # fp)
      else if c = newline then ([c], fp)
      else let (l, rest) = fgets_room (n - 1) fp in (c # l, rest))"

definition fgets :: "nat \<Rightarrow> string \<Rightarrow> (string \<times> string) option" where
  "fgets n fp = (case fgets_room (n - 1) fp of ([], _) \<Rightarrow> None | (l, rest) \<Rightarrow> Some (l, rest))"

definition c_string :: "string \<Rightarrow> string" where
  "c_string s = takeWhile (\<lambda>c. c \<noteq> nul) s"

lemma fgets_room_length: "fgets_room n fp = (l, rest) \<Longrightarrow> length l + length rest = length fp"
  by (induction n fp arbitrary: l rule: fgets_room.induct) (auto split: if_splits prod.splits)

lemma fgets_shrinks: "fgets n fp = Some (l, rest) \<Longrightarrow> length rest < length fp"
  using fgets_room_length [of "n - 1" fp] by (fastforce simp: fgets_def split: prod.splits list.splits)

section \<open>string\_helper.h\<close>

primrec string_count_char :: "string \<Rightarrow> char \<Rightarrow> nat" where
  "string_count_char [] c = 0"
| "string_count_char (x # s) c = (if x = c then Suc (string_count_char s c) else string_count_char s c)"

primrec string_count_space :: "string \<Rightarrow> nat" where
  "string_count_space [] = 0"
| "string_count_space (x # s) = (if isspace x then Suc (string_count_space s) else string_count_space s)"

fun string_skip_head_space :: "string \<Rightarrow> string" where
  "string_skip_head_space [] = []"
| "string_skip_head_space (x # s) = (if isspace x then string_skip_head_space s else x # s)"

text \<open>The loop runs from the last character down; it is recursion over the reversed string.\<close>

definition string_remove_eol_space :: "string \<Rightarrow> string" where
  "string_remove_eol_space s = (if s = [] then s else rev (dropWhile isspace (rev s)))"

section \<open>string\_helper.c\<close>

text \<open>
  \<open>string_replace_in_buffer\<close>: the buffer has \<open>bufsz\<close> bytes and holds the string
  \<open>pre @ s\<close>, where \<open>s\<close> is what the C variable of that name points at. Moving the
  tail and writing its terminator touches \<open>length pre + used + l_to + remain + 1\<close> bytes;
  the code tests only \<open>expand + used + 1\<close> of them.
\<close>

fun string_replace_loop ::
    "nat \<Rightarrow> nat \<Rightarrow> string \<Rightarrow> string \<Rightarrow> string \<Rightarrow> string \<Rightarrow> (int \<times> string) cres" where
  "string_replace_loop 0 bufsz tok to pre s = NoFuel"
| "string_replace_loop (Suc fuel) bufsz tok to pre s =
     (case strstr s tok of
        None \<Rightarrow> Ok (0, pre @ s)
      | Some off \<Rightarrow>
          let l_token = length tok; l_to = length to;
              pre' = pre @ take off s; used = length pre';
              tail = drop (off + l_token) s; remain = length tail
          in if l_token \<ge> l_to
             then string_replace_loop fuel bufsz tok to (pre' @ to) tail
             else if l_to - l_token + used + 1 \<ge> bufsz then Ok (-1, pre @ s)
             else if bufsz < used + l_to + remain + 1 then Oob
             else string_replace_loop fuel bufsz tok to (pre' @ to) tail)"

definition string_replace_in_buffer ::
    "nat \<Rightarrow> string \<Rightarrow> nat \<Rightarrow> string \<Rightarrow> string \<Rightarrow> (int \<times> string) cres" where
  "string_replace_in_buffer fuel buf bufsz tok to = string_replace_loop fuel bufsz tok to [] buf"

text \<open>
  The strict conversions: \<open>err\<close> is 0 when the number ends at the end of the string, or,
  with a tail, at one of its characters. (The tail loop looks at the characters of the tail only,
  so with a tail the end of the string is an error.)
\<close>

definition strict_err :: "string \<Rightarrow> string option \<Rightarrow> int" where
  "strict_err endp tailp =
     (case tailp of
        Some t \<Rightarrow> (case endp of [] \<Rightarrow> 1 | c # _ \<Rightarrow> if c \<in> set t then 0 else 1)
      | None \<Rightarrow> if endp = [] then 0 else 1)"

definition strict_strtol :: "string \<Rightarrow> nat \<Rightarrow> string option \<Rightarrow> int \<times> int" where
  "strict_strtol s base tailp = (let (n, endp) = strtol base s in (n, strict_err endp tailp))"

definition strict_strtol_or_default :: "string \<Rightarrow> nat \<Rightarrow> string option \<Rightarrow> int \<Rightarrow> int" where
  "strict_strtol_or_default s base tailp defv =
     (let (n, err) = strict_strtol s base tailp in if err \<noteq> 0 then defv else n)"

definition strict_strtoul :: "string \<Rightarrow> nat \<Rightarrow> string option \<Rightarrow> u64 \<times> int" where
  "strict_strtoul s base tailp = (let (n, endp) = strtoul base s in (n, strict_err endp tailp))"

definition strict_strtoul_or_default :: "string \<Rightarrow> nat \<Rightarrow> string option \<Rightarrow> u64 \<Rightarrow> u64" where
  "strict_strtoul_or_default s base tailp defv =
     (let (n, err) = strict_strtoul s base tailp in if err \<noteq> 0 then defv else n)"

text \<open>
  \<open>snprintf_continue\<close> with the formatted text as argument: what is appended at the
  position, the room left, and the returned length of the full text. It needs room for the
  terminator (\<open>sz > 0\<close>), otherwise \<open>freesz - 1\<close> wraps.
\<close>

definition snprintf_continue :: "nat \<Rightarrow> string \<Rightarrow> (string \<times> nat \<times> nat) cres" where
  "snprintf_continue freesz txt =
     (if freesz = 0 then Oob
      else
        let n = length txt;
            written = (if n \<ge> freesz then freesz - 1 else n)
        in Ok (take (freesz - 1) txt, freesz - written, n))"

text \<open>\<open>strncatprintf\<close>: the buffer text afterwards and the returned length.\<close>

definition strncatprintf :: "string \<Rightarrow> nat \<Rightarrow> string \<Rightarrow> (string \<times> nat) cres" where
  "strncatprintf s sz txt =
     (let used = length s in
      if sz < used then Oob
      else Ok (s @ take (sz - used - 1) txt, used + length txt))"

text \<open>
  \<open>argv_buffer_split_with_delim\<close> with the three null checks and a zero size giving 0;
  the argument vector comes back as a list, the terminating NULL is its end.
\<close>

fun argv_split_loop :: "nat \<Rightarrow> string \<Rightarrow> string \<Rightarrow> string list" where
  "argv_split_loop 0 delim s = []"
| "argv_split_loop (Suc room) delim s =
     (case strtok_r delim s of
        None \<Rightarrow> []
      | Some (tok, rest) \<Rightarrow> tok # argv_split_loop room delim rest)"

definition argv_buffer_split_with_delim ::
    "string option \<Rightarrow> string option \<Rightarrow> nat \<Rightarrow> (int \<times> string list) cres" where
  "argv_buffer_split_with_delim cmdlines delim sz_argv =
     (case (cmdlines, delim) of
        (Some s, Some d) \<Rightarrow>
          if sz_argv = 0 then Ok (0, [])
          else (case strtok_r d s of
                  None \<Rightarrow> Ok (0, [])
                | Some (tok, rest) \<Rightarrow>
                    let argv = tok # argv_split_loop (sz_argv - 1 - 1) d rest
                    in if sz_argv \<le> length argv then Oob else Ok (int (length argv), argv))
      | _ \<Rightarrow> Ok (0, []))"

section \<open>xstring.c, keymap.c, misc.c\<close>

definition xdigit :: "char \<Rightarrow> int" where
  "xdigit ch =
     (let xch = int (toupper ch) in if xch \<ge> 65 then xch - 65 + 10 else xch - 48)"

text \<open>The bytes written so far, oldest first, are \<open>acc\<close>; the result is them and \<open>endp\<close>.\<close>

fun xstring_loop :: "nat \<Rightarrow> bytes \<Rightarrow> string \<Rightarrow> bytes \<times> string" where
  "xstring_loop len acc [] = (acc, [])"
| "xstring_loop len acc (p0 # ps) =
     (if \<not> length acc < len then (acc, p0 # ps)
      else if \<not> isxdigit p0 then xstring_loop len acc ps
      else (case ps of
              [] \<Rightarrow> (acc, p0 # ps)
            | p1 # rest \<Rightarrow>
                if \<not> isxdigit p1 then (acc, p0 # ps)
                else xstring_loop len
                       (acc @ [word_of_int (push_bit 4 (xdigit p0) OR xdigit p1)]) rest))"

definition xstring :: "string \<Rightarrow> nat \<Rightarrow> int \<times> bytes \<times> string" where
  "xstring str len =
     (let (buf, endp) = xstring_loop len [] str in (int (length buf), buf, endp))"

text \<open>An array of \<open>struct ksmap\<close> up to its terminating entry.\<close>

primrec ksmap_find :: "(u64 \<times> string) list \<Rightarrow> u64 \<Rightarrow> (u64 \<times> string) option" where
  "ksmap_find [] key = None"
| "ksmap_find (k # maps) key = (if fst k = key then Some k else ksmap_find maps key)"

fun dec_string :: "nat \<Rightarrow> string" where
  "dec_string n =
     (if n < 10 then [char_of (48 + n)] else dec_string (n div 10) @ [char_of (48 + n mod 10)])"

declare dec_string.simps [simp del]

definition smart_format_size :: "u64 \<Rightarrow> nat \<Rightarrow> string" where
  "smart_format_size byte_addr bufsz =
     (let (addr, units) =
        (if byte_addr \<le> 0x400 \<or> byte_addr AND 0x3ff \<noteq> 0 then (byte_addr, ''B  '')
         else if byte_addr AND 0xfffff \<noteq> 0 then (byte_addr div 0x400, ''KiB'')
         else if byte_addr AND 0x3fffffff \<noteq> 0 then (byte_addr div 0x100000, ''MiB'')
         else (byte_addr div 0x40000000, ''GiB''))
      in snprintf_s bufsz (dec_string (unat addr) @ units))"

section \<open>C library: formatted numbers\<close>

text \<open>A field width pads with spaces on the left, with the flag \<open>-\<close> on the right, with \<open>0\<close> with zeros.\<close>

definition pad_left :: "nat \<Rightarrow> string \<Rightarrow> string" where
  "pad_left n s = replicate (n - length s) (CHR '' '') @ s"

definition pad_right :: "nat \<Rightarrow> string \<Rightarrow> string" where
  "pad_right n s = s @ replicate (n - length s) (CHR '' '')"

text \<open>\<open>%d\<close> of a 32 bit value, and \<open>%x\<close>.\<close>

definition fmt_d :: "u32 \<Rightarrow> string" where
  "fmt_d w = (let i = sint w in if i < 0 then CHR ''-'' # dec_string (nat (- i)) else dec_string (nat i))"

definition hex_char :: "nat \<Rightarrow> char" where
  "hex_char d = char_of (if d < 10 then 48 + d else 87 + d)"

fun hex_string :: "nat \<Rightarrow> string" where
  "hex_string n = (if n < 16 then [hex_char n] else hex_string (n div 16) @ [hex_char (n mod 16)])"

declare hex_string.simps [simp del]

definition pad_zero :: "nat \<Rightarrow> string \<Rightarrow> string" where
  "pad_zero n s = replicate (n - length s) (CHR ''0'') @ s"

text \<open>A file in a directory, in a buffer of 1024 characters.\<close>

definition path_in :: "string \<Rightarrow> string \<Rightarrow> string" where
  "path_in dir name = snprintf_s 1024 (dir @ ''/'' @ name)"

end
