(* ===== verification/StringLaws.thy ===== *)
theory StringLaws
  imports Strings
begin

text \<open>
  What the string helpers guarantee: the in-place replacement computes the textbook
  replacement whenever the result fits, and where its bound check fails to protect the buffer;
  the argument splitter; numbers and sizes read back as printed; hexadecimal dumps read back.
\<close>

section \<open>Replacement in a buffer\<close>

text \<open>The textbook replacement: scan from the left, replace at the first position that matches.\<close>

function replace_all :: "string \<Rightarrow> string \<Rightarrow> string \<Rightarrow> string" where
  "replace_all tok to s =
     (if s = [] then []
      else if tok \<noteq> [] \<and> prefix tok s then to @ replace_all tok to (drop (length tok) s)
      else hd s # replace_all tok to (List.tl s))"
  by pat_completeness auto

termination
  by (relation "measure (\<lambda>(tok, to, s). length s)") (auto simp: prefix_def)

declare replace_all.simps [simp del]

lemma replace_all_Nil [simp]: "replace_all tok to [] = []"
  by (subst replace_all.simps) simp

lemma replace_all_Cons [simp]:
  "replace_all tok to (c # cs) =
     (if tok \<noteq> [] \<and> prefix tok (c # cs) then to @ replace_all tok to (drop (length tok) (c # cs))
      else c # replace_all tok to cs)"
  by (subst replace_all.simps) simp

lemma strstr_Some_length: "strstr s tok = Some off \<Longrightarrow> off + length tok \<le> length s"
  by (induction s arbitrary: off) (auto split: if_splits dest: prefix_length_le)

lemma replace_all_None: "tok \<noteq> [] \<Longrightarrow> strstr s tok = None \<Longrightarrow> replace_all tok to s = s"
  by (induction s) (simp_all split: if_splits)

lemma replace_all_Some:
  "tok \<noteq> [] \<Longrightarrow> strstr s tok = Some off \<Longrightarrow>
     replace_all tok to s = take off s @ to @ replace_all tok to (drop (off + length tok) s)"
proof (induction s arbitrary: off)
  case Nil
  then show ?case by simp
next
  case (Cons c cs)
  show ?case
  proof (cases "prefix tok (c # cs)")
    case True
    with Cons.prems show ?thesis by simp
  next
    case False
    with Cons.prems obtain k where "strstr cs tok = Some k" "off = Suc k" by auto
    with Cons False show ?thesis by simp
  qed
qed

lemma replace_all_grows:
  assumes "tok \<noteq> []" "length tok \<le> length to"
  shows "length s \<le> length (replace_all tok to s)"
proof (induction s rule: length_induct)
  case (1 s)
  show ?case
  proof (cases "strstr s tok")
    case None
    with assms show ?thesis by (simp add: replace_all_None)
  next
    case (Some off)
    have b: "off + length tok \<le> length s" by (rule strstr_Some_length [OF Some])
    have "length (drop (off + length tok) s) < length s"
      using assms b by (cases tok) auto
    then have "length (drop (off + length tok) s)
        \<le> length (replace_all tok to (drop (off + length tok) s))"
      using 1 by blast
    with assms b show ?thesis by (simp add: replace_all_Some [OF _ Some])
  qed
qed

lemma string_replace_loop_fits:
  assumes "tok \<noteq> []"
    and "length to \<le> length tok \<or> length (pre @ replace_all tok to s) < bufsz"
    and "length s < fuel"
  shows "string_replace_loop fuel bufsz tok to pre s = Ok (0, pre @ replace_all tok to s)"
  using assms(2,3)
proof (induction fuel arbitrary: pre s)
  case 0
  then show ?case by simp
next
  case (Suc fuel)
  show ?case
  proof (cases "strstr s tok")
    case None
    with assms(1) show ?thesis by (simp add: replace_all_None)
  next
    case (Some off)
    let ?tail = "drop (off + length tok) s"
    have b: "off + length tok \<le> length s" by (rule strstr_Some_length [OF Some])
    have all: "replace_all tok to s = take off s @ to @ replace_all tok to ?tail"
      by (rule replace_all_Some [OF assms(1) Some])
    have fuel: "length ?tail < fuel"
      using Suc.prems(2) assms(1) b by (cases tok) auto
    have next_ok: "string_replace_loop fuel bufsz tok to ((pre @ take off s) @ to) ?tail
        = Ok (0, ((pre @ take off s) @ to) @ replace_all tok to ?tail)"
      using Suc.IH [of "(pre @ take off s) @ to" ?tail] Suc.prems(1) fuel all by simp
    show ?thesis
    proof (cases "length to \<le> length tok")
      case True
      with Some next_ok all show ?thesis by (simp add: Let_def)
    next
      case False
      have g: "length ?tail \<le> length (replace_all tok to ?tail)"
        using False by (intro replace_all_grows [OF assms(1)]) simp
      have len: "length tok \<ge> 1" using assms(1) by (cases tok) auto
      from Suc.prems(1) False all b g len
      have "length pre + off + length to + length ?tail < bufsz" by simp
      then have "\<not> length to - length tok + length (pre @ take off s) + 1 \<ge> bufsz"
        "\<not> bufsz < length (pre @ take off s) + length to + length ?tail + 1"
        using False b len by auto
      with False Some next_ok all show ?thesis by (simp add: Let_def)
    qed
  qed
qed

text \<open>C19: when the token is not empty and the replacement is no longer than it, or the result
  with its terminator fits in the buffer, \<open>string_replace_in_buffer\<close> returns 0, leaves the
  textbook replacement of every occurrence in the buffer, stays inside it, and stops after at most
  one round per character.\<close>

theorem string_replace_correct:
  assumes "tok \<noteq> []"
    and "length to \<le> length tok \<or> length (replace_all tok to buf) < bufsz"
  shows "string_replace_in_buffer (Suc (length buf)) buf bufsz tok to
           = Ok (0, replace_all tok to buf)"
  using string_replace_loop_fits [of tok to "[]" buf bufsz "Suc (length buf)"] assms
  by (simp add: string_replace_in_buffer_def)

theorem string_replace_correct_witness:
  "string_replace_in_buffer (Suc (length ''a<b<c d'')) ''a<b<c d'' 20 ''<'' ''&lt;''
     = Ok (0, ''a&lt;b&lt;c d'')"
  using string_replace_correct [of "''<''" "''&lt;''" "''a<b<c d''" 20]
  by simp

text \<open>The bound check of \<open>string_replace_in_buffer\<close> leaves out the text after the token.
  Whenever a longer replacement passes the check although the text after one replacement does not fit,
  the move of the tail writes behind the end of the buffer.\<close>

theorem string_replace_overflow:
  assumes "strstr buf tok = Some off" "length tok < length to"
    and "length to - length tok + off + 1 < bufsz"
    and "bufsz < length buf + (length to - length tok) + 1"
  shows "string_replace_in_buffer (Suc fuel) buf bufsz tok to = Oob"
proof -
  have b: "off + length tok \<le> length buf" by (rule strstr_Some_length [OF assms(1)])
  then have "bufsz < off + length to + (length buf - (off + length tok)) + 1"
    using assms by arith
  with assms b show ?thesis
    by (simp add: string_replace_in_buffer_def Let_def min_absorb2)
qed

theorem string_replace_overflow_witness:
  "string_replace_in_buffer 1 ''abcdefg'' 8 ''a'' ''xyz'' = Oob"
  using string_replace_overflow [of "''abcdefg''" "''a''" 0 "''xyz''" 8 0] by simp

section \<open>Splitting an argument line\<close>

text \<open>The textbook tokens of a text: the non-empty pieces between delimiters.\<close>

fun pieces :: "string \<Rightarrow> string \<Rightarrow> string list" where
  "pieces delim [] = [[]]"
| "pieces delim (c # cs) =
     (if c \<in> set delim then [] # pieces delim cs
      else (case pieces delim cs of [] \<Rightarrow> [[c]] | w # ws \<Rightarrow> (c # w) # ws))"

definition tokens :: "string \<Rightarrow> string \<Rightarrow> string list" where
  "tokens delim s = filter (\<lambda>w. w \<noteq> []) (pieces delim s)"

lemma pieces_not_Nil [simp]: "pieces delim s \<noteq> []"
  by (cases s) (auto split: list.splits)

lemma pieces_word:
  "\<forall>c\<in>set w. c \<notin> set delim \<Longrightarrow>
     pieces delim (w @ s) = (w @ hd (pieces delim s)) # List.tl (pieces delim s)"
proof (induction w)
  case Nil
  then show ?case by (simp add: hd_Cons_tl)
next
  case (Cons c w)
  then show ?case by simp
qed

lemma tokens_skip: "tokens delim (dropWhile (\<lambda>c. c \<in> set delim) s) = tokens delim s"
  by (induction s) (simp_all add: tokens_def)

lemma tokens_word_end:
  "w \<noteq> [] \<Longrightarrow> \<forall>c\<in>set w. c \<notin> set delim \<Longrightarrow> tokens delim w = [w]"
  using pieces_word [of w delim "[]"] by (simp add: tokens_def)

lemma tokens_word_delim:
  "w \<noteq> [] \<Longrightarrow> \<forall>c\<in>set w. c \<notin> set delim \<Longrightarrow> d \<in> set delim \<Longrightarrow>
     tokens delim (w @ d # s) = w # tokens delim s"
  using pieces_word [of w delim "d # s"] by (simp add: tokens_def)

lemma strtok_r_tokens:
  "(case strtok_r delim s of None \<Rightarrow> [] | Some (t, rest) \<Rightarrow> t # tokens delim rest) = tokens delim s"
proof -
  define s1 where "s1 = dropWhile (\<lambda>c. c \<in> set delim) s"
  define w where "w = takeWhile (\<lambda>c. c \<notin> set delim) s1"
  define r where "r = dropWhile (\<lambda>c. c \<notin> set delim) s1"
  have eq: "tokens delim s = tokens delim s1" by (simp add: s1_def tokens_skip)
  show ?thesis
  proof (cases "s1 = []")
    case True
    have "tokens delim [] = []" by (simp add: tokens_def)
    with True show ?thesis by (simp add: eq strtok_r_def s1_def [symmetric])
  next
    case False
    have hd: "hd s1 \<notin> set delim"
      using False unfolding s1_def by (rule hd_dropWhile)
    have w: "w \<noteq> []" using False hd by (cases s1) (auto simp: w_def)
    have ws: "\<forall>c\<in>set w. c \<notin> set delim" by (auto simp: w_def dest: set_takeWhileD)
    have s1: "s1 = w @ r" by (simp add: w_def r_def)
    have st: "strtok_r delim s = Some (w, drop 1 r)"
      using False by (simp add: strtok_r_def s1_def [symmetric] w_def r_def)
    show ?thesis
    proof (cases r)
      case Nil
      with w ws s1 st eq show ?thesis by (simp add: tokens_word_end) (simp add: tokens_def)
    next
      case (Cons d r')
      have "d \<in> set delim"
        using hd_dropWhile [of "\<lambda>c. c \<notin> set delim" s1] Cons unfolding r_def by simp
      with Cons w ws s1 st eq show ?thesis by (simp add: tokens_word_delim)
    qed
  qed
qed

lemma argv_split_loop_tokens: "argv_split_loop room delim s = take room (tokens delim s)"
proof (induction room arbitrary: s)
  case 0
  then show ?case by simp
next
  case (Suc room)
  show ?case
    using strtok_r_tokens [of delim s, symmetric] Suc by (auto split: option.splits)
qed

text \<open>\<open>argv_buffer_split_with_delim\<close> stores the first \<open>sz_argv - 1\<close> textbook tokens of the
  line, in order, and returns their number, so the terminating NULL is inside the vector, for every
  size but 1, where a line with a token makes it write the second element of a vector of one.\<close>

theorem argv_split_tokens:
  "argv_buffer_split_with_delim (Some line) (Some delim) sz_argv =
     (let argv = take (sz_argv - 1) (tokens delim line) in
      if sz_argv = 1 \<and> tokens delim line \<noteq> [] then Oob else Ok (int (length argv), argv))"
proof (cases "strtok_r delim line")
  case None
  then show ?thesis
    using strtok_r_tokens [of delim line] by (simp add: argv_buffer_split_with_delim_def)
next
  case (Some p)
  obtain t rest where p: "p = (t, rest)" by (cases p)
  have tok: "tokens delim line = t # tokens delim rest"
    using strtok_r_tokens [of delim line] Some p by simp
  consider "sz_argv = 0" | "sz_argv = 1" | k where "sz_argv = Suc (Suc k)"
    by (metis One_nat_def nat.exhaust)
  then show ?thesis
    using Some p tok
    by cases (simp_all add: argv_buffer_split_with_delim_def argv_split_loop_tokens Let_def min_def)
qed

section \<open>Numbers read back as printed\<close>

definition digit :: "nat \<Rightarrow> char" where
  "digit d = char_of (48 + d)"

lemma of_char_digit: "d < 10 \<Longrightarrow> (of_char (digit d) :: nat) = 48 + d"
  by (simp add: digit_def)

lemma digit_class:
  assumes "d < 10"
  shows "digit_value (digit d) = Some d" "is_digit_in 10 (digit d)" "\<not> isspace (digit d)"
    "digit d \<noteq> CHR ''-''" "digit d \<noteq> CHR ''+''"
proof -
  have n: "(of_char (digit d) :: nat) = 48 + d" by (rule of_char_digit [OF assms])
  show "digit_value (digit d) = Some d" using assms by (simp add: digit_value_def n Let_def)
  then show "is_digit_in 10 (digit d)" using assms by (simp add: is_digit_in_def)
  have ne: "\<And>c. (of_char c :: nat) < 48 \<Longrightarrow> digit d \<noteq> c" using n by auto
  show "\<not> isspace (digit d)" using assms n ne [of "CHR '' ''"] by (simp add: isspace_def)
  show "digit d \<noteq> CHR ''-''" "digit d \<noteq> CHR ''+''" by (rule ne; simp)+
qed

lemma dec_string_less: "n < 10 \<Longrightarrow> dec_string n = [digit n]"
  by (simp add: dec_string.simps [of n] digit_def)

lemma dec_string_ge: "\<not> n < 10 \<Longrightarrow> dec_string n = dec_string (n div 10) @ [digit (n mod 10)]"
  by (simp add: dec_string.simps [of n] digit_def)

lemma dec_string_not_Nil [simp]: "dec_string n \<noteq> []"
  by (cases "n < 10") (simp_all add: dec_string_less dec_string_ge)

lemma dec_string_hd: "\<exists>d<10. hd (dec_string n) = digit d \<and> (0 < n \<longrightarrow> 0 < d)"
proof (induction n rule: less_induct)
  case (less n)
  show ?case
  proof (cases "n < 10")
    case True
    then show ?thesis by (auto simp: dec_string_less)
  next
    case False
    then have "n div 10 < n" "0 < n div 10" by auto
    with less.IH [of "n div 10"] False show ?thesis by (auto simp: dec_string_ge)
  qed
qed

lemma read_digits_dec:
  "\<exists>k. 10 ^ k > n \<and> (\<forall>acc rest. read_digits 10 acc (dec_string n @ rest)
     = read_digits 10 (acc * 10 ^ k + n) rest)"
proof (induction n rule: less_induct)
  case (less n)
  show ?case
  proof (cases "n < 10")
    case True
    then show ?thesis
      by (intro exI [of _ 1]) (simp add: dec_string_less digit_class)
  next
    case False
    then have "n div 10 < n" by simp
    from less.IH [OF this] obtain k where k: "10 ^ k > n div 10"
      "\<And>acc rest. read_digits 10 acc (dec_string (n div 10) @ rest)
         = read_digits 10 (acc * 10 ^ k + n div 10) rest" by blast
    have m: "n mod 10 < 10" by simp
    have "read_digits 10 acc (dec_string n @ rest) = read_digits 10 (acc * 10 ^ Suc k + n) rest"
      for acc rest
    proof -
      have "read_digits 10 acc (dec_string n @ rest)
          = read_digits 10 ((acc * 10 ^ k + n div 10) * 10 + n mod 10) rest"
        using False k(2) by (simp add: dec_string_ge digit_class [OF m])
      also have "(acc * 10 ^ k + n div 10) * 10 + n mod 10 = acc * 10 ^ Suc k + n"
        using div_mult_mod_eq [of n 10] by (simp add: algebra_simps)
      finally show ?thesis .
    qed
    moreover have "10 ^ Suc k > n" using k(1) by (simp add: div_less_iff_less_mult)
    ultimately show ?thesis by blast
  qed
qed

lemma strtonum_dec:
  assumes "base = 10 \<or> base = 0 \<and> 0 < n" "rest = [] \<or> \<not> is_digit_in 10 (hd rest)"
  shows "strtonum base (dec_string n @ rest) = (False, n, rest)"
proof -
  obtain d ds where d: "dec_string n = digit d # ds" "d < 10" "0 < n \<longrightarrow> 0 < d"
    using dec_string_hd [of n] by (metis dec_string_not_Nil list.collapse)
  have z: "base = 0 \<Longrightarrow> digit d \<noteq> CHR ''0''"
    using d assms(1) of_char_digit [of d] by auto
  have b: "strip_base base (digit d # ds @ rest) = (10, digit d # ds @ rest)"
    using assms(1) z by (auto simp: strip_base_def)
  obtain k where k: "\<And>acc rest. read_digits 10 acc (dec_string n @ rest)
      = read_digits 10 (acc * 10 ^ k + n) rest"
    using read_digits_dec [of n] by blast
  have r: "read_digits 10 n rest = (n, rest)"
    using assms(2) by (cases rest) auto
  have "read_digits 10 0 (digit d # ds @ rest) = (n, rest)"
    using k [of 0 rest] r d(1) by simp
  with d b show ?thesis
    by (simp add: strtonum_def strip_sign_def digit_class [OF d(2)] Let_def)
qed

text \<open>\<open>strict_strtoul\<close> reads back every 64 bit number printed in decimal, in base 10 and, unless
  it is zero, in base 0, without an error; and a number followed by one of the tail characters is
  accepted exactly when that tail is given.\<close>

theorem strict_strtoul_dec:
  assumes "n < 2 ^ 64" "base = 10 \<or> base = 0 \<and> 0 < n" "\<not> is_digit_in 10 c"
  shows "strict_strtoul (dec_string n) base None = (word_of_nat n, 0) \<and>
    strict_strtoul (dec_string n @ [c]) base None = (word_of_nat n, 1) \<and>
    strict_strtoul (dec_string n @ [c]) base (Some t) = (word_of_nat n, if c \<in> set t then 0 else 1)"
  using strtonum_dec [OF assms(2), of "[]"] strtonum_dec [OF assms(2), of "[c]"] assms
  by (simp_all add: strict_strtoul_def strtoul_def strict_err_def)

theorem strict_strtoul_dec_witness:
  "strict_strtoul (dec_string 4096) 0 None = (4096, 0)"
  using strict_strtoul_dec [of 4096 0 "CHR ''K''"]
  by (simp add: is_digit_in_def digit_value_def)

text \<open>The factor of the unit that \<open>smart_format_size\<close> prints.\<close>

definition unit_factor :: "string \<Rightarrow> nat" where
  "unit_factor u =
     (if u = ''KiB'' then 2 ^ 10 else if u = ''MiB'' then 2 ^ 20 else if u = ''GiB'' then 2 ^ 30 else 1)"

lemma mask_zero_dvd:
  assumes "a AND of_nat (2 ^ k - 1) = (0 :: 64 word)" "k < 64"
  shows "2 ^ k dvd unat a"
proof -
  have "of_nat (2 ^ k - 1) = (Bit_Operations.mask k :: 64 word)"
    by (simp add: mask_eq_exp_minus_1 of_nat_diff)
  with assms have "take_bit k a = 0" by (simp add: take_bit_eq_mask)
  then have "take_bit k (unat a) = 0" by (metis unsigned_0 unsigned_take_bit_eq)
  then show ?thesis by (simp add: take_bit_eq_mod dvd_eq_mod_eq_0)
qed

lemma unat_div_exact:
  "unat b = f \<Longrightarrow> f dvd unat (a :: 64 word) \<Longrightarrow> unat (a div b) * f = unat a"
  by (simp add: unat_div)

lemma length_dec_string: "n < 10 ^ Suc k \<Longrightarrow> length (dec_string n) \<le> Suc k"
proof (induction k arbitrary: n)
  case 0
  then show ?case by (simp add: dec_string_less)
next
  case (Suc k)
  show ?case
  proof (cases "n < 10")
    case True
    then show ?thesis by (simp add: dec_string_less)
  next
    case False
    have "n div 10 < 10 ^ Suc k" using Suc.prems by (simp add: div_less_iff_less_mult)
    with Suc.IH False show ?thesis by (simp add: dec_string_ge)
  qed
qed

lemma smart_format_size_cases:
  assumes "24 \<le> bufsz"
  obtains u n where "smart_format_size a bufsz = dec_string n @ u" "n * unit_factor u = unat a"
    "u \<in> {''B  '', ''KiB'', ''MiB'', ''GiB''}"
proof -
  have len: "length (dec_string (unat b)) \<le> 20" for b :: "64 word"
  proof -
    have "unat b < 2 ^ LENGTH(64)" by (rule unsigned_less)
    then show ?thesis using length_dec_string [of "unat b" 19] by simp
  qed
  have fmt: "snprintf_s bufsz (dec_string (unat b) @ u) = dec_string (unat b) @ u"
    if "length u = 3" for b :: "64 word" and u
    using that len [of b] assms by (simp add: snprintf_s_def)
  consider (B) "a \<le> 0x400 \<or> a AND 0x3ff \<noteq> 0"
    | (K) "\<not> (a \<le> 0x400 \<or> a AND 0x3ff \<noteq> 0)" "a AND 0xfffff \<noteq> 0"
    | (M) "\<not> (a \<le> 0x400 \<or> a AND 0x3ff \<noteq> 0)" "a AND 0xfffff = 0" "a AND 0x3fffffff \<noteq> 0"
    | (G) "\<not> (a \<le> 0x400 \<or> a AND 0x3ff \<noteq> 0)" "a AND 0xfffff = 0" "a AND 0x3fffffff = 0"
    by blast
  then show thesis
  proof cases
    case B
    then show thesis
      by (intro that [of "unat a" "''B  ''"]) (simp_all add: smart_format_size_def fmt unit_factor_def)
  next
    case K
    then have "2 ^ 10 dvd unat a" using mask_zero_dvd [of a 10] by simp
    then have "unat (a div 0x400) * 2 ^ 10 = unat a" by (intro unat_div_exact) simp_all
    with K show thesis
      by (intro that [of "unat (a div 0x400)" "''KiB''"])
        (simp_all add: smart_format_size_def fmt unit_factor_def)
  next
    case M
    then have "2 ^ 20 dvd unat a" using mask_zero_dvd [of a 20] by simp
    then have "unat (a div 0x100000) * 2 ^ 20 = unat a" by (intro unat_div_exact) simp_all
    with M show thesis
      by (intro that [of "unat (a div 0x100000)" "''MiB''"])
        (simp_all add: smart_format_size_def fmt unit_factor_def)
  next
    case G
    then have "2 ^ 30 dvd unat a" using mask_zero_dvd [of a 30] by simp
    then have "unat (a div 0x40000000) * 2 ^ 30 = unat a" by (intro unat_div_exact) simp_all
    with G show thesis
      by (intro that [of "unat (a div 0x40000000)" "''GiB''"])
        (simp_all add: smart_format_size_def fmt unit_factor_def)
  qed
qed

text \<open>what \<open>smart_format_size\<close> prints into a buffer of at least 24 bytes reads back exactly: the
  number in front times the factor of the unit behind it is the size, with no rounding.\<close>

theorem smart_format_size_exact:
  assumes "24 \<le> bufsz"
  shows "(case strtonum 10 (smart_format_size a bufsz) of
           (neg, n, u) \<Rightarrow> \<not> neg \<and> u \<in> {''B  '', ''KiB'', ''MiB'', ''GiB''} \<and> n * unit_factor u = unat a)"
proof -
  obtain u n where u: "smart_format_size a bufsz = dec_string n @ u" "n * unit_factor u = unat a"
    "u \<in> {''B  '', ''KiB'', ''MiB'', ''GiB''}"
    by (rule smart_format_size_cases [OF assms])
  from u(3) have "\<not> is_digit_in 10 (hd u)" by (auto simp: is_digit_in_def digit_value_def)
  then have "strtonum 10 (smart_format_size a bufsz) = (False, n, u)"
    using strtonum_dec [of 10 n] u(1) by simp
  with u show ?thesis by simp
qed

theorem smart_format_size_exact_witness:
  "case strtonum 10 (smart_format_size 0x180000 32) of
     (neg, n, u) \<Rightarrow> \<not> neg \<and> u \<in> {''B  '', ''KiB'', ''MiB'', ''GiB''} \<and> n * unit_factor u = 0x180000"
  using smart_format_size_exact [of 32 "0x180000"] by simp

section \<open>Hexadecimal dumps\<close>

text \<open>The two lower case digits of a byte, as \<open>%02x\<close> prints them.\<close>

definition hex2 :: "8 word \<Rightarrow> string" where
  "hex2 b = [hex_char (unat b div 16), hex_char (unat b mod 16)]"

lemma hex_char_facts: "d < 16 \<Longrightarrow> isxdigit (hex_char d) \<and> xdigit (hex_char d) = int d"
  by (auto simp: isxdigit_def isdigit_def xdigit_def toupper_def hex_char_def Let_def)

lemma nibbles_byte: "word_of_int (push_bit 4 (int (unat b div 16)) OR int (unat b mod 16)) = (b :: 8 word)"
proof -
  have "push_bit 4 (int (unat b div 16)) OR int (unat b mod 16)
      = push_bit 4 (drop_bit 4 (int (unat b))) OR take_bit 4 (int (unat b))"
    by (simp add: drop_bit_eq_div take_bit_eq_mod zdiv_int zmod_int)
  also have "\<dots> = int (unat b)" by (rule bit_eqI) (auto simp: bit_or_iff bit_push_bit_iff bit_drop_bit_eq bit_take_bit_iff)
  finally show ?thesis by simp
qed

lemma xstring_loop_hex2:
  "length acc < len \<Longrightarrow> xstring_loop len acc (hex2 b @ s) = xstring_loop len (acc @ [b]) s"
  using hex_char_facts [of "unat b div 16"] hex_char_facts [of "unat b mod 16"]
    nibbles_byte [of b] unat_u8_less [of b]
  by (simp add: hex2_def Let_def)

lemma xstring_loop_sep:
  "\<forall>c\<in>set sep. \<not> isxdigit c \<Longrightarrow> length acc < len \<Longrightarrow>
     xstring_loop len acc (sep @ s) = xstring_loop len acc s"
  by (induction sep) simp_all

lemma xstring_loop_full: "len \<le> length acc \<Longrightarrow> xstring_loop len acc s = (acc, s)"
  by (cases s) simp_all

lemma xstring_loop_dump:
  assumes "\<forall>c\<in>set sep. \<not> isxdigit c"
  shows "length acc + length bs \<le> len \<Longrightarrow> fst (xstring_loop len acc (concat (map (\<lambda>b. sep @ hex2 b) bs)))
    = acc @ bs"
proof (induction bs arbitrary: acc)
  case Nil
  then show ?case by simp
next
  case (Cons b bs)
  then have l: "length acc < len" by simp
  show ?case
    using Cons.IH [of "acc @ [b]"] Cons.prems l
    by (simp add: xstring_loop_sep [OF assms] xstring_loop_hex2)
qed

text \<open>\<open>xstring\<close> reads a hexadecimal dump back: whatever text without hexadecimal digits separates
  the bytes, it stores exactly the dumped bytes and returns their number.\<close>

theorem xstring_dump:
  assumes "\<forall>c\<in>set sep. \<not> isxdigit c" "length bs \<le> len"
  shows "\<exists>endp. xstring (concat (map (\<lambda>b. sep @ hex2 b) bs)) len = (int (length bs), bs, endp)"
  using xstring_loop_dump [OF assms(1), of "[]" bs len] assms(2)
  by (auto simp: xstring_def split: prod.splits)

theorem xstring_dump_witness:
  "\<exists>endp. xstring '', de, ad, 0f'' 8 = (3, [0xde, 0xad, 0x0f], endp)"
  using xstring_dump [of "'', ''" "[0xde, 0xad, 0x0f]" 8]
  by (simp add: isxdigit_def isdigit_def hex2_def hex_char_def char_of_def bit_0)

section \<open>Lines and C strings\<close>

lemma special_chars [simp]:
  "isspace newline" "isspace (CHR '' '')" "\<not> isspace quote" "\<not> isspace (CHR ''['')" "\<not> isspace (CHR '']'')"
  "\<not> isspace (CHR ''='')" "quote \<noteq> CHR ''=''" "quote \<noteq> CHR '';''" "quote \<noteq> CHR '']''" "quote \<noteq> nul"
  "quote \<noteq> newline" "newline \<noteq> CHR '']''" "newline \<noteq> CHR ''=''" "newline \<noteq> CHR '' ''" "nul \<noteq> CHR '' ''"
  "nul \<noteq> CHR ''=''" "newline \<noteq> CHR ''[''" "nul \<noteq> CHR ''[''" "nul \<noteq> CHR '']''" "nul \<noteq> newline" "newline \<noteq> nul"
  by (simp_all add: isspace_def newline_def quote_def nul_def char_of_def bit_0)

lemma digit_special:
  "d < 10 \<Longrightarrow> digit d \<noteq> quote \<and> digit d \<noteq> nul \<and> digit d \<noteq> newline \<and> digit d \<noteq> CHR ''='' \<and> digit d \<noteq> CHR '';'' \<and>
     digit d \<noteq> CHR '']''"
  using of_char_digit [of d] by (auto simp: quote_def nul_def newline_def)

lemma dec_string_digits: "c \<in> set (dec_string n) \<Longrightarrow> \<exists>d<10. c = digit d"
proof (induction n arbitrary: c rule: less_induct)
  case (less n)
  show ?case
  proof (cases "n < 10")
    case True
    with less.prems show ?thesis by (auto simp: dec_string_less)
  next
    case False
    then have d: "n div 10 < n" "n mod 10 < 10" by auto
    from less.prems False have "c \<in> set (dec_string (n div 10)) \<or> c = digit (n mod 10)"
      by (auto simp: dec_string_ge)
    with less.IH [OF d(1)] d(2) show ?thesis by blast
  qed
qed

lemma dec_string_class:
  "c \<in> set (dec_string n) \<Longrightarrow> \<not> isspace c \<and> c \<noteq> quote \<and> c \<noteq> nul \<and> c \<noteq> newline \<and> c \<noteq> CHR ''='' \<and> c \<noteq> CHR '';'' \<and>
     c \<noteq> CHR '']''"
  using dec_string_digits [of c n] by (auto simp: digit_special digit_class)

lemma fgets_line:
  "newline \<notin> set l \<Longrightarrow> length l < n \<Longrightarrow> fgets_room n (l @ newline # rest) = (l @ [newline], rest)"
  by (induction l arbitrary: n) auto

lemma c_string_line: "nul \<notin> set l \<Longrightarrow> c_string (l @ [newline]) = l @ [newline]"
proof -
  assume "nul \<notin> set l"
  then have "\<forall>c\<in>set (l @ [newline]). c \<noteq> nul" by auto
  then show ?thesis unfolding c_string_def by (rule takeWhile_eq_all_conv [THEN iffD2])
qed

lemma string_of_bytes_of_string: "nul \<notin> set s \<Longrightarrow> string_of_bytes (bytes_of_string s @ [0]) = s"
proof (induction s)
  case Nil
  then show ?case by (simp add: string_of_bytes_def bytes_of_string_def)
next
  case (Cons c s)
  have lt: "(of_char c :: nat) < 256" by simp
  then have u: "unat (word_of_nat (of_char c) :: 8 word) = of_char c"
    by (simp add: unsigned_of_nat take_bit_nat_eq_self)
  have "(word_of_nat (of_char c) :: 8 word) \<noteq> 0"
  proof
    assume "(word_of_nat (of_char c) :: 8 word) = 0"
    then have "(of_char c :: nat) = 0" using u by simp
    then have "c = nul" by (metis char_of_char nul_def)
    with Cons.prems show False by simp
  qed
  with Cons u show ?case by (simp add: string_of_bytes_def bytes_of_string_def)
qed

end
