(* ===== verification/Exini.thy ===== *)
theory Exini
  imports Strings
begin

text \<open>
  The extended ini parser (exini.c, exini.h). The two linked lists are the sequences of their entries
  (theory Lists), the pointer to the current section is its position in the list of sections, a
  \<open>FILE\<close> opened for reading is the text left in it. The property handler of the caller is a
  function that may change the section and the private data of the parser; its type is the
  type of \<open>exini_prop_handler_cb_t\<close>.
\<close>

section \<open>exini.h\<close>

definition EXINI_PROP_DATA_TYPE_NULL :: int where "EXINI_PROP_DATA_TYPE_NULL = 0"
definition EXINI_PROP_DATA_TYPE_ULONG :: int where "EXINI_PROP_DATA_TYPE_ULONG = 1"
definition EXINI_PROP_DATA_TYPE_STRING :: int where "EXINI_PROP_DATA_TYPE_STRING = 2"
definition EXINI_PROP_DATA_TYPE_UNKNOWN :: int where "EXINI_PROP_DATA_TYPE_UNKNOWN = 3"
definition EXINI_PROP_DATA_TYPE_CUSTOM :: int where "EXINI_PROP_DATA_TYPE_CUSTOM = 0x80"

definition EXINI_ERR_NOT_DEFINED :: int where "EXINI_ERR_NOT_DEFINED = 1"
definition EXINI_ERR_BAD_TYPE :: int where "EXINI_ERR_BAD_TYPE = 2"

definition EXINI_QUIRK_ANONYMOUS_SECTION :: u32 where "EXINI_QUIRK_ANONYMOUS_SECTION = push_bit 0 1"
definition EXINI_QUIRK_DTBOCFG :: u32 where "EXINI_QUIRK_DTBOCFG = push_bit 1 1"

record exini_property =
  prop_name :: string
  data_type :: int
  data_sz :: nat
  prop_data :: bytes

record exini_section =
  global_index :: nat
  properties :: "exini_property list"
  n_properties :: nat
  section_name :: string

type_synonym 'p exini_prop_handler_cb_t =
  "exini_section \<Rightarrow> string \<Rightarrow> string \<Rightarrow> 'p \<Rightarrow> int \<times> exini_section \<times> 'p"

record 'p exini =
  sections :: "exini_section list"
  enable_unknown_data :: bool
  prop_handler :: "'p exini_prop_handler_cb_t option"
  total_sections :: nat
  private_data :: 'p
  quirks :: u32

section \<open>Sections and properties\<close>

definition exini_has_quirks :: "'p exini \<Rightarrow> u32 \<Rightarrow> bool" where
  "exini_has_quirks ini q = (if q = 0 then True else quirks ini AND q \<noteq> 0)"

text \<open>\<open>mem\<close> says whether \<open>calloc\<close> succeeds.\<close>

definition exini_alloc_section :: "bool \<Rightarrow> string option \<Rightarrow> nat \<Rightarrow> exini_section option" where
  "exini_alloc_section mem name idx =
     (if \<not> mem then None
      else Some \<lparr>global_index = idx, properties = [], n_properties = 0,
                 section_name = (case name of None \<Rightarrow> [] | Some n \<Rightarrow> snprintf_s 128 n)\<rparr>)"

definition exini_add_property ::
    "bool \<Rightarrow> exini_section \<Rightarrow> string \<Rightarrow> int \<Rightarrow> bytes \<Rightarrow> nat \<Rightarrow> int \<times> exini_section" where
  "exini_add_property mem sec name ty data sz =
     (if \<not> mem then (-1, sec)
      else
        let prop = \<lparr>prop_name = snprintf_s 128 name, data_type = ty, data_sz = sz, prop_data = take sz data\<rparr>
        in (0, sec\<lparr>properties := properties sec @ [prop], n_properties := n_properties sec + 1\<rparr>))"

text \<open>Type -1 is the value that no branch took.\<close>

definition exini_default_kv_handler ::
    "bool \<Rightarrow> exini_section \<Rightarrow> bool \<Rightarrow> string \<Rightarrow> string \<Rightarrow> int \<times> exini_section" where
  "exini_default_kv_handler mem sec enable_unknown key value =
     (let (ty, data, sz) =
        (if value = [] then (EXINI_PROP_DATA_TYPE_NULL, [], 0)
         else if hd value = quote \<and> last value = quote then
           let text = snprintf_s 128 (butlast (List.tl value))
           in (EXINI_PROP_DATA_TYPE_STRING, bytes_of_string text @ [0], length text + 1)
         else
           let (ul, endp) = strtoul 0 value
           in if endp = [] then (EXINI_PROP_DATA_TYPE_ULONG, le_encode 8 (unat ul), 8)
              else if enable_unknown then
                let text = snprintf_s 128 value
                in (EXINI_PROP_DATA_TYPE_UNKNOWN, bytes_of_string text @ [0], length text + 1)
              else (-1, [], 0))
      in if ty < 0 then (-1, sec)
         else let (ret, sec') = exini_add_property mem sec key ty data sz
              in if ret < 0 then (-1, sec') else (0, sec'))"

definition exini_find_section :: "'p exini \<Rightarrow> string \<Rightarrow> nat option" where
  "exini_find_section ini name =
     (let n = length (takeWhile (\<lambda>s. section_name s \<noteq> name) (sections ini))
      in if n < length (sections ini) then Some n else None)"

definition exini_find_section_byid :: "'p exini \<Rightarrow> nat \<Rightarrow> exini_section option" where
  "exini_find_section_byid ini i = find (\<lambda>s. global_index s = i) (sections ini)"

definition exini_find_section_property :: "exini_section \<Rightarrow> string \<Rightarrow> exini_property option" where
  "exini_find_section_property sec name = find (\<lambda>p. prop_name p = name) (properties sec)"

definition exini_find_property :: "'p exini \<Rightarrow> string \<Rightarrow> string \<Rightarrow> exini_property option" where
  "exini_find_property ini sname pname =
     (case exini_find_section ini sname of
        None \<Rightarrow> None
      | Some i \<Rightarrow> exini_find_section_property (sections ini ! i) pname)"

text \<open>The readers give the value and what is stored through a non-null \<open>err\<close>.\<close>

definition exini_property_read_ulong :: "exini_property \<Rightarrow> u64 \<Rightarrow> u64 \<times> int" where
  "exini_property_read_ulong prop defv =
     (if data_type prop = EXINI_PROP_DATA_TYPE_ULONG
      then (word_of_nat (le_decode (take 8 (prop_data prop))), 0)
      else (defv, EXINI_ERR_BAD_TYPE))"

definition exini_section_read_ulong :: "exini_section \<Rightarrow> string \<Rightarrow> u64 \<Rightarrow> u64 \<times> int" where
  "exini_section_read_ulong sec pname defv =
     (case exini_find_section_property sec pname of
        None \<Rightarrow> (defv, EXINI_ERR_NOT_DEFINED)
      | Some prop \<Rightarrow> exini_property_read_ulong prop defv)"

definition exini_read_ulong :: "'p exini \<Rightarrow> string \<Rightarrow> string \<Rightarrow> u64 \<Rightarrow> u64 \<times> int" where
  "exini_read_ulong ini sname pname defv =
     (case exini_find_property ini sname pname of
        None \<Rightarrow> (defv, EXINI_ERR_NOT_DEFINED)
      | Some prop \<Rightarrow> exini_property_read_ulong prop defv)"

definition exini_property_read_string ::
    "exini_property \<Rightarrow> string option \<Rightarrow> bool \<Rightarrow> string option \<times> int" where
  "exini_property_read_string prop defv enable_unknown =
     (if data_type prop = EXINI_PROP_DATA_TYPE_STRING then (Some (string_of_bytes (prop_data prop)), 0)
      else if data_type prop = EXINI_PROP_DATA_TYPE_UNKNOWN \<and> enable_unknown
      then (Some (string_of_bytes (prop_data prop)), 0)
      else (defv, 1))"

definition exini_section_read_string ::
    "exini_section \<Rightarrow> string \<Rightarrow> string option \<Rightarrow> bool \<Rightarrow> string option \<times> int" where
  "exini_section_read_string sec pname defv enable_unknown =
     (case exini_find_section_property sec pname of
        None \<Rightarrow> (defv, EXINI_ERR_NOT_DEFINED)
      | Some prop \<Rightarrow> exini_property_read_string prop defv enable_unknown)"

definition exini_read_string ::
    "'p exini \<Rightarrow> string \<Rightarrow> string \<Rightarrow> string option \<Rightarrow> string option \<times> int" where
  "exini_read_string ini sname pname defv =
     (case exini_find_property ini sname pname of
        None \<Rightarrow> (defv, EXINI_ERR_NOT_DEFINED)
      | Some prop \<Rightarrow> exini_property_read_string prop defv (enable_unknown_data ini))"

section \<open>Lines\<close>

text \<open>A property line that belongs to the section at this position, or to none.\<close>

definition exini_load_property ::
    "bool \<Rightarrow> 'p exini \<Rightarrow> nat option \<Rightarrow> string \<Rightarrow> int \<times> 'p exini" where
  "exini_load_property mem ini sec s =
     (if string_count_char s (CHR ''='') \<noteq> 1 then (-1, ini)
      else case sec of
        None \<Rightarrow> (-1, ini)
      | Some i \<Rightarrow>
          let key = string_remove_eol_space (string_skip_head_space (takeWhile (\<lambda>c. c \<noteq> CHR ''='') s));
              value = string_remove_eol_space
                (string_skip_head_space (drop 1 (dropWhile (\<lambda>c. c \<noteq> CHR ''='') s)))
          in if string_count_space key > 0 then (-1, ini)
             else if (value = [] \<or> hd value \<noteq> quote) \<and> string_count_space value > 0 then (-1, ini)
             else case prop_handler ini of
                 Some handler \<Rightarrow>
                   let (ret, sec', priv) = handler (sections ini ! i) key value (private_data ini)
                   in (ret, ini\<lparr>sections := (sections ini)[i := sec'], private_data := priv\<rparr>)
               | None \<Rightarrow>
                   let (ret, sec') = exini_default_kv_handler mem (sections ini ! i)
                                       (enable_unknown_data ini) key value
                   in (ret, ini\<lparr>sections := (sections ini)[i := sec']\<rparr>))"

text \<open>\<open>strrchr\<close>: the text before the last occurrence of the character.\<close>

definition before_last :: "char \<Rightarrow> string \<Rightarrow> string" where
  "before_last c s = rev (drop 1 (dropWhile (\<lambda>x. x \<noteq> c) (rev s)))"

definition remove_eol_comment :: "'p exini \<Rightarrow> string \<Rightarrow> string" where
  "remove_eol_comment ini start =
     (let s = string_remove_eol_space start;
          c = (if exini_has_quirks ini EXINI_QUIRK_DTBOCFG then CHR ''#'' else CHR '';'')
      in if c \<in> set s \<and> quote \<notin> set (drop 1 s) then before_last c s else s)"

text \<open>
  The section handlers return -1 on failure, 0 when the line is not a section, 1 when it is, the parser
  and the current section.
\<close>

definition exini_new_section :: "bool \<Rightarrow> 'p exini \<Rightarrow> string option \<Rightarrow> nat option \<Rightarrow> int \<times> 'p exini \<times> nat option" where
  "exini_new_section mem ini name cur =
     (let ini' = ini\<lparr>total_sections := total_sections ini + 1\<rparr>
      in case exini_alloc_section mem name (total_sections ini) of
           None \<Rightarrow> (-1, ini', cur)
         | Some sec \<Rightarrow>
             (1, ini'\<lparr>sections := sections ini @ [sec]\<rparr>, Some (length (sections ini))))"

definition exini_handle_stand_section ::
    "bool \<Rightarrow> 'p exini \<Rightarrow> string \<Rightarrow> nat option \<Rightarrow> int \<times> 'p exini \<times> nat option" where
  "exini_handle_stand_section mem ini s cur =
     (if \<not> (hd s = CHR ''['' \<and> last s = CHR '']'') then (0, ini, cur)
      else exini_new_section mem ini (Some (butlast (List.tl s))) cur)"

definition exini_handle_dtbocfg_section ::
    "bool \<Rightarrow> 'p exini \<Rightarrow> string \<Rightarrow> nat option \<Rightarrow> int \<times> 'p exini \<times> nat option" where
  "exini_handle_dtbocfg_section mem ini s cur =
     (if string_count_char s (CHR ''='') > 0 then (0, ini, cur)
      else exini_new_section mem ini (Some s) cur)"

fun exini_anonymous_props ::
    "bool \<Rightarrow> 'p exini \<Rightarrow> nat option \<Rightarrow> string list \<Rightarrow> int \<times> 'p exini" where
  "exini_anonymous_props mem ini cur [] = (1, ini)"
| "exini_anonymous_props mem ini cur (prop # props) =
     (let p = string_remove_eol_space (string_skip_head_space prop)
      in if p = [] then (1, ini)
         else let (ret, ini') = exini_load_property mem ini cur p
              in if ret < 0 then (ret, ini') else exini_anonymous_props mem ini' cur props)"

definition exini_handle_anonymous_section ::
    "bool \<Rightarrow> 'p exini \<Rightarrow> string \<Rightarrow> nat option \<Rightarrow> int \<times> 'p exini \<times> nat option" where
  "exini_handle_anonymous_section mem ini s cur =
     (if hd s \<noteq> CHR ''{'' then (0, ini, cur)
      else if string_count_char s (CHR ''{'') \<noteq> 1 \<or> string_count_char s (CHR ''}'') \<noteq> 1
      then (-1, ini, cur)
      else
        let (ret, ini', cur') = exini_new_section mem ini None cur
        in if ret < 0 then (-1, ini', cur')
           else
             let props = (case argv_buffer_split_with_delim (Some s) (Some ''{},'') 64 of
                            Ok (argc, argv) \<Rightarrow> argv | _ \<Rightarrow> []);
                 (ret', ini'') = exini_anonymous_props mem ini' cur' props
             in (ret', ini'', cur'))"

text \<open>One round of the loop of \<open>exini_do_load\<close>: 0 to go on, negative to leave.\<close>

definition exini_load_line ::
    "bool \<Rightarrow> 'p exini \<Rightarrow> nat option \<Rightarrow> string \<Rightarrow> int \<times> 'p exini \<times> nat option" where
  "exini_load_line mem ini cur linebuf =
     (let s = remove_eol_comment ini (string_skip_head_space linebuf)
      in if s = [] \<or> hd s = CHR '';'' then (0, ini, cur)
         else if hd s = CHR ''#'' \<and> exini_has_quirks ini EXINI_QUIRK_DTBOCFG then (0, ini, cur)
         else
           let (r1, ini1, cur1) =
             (if exini_has_quirks ini EXINI_QUIRK_DTBOCFG
              then exini_handle_dtbocfg_section mem ini s cur else (0, ini, cur))
           in if r1 < 0 then (r1, ini1, cur1) else if r1 > 0 then (0, ini1, cur1)
              else
                let (r2, ini2, cur2) =
                  (if exini_has_quirks ini1 EXINI_QUIRK_ANONYMOUS_SECTION
                   then exini_handle_anonymous_section mem ini1 s cur1 else (0, ini1, cur1))
                in if r2 < 0 then (r2, ini2, cur2) else if r2 > 0 then (0, ini2, cur2)
                   else
                     let (r3, ini3, cur3) = exini_handle_stand_section mem ini2 s cur2
                     in if r3 < 0 then (r3, ini3, cur3) else if r3 > 0 then (0, ini3, cur3)
                        else
                          let (ret, ini4) = exini_load_property mem ini3 cur3 s
                          in if ret < 0 then (ret, ini4, cur3) else (0, ini4, cur3))"

function exini_do_load_lines ::
    "bool \<Rightarrow> 'p exini \<Rightarrow> nat option \<Rightarrow> string \<Rightarrow> int \<times> 'p exini" where
  "exini_do_load_lines mem ini cur fp =
     (case fgets (1024 - 1) fp of
        None \<Rightarrow> (0, ini)
      | Some (linebuf, rest) \<Rightarrow>
          let (ret, ini', cur') = exini_load_line mem ini cur (c_string linebuf)
          in if ret < 0 then (ret, ini') else exini_do_load_lines mem ini' cur' rest)"
  by pat_completeness auto

termination
  by (relation "measure (\<lambda>(mem, ini, cur, fp). length fp)") (auto dest: fgets_shrinks)

declare exini_do_load_lines.simps [simp del]

definition exini_do_load :: "bool \<Rightarrow> 'p exini \<Rightarrow> string \<Rightarrow> int \<times> 'p exini" where
  "exini_do_load mem ini fp =
     (let sec = (if exini_has_quirks ini EXINI_QUIRK_DTBOCFG
                 then exini_find_section ini ''__global_option'' else None)
      in exini_do_load_lines mem ini sec fp)"

definition exini_free :: "'p exini \<Rightarrow> 'p exini" where
  "exini_free ini = ini\<lparr>sections := []\<rparr>"

definition exini_load :: "bool \<Rightarrow> 'p exini \<Rightarrow> string \<Rightarrow> u32 \<Rightarrow> int \<times> 'p exini" where
  "exini_load mem ini0 fp q =
     (let ini1 = ini0\<lparr>quirks := q, sections := [], total_sections := 0\<rparr>;
          load = (\<lambda>ini. let (ret, ini') = exini_do_load mem ini fp
                         in (ret, if ret < 0 then exini_free ini' else ini'))
      in if exini_has_quirks ini1 EXINI_QUIRK_DTBOCFG then
           let (ret, ini2, cur) = exini_new_section mem ini1 (Some ''__global_option'') None
           in if ret < 0 then (-1, ini2) else load ini2
         else load ini1)"

end
