(* ===== verification/ExiniLaws.thy ===== *)
theory ExiniLaws
  imports Exini StringLaws
begin

text \<open>
  What the ini parser guarantees: an ini file printed from sections and properties is loaded back as
  those, the invariant of the loaded data, what the readers return, and what a comment behind a
  section header or a quote does.
\<close>

section \<open>Printing an ini file\<close>

datatype ini_value = Num nat | Str string | Empty

definition print_value :: "ini_value \<Rightarrow> string" where
  "print_value v = (case v of Num n \<Rightarrow> dec_string n | Str s \<Rightarrow> quote # s @ [quote] | Empty \<Rightarrow> [])"

definition print_prop :: "string \<times> ini_value \<Rightarrow> string" where
  "print_prop p = fst p @ '' = '' @ print_value (snd p)"

definition print_lines :: "string \<times> (string \<times> ini_value) list \<Rightarrow> string list" where
  "print_lines sec = (''['' @ fst sec @ '']'') # map print_prop (snd sec)"

definition print_ini :: "(string \<times> (string \<times> ini_value) list) list \<Rightarrow> string" where
  "print_ini secs = concat (map (\<lambda>l. l @ [newline]) (concat (map print_lines secs)))"

definition value_ok :: "ini_value \<Rightarrow> bool" where
  "value_ok v = (case v of Num n \<Rightarrow> n < 2 ^ 64
     | Str s \<Rightarrow> length s < 128 \<and> list_all (\<lambda>c. c \<noteq> nul \<and> c \<noteq> newline \<and> c \<noteq> CHR ''='') s
     | Empty \<Rightarrow> True)"

definition key_ok :: "string \<Rightarrow> bool" where
  "key_ok k \<longleftrightarrow> k \<noteq> [] \<and> length k < 128 \<and>
     list_all (\<lambda>c. \<not> isspace c \<and> c \<noteq> nul \<and> c \<noteq> CHR ''='' \<and> c \<noteq> CHR '';'') k"

definition name_ok :: "string \<Rightarrow> bool" where
  "name_ok n \<longleftrightarrow> length n < 128 \<and> list_all (\<lambda>c. c \<noteq> nul \<and> c \<noteq> newline \<and> c \<noteq> CHR '';'') n"

definition secs_ok :: "(string \<times> (string \<times> ini_value) list) list \<Rightarrow> bool" where
  "secs_ok secs \<longleftrightarrow>
     list_all (\<lambda>(n, ps). name_ok n \<and> list_all (\<lambda>(k, v). key_ok k \<and> value_ok v) ps) secs"

definition encode_prop :: "string \<times> ini_value \<Rightarrow> exini_property" where
  "encode_prop p =
     (case snd p of
        Num n \<Rightarrow> \<lparr>prop_name = fst p, data_type = EXINI_PROP_DATA_TYPE_ULONG, data_sz = 8, prop_data = le_encode 8 n\<rparr>
      | Str s \<Rightarrow> \<lparr>prop_name = fst p, data_type = EXINI_PROP_DATA_TYPE_STRING, data_sz = length s + 1,
                  prop_data = bytes_of_string s @ [0]\<rparr>
      | Empty \<Rightarrow> \<lparr>prop_name = fst p, data_type = EXINI_PROP_DATA_TYPE_NULL, data_sz = 0, prop_data = []\<rparr>)"

definition encode_section :: "nat \<times> string \<times> (string \<times> ini_value) list \<Rightarrow> exini_section" where
  "encode_section s = \<lparr>global_index = fst s, properties = map encode_prop (snd (snd s)),
     n_properties = length (snd (snd s)), section_name = fst (snd s)\<rparr>"

section \<open>One printed line\<close>

lemma string_skip_head_space_eq: "string_skip_head_space s = dropWhile isspace s"
  by (induction s) simp_all

lemma string_remove_eol_space_snoc [simp]:
  "string_remove_eol_space (s @ [c]) = (if isspace c then string_remove_eol_space s else s @ [c])"
  by (simp add: string_remove_eol_space_def)

lemma string_remove_eol_space_Nil [simp]: "string_remove_eol_space [] = []"
  by (simp add: string_remove_eol_space_def)

lemma eol_space_last: "s \<noteq> [] \<Longrightarrow> \<not> isspace (last s) \<Longrightarrow> string_remove_eol_space s = s"
  by (metis append_butlast_last_id string_remove_eol_space_snoc)

lemma skip_head_first: "s = [] \<or> \<not> isspace (hd s) \<Longrightarrow> string_skip_head_space s = s"
  by (cases s) auto

lemma count_char_none: "c \<notin> set s \<Longrightarrow> string_count_char s c = 0"
  by (induction s) auto

lemma count_char_append [simp]:
  "string_count_char (s @ t) c = string_count_char s c + string_count_char t c"
  by (induction s) auto

lemma count_space_none: "list_all (\<lambda>c. \<not> isspace c) s \<Longrightarrow> string_count_space s = 0"
  by (induction s) auto

lemma no_quirks [simp]: "quirks ini = 0 \<Longrightarrow> exini_has_quirks ini q = (q = 0)"
  by (simp add: exini_has_quirks_def)

lemma quirk_values [simp]: "EXINI_QUIRK_DTBOCFG \<noteq> 0" "EXINI_QUIRK_ANONYMOUS_SECTION \<noteq> 0"
  by (simp_all add: EXINI_QUIRK_DTBOCFG_def EXINI_QUIRK_ANONYMOUS_SECTION_def)

text \<open>A line without quirks: it is a section header or a property.\<close>

lemma exini_load_line_plain:
  assumes "quirks ini = 0" "s = remove_eol_comment ini (string_skip_head_space line)"
    "s \<noteq> []" "hd s \<noteq> CHR '';''"
  shows "exini_load_line mem ini cur line =
    (if hd s = CHR ''['' \<and> last s = CHR '']'' then
       (let (r, ini', cur') = exini_new_section mem ini (Some (butlast (List.tl s))) cur
        in (if r < 0 then r else 0, ini', cur'))
     else let (r, ini') = exini_load_property mem ini cur s in (if r < 0 then r else 0, ini', cur))"
proof (cases "hd s = CHR ''['' \<and> last s = CHR '']''")
  case True
  with assms show ?thesis
    by (cases mem) (simp_all add: exini_load_line_def exini_handle_stand_section_def exini_new_section_def
      exini_alloc_section_def Let_def)
next
  case False
  then have "exini_handle_stand_section mem ini s cur = (0, ini, cur)"
    by (auto simp: exini_handle_stand_section_def)
  then show ?thesis
    unfolding if_not_P [OF False] using assms(1,3,4)
    by (simp add: exini_load_line_def Let_def assms(2) [symmetric] split: prod.splits)
qed

lemma header_line:
  assumes "quirks ini = 0" "name_ok n"
  shows "exini_load_line True ini cur ((''['' @ n @ '']'') @ [newline]) =
    (0, ini\<lparr>total_sections := total_sections ini + 1,
            sections := sections ini @ [encode_section (total_sections ini, n, [])]\<rparr>,
     Some (length (sections ini)))"
proof -
  let ?l = "(''['' @ n @ '']'') @ [newline]"
  have skip: "string_skip_head_space ?l = ?l" by simp
  have rm: "string_remove_eol_space ?l = ''['' @ n @ '']''"
    using string_remove_eol_space_snoc [of "''['' @ n @ '']''" newline]
      string_remove_eol_space_snoc [of "''['' @ n" "CHR '']''"] by simp
  have "remove_eol_comment ini (string_skip_head_space ?l) = ''['' @ n @ '']''"
    unfolding skip remove_eol_comment_def rm using assms by (auto simp: name_ok_def list_all_iff Let_def)
  then have "exini_load_line True ini cur ?l =
      (let (r, ini', cur') = exini_new_section True ini (Some n) cur in (if r < 0 then r else 0, ini', cur'))"
    using exini_load_line_plain [OF assms(1) sym, of ?l "''['' @ n @ '']''" True cur] by simp
  with assms(2) show ?thesis
    by (simp add: exini_new_section_def exini_alloc_section_def Let_def snprintf_s_def encode_section_def name_ok_def)
qed

lemma strtoul_dec0: "n < 2 ^ 64 \<Longrightarrow> strtoul 0 (dec_string n) = (word_of_nat n, [])"
proof -
  assume n: "n < 2 ^ 64"
  have "strtonum 0 (dec_string n) = (False, n, [])"
  proof (cases "n = 0")
    case True
    have z: "dec_string 0 = ''0''" by (simp add: dec_string_less digit_def char_of_def bit_0)
    show ?thesis unfolding True z
      by (simp add: strtonum_def strip_sign_def strip_base_def isspace_def is_digit_in_def digit_value_def Let_def)
  next
    case False
    then show ?thesis using strtonum_dec [of 0 n "[]"] by simp
  qed
  with n show ?thesis by (simp add: strtoul_def)
qed

lemma default_handler:
  assumes "value_ok v" "key_ok k"
  shows "exini_default_kv_handler True sec eu k (print_value v) =
    (0, sec\<lparr>properties := properties sec @ [encode_prop (k, v)], n_properties := n_properties sec + 1\<rparr>)"
proof (cases v)
  case (Num n)
  have "hd (dec_string n) \<noteq> quote"
    using dec_string_class [of "hd (dec_string n)" n] by simp
  with Num assms show ?thesis
    by (simp add: exini_default_kv_handler_def print_value_def strtoul_dec0 value_ok_def key_ok_def
        exini_add_property_def EXINI_PROP_DATA_TYPE_ULONG_def encode_prop_def snprintf_s_def Let_def
        unsigned_of_nat take_bit_nat_eq_self)
next
  case (Str s)
  with assms show ?thesis
    by (simp add: exini_default_kv_handler_def print_value_def value_ok_def key_ok_def
        exini_add_property_def EXINI_PROP_DATA_TYPE_STRING_def encode_prop_def snprintf_s_def Let_def
        bytes_of_string_def)
next
  case Empty
  with assms show ?thesis
    by (simp add: exini_default_kv_handler_def print_value_def key_ok_def
        exini_add_property_def EXINI_PROP_DATA_TYPE_NULL_def encode_prop_def snprintf_s_def Let_def)
qed

lemma print_value_last:
  "v \<noteq> Empty \<Longrightarrow> print_value v \<noteq> [] \<and> \<not> isspace (last (print_value v)) \<and> \<not> isspace (hd (print_value v)) \<and>
     last (print_value v) \<noteq> CHR '']''"
  using dec_string_class [of "hd (dec_string n)" n for n] dec_string_class [of "last (dec_string n)" n for n]
  by (cases v) (auto simp: print_value_def)

lemma dec_string_free:
  "quote \<notin> set (dec_string n)" "nul \<notin> set (dec_string n)" "newline \<notin> set (dec_string n)"
  "CHR ''='' \<notin> set (dec_string n)" "CHR '';'' \<notin> set (dec_string n)"
proof -
  have "\<And>c. c \<in> set (dec_string n) \<Longrightarrow> \<not> isspace c \<and> c \<noteq> quote \<and> c \<noteq> nul \<and> c \<noteq> newline \<and> c \<noteq> CHR ''='' \<and>
      c \<noteq> CHR '';'' \<and> c \<noteq> CHR '']''"
    by (rule dec_string_class)
  then show "quote \<notin> set (dec_string n)" "nul \<notin> set (dec_string n)" "newline \<notin> set (dec_string n)"
    "CHR ''='' \<notin> set (dec_string n)" "CHR '';'' \<notin> set (dec_string n)" by metis+
qed

lemma dec_string_spaces: "string_count_space (dec_string n) = 0"
  by (rule count_space_none) (auto simp: list_all_iff dest: dec_string_class)

lemma print_value_chars:
  assumes "value_ok v"
  shows "CHR ''='' \<notin> set (print_value v)" "newline \<notin> set (print_value v)" "nul \<notin> set (print_value v)"
proof -
  have "list_all (\<lambda>c. c \<noteq> nul \<and> c \<noteq> newline \<and> c \<noteq> CHR ''='') (print_value v)"
  proof (cases v)
    case (Num n)
    then show ?thesis using dec_string_class [of _ n] by (simp add: print_value_def list_all_iff)
  next
    case (Str t)
    with assms show ?thesis by (simp add: print_value_def value_ok_def)
  qed (simp add: print_value_def)
  then show "CHR ''='' \<notin> set (print_value v)" "newline \<notin> set (print_value v)" "nul \<notin> set (print_value v)"
    unfolding list_all_iff by blast+
qed

lemma print_value_spaces:
  "print_value v = [] \<or> hd (print_value v) = quote \<or> string_count_space (print_value v) = 0"
  by (cases v) (auto simp: print_value_def dec_string_spaces)

text \<open>What is left of a printed property line once its newline and spaces at the end are gone.\<close>

definition stripped :: "string \<Rightarrow> ini_value \<Rightarrow> string" where
  "stripped k v = (k @ '' ='') @ (if v = Empty then [] else CHR '' '' # print_value v)"

lemma key_chars:
  assumes "key_ok k"
  shows "\<not> isspace (hd k)" "hd k \<noteq> CHR '';''" "CHR ''='' \<notin> set k" "CHR '';'' \<notin> set k" "newline \<notin> set k"
    "nul \<notin> set k" "k \<noteq> []" "\<not> isspace (last k)" "string_count_space k = 0"
proof -
  have all: "list_all (\<lambda>c. \<not> isspace c \<and> c \<noteq> nul \<and> c \<noteq> CHR ''='' \<and> c \<noteq> CHR '';'') k"
    and ne: "k \<noteq> []"
    using assms by (simp_all add: key_ok_def)
  have mem: "c \<in> set k \<Longrightarrow> \<not> isspace c \<and> c \<noteq> nul \<and> c \<noteq> CHR ''='' \<and> c \<noteq> CHR '';''" for c
    using all by (simp add: list_all_iff)
  show "k \<noteq> []" by (rule ne)
  show "\<not> isspace (hd k)" "hd k \<noteq> CHR '';''" "\<not> isspace (last k)"
    using mem [of "hd k"] mem [of "last k"] ne by simp_all
  show "CHR ''='' \<notin> set k" "CHR '';'' \<notin> set k" "nul \<notin> set k"
    using mem [of "CHR ''=''"] mem [of "CHR '';''"] mem [of nul] by auto
  show "newline \<notin> set k" using mem [of newline] special_chars(1) by auto
  show "string_count_space k = 0"
    by (rule count_space_none) (use mem in \<open>simp add: list_all_iff\<close>)
qed

lemma remove_eol_stripped:
  assumes "key_ok k"
  shows "string_remove_eol_space (print_prop (k, v) @ [newline]) = stripped k v"
proof (cases "v = Empty")
  case True
  have "string_remove_eol_space (k @ '' = '') = k @ '' =''"
    using string_remove_eol_space_snoc [of "k @ '' =''" "CHR '' ''"]
      string_remove_eol_space_snoc [of "k @ '' ''" "CHR ''=''"] by simp
  with True show ?thesis
    using string_remove_eol_space_snoc [of "k @ '' = ''" newline]
    by (simp add: print_prop_def print_value_def stripped_def)
next
  case False
  have "string_remove_eol_space (print_prop (k, v)) = print_prop (k, v)"
    using print_value_last [OF False] by (intro eol_space_last) (simp_all add: print_prop_def)
  then show ?thesis
    using False string_remove_eol_space_snoc [of "print_prop (k, v)" newline]
    by (simp add: stripped_def print_prop_def)
qed

lemma stripped_no_comment:
  assumes "key_ok k" "value_ok v"
  shows "CHR '';'' \<in> set (stripped k v) \<longrightarrow> quote \<in> set (drop 1 (stripped k v))"
proof (cases v)
  case (Str s)
  then have "quote \<in> set (drop 1 (stripped k v))"
    using key_chars(7) [OF assms(1)] by (cases k) (auto simp: stripped_def print_value_def)
  then show ?thesis by simp
next
  case (Num n)
  then show ?thesis
    using key_chars(4) [OF assms(1)] dec_string_free(5) [of n] by (simp add: stripped_def print_value_def)
qed (use key_chars(4) [OF assms(1)] in \<open>simp add: stripped_def\<close>)

lemma property_parts:
  assumes "key_ok k" "value_ok v"
  shows "string_count_char (stripped k v) (CHR ''='') = Suc 0"
    "takeWhile (\<lambda>c. c \<noteq> CHR ''='') (stripped k v) = k @ '' ''"
    "drop (Suc 0) (dropWhile (\<lambda>c. c \<noteq> CHR ''='') (stripped k v)) = (if v = Empty then [] else CHR '' '' # print_value v)"
proof -
  have n: "\<forall>c\<in>set (k @ '' ''). c \<noteq> CHR ''=''" using key_chars(3) [OF assms(1)] by auto
  show "string_count_char (stripped k v) (CHR ''='') = Suc 0"
    using key_chars(3) [OF assms(1)] print_value_chars(1) [OF assms(2)]
    by (simp add: stripped_def count_char_none)
  have eq: "stripped k v = (k @ '' '') @ CHR ''='' # (if v = Empty then [] else CHR '' '' # print_value v)"
    by (simp add: stripped_def)
  show "takeWhile (\<lambda>c. c \<noteq> CHR ''='') (stripped k v) = k @ '' ''"
    "drop (Suc 0) (dropWhile (\<lambda>c. c \<noteq> CHR ''='') (stripped k v)) = (if v = Empty then [] else CHR '' '' # print_value v)"
    unfolding eq using n by (simp_all add: takeWhile_append2 dropWhile_append2)
qed

lemma property_line:
  assumes "quirks ini = 0" "prop_handler ini = None" "key_ok k" "value_ok v"
    and "sections ini = ss @ [sec]"
  shows "exini_load_line True ini (Some (length ss)) (print_prop (k, v) @ [newline]) =
    (0, ini\<lparr>sections := ss @ [sec\<lparr>properties := properties sec @ [encode_prop (k, v)],
                                  n_properties := n_properties sec + 1\<rparr>]\<rparr>, Some (length ss))"
proof -
  note k = key_chars [OF assms(3)]
  let ?s = "stripped k v"
  have "string_skip_head_space (print_prop (k, v) @ [newline]) = print_prop (k, v) @ [newline]"
    using k by (intro skip_head_first) (simp add: print_prop_def)
  then have s: "remove_eol_comment ini (string_skip_head_space (print_prop (k, v) @ [newline])) = ?s"
    using stripped_no_comment [OF assms(3,4)] assms(1)
    by (auto simp: remove_eol_comment_def remove_eol_stripped [OF assms(3)] Let_def
        simp del: string_remove_eol_space_snoc)
  have hd: "hd ?s = hd k" "?s \<noteq> []" using k(7) by (simp_all add: stripped_def)
  have last: "last ?s \<noteq> CHR '']''"
    using print_value_last [of v] by (auto simp: stripped_def)
  have key: "string_remove_eol_space (string_skip_head_space (k @ '' '')) = k"
    using k string_remove_eol_space_snoc [of k "CHR '' ''"]
    by (simp add: skip_head_first eol_space_last)
  have val: "string_remove_eol_space (string_skip_head_space (if v = Empty then [] else CHR '' '' # print_value v))
      = print_value v"
    using print_value_last [of v]
    by (auto simp: skip_head_first eol_space_last print_value_def)
  have "exini_load_property True ini (Some (length ss)) ?s =
      (0, ini\<lparr>sections := ss @ [sec\<lparr>properties := properties sec @ [encode_prop (k, v)],
                                  n_properties := n_properties sec + 1\<rparr>]\<rparr>)"
    using print_value_spaces [of v] k(9) assms(2,5)
    by (auto simp: exini_load_property_def property_parts [OF assms(3,4)] key val Let_def
        default_handler [OF assms(4,3)] simp del: string_remove_eol_space_Nil)
  then show ?thesis
    using exini_load_line_plain [OF assms(1) s [symmetric]] hd k last by simp
qed

section \<open>The loop over the lines\<close>

lemma load_lines_step:
  assumes "newline \<notin> set l" "nul \<notin> set l" "length l < 1022"
    and "exini_load_line mem ini cur (l @ [newline]) = (0, ini', cur')"
  shows "exini_do_load_lines mem ini cur (l @ newline # rest) = exini_do_load_lines mem ini' cur' rest"
proof -
  have "fgets (1024 - 1) (l @ newline # rest) = Some (l @ [newline], rest)"
    using fgets_line [of l 1022 rest] assms(1,3) by (cases l) (simp_all add: fgets_def)
  then show ?thesis
    using assms(4) c_string_line [OF assms(2)] by (subst exini_do_load_lines.simps) simp
qed

lemma load_lines_end: "exini_do_load_lines mem ini cur [] = (0, ini)"
  by (subst exini_do_load_lines.simps) (simp add: fgets_def)

lemma dec_string_short: "n < 2 ^ 64 \<Longrightarrow> length (dec_string n) \<le> 20"
  using length_dec_string [of n 19] by simp

lemma prop_line_short:
  assumes "key_ok k" "value_ok v"
  shows "length (print_prop (k, v)) < 1022" "newline \<notin> set (print_prop (k, v))" "nul \<notin> set (print_prop (k, v))"
proof -
  have "length (print_value v) \<le> 129"
    using assms(2) dec_string_short by (cases v) (fastforce simp: value_ok_def print_value_def)+
  then show "length (print_prop (k, v)) < 1022"
    using assms(1) by (simp add: print_prop_def key_ok_def)
  show "newline \<notin> set (print_prop (k, v))" "nul \<notin> set (print_prop (k, v))"
    using key_chars [OF assms(1)] print_value_chars [OF assms(2)] by (auto simp: print_prop_def)
qed

lemma load_props:
  "quirks ini = 0 \<Longrightarrow> prop_handler ini = None \<Longrightarrow> sections ini = ss @ [sec] \<Longrightarrow>
   list_all (\<lambda>(k, v). key_ok k \<and> value_ok v) ps \<Longrightarrow>
   exini_do_load_lines True ini (Some (length ss)) (concat (map (\<lambda>l. l @ [newline]) (map print_prop ps)) @ rest) =
   exini_do_load_lines True
     (ini\<lparr>sections := ss @ [sec\<lparr>properties := properties sec @ map encode_prop ps,
                               n_properties := n_properties sec + length ps\<rparr>]\<rparr>) (Some (length ss)) rest"
proof (induction ps arbitrary: ini sec)
  case Nil
  then show ?case by (cases ini; cases sec) simp
next
  case (Cons p ps)
  obtain k v where p: "p = (k, v)" by (cases p)
  have ok: "key_ok k" "value_ok v" using Cons.prems(4) p by auto
  note step = load_lines_step [OF prop_line_short(2,3,1) [OF ok] property_line [OF Cons.prems(1,2) ok Cons.prems(3)]]
  show ?case
    using Cons.IH Cons.prems by (simp add: p step)
qed

lemma load_sections:
  "quirks ini = 0 \<Longrightarrow> prop_handler ini = None \<Longrightarrow> secs_ok secs \<Longrightarrow> total_sections ini = length (sections ini) \<Longrightarrow>
   exini_do_load_lines True ini cur (print_ini secs) =
   (0, ini\<lparr>total_sections := total_sections ini + length secs,
          sections := sections ini @ map encode_section (enumerate (total_sections ini) secs)\<rparr>)"
proof (induction secs arbitrary: ini cur)
  case Nil
  then show ?case by (simp add: print_ini_def load_lines_end)
next
  case (Cons s secs)
  obtain n ps where s: "s = (n, ps)" by (cases s)
  have ok: "name_ok n" "list_all (\<lambda>(k, v). key_ok k \<and> value_ok v) ps" "secs_ok secs"
    using Cons.prems(3) s by (auto simp: secs_ok_def)
  define ini1 where "ini1 = ini\<lparr>total_sections := total_sections ini + 1,
            sections := sections ini @ [encode_section (total_sections ini, n, [])]\<rparr>"
  define ini2 where "ini2 = ini1\<lparr>sections := sections ini @ [encode_section (total_sections ini, n, ps)]\<rparr>"
  have l: "newline \<notin> set (''['' @ n @ '']'')" "nul \<notin> set (''['' @ n @ '']'')" "length (''['' @ n @ '']'') < 1022"
    using ok(1) by (auto simp: name_ok_def list_all_iff)
  have "print_ini (s # secs) = (''['' @ n @ '']'') @ newline #
      concat (map (\<lambda>l. l @ [newline]) (map print_prop ps)) @ print_ini secs"
    by (simp add: print_ini_def print_lines_def s)
  then have "exini_do_load_lines True ini cur (print_ini (s # secs))
      = exini_do_load_lines True ini1 (Some (length (sections ini)))
          (concat (map (\<lambda>l. l @ [newline]) (map print_prop ps)) @ print_ini secs)"
    using load_lines_step [OF l header_line [OF Cons.prems(1) ok(1)]] by (simp add: ini1_def)
  also have "\<dots> = exini_do_load_lines True ini2 (Some (length (sections ini))) (print_ini secs)"
    using load_props [of ini1 "sections ini" "encode_section (total_sections ini, n, [])" ps] Cons.prems ok
    by (simp add: ini1_def ini2_def encode_section_def)
  also have "\<dots> = (0, ini\<lparr>total_sections := total_sections ini + length (s # secs),
          sections := sections ini @ map encode_section (enumerate (total_sections ini) (s # secs))\<rparr>)"
    using Cons.IH [of ini2] Cons.prems ok by (simp add: ini1_def ini2_def s)
  finally show ?case .
qed

lemma exini_load_print:
  "secs_ok secs \<Longrightarrow> prop_handler ini = None \<Longrightarrow> exini_load True ini (print_ini secs) 0 =
    (0, ini\<lparr>quirks := 0, total_sections := length secs,
           sections := map encode_section (enumerate 0 secs)\<rparr>)"
  using load_sections [of "ini\<lparr>quirks := 0, sections := [], total_sections := 0\<rparr>" secs None]
  by (simp add: exini_load_def exini_do_load_def Let_def)

text \<open>C8: loading the text printed from any sections with well-formed names, keys and values gives exactly
  those sections, in order, with their position as index and their properties with type, size and
  bytes; the load returns 0.\<close>

theorem exini_roundtrip:
  assumes "secs_ok secs" "prop_handler ini = None"
  shows "exini_load True ini (print_ini secs) 0 =
    (0, ini\<lparr>quirks := 0, total_sections := length secs,
           sections := map encode_section (enumerate 0 secs)\<rparr>)"
  using assms by (rule exini_load_print)

definition empty_ini :: "unit exini" where
  "empty_ini = \<lparr>sections = [], enable_unknown_data = False, prop_handler = None, total_sections = 7,
                private_data = (), quirks = 3\<rparr>"

lemma le_encode_32: "le_encode 8 32 = [32, 0, 0, 0, 0, 0, 0, 0]"
  by code_simp

theorem exini_roundtrip_witness:
  "exini_load True empty_ini (print_ini [(''main'', [(''a'', Num 32), (''b'', Str ''x;y z''), (''c'', Empty)]), (''u'', [])]) 0
    = (0, empty_ini\<lparr>quirks := 0, total_sections := Suc (Suc 0),
        sections := [\<lparr>global_index = 0, properties =
          [\<lparr>prop_name = ''a'', data_type = 1, data_sz = 8, prop_data = [32, 0, 0, 0, 0, 0, 0, 0]\<rparr>,
           \<lparr>prop_name = ''b'', data_type = 2, data_sz = Suc (Suc (Suc (Suc (Suc (Suc 0))))), prop_data = [120, 59, 121, 32, 122, 0]\<rparr>,
           \<lparr>prop_name = ''c'', data_type = 0, data_sz = 0, prop_data = []\<rparr>],
            n_properties = Suc (Suc (Suc 0)), section_name = ''main''\<rparr>,
          \<lparr>global_index = 1, properties = [], n_properties = 0, section_name = ''u''\<rparr>]\<rparr>)"
  using exini_roundtrip [of "[(''main'', [(''a'', Num 32), (''b'', Str ''x;y z''), (''c'', Empty)]), (''u'', [])]" empty_ini]
  by (simp add: secs_ok_def name_ok_def key_ok_def value_ok_def isspace_def nul_def newline_def char_of_def bit_0
      encode_section_def encode_prop_def bytes_of_string_def EXINI_PROP_DATA_TYPE_ULONG_def
      EXINI_PROP_DATA_TYPE_STRING_def EXINI_PROP_DATA_TYPE_NULL_def empty_ini_def le_encode_32)

section \<open>Reading the properties\<close>

lemma find_section_nth:
  assumes "i < length (sections ini)" "section_name (sections ini ! i) = name"
    and "\<And>j. j < i \<Longrightarrow> section_name (sections ini ! j) \<noteq> name"
  shows "exini_find_section ini name = Some i"
proof -
  have "takeWhile (\<lambda>s. section_name s \<noteq> name) (sections ini) = take i (sections ini)"
    using assms by (intro takeWhile_eq_take_P_nth) auto
  with assms(1) show ?thesis by (simp add: exini_find_section_def)
qed

lemma find_encoded:
  "distinct (map fst ps) \<Longrightarrow> (k, v) \<in> set ps \<Longrightarrow>
     find (\<lambda>p. prop_name p = k) (map encode_prop ps) = Some (encode_prop (k, v))"
proof (induction ps)
  case Nil
  then show ?case by simp
next
  case (Cons p ps)
  have name: "prop_name (encode_prop q) = fst q" for q
    by (cases q; cases "snd q") (simp_all add: encode_prop_def)
  show ?case
  proof (cases "fst p = k")
    case True
    then have "p = (k, v)" using Cons.prems by (auto simp: rev_image_eqI)
    then show ?thesis by (simp add: name)
  next
    case False
    with Cons show ?thesis by (auto simp: name)
  qed
qed

lemma find_property_loaded:
  assumes "sections ini = map encode_section (enumerate 0 secs)"
    and "distinct (map fst secs)" "(n, ps) \<in> set secs" "distinct (map fst ps)" "(k, v) \<in> set ps"
  shows "exini_find_property ini n k = Some (encode_prop (k, v))"
proof -
  obtain i where i: "i < length secs" "secs ! i = (n, ps)" using assms(3) by (auto simp: in_set_conv_nth)
  have nth: "sections ini ! j = encode_section (j, secs ! j)" if "j < length secs" for j
    using that assms(1) by (simp add: nth_enumerate_eq)
  have "exini_find_section ini n = Some i"
  proof (rule find_section_nth)
    show "i < length (sections ini)" using i assms(1) by simp
    show "section_name (sections ini ! i) = n" using i nth by (simp add: encode_section_def)
    fix j
    assume "j < i"
    then have "map fst secs ! j \<noteq> map fst secs ! i"
      using assms(2) i(1) nth_eq_iff_index_eq [of "map fst secs" j i] by simp
    then show "section_name (sections ini ! j) \<noteq> n" using \<open>j < i\<close> i nth by (simp add: encode_section_def)
  qed
  then show ?thesis
    using i nth find_encoded [OF assms(4,5)]
    by (simp add: exini_find_property_def exini_find_section_property_def encode_section_def)
qed

text \<open>C26: after a printed ini file with distinct section names and distinct keys in a section is loaded,
  \<open>exini_read_ulong\<close> returns every number and \<open>exini_read_string\<close> every string that was printed, without
  an error; a string read as a number and a number read as a string return the default, the first with
  \<open>EXINI_ERR_BAD_TYPE\<close>, the second with the number of \<open>EXINI_ERR_NOT_DEFINED\<close>.\<close>

theorem exini_read_back:
  assumes "secs_ok secs" "prop_handler ini = None" "exini_load True ini (print_ini secs) 0 = (r, ini')"
    and "distinct (map fst secs)" "(n, ps) \<in> set secs" "distinct (map fst ps)" "(k, v) \<in> set ps"
  shows "(\<forall>m. v = Num m \<longrightarrow> exini_read_ulong ini' n k d = (word_of_nat m, 0) \<and>
            exini_read_string ini' n k ds = (ds, EXINI_ERR_NOT_DEFINED))
       \<and> (\<forall>t. v = Str t \<longrightarrow> exini_read_string ini' n k ds = (Some t, 0) \<and>
            exini_read_ulong ini' n k d = (d, EXINI_ERR_BAD_TYPE))"
proof -
  have ini': "sections ini' = map encode_section (enumerate 0 secs)"
    using assms(3) exini_load_print [OF assms(1,2)] by auto
  have f: "exini_find_property ini' n k = Some (encode_prop (k, v))"
    by (rule find_property_loaded [OF ini' assms(4-7)])
  have ok: "value_ok v" using assms(1,5,7) by (fastforce simp: secs_ok_def list_all_iff)
  have num: "v = Num m \<Longrightarrow> exini_read_ulong ini' n k d = (word_of_nat m, 0) \<and>
      exini_read_string ini' n k ds = (ds, EXINI_ERR_NOT_DEFINED)" for m
    using f ok by (simp add: exini_read_ulong_def exini_read_string_def exini_property_read_ulong_def
        exini_property_read_string_def encode_prop_def value_ok_def le_decode_encode
        EXINI_PROP_DATA_TYPE_ULONG_def EXINI_PROP_DATA_TYPE_STRING_def EXINI_PROP_DATA_TYPE_UNKNOWN_def
        EXINI_ERR_NOT_DEFINED_def)
  have str: "v = Str t \<Longrightarrow> exini_read_string ini' n k ds = (Some t, 0) \<and>
      exini_read_ulong ini' n k d = (d, EXINI_ERR_BAD_TYPE)" for t
  proof -
    assume v: "v = Str t"
    have "nul \<notin> set t" using ok v by (auto simp: value_ok_def list_all_iff)
    then show ?thesis
      using f v by (simp add: exini_read_ulong_def exini_read_string_def exini_property_read_ulong_def
        exini_property_read_string_def encode_prop_def string_of_bytes_of_string
        EXINI_PROP_DATA_TYPE_ULONG_def EXINI_PROP_DATA_TYPE_STRING_def EXINI_PROP_DATA_TYPE_UNKNOWN_def)
  qed
  show ?thesis using num str by blast
qed

theorem exini_read_back_witness:
  "exini_read_ulong (snd (exini_load True empty_ini (print_ini [(''main'', [(''a'', Num 32)])]) 0)) ''main'' ''a'' 5 = (32, 0)"
  using exini_read_back [of "[(''main'', [(''a'', Num 32)])]" empty_ini
      "fst (exini_load True empty_ini (print_ini [(''main'', [(''a'', Num 32)])]) 0)"
      "snd (exini_load True empty_ini (print_ini [(''main'', [(''a'', Num 32)])]) 0)"
      "''main''" "[(''a'', Num 32)]" "''a''" "Num 32" 5 None]
  by (simp add: secs_ok_def name_ok_def key_ok_def value_ok_def isspace_def nul_def newline_def char_of_def bit_0
      empty_ini_def)

section \<open>Comments\<close>

lemma newline_semi: "newline \<noteq> CHR '';''" "nul \<noteq> CHR '';''"
  by (simp_all add: newline_def nul_def char_of_def bit_0)

lemma before_last_app: "c \<notin> set b \<Longrightarrow> before_last c (a @ c # b) = a"
proof -
  assume "c \<notin> set b"
  then have "dropWhile (\<lambda>x. x \<noteq> c) (rev b @ c # rev a) = c # rev a"
    by (subst dropWhile_append2) auto
  then show ?thesis by (simp add: before_last_def)
qed

lemma eol_space_app: "\<not> isspace c \<Longrightarrow> string_remove_eol_space (a @ c # b) = a @ c # string_remove_eol_space b"
proof (induction b rule: rev_induct)
  case Nil
  then show ?case using string_remove_eol_space_snoc [of a c] by simp
next
  case (snoc x b)
  then show ?case using string_remove_eol_space_snoc [of "a @ c # b" x] by simp
qed

lemma eol_space_subset: "set (string_remove_eol_space s) \<subseteq> set s"
  by (induction s rule: rev_induct) auto

lemma remove_trailing_comment:
  assumes "quirks ini = 0" "\<forall>c\<in>set t. c \<noteq> quote \<and> c \<noteq> CHR '';''" "quote \<notin> set a"
  shows "remove_eol_comment ini (a @ CHR '';'' # t) = a"
proof -
  have semi: "\<not> isspace (CHR '';'')" by (simp add: isspace_def)
  have sub: "set (string_remove_eol_space t) \<subseteq> set t" by (rule eol_space_subset)
  then have "CHR '';'' \<notin> set (string_remove_eol_space t)" "quote \<notin> set (string_remove_eol_space t)"
    using assms(2) by auto
  with assms(1,3) show ?thesis
    by (auto simp: remove_eol_comment_def eol_space_app [OF semi] Let_def before_last_app dest: in_set_dropD)
qed

text \<open>a comment behind a section header breaks the file: the space before the comment stays at the end of
  the line, so the header is not recognised and \<open>exini_load\<close> fails, whatever follows.\<close>

theorem exini_header_comment:
  assumes "name_ok n" "quote \<notin> set n" "CHR ''='' \<notin> set n"
    and "\<forall>c\<in>set t. c \<noteq> newline \<and> c \<noteq> nul \<and> c \<noteq> quote \<and> c \<noteq> CHR '';''" "length t < 800"
  shows "exini_load mem ini (''['' @ n @ ''] ;'' @ t @ newline # rest) 0
    = (-1, ini\<lparr>quirks := 0, total_sections := 0, sections := []\<rparr>)"
proof -
  define ini1 where "ini1 = ini\<lparr>quirks := 0, sections := [], total_sections := 0\<rparr>"
  define a where "a = ''['' @ n @ ''] ''"
  define line where "line = a @ CHR '';'' # (t @ [newline])"
  have q: "quirks ini1 = 0" by (simp add: ini1_def)
  have skip: "string_skip_head_space line = line" by (simp add: line_def a_def)
  have rm: "remove_eol_comment ini1 line = a"
    unfolding line_def
  proof (rule remove_trailing_comment [OF q])
    have "newline \<noteq> quote \<and> newline \<noteq> CHR '';''" by (simp add: newline_def quote_def char_of_def bit_0)
    with assms(4) show "\<forall>c\<in>set (t @ [newline]). c \<noteq> quote \<and> c \<noteq> CHR '';''" by simp
    have "quote \<noteq> CHR ''['' \<and> quote \<noteq> CHR '' ''" by (simp add: quote_def char_of_def bit_0)
    with assms(2) show "quote \<notin> set a" by (simp add: a_def)
  qed
  have rm': "a = remove_eol_comment ini1 (string_skip_head_space line)"
    by (simp only: skip rm)
  have lp: "exini_load_property mem ini1 None a = (-1, ini1)"
    using assms(3) by (simp add: exini_load_property_def a_def count_char_none)
  have "exini_load_line mem ini1 None line = (-1, ini1, None)"
    using exini_load_line_plain [OF q rm', of mem None] lp by (simp add: a_def)
  then have "exini_load_line mem ini1 None ((a @ CHR '';'' # t) @ [newline]) = (-1, ini1, None)"
    by (simp add: line_def)
  moreover have "newline \<notin> set (a @ CHR '';'' # t)" "nul \<notin> set (a @ CHR '';'' # t)" "length (a @ CHR '';'' # t) < 1022"
    using assms special_chars by (auto simp: a_def name_ok_def list_all_iff newline_semi)
  ultimately have "exini_do_load_lines mem ini1 None ((a @ CHR '';'' # t) @ newline # rest) = (-1, ini1)"
    using fgets_line [of "a @ CHR '';'' # t" 1022 rest] c_string_line [of "a @ CHR '';'' # t"]
    by (subst exini_do_load_lines.simps) (simp add: fgets_def a_def)
  then show ?thesis
    by (simp add: exini_load_def exini_do_load_def exini_free_def ini1_def a_def)
qed

theorem exini_header_comment_witness:
  "fst (exini_load True empty_ini (''[main] ; the board'' @ [newline]) 0) = -1"
  using exini_header_comment [of "''main''" "'' the board''" True empty_ini "[]"]
  by (simp add: name_ok_def quote_def nul_def newline_def char_of_def bit_0)

section \<open>The invariant of loaded data\<close>

definition prop_inv :: "exini_property \<Rightarrow> bool" where
  "prop_inv p \<longleftrightarrow> length (prop_name p) < 128 \<and> data_sz p = length (prop_data p) \<and> data_sz p \<le> 128 \<and>
     (data_type p = EXINI_PROP_DATA_TYPE_ULONG \<longrightarrow> data_sz p = 8)"

definition section_inv :: "exini_section \<Rightarrow> bool" where
  "section_inv s \<longleftrightarrow> length (section_name s) < 128 \<and> n_properties s = length (properties s) \<and>
     list_all prop_inv (properties s)"

definition ini_inv :: "'p exini \<Rightarrow> bool" where
  "ini_inv ini \<longleftrightarrow> total_sections ini = length (sections ini) \<and> list_all section_inv (sections ini) \<and>
     (\<forall>i<length (sections ini). global_index (sections ini ! i) = i)"

text \<open>
  What a property handler owes the parser: whatever it does with a section that is well formed, the section stays so and
  keeps its index.
\<close>

locale kv_handler =
  fixes handle :: "exini_section \<Rightarrow> string \<Rightarrow> string \<Rightarrow> 'p \<Rightarrow> int \<times> exini_section \<times> 'p"
  assumes handle_inv: "section_inv s \<Longrightarrow> handle s k v p = (r, s', p') \<Longrightarrow> section_inv s' \<and> global_index s' = global_index s"
begin

lemma update_inv:
  "ini_inv ini \<Longrightarrow> i < length (sections ini) \<Longrightarrow> handle (sections ini ! i) k v p = (r, s', p') \<Longrightarrow>
     ini_inv (ini\<lparr>sections := (sections ini)[i := s'], private_data := p'\<rparr>)"
  using handle_inv [of "sections ini ! i" k v p r s' p']
  by (auto simp: ini_inv_def list_all_length nth_list_update)

end

lemma default_handler_inv:
  assumes "section_inv s" "exini_default_kv_handler mem s eu k v = (r, s')"
  shows "section_inv s' \<and> global_index s' = global_index s"
proof -
  have add: "section_inv s2 \<and> global_index s2 = global_index s"
    if "exini_add_property mem s k ty data sz = (r2, s2)" "length data = sz" "sz \<le> 128"
      "ty = EXINI_PROP_DATA_TYPE_ULONG \<longrightarrow> sz = 8" for ty data sz r2 s2
    using that assms(1)
    by (auto simp: exini_add_property_def section_inv_def prop_inv_def snprintf_s_def Let_def split: if_splits)
  show ?thesis
    using assms unfolding exini_default_kv_handler_def
    by (auto simp: Let_def bytes_of_string_def snprintf_s_def EXINI_PROP_DATA_TYPE_NULL_def
        EXINI_PROP_DATA_TYPE_STRING_def EXINI_PROP_DATA_TYPE_ULONG_def EXINI_PROP_DATA_TYPE_UNKNOWN_def
        split: if_splits prod.splits dest!: add)
qed

interpretation kvd: kv_handler
  "\<lambda>s k v (p :: 'p). case exini_default_kv_handler mem s eu k v of (r, s') \<Rightarrow> (r, s', p)" for mem :: bool and eu :: bool
  using default_handler_inv by unfold_locales (auto split: prod.splits)

lemma new_section_inv:
  assumes "ini_inv ini" "exini_new_section mem ini n cur = (r, ini', cur')"
  shows "if r \<ge> 0 then ini_inv ini' \<and> cur' = Some (length (sections ini)) \<and>
           length (sections ini') = Suc (length (sections ini)) \<and> prop_handler ini' = prop_handler ini
         else cur' = cur"
  using assms
  by (auto simp: exini_new_section_def exini_alloc_section_def ini_inv_def section_inv_def snprintf_s_def
      nth_append Let_def split: if_splits option.splits)

definition cur_ok :: "'p exini \<Rightarrow> nat option \<Rightarrow> bool" where
  "cur_ok ini cur \<longleftrightarrow> ini_inv ini \<and> prop_handler ini = None \<and> (\<forall>i. cur = Some i \<longrightarrow> i < length (sections ini))"

lemma load_property_inv:
  assumes "cur_ok ini cur" "exini_load_property mem ini cur s = (r, ini')"
  shows "cur_ok ini' cur"
proof (cases cur)
  case None
  with assms show ?thesis by (auto simp: exini_load_property_def Let_def split: if_splits)
next
  case (Some i)
  with assms have i: "i < length (sections ini)" "ini_inv ini" "prop_handler ini = None" by (auto simp: cur_ok_def)
  have "cur_ok (ini\<lparr>sections := (sections ini)[i := s']\<rparr>) cur"
    if "exini_default_kv_handler mem (sections ini ! i) eu k v = (r', s')" for eu k v r' s'
    using kvd.update_inv [OF i(2,1), where mem = mem and eu = eu and k = k and v = v and p = "private_data ini" and r = r' and s' = s' and p' = "private_data ini"] that i Some
    by (simp add: cur_ok_def ini_inv_def)
  with assms Some i(3) show ?thesis
    by (auto simp: exini_load_property_def Let_def split: if_splits prod.splits)
qed

lemma new_section_cur_ok:
  "cur_ok ini cur \<Longrightarrow> exini_new_section mem ini n cur = (r, ini', cur') \<Longrightarrow> r \<ge> 0 \<Longrightarrow> cur_ok ini' cur'"
  using new_section_inv [of ini mem n cur r ini' cur'] by (auto simp: cur_ok_def)

lemma anonymous_props_inv:
  "cur_ok ini cur \<Longrightarrow> exini_anonymous_props mem ini cur ps = (r, ini') \<Longrightarrow> cur_ok ini' cur"
proof (induction ps arbitrary: ini)
  case Nil
  then show ?case by simp
next
  case (Cons p ps)
  then show ?case
    using load_property_inv [of ini cur mem "string_remove_eol_space (string_skip_head_space p)"]
    by (auto simp: Let_def split: if_splits prod.splits)
qed

lemma handle_sections_inv:
  assumes "cur_ok ini cur"
  shows "exini_handle_stand_section mem ini s cur = (r, ini', cur') \<Longrightarrow> r \<ge> 0 \<Longrightarrow> cur_ok ini' cur'"
    and "exini_handle_dtbocfg_section mem ini s cur = (r, ini', cur') \<Longrightarrow> r \<ge> 0 \<Longrightarrow> cur_ok ini' cur'"
    and "exini_handle_anonymous_section mem ini s cur = (r, ini', cur') \<Longrightarrow> r \<ge> 0 \<Longrightarrow> cur_ok ini' cur'"
proof -
  show "exini_handle_stand_section mem ini s cur = (r, ini', cur') \<Longrightarrow> r \<ge> 0 \<Longrightarrow> cur_ok ini' cur'"
    "exini_handle_dtbocfg_section mem ini s cur = (r, ini', cur') \<Longrightarrow> r \<ge> 0 \<Longrightarrow> cur_ok ini' cur'"
    using assms new_section_cur_ok [OF assms]
    by (auto simp: exini_handle_stand_section_def exini_handle_dtbocfg_section_def split: if_splits)
  assume a: "exini_handle_anonymous_section mem ini s cur = (r, ini', cur')" "r \<ge> 0"
  obtain r1 ini1 cur1 where n: "exini_new_section mem ini None cur = (r1, ini1, cur1)"
    by (cases "exini_new_section mem ini None cur") auto
  show "cur_ok ini' cur'"
  proof (cases "r1 < 0")
    case True
    with a n assms show ?thesis by (auto simp: exini_handle_anonymous_section_def split: if_splits)
  next
    case False
    then have "cur_ok ini1 cur1" using new_section_cur_ok [OF assms n] by simp
    from anonymous_props_inv [OF this] False a n assms show ?thesis
      by (auto simp: exini_handle_anonymous_section_def Let_def split: if_splits prod.splits)
  qed
qed

lemma load_line_inv:
  assumes "cur_ok ini cur" "exini_load_line mem ini cur l = (r, ini', cur')" "r \<ge> 0"
  shows "cur_ok ini' cur'"
proof -
  define s where "s = remove_eol_comment ini (string_skip_head_space l)"
  obtain r1 ini1 cur1 where h1: "(if exini_has_quirks ini EXINI_QUIRK_DTBOCFG
      then exini_handle_dtbocfg_section mem ini s cur else (0, ini, cur)) = (r1, ini1, cur1)"
    by (metis prod_cases3)
  have ok1: "r1 \<ge> 0 \<Longrightarrow> cur_ok ini1 cur1"
    using h1 assms(1) handle_sections_inv(2) [OF assms(1)] by (auto split: if_splits)
  obtain r2 ini2 cur2 where h2: "(if exini_has_quirks ini1 EXINI_QUIRK_ANONYMOUS_SECTION
      then exini_handle_anonymous_section mem ini1 s cur1 else (0, ini1, cur1)) = (r2, ini2, cur2)"
    by (metis prod_cases3)
  have ok2: "r1 \<ge> 0 \<Longrightarrow> r2 \<ge> 0 \<Longrightarrow> cur_ok ini2 cur2"
    using h2 ok1 handle_sections_inv(3) [of ini1 cur1] by (auto split: if_splits)
  obtain r3 ini3 cur3 where h3: "exini_handle_stand_section mem ini2 s cur2 = (r3, ini3, cur3)"
    by (metis prod_cases3)
  have ok3: "r1 \<ge> 0 \<Longrightarrow> r2 \<ge> 0 \<Longrightarrow> r3 \<ge> 0 \<Longrightarrow> cur_ok ini3 cur3"
    using handle_sections_inv(1) [OF ok2 h3] by simp
  obtain r4 ini4 where h4: "exini_load_property mem ini3 cur3 s = (r4, ini4)" by fastforce
  have ok4: "r1 \<ge> 0 \<Longrightarrow> r2 \<ge> 0 \<Longrightarrow> r3 \<ge> 0 \<Longrightarrow> cur_ok ini4 cur3"
    using load_property_inv [OF ok3 h4] by simp
  have "exini_load_line mem ini cur l =
      (if s = [] \<or> hd s = CHR '';'' then (0, ini, cur)
       else if hd s = CHR ''#'' \<and> exini_has_quirks ini EXINI_QUIRK_DTBOCFG then (0, ini, cur)
       else if r1 < 0 then (r1, ini1, cur1) else if r1 > 0 then (0, ini1, cur1)
       else if r2 < 0 then (r2, ini2, cur2) else if r2 > 0 then (0, ini2, cur2)
       else if r3 < 0 then (r3, ini3, cur3) else if r3 > 0 then (0, ini3, cur3)
       else if r4 < 0 then (r4, ini4, cur3) else (0, ini4, cur3))"
    unfolding exini_load_line_def Let_def s_def [symmetric] h1 prod.case h2 h3 h4 by (rule refl)
  with assms ok1 ok2 ok3 ok4 show ?thesis
    by (auto split: if_splits)
qed

lemma load_lines_inv:
  "cur_ok ini cur \<Longrightarrow> exini_do_load_lines mem ini cur fp = (r, ini') \<Longrightarrow> r < 0 \<or> r = 0 \<and> ini_inv ini'"
proof (induction mem ini cur fp rule: exini_do_load_lines.induct)
  case (1 mem ini cur fp)
  show ?case
  proof (cases "fgets (1024 - 1) fp")
    case None
    then have "exini_do_load_lines mem ini cur fp = (0, ini)" by (subst exini_do_load_lines.simps) simp
    with 1(2,3) show ?thesis by (simp add: cur_ok_def)
  next
    case (Some a)
    obtain linebuf rest where a: "a = (linebuf, rest)" by (cases a)
    obtain r1 ini1 cur1 where l: "exini_load_line mem ini cur (c_string linebuf) = (r1, ini1, cur1)"
      by (metis prod_cases3)
    have step: "exini_do_load_lines mem ini cur fp
        = (if r1 < 0 then (r1, ini1) else exini_do_load_lines mem ini1 cur1 rest)"
      using Some a l by (subst exini_do_load_lines.simps) simp
    show ?thesis
    proof (cases "r1 < 0")
      case True
      with step 1(3) show ?thesis by simp
    next
      case False
      with load_line_inv [OF 1(2) l] have "cur_ok ini1 cur1" by simp
      with 1(1) [OF Some a [symmetric] l [symmetric] refl refl] False step 1(3) show ?thesis by simp
    qed
  qed
qed

text \<open>C25: with the default handler, whatever the file holds, which quirks are on and whether memory is short,
  \<open>exini_load\<close> either fails and leaves no section, or returns 0 with data whose invariant holds: as many
  sections as counted, each at the position of its index, with as many properties as counted, names inside
  their 128 bytes and data of the size that is stored.\<close>

theorem exini_load_inv:
  assumes "prop_handler ini = None" "exini_load mem ini fp q = (r, ini')"
  shows "if r = 0 then ini_inv ini' else r < 0 \<and> sections ini' = []"
proof -
  define ini1 where "ini1 = ini\<lparr>quirks := q, sections := [], total_sections := 0\<rparr>"
  have start: "cur_ok ini1 None" using assms(1) by (simp add: ini1_def cur_ok_def ini_inv_def)
  have load: "if r = 0 then ini_inv ini' else r < 0 \<and> sections ini' = []"
    if "cur_ok ini2 cur" "cur = (if exini_has_quirks ini2 EXINI_QUIRK_DTBOCFG
         then exini_find_section ini2 ''__global_option'' else None)"
      "(case exini_do_load mem ini2 fp of (ret, ini') \<Rightarrow> (ret, if ret < 0 then exini_free ini' else ini')) = (r, ini')"
    for ini2 cur
    using that load_lines_inv [OF that(1), of mem fp]
    by (fastforce simp: exini_do_load_def exini_free_def Let_def split: prod.splits)
  obtain r2 ini2 cur2 where n: "exini_new_section mem ini1 (Some ''__global_option'') None = (r2, ini2, cur2)"
    by (metis prod_cases3)
  have find: "cur_ok ini2 (exini_find_section ini2 nm)" if "r2 \<ge> 0" for nm
    using new_section_cur_ok [OF start n that]
    by (auto simp: cur_ok_def exini_find_section_def Let_def split: if_splits)
  show ?thesis
  proof (cases "exini_has_quirks ini1 EXINI_QUIRK_DTBOCFG")
    case False
    with load [OF start] assms(2) show ?thesis by (simp add: exini_load_def ini1_def Let_def)
  next
    case True
    show ?thesis
    proof (cases "r2 < 0")
      case True2: True
      have "sections ini2 = []"
        using n True2 by (auto simp: exini_new_section_def ini1_def Let_def split: option.splits)
      with True True2 n assms(2) show ?thesis by (simp add: exini_load_def ini1_def Let_def)
    next
      case False
      have "quirks ini2 = quirks ini1"
        using n by (auto simp: exini_new_section_def Let_def split: option.splits)
      then have "exini_has_quirks ini2 EXINI_QUIRK_DTBOCFG" using True by (simp add: exini_has_quirks_def)
      with False True n assms(2) load [OF find] show ?thesis by (simp add: exini_load_def ini1_def Let_def)
    qed
  qed
qed

theorem exini_load_inv_witness:
  "(case exini_load True empty_ini ''{a=1}'' 1 of (r, ini') \<Rightarrow> if r = 0 then ini_inv ini' else r < 0 \<and> sections ini' = [])"
proof (cases "exini_load True empty_ini ''{a=1}'' 1")
  case (Pair r ini')
  have "prop_handler empty_ini = None" by (simp add: empty_ini_def)
  from exini_load_inv [OF this Pair] Pair show ?thesis by simp
qed

end
