(* ===== verification/Files.thy ===== *)
theory Files
  imports Prelude
begin

text \<open>
  Files, virtual files and the global data of the program (virtual\_file.c, dd.c, gd.c,
  disk\_partition.c, gd\_private.h and the shared structures of imgeditor.h).

  The system calls act on a state of descriptors, open file descriptions (which \<open>dup\<close> shares, with
  their position) and file contents. A transfer moves at most \<open>max_io\<close> bytes, so a read or write may
  be short. Access modes and failing devices are not modelled; a descriptor that is not open fails.
\<close>

section \<open>The shared data\<close>

definition MAX_VIRTUAL_FILE :: nat where "MAX_VIRTUAL_FILE = 32"
definition GD_MAX_PARTITIONS :: nat where "GD_MAX_PARTITIONS = 8"
definition GD_MAX_IMGEDITOR :: nat where "GD_MAX_IMGEDITOR = 64"

definition DISK_PARTITIONS_SCORE_WEAK :: int where "DISK_PARTITIONS_SCORE_WEAK = 10"
definition DISK_PARTITIONS_SCORE_GOOD :: int where "DISK_PARTITIONS_SCORE_GOOD = 80"

record virtual_file =
  vf_fd :: int
  start_offset :: int
  total_length :: int
  used :: bool

record disk_partition =
  part_name :: string
  start_addr :: u64
  end_addr :: u64

text \<open>The flexible array \<open>parts\<close> has \<open>n_parts\<close> elements: it is a list of that length.\<close>

record disk_partitions =
  disk_type :: string
  score :: int
  parts :: "disk_partition list"

text \<open>The data members of \<open>struct imgeditor\<close>; its operations are modelled with their editors.\<close>

record imgeditor =
  ie_name :: string
  descriptor :: string
  ie_flags :: u32
  header_size :: nat
  private_data_size :: nat

text \<open>The two pointer arrays are lists of their full length, the empty cells are \<open>None\<close>.\<close>

record global_data =
  verbose_level :: int
  active_partitions :: nat
  disk_parts_array :: "disk_partitions option list"
  export_imgeditor_counts :: nat
  export_imgeditors :: "imgeditor option list"
  vfps :: "virtual_file list"
  search_mode :: int

section \<open>System calls\<close>

record open_file =
  inode :: nat
  position :: nat

record sys =
  fds :: "nat option list"
  open_files :: "open_file list"
  inodes :: "bytes list"
  max_io :: nat
  gd :: global_data

definition ofd_of :: "sys \<Rightarrow> int \<Rightarrow> nat option" where
  "ofd_of s fd = (if fd < 0 \<or> int (length (fds s)) \<le> fd then None else fds s ! nat fd)"

definition content :: "sys \<Rightarrow> nat \<Rightarrow> bytes" where
  "content s d = inodes s ! inode (open_files s ! d)"

definition set_position :: "nat \<Rightarrow> nat \<Rightarrow> sys \<Rightarrow> sys" where
  "set_position d p s = s\<lparr>open_files := (open_files s)[d := (open_files s ! d)\<lparr>position := p\<rparr>]\<rparr>"

definition set_content :: "nat \<Rightarrow> bytes \<Rightarrow> sys \<Rightarrow> sys" where
  "set_content d c s = s\<lparr>inodes := (inodes s)[inode (open_files s ! d) := c]\<rparr>"

definition sys_read :: "int \<Rightarrow> nat \<Rightarrow> sys \<Rightarrow> int \<times> bytes \<times> sys" where
  "sys_read fd n s =
     (case ofd_of s fd of
        None \<Rightarrow> (-1, [], s)
      | Some d \<Rightarrow>
          let p = position (open_files s ! d);
              data = take (min n (max_io s)) (drop p (content s d))
          in (int (length data), data, set_position d (p + length data) s))"

text \<open>Bytes written at a position; a gap behind the old end reads as zero.\<close>

definition overlay :: "bytes \<Rightarrow> nat \<Rightarrow> bytes \<Rightarrow> bytes" where
  "overlay c p bs = (if bs = [] then c
     else take p c @ replicate (p - length c) 0 @ bs @ drop (p + length bs) c)"

definition sys_write :: "int \<Rightarrow> bytes \<Rightarrow> sys \<Rightarrow> int \<times> sys" where
  "sys_write fd bs s =
     (case ofd_of s fd of
        None \<Rightarrow> (-1, s)
      | Some d \<Rightarrow>
          let p = position (open_files s ! d); w = take (max_io s) bs
          in (int (length w), set_position d (p + length w) (set_content d (overlay (content s d) p w) s)))"

definition lseek_set :: "int \<Rightarrow> int \<Rightarrow> sys \<Rightarrow> int \<times> sys" where
  "lseek_set fd off s =
     (case ofd_of s fd of
        None \<Rightarrow> (-1, s)
      | Some d \<Rightarrow> if off < 0 then (-1, s) else (off, set_position d (nat off) s))"

text \<open>\<open>lseek64(fd, 0, SEEK_END)\<close>.\<close>

definition lseek_end :: "int \<Rightarrow> sys \<Rightarrow> int \<times> sys" where
  "lseek_end fd s =
     (case ofd_of s fd of
        None \<Rightarrow> (-1, s)
      | Some d \<Rightarrow> let n = length (content s d) in (int n, set_position d n s))"

text \<open>The lowest descriptor that is free.\<close>

definition alloc_fd :: "nat \<Rightarrow> sys \<Rightarrow> int \<times> sys" where
  "alloc_fd d s =
     (let n = length (takeWhile (\<lambda>x. x \<noteq> None) (fds s))
      in (int n, s\<lparr>fds := (if n < length (fds s) then (fds s)[n := Some d] else fds s @ [Some d])\<rparr>))"

definition sys_dup :: "int \<Rightarrow> sys \<Rightarrow> int \<times> sys" where
  "sys_dup fd s = (case ofd_of s fd of None \<Rightarrow> (-1, s) | Some d \<Rightarrow> alloc_fd d s)"

definition sys_close :: "int \<Rightarrow> sys \<Rightarrow> sys" where
  "sys_close fd s = (if ofd_of s fd = None then s else s\<lparr>fds := (fds s)[nat fd := None]\<rparr>)"

text \<open>
  \<open>open\<close> of an existing file, named by its inode, or \<open>None\<close> when it fails: a new description at
  position 0.
\<close>

definition sys_open :: "nat option \<Rightarrow> sys \<Rightarrow> int \<times> sys" where
  "sys_open file s =
     (case file of
        None \<Rightarrow> (-1, s)
      | Some i \<Rightarrow> alloc_fd (length (open_files s))
                   (s\<lparr>open_files := open_files s @ [\<lparr>inode = i, position = 0\<rparr>]\<rparr>))"

section \<open>virtual\_file.c\<close>

definition virtual_file_get :: "int \<Rightarrow> sys \<Rightarrow> nat option" where
  "virtual_file_get fd s =
     (let vs = vfps (gd s); n = length (takeWhile (\<lambda>v. \<not> (used v \<and> vf_fd v = fd)) vs)
      in if n < length vs then Some n else None)"

definition fileopen :: "nat option \<Rightarrow> sys \<Rightarrow> int \<times> sys" where
  "fileopen file s = sys_open file s"

text \<open>\<open>O_TRUNC\<close> empties the file.\<close>

definition fileopen_trunc :: "nat option \<Rightarrow> sys \<Rightarrow> int \<times> sys" where
  "fileopen_trunc file s =
     fileopen file (case file of None \<Rightarrow> s | Some i \<Rightarrow> s\<lparr>inodes := (inodes s)[i := []]\<rparr>)"

definition filelength :: "int \<Rightarrow> sys \<Rightarrow> int \<times> sys" where
  "filelength fd s =
     (case virtual_file_get fd s of
        Some i \<Rightarrow> (total_length (vfps (gd s) ! i), s)
      | None \<Rightarrow> let (sz, s1) = lseek_end fd s; (_, s2) = lseek_set fd 0 s1 in (sz, s2))"

definition filestart :: "int \<Rightarrow> sys \<Rightarrow> int" where
  "filestart fd s =
     (case virtual_file_get fd s of None \<Rightarrow> 0 | Some i \<Rightarrow> start_offset (vfps (gd s) ! i))"

definition fileseek :: "int \<Rightarrow> int \<Rightarrow> sys \<Rightarrow> int \<times> sys" where
  "fileseek fd offset s = lseek_set fd (filestart fd s + offset) s"

lemma sys_read_length: "sys_read fd n s = (r, data, s') \<Longrightarrow> r = -1 \<and> data = [] \<or> r = int (length data) \<and> length data \<le> n"
  by (auto simp: sys_read_def Let_def split: option.splits)

text \<open>The loop of \<open>fileread\<close> with n bytes read so far in \<open>acc\<close>.\<close>

function fileread_loop :: "int \<Rightarrow> nat \<Rightarrow> bytes \<Rightarrow> sys \<Rightarrow> int \<times> bytes \<times> sys" where
  "fileread_loop fd sz acc s =
     (if length acc < sz then
        let (ret, data, s') = sys_read fd (sz - length acc) s
        in if ret < 0 then (ret, acc, s')
           else if ret = 0 then (if length acc = sz then 0 else -1, acc, s')
           else fileread_loop fd sz (acc @ data) s'
      else (if length acc = sz then 0 else -1, acc, s))"
  by pat_completeness auto

termination
proof (relation "measure (\<lambda>(fd, sz, acc, s). sz - length acc)", goal_cases)
  case (2 fd sz acc s x r y data s')
  then obtain k where "length data = Suc k"
    using sys_read_length [of fd "sz - length acc" s r data s'] by (cases "length data") auto
  with 2 show ?case by simp
qed simp

declare fileread_loop.simps [simp del]

definition fileread :: "int \<Rightarrow> nat \<Rightarrow> sys \<Rightarrow> int \<times> bytes \<times> sys" where
  "fileread fd sz s = fileread_loop fd sz [] s"

definition set_vfp :: "nat \<Rightarrow> virtual_file \<Rightarrow> sys \<Rightarrow> sys" where
  "set_vfp i v s = s\<lparr>gd := (gd s)\<lparr>vfps := (vfps (gd s))[i := v]\<rparr>\<rparr>"

definition virtual_file_get_unused :: "sys \<Rightarrow> nat option \<times> sys" where
  "virtual_file_get_unused s =
     (let vs = vfps (gd s); n = length (takeWhile used vs)
      in if n < length vs then (Some n, set_vfp n ((vs ! n)\<lparr>used := True\<rparr>) s) else (None, s))"

definition filelength_no_cache :: "int \<Rightarrow> sys \<Rightarrow> int \<times> sys" where
  "filelength_no_cache fd s = lseek_end fd s"

text \<open>With every slot used \<open>virtual_file_dup\<close> writes through a null pointer.\<close>

definition virtual_file_dup :: "int \<Rightarrow> int \<Rightarrow> sys \<Rightarrow> (int \<times> sys) cres" where
  "virtual_file_dup ref_fd offset s =
     (case virtual_file_get_unused s of
        (None, _) \<Rightarrow> Oob
      | (Some i, s1) \<Rightarrow>
          let (fd, s2) = sys_dup ref_fd s1; v = vfps (gd s2) ! i
          in if fd < 0 then Ok (fd, set_vfp i (v\<lparr>vf_fd := fd, used := False\<rparr>) s2)
             else
               let s3 = set_vfp i (v\<lparr>vf_fd := fd\<rparr>) s2;
                   start = offset + filestart ref_fd s3;
                   (len, s4) = filelength_no_cache ref_fd s3;
                   s5 = set_vfp i (v\<lparr>vf_fd := fd, start_offset := start, total_length := len - start\<rparr>) s4;
                   (_, s6) = lseek_set fd start s5
               in Ok (fd, s6))"

definition virtual_file_open :: "nat option \<Rightarrow> int \<Rightarrow> sys \<Rightarrow> int \<times> sys" where
  "virtual_file_open file offset s =
     (let (fd, s1) = fileopen file s
      in if fd < 0 then (fd, s1)
         else case virtual_file_get_unused s1 of
             (None, s2) \<Rightarrow> (-1, sys_close fd s2)
           | (Some i, s2) \<Rightarrow>
               let (len, s3) = filelength_no_cache fd s2;
                   v = vfps (gd s3) ! i;
                   s4 = set_vfp i (v\<lparr>vf_fd := fd, start_offset := offset, total_length := len - offset\<rparr>) s3;
                   (_, s5) = lseek_set fd offset s4
               in (fd, s5))"

definition virtual_file_close :: "int \<Rightarrow> sys \<Rightarrow> int \<times> sys" where
  "virtual_file_close fd s =
     (case virtual_file_get fd s of
        None \<Rightarrow> (-1, s)
      | Some i \<Rightarrow>
          (0, set_vfp i \<lparr>vf_fd = -1, start_offset = 0, total_length = 0, used = False\<rparr> (sys_close fd s)))"

section \<open>dd.c\<close>

definition dd_max_bufsz :: nat where "dd_max_bufsz = 2 ^ 20"

text \<open>
  The buffer starts with whatever \<open>malloc\<close> returns and keeps what earlier rounds left in it.
  The scanner sees the first \<open>sz_buster\<close> bytes of it, also after a shorter read, and may change them.
\<close>

type_synonym 'p bufscan = "bytes \<Rightarrow> 'p \<Rightarrow> bytes \<times> 'p"

definition buf_store :: "(nat \<Rightarrow> u8) \<Rightarrow> bytes \<Rightarrow> nat \<Rightarrow> u8" where
  "buf_store buf bs = (\<lambda>i. if i < length bs then bs ! i else buf i)"

function dd_loop ::
    "int \<Rightarrow> int \<Rightarrow> nat \<Rightarrow> 'p bufscan option \<Rightarrow> 'p \<Rightarrow> (nat \<Rightarrow> u8) \<Rightarrow> nat \<Rightarrow> sys \<Rightarrow> nat \<times> 'p \<times> sys" where
  "dd_loop fdsrc fddst sz bufscan p buf n_copied s =
     (if sz > 0 then
        let sz_buster = (if sz < dd_max_bufsz then sz else dd_max_bufsz);
            (lensrc, buf1, s1) =
              (if \<not> fdsrc < 0 then
                 (case sys_read fdsrc sz_buster s of (r, data, s1) \<Rightarrow> (r, buf_store buf data, s1))
               else (int sz_buster, buf_store buf (replicate sz_buster 0), s))
        in if lensrc \<le> 0 then (n_copied, p, s1)
           else
             let (buf2, p2) =
                   (case bufscan of
                      None \<Rightarrow> (buf1, p)
                    | Some scan \<Rightarrow>
                        (case scan (map buf1 [0..<sz_buster]) p of (bs, p') \<Rightarrow> (buf_store buf1 bs, p')));
                 (ok, s2) =
                   (if \<not> fddst < 0 then
                      (case sys_write fddst (map buf2 [0..<nat lensrc]) s1 of (r, s2) \<Rightarrow> (r = lensrc, s2))
                    else (True, s1))
             in if \<not> ok then (n_copied, p2, s2)
                else dd_loop fdsrc fddst (sz - nat lensrc) bufscan p2 buf2 (n_copied + nat lensrc) s2
      else (n_copied, p, s))"
  by pat_completeness auto

termination
  by (relation "measure (\<lambda>(fdsrc, fddst, sz, bufscan, p, buf, n, s). sz)") (auto split: if_splits)

declare dd_loop.simps [simp del]

text \<open>\<open>garbage\<close> is what \<open>malloc\<close> returned, \<open>None\<close> when it failed. \<open>sz\<close> is unsigned.\<close>

definition dd64 ::
    "(nat \<Rightarrow> u8) option \<Rightarrow> int \<Rightarrow> int \<Rightarrow> int \<Rightarrow> int \<Rightarrow> nat \<Rightarrow> 'p bufscan option \<Rightarrow> 'p \<Rightarrow> sys \<Rightarrow> nat \<times> 'p \<times> sys" where
  "dd64 garbage fdsrc fddst offt_src offt_dst sz bufscan p s =
     (if fdsrc < 0 \<and> fddst < 0 then (0, p, s)
      else case garbage of
          None \<Rightarrow> (0, p, s)
        | Some buf \<Rightarrow>
            let s1 = (if \<not> fdsrc < 0 then snd (fileseek fdsrc offt_src s) else s);
                s2 = (if \<not> fddst < 0 then snd (fileseek fddst offt_dst s1) else s1)
            in dd_loop fdsrc fddst sz bufscan p buf 0 s2)"

definition dd ::
    "(nat \<Rightarrow> u8) option \<Rightarrow> int \<Rightarrow> int \<Rightarrow> int \<Rightarrow> int \<Rightarrow> nat \<Rightarrow> 'p bufscan option \<Rightarrow> 'p \<Rightarrow> sys \<Rightarrow> nat \<times> 'p \<times> sys" where
  "dd garbage fdsrc fddst offt_src offt_dst sz bufscan p s =
     dd64 garbage fdsrc fddst offt_src offt_dst sz bufscan p s"

section \<open>gd.c\<close>

definition get_verbose_level :: "sys \<Rightarrow> int" where
  "get_verbose_level s = verbose_level (gd s)"

definition imgeditor_in_search_mode :: "sys \<Rightarrow> int" where
  "imgeditor_in_search_mode s = search_mode (gd s)"

definition gd_export_imgeditor :: "imgeditor \<Rightarrow> global_data \<Rightarrow> global_data" where
  "gd_export_imgeditor e g =
     (if export_imgeditor_counts g < GD_MAX_IMGEDITOR then
        g\<lparr>export_imgeditors := (export_imgeditors g)[export_imgeditor_counts g := Some e],
          export_imgeditor_counts := export_imgeditor_counts g + 1\<rparr>
      else g)"

definition gd_get_imgeditor :: "string \<Rightarrow> global_data \<Rightarrow> imgeditor option" where
  "gd_get_imgeditor name g =
     find (\<lambda>e. ie_name e = name) (map the (take (export_imgeditor_counts g) (export_imgeditors g)))"

section \<open>disk\_partition.c\<close>

definition register_disk_partitions :: "disk_partitions \<Rightarrow> global_data \<Rightarrow> global_data" where
  "register_disk_partitions dp g =
     (if \<not> active_partitions g < GD_MAX_PARTITIONS then g
      else
        let part_cell = active_partitions g;
            dp' = (if score dp = 0 then dp\<lparr>score := DISK_PARTITIONS_SCORE_GOOD\<rparr> else dp)
        in g\<lparr>active_partitions := active_partitions g + 1,
             disk_parts_array := (disk_parts_array g)[part_cell := Some dp']\<rparr>)"

definition register_weak_disk_partitions :: "disk_partitions \<Rightarrow> global_data \<Rightarrow> global_data" where
  "register_weak_disk_partitions dp g =
     register_disk_partitions (dp\<lparr>score := DISK_PARTITIONS_SCORE_WEAK\<rparr>) g"

definition alloc_disk_partitions :: "bool \<Rightarrow> string \<Rightarrow> nat \<Rightarrow> disk_partitions option" where
  "alloc_disk_partitions mem ty n =
     (if \<not> mem then None
      else Some \<lparr>disk_type = take 63 ty, score = 0,
                 parts = replicate n \<lparr>part_name = [], start_addr = 0, end_addr = 0\<rparr>\<rparr>)"

definition free_registed_disk_partitions :: "global_data \<Rightarrow> global_data" where
  "free_registed_disk_partitions g =
     g\<lparr>disk_parts_array := map (\<lambda>(i, d). if i < active_partitions g then None else d)
                               (enumerate 0 (disk_parts_array g)),
       active_partitions := 0\<rparr>"

text \<open>The state of the search: the type of the last match, the best partition and its score.\<close>

fun find_in_parts ::
    "u64 \<Rightarrow> string \<Rightarrow> int \<Rightarrow> disk_partition list \<Rightarrow> string option \<times> disk_partition option \<times> int
      \<Rightarrow> string option \<times> disk_partition option \<times> int" where
  "find_in_parts addr ty sc [] st = st"
| "find_in_parts addr ty sc (part # ps) (rty, best, best_score) =
     find_in_parts addr ty sc ps
       (if start_addr part \<le> addr \<and> addr \<le> end_addr part then
          (Some ty, if sc > best_score then (Some part, sc) else (best, best_score))
        else (rty, best, best_score))"

fun find_in_disks ::
    "u64 \<Rightarrow> disk_partitions list \<Rightarrow> string option \<times> disk_partition option \<times> int
      \<Rightarrow> string option \<times> disk_partition option \<times> int" where
  "find_in_disks addr [] st = st"
| "find_in_disks addr (dp # dps) st =
     find_in_disks addr dps (find_in_parts addr (disk_type dp) (score dp) (parts dp) st)"

definition find_registed_partition :: "u64 \<Rightarrow> global_data \<Rightarrow> disk_partition option \<times> string option" where
  "find_registed_partition addr g =
     (case find_in_disks addr (map the (take (active_partitions g) (disk_parts_array g))) (None, None, 0) of
        (ty, best, sc) \<Rightarrow> (best, ty))"

end
