(* ===== verification/FileLaws.thy ===== *)
theory FileLaws
  imports Files
begin

text \<open>
  What the file layer guarantees: \<open>fileread\<close> hides short reads, a virtual file is a window of its file, the
  table of virtual files keeps its invariant, \<open>dd64\<close> copies and scans exactly the range it is given, and the
  registered partitions are searched by score.
\<close>

section \<open>Descriptors\<close>

text \<open>Every descriptor refers to a description, and every description to a file.\<close>

definition sys_ok :: "sys \<Rightarrow> bool" where
  "sys_ok s \<longleftrightarrow> 0 < max_io s \<and> (\<forall>d. Some d \<in> set (fds s) \<longrightarrow> d < length (open_files s)) \<and>
     list_all (\<lambda>f. inode f < length (inodes s)) (open_files s)"

lemma sys_ok_ofd: "sys_ok s \<Longrightarrow> ofd_of s fd = Some d \<Longrightarrow> d < length (open_files s)"
  unfolding sys_ok_def ofd_of_def by (metis nat_less_iff not_le nth_mem option.distinct(1))

lemma sys_ok_inode: "sys_ok s \<Longrightarrow> d < length (open_files s) \<Longrightarrow> inode (open_files s ! d) < length (inodes s)"
  by (simp add: sys_ok_def list_all_length)

lemma set_position_simps [simp]:
  "fds (set_position d p s) = fds s" "inodes (set_position d p s) = inodes s" "max_io (set_position d p s) = max_io s"
  "gd (set_position d p s) = gd s" "length (open_files (set_position d p s)) = length (open_files s)"
  "ofd_of (set_position d p s) fd = ofd_of s fd"
  by (simp_all add: set_position_def ofd_of_def)

lemma set_position_nth [simp]:
  "d < length (open_files s) \<Longrightarrow> position (open_files (set_position d p s) ! d) = p"
  "inode (open_files (set_position d p s) ! e) = inode (open_files s ! e)"
  "e \<noteq> d \<Longrightarrow> open_files (set_position d p s) ! e = open_files s ! e"
proof -
  show "d < length (open_files s) \<Longrightarrow> position (open_files (set_position d p s) ! d) = p"
    by (simp add: set_position_def)
  show "inode (open_files (set_position d p s) ! e) = inode (open_files s ! e)"
    by (cases "d < length (open_files s)"; cases "e = d") (simp_all add: set_position_def list_update_beyond)
  show "e \<noteq> d \<Longrightarrow> open_files (set_position d p s) ! e = open_files s ! e"
    by (simp add: set_position_def)
qed

lemma content_set_position [simp]: "content (set_position d p s) e = content s e"
  by (simp add: content_def)

lemma set_position_twice [simp]: "set_position d q (set_position d p s) = set_position d q s"
  by (cases "d < length (open_files s)") (simp_all add: set_position_def list_update_beyond)

lemma set_position_same: "d < length (open_files s) \<Longrightarrow> set_position d (position (open_files s ! d)) s = s"
  by (cases s) (simp add: set_position_def)

lemma set_content_simps [simp]:
  "fds (set_content d c s) = fds s" "open_files (set_content d c s) = open_files s" "max_io (set_content d c s) = max_io s"
  "gd (set_content d c s) = gd s" "length (inodes (set_content d c s)) = length (inodes s)"
  "ofd_of (set_content d c s) fd = ofd_of s fd"
  by (simp_all add: set_content_def ofd_of_def)

lemma content_set_content:
  "sys_ok s \<Longrightarrow> d < length (open_files s) \<Longrightarrow> content (set_content d c s) d = c"
  "inode (open_files s ! e) \<noteq> inode (open_files s ! d) \<Longrightarrow> content (set_content d c s) e = content s e"
  by (simp_all add: content_def set_content_def sys_ok_inode)

lemma sys_ok_position [simp]: "sys_ok (set_position d p s) = sys_ok s"
proof -
  have "(\<forall>i<length (open_files s). inode (open_files (set_position d p s) ! i) < length (inodes s)) =
      (\<forall>i<length (open_files s). inode (open_files s ! i) < length (inodes s))" by simp
  then show ?thesis by (simp add: sys_ok_def list_all_length)
qed

lemma sys_ok_content [simp]: "sys_ok (set_content d c s) = sys_ok s"
  by (simp add: sys_ok_def)

section \<open>Reading\<close>

definition remaining :: "sys \<Rightarrow> nat \<Rightarrow> bytes" where
  "remaining s d = drop (position (open_files s ! d)) (content s d)"

lemma sys_read_eq:
  "ofd_of s fd = Some d \<Longrightarrow> sys_read fd n s =
     (let data = take (min n (max_io s)) (remaining s d)
      in (int (length data), data, set_position d (position (open_files s ! d) + length data) s))"
  by (simp add: sys_read_def remaining_def Let_def)

lemma fileread_loop_eq:
  assumes "sys_ok s" "ofd_of s fd = Some d" "length acc \<le> sz"
  shows "fileread_loop fd sz acc s =
    (let data = take (sz - length acc) (remaining s d)
     in (if length acc + length data = sz then 0 else -1, acc @ data,
         set_position d (position (open_files s ! d) + length data) s))"
  using assms
proof (induction fd sz acc s rule: fileread_loop.induct)
  case (1 fd sz acc s)
  have d: "d < length (open_files s)" using 1(2,3) by (rule sys_ok_ofd)
  let ?n = "sz - length acc"
  let ?rem = "remaining s d"
  define data where "data = take (min ?n (max_io s)) ?rem"
  define s' where "s' = set_position d (position (open_files s ! d) + length data) s"
  have rd: "sys_read fd ?n s = (int (length data), data, s')"
    using sys_read_eq [OF 1(3), of ?n] by (simp add: Let_def data_def s'_def)
  show ?case
  proof (cases "length acc < sz \<and> ?rem \<noteq> []")
    case False
    with 1(4) have "data = []" "take ?n ?rem = []" by (auto simp: data_def)
    moreover from this have "s' = s" using set_position_same [OF d] by (simp add: s'_def)
    ultimately show ?thesis
      using rd 1(4) set_position_same [OF d] by (subst fileread_loop.simps) auto
  next
    case True
    then have less: "length acc < sz" and rem: "?rem \<noteq> []" by auto
    have io: "0 < max_io s" using 1(2) by (simp add: sys_ok_def)
    have ne: "data \<noteq> []" using less rem io by (simp add: data_def)
    have len: "length data \<le> ?n" by (simp add: data_def)
    have rem': "remaining s' d = drop (length data) ?rem"
      using d by (simp add: remaining_def s'_def add.commute)
    have pos': "position (open_files s' ! d) = position (open_files s ! d) + length data"
      using d by (simp add: s'_def)
    have step: "fileread_loop fd sz acc s = fileread_loop fd sz (acc @ data) s'"
      using less rd ne by (subst fileread_loop.simps) simp
    have "sys_ok s'" "ofd_of s' fd = Some d" using 1(2,3) by (simp_all add: s'_def)
    then have ih: "fileread_loop fd sz (acc @ data) s' =
        (let data' = take (sz - length (acc @ data)) (remaining s' d)
         in (if length (acc @ data) + length data' = sz then 0 else -1, (acc @ data) @ data',
             set_position d (position (open_files s' ! d) + length data') s'))"
      using 1(1) [OF less rd [symmetric] refl refl] len less ne by simp
    define more where "more = take (?n - length data) (drop (length data) ?rem)"
    have split: "take ?n ?rem = data @ more"
    proof -
      have "data = take (length data) ?rem" unfolding data_def by (rule take_length_take)
      then show ?thesis
        using len by (metis add_diff_inverse_nat more_def not_le take_add verit_comp_simplify1(3))
    qed
    have "take (sz - length (acc @ data)) (remaining s' d) = more"
      by (simp add: rem' more_def)
    then show ?thesis
      unfolding step ih split Let_def pos' by (simp add: s'_def add.assoc)
  qed
qed

text \<open>C28: whatever the size of a single transfer, \<open>fileread\<close> returns 0 with exactly the next \<open>sz\<close> bytes of the
  file when there are that many, and -1 with what is left when there are not; it moves the position by the bytes read and
  changes nothing else.\<close>

theorem fileread_exact:
  assumes "sys_ok s" "ofd_of s fd = Some d"
  shows "fileread fd sz s =
    (let rest = drop (position (open_files s ! d)) (content s d) in
     (if sz \<le> length rest then 0 else -1, take sz rest,
      set_position d (position (open_files s ! d) + min sz (length rest)) s))"
  using fileread_loop_eq [OF assms, of "[]" sz]
  by (auto simp: fileread_def Let_def remaining_def min_def)

section \<open>Moving through files\<close>

definition advance :: "nat \<Rightarrow> nat \<Rightarrow> sys \<Rightarrow> sys" where
  "advance d n s = set_position d (position (open_files s ! d) + n) s"

definition put :: "nat \<Rightarrow> bytes \<Rightarrow> sys \<Rightarrow> sys" where
  "put e bs s = advance e (length bs) (set_content e (overlay (content s e) (position (open_files s ! e)) bs) s)"

lemma length_overlay: "bs \<noteq> [] \<Longrightarrow> length (overlay c p bs) = max (length c) (p + length bs)"
  by (simp add: overlay_def)

lemma overlay_Nil [simp]: "overlay c p [] = c"
  by (simp add: overlay_def)

lemma overlay_nth:
  "i < length (overlay c p bs) \<Longrightarrow> overlay c p bs ! i =
     (if p \<le> i \<and> i < p + length bs then bs ! (i - p) else if i < length c then c ! i else 0)"
  by (auto simp: overlay_def nth_append min_def)

lemma overlay_append: "overlay (overlay c p a) (p + length a) b = overlay c p (a @ b)"
proof (cases "a = [] \<or> b = []")
  case True
  then show ?thesis by auto
next
  case False
  show ?thesis
  proof (rule nth_equalityI)
    show len: "length (overlay (overlay c p a) (p + length a) b) = length (overlay c p (a @ b))"
      using False by (simp add: length_overlay)
    fix i
    assume i: "i < length (overlay (overlay c p a) (p + length a) b)"
    then have i2: "i < length (overlay c p (a @ b))" using len by simp
    show "overlay (overlay c p a) (p + length a) b ! i = overlay c p (a @ b) ! i"
      using False overlay_nth [OF i] overlay_nth [OF i2] overlay_nth [of i c p a] i i2
      by (auto simp: length_overlay nth_append max_def split: if_splits)
  qed
qed

lemma overlay_inside:
  "p + length bs \<le> length c \<Longrightarrow> overlay c p bs = take p c @ bs @ drop (p + length bs) c"
  by (simp add: overlay_def)

lemma advance_simps [simp]:
  "fds (advance d n s) = fds s" "inodes (advance d n s) = inodes s" "max_io (advance d n s) = max_io s"
  "gd (advance d n s) = gd s" "length (open_files (advance d n s)) = length (open_files s)"
  "ofd_of (advance d n s) fd = ofd_of s fd" "sys_ok (advance d n s) = sys_ok s"
  "content (advance d n s) e = content s e" "inode (open_files (advance d n s) ! e) = inode (open_files s ! e)"
  by (simp_all add: advance_def)

lemma advance_position [simp]:
  "d < length (open_files s) \<Longrightarrow> position (open_files (advance d n s) ! d) = position (open_files s ! d) + n"
  "e \<noteq> d \<Longrightarrow> open_files (advance d n s) ! e = open_files s ! e"
  by (simp_all add: advance_def)

lemma advance_0 [simp]: "d < length (open_files s) \<Longrightarrow> advance d 0 s = s"
  by (simp add: advance_def set_position_same)

lemma advance_advance: "d < length (open_files s) \<Longrightarrow> advance d n (advance d m s) = advance d (m + n) s"
  by (simp add: advance_def add.assoc)

lemma put_simps [simp]:
  "fds (put e bs s) = fds s" "max_io (put e bs s) = max_io s" "gd (put e bs s) = gd s"
  "length (open_files (put e bs s)) = length (open_files s)" "ofd_of (put e bs s) fd = ofd_of s fd"
  "sys_ok (put e bs s) = sys_ok s" "length (inodes (put e bs s)) = length (inodes s)"
  "inode (open_files (put e bs s) ! d) = inode (open_files s ! d)"
  by (simp_all add: put_def)

lemma put_position [simp]:
  "e < length (open_files s) \<Longrightarrow> position (open_files (put e bs s) ! e) = position (open_files s ! e) + length bs"
  "d \<noteq> e \<Longrightarrow> open_files (put e bs s) ! d = open_files s ! d"
  by (simp_all add: put_def)

lemma put_content:
  "sys_ok s \<Longrightarrow> e < length (open_files s) \<Longrightarrow>
     content (put e bs s) e = overlay (content s e) (position (open_files s ! e)) bs"
  "inode (open_files s ! d) \<noteq> inode (open_files s ! e) \<Longrightarrow> content (put e bs s) d = content s d"
  by (simp_all add: put_def content_set_content)

lemma set_content_twice: "sys_ok s \<Longrightarrow> set_content e b (set_content e a s) = set_content e b s"
  by (simp add: set_content_def)

lemma set_position_content: "set_content e c (set_position d p s) = set_position d p (set_content e c s)"
  by (cases "d < length (open_files s)"; cases "e = d")
    (simp_all add: set_content_def set_position_def list_update_beyond)

lemma put_Nil [simp]: "sys_ok s \<Longrightarrow> e < length (open_files s) \<Longrightarrow> put e [] s = s"
proof -
  assume "sys_ok s" "e < length (open_files s)"
  then have "set_content e (content s e) s = s" by (cases s) (simp add: set_content_def content_def)
  then show ?thesis using \<open>e < length (open_files s)\<close> by (simp add: put_def)
qed

lemma put_put: "sys_ok s \<Longrightarrow> e < length (open_files s) \<Longrightarrow> put e b (put e a s) = put e (a @ b) s"
  by (simp add: put_def advance_def content_set_content set_position_content set_content_twice overlay_append
      add.assoc)

lemma advance_put:
  "d \<noteq> e \<Longrightarrow> put e bs (advance d n s) = advance d n (put e bs s)"
proof -
  assume ne: "d \<noteq> e"
  have swap: "set_position e q (set_position d p t) = set_position d p (set_position e q t)" for p q t
    using ne by (simp add: set_position_def list_update_swap)
  show ?thesis
    using ne by (simp add: put_def advance_def set_position_content swap)
qed

lemma sys_read_advance:
  "ofd_of s fd = Some d \<Longrightarrow> sys_read fd n s =
     (let data = take (min n (max_io s)) (remaining s d) in (int (length data), data, advance d (length data) s))"
  by (simp add: sys_read_eq advance_def Let_def)

lemma sys_write_put:
  "ofd_of s fd = Some e \<Longrightarrow> length bs \<le> max_io s \<Longrightarrow> sys_write fd bs s = (int (length bs), put e bs s)"
  by (simp add: sys_write_def put_def advance_def Let_def set_content_def)

lemma remaining_advance:
  "d < length (open_files s) \<Longrightarrow> remaining (advance d n s) d = drop n (remaining s d)"
  by (simp add: remaining_def add.commute)

lemma remaining_put:
  "inode (open_files s ! d) \<noteq> inode (open_files s ! e) \<Longrightarrow> remaining (put e bs s) d = remaining s d"
proof -
  assume a: "inode (open_files s ! d) \<noteq> inode (open_files s ! e)"
  then have "d \<noteq> e" by auto
  with a show ?thesis by (simp add: remaining_def put_content)
qed

lemma map_buf_store: "map (buf_store buf bs) [0..<length bs] = bs"
  by (rule nth_equalityI) (simp_all add: buf_store_def)

lemma filestart_gd:
  assumes "gd s' = gd s"
  shows "filestart fd s' = filestart fd s"
  unfolding filestart_def virtual_file_get_def assms by (rule refl)

section \<open>Copying\<close>

lemma dd_loop_copy:
  assumes "0 \<le> fdsrc" "0 \<le> fddst" "sys_ok s" "ofd_of s fdsrc = Some d" "ofd_of s fddst = Some e"
    and "inode (open_files s ! d) \<noteq> inode (open_files s ! e)"
  shows "dd_loop fdsrc fddst sz None p buf n s =
    (let data = take sz (remaining s d) in (n + length data, p, put e data (advance d (length data) s)))"
  using assms
proof (induction sz arbitrary: s n buf rule: less_induct)
  case (less sz)
  have d: "d < length (open_files s)" and e: "e < length (open_files s)"
    using less.prems by (simp_all add: sys_ok_ofd)
  have de: "d \<noteq> e" using less.prems(6) by auto
  have io: "0 < max_io s" using less.prems(3) by (simp add: sys_ok_def)
  show ?case
  proof (cases "sz = 0 \<or> remaining s d = []")
    case True
    then have "dd_loop fdsrc fddst sz None p buf n s = (n, p, s)"
      using less.prems sys_read_advance [OF less.prems(4)] d
      by (subst dd_loop.simps) (auto simp: Let_def)
    moreover have none: "take sz (remaining s d) = []" using True by auto
    ultimately show ?thesis unfolding none using less.prems(3) d e by simp
  next
    case False
    define b where "b = (if sz < dd_max_bufsz then sz else dd_max_bufsz)"
    define data where "data = take (min b (max_io s)) (remaining s d)"
    define s1 where "s1 = advance d (length data) s"
    define s2 where "s2 = put e data s1"
    have b: "0 < b" "b \<le> sz" using False by (simp_all add: b_def dd_max_bufsz_def)
    have ne: "data \<noteq> []" using False b io by (simp add: data_def)
    have len: "length data \<le> sz" "length data \<le> max_io s" using b by (simp_all add: data_def)
    have dec: "sz - length data < sz" using ne len(1) by (cases data) auto
    have rd: "sys_read fdsrc b s = (int (length data), data, s1)"
      using sys_read_advance [OF less.prems(4), of b] by (simp add: Let_def data_def s1_def)
    have wr: "sys_write fddst data s1 = (int (length data), s2)"
      using sys_write_put [of s1 fddst e data] less.prems(5) len by (simp add: s1_def s2_def)
    have rem: "remaining s2 d = drop (length data) (remaining s d)"
      using less.prems(6) d by (simp add: s2_def s1_def remaining_put remaining_advance)
    have "dd_loop fdsrc fddst sz None p buf n s
        = dd_loop fdsrc fddst (sz - length data) None p (buf_store buf data) (n + length data) s2"
      using False less.prems(1,2) rd wr ne
      by (subst dd_loop.simps) (simp add: b_def [symmetric] map_buf_store)
    also have "\<dots> = (let more = take (sz - length data) (remaining s2 d)
        in (n + length data + length more, p, put e more (advance d (length more) s2)))"
      using less.prems dec by (intro less.IH) (simp_all add: s2_def s1_def)
    also have "\<dots> = (let all = take sz (remaining s d) in (n + length all, p, put e all (advance d (length all) s)))"
    proof -
      define more where "more = take (sz - length data) (drop (length data) (remaining s d))"
      have "data = take (length data) (remaining s d)" unfolding data_def by (rule take_length_take)
      then have all: "take sz (remaining s d) = data @ more"
        using len(1) by (metis add_diff_inverse_nat more_def not_le take_add verit_comp_simplify1(3))
      have "put e more (advance d (length more) s2) = put e (data @ more) (advance d (length (data @ more)) s)"
        using less.prems(3) d e de
        by (simp add: s2_def s1_def advance_put [OF de] put_put advance_advance)
      then show ?thesis unfolding rem all by (simp add: more_def [symmetric] Let_def)
    qed
    finally show ?thesis .
  qed
qed

text \<open>C10: \<open>dd64\<close> between two files copies the requested range, or what the source has of it, byte for byte: it
  returns the number of bytes copied, the target is overwritten with them at its offset (a gap reads as zero) and the
  source keeps its content, whatever the size of a single transfer.\<close>

theorem dd64_copies:
  assumes "0 \<le> fdsrc" "0 \<le> fddst" "sys_ok s" "ofd_of s fdsrc = Some d" "ofd_of s fddst = Some e"
    and "inode (open_files s ! d) \<noteq> inode (open_files s ! e)"
    and "0 \<le> filestart fdsrc s + offt_src" "0 \<le> filestart fddst s + offt_dst"
  shows "\<exists>s'. dd64 (Some buf) fdsrc fddst offt_src offt_dst sz None p s =
      (length (take sz (drop (nat (filestart fdsrc s + offt_src)) (content s d))), p, s') \<and>
    content s' e = overlay (content s e) (nat (filestart fddst s + offt_dst))
      (take sz (drop (nat (filestart fdsrc s + offt_src)) (content s d))) \<and>
    content s' d = content s d \<and> gd s' = gd s \<and> fds s' = fds s"
proof -
  have d: "d < length (open_files s)" and e: "e < length (open_files s)" and de: "d \<noteq> e"
    using assms by (auto simp: sys_ok_ofd)
  define s1 where "s1 = set_position d (nat (filestart fdsrc s + offt_src)) s"
  define s2 where "s2 = set_position e (nat (filestart fddst s + offt_dst)) s1"
  have "filestart fddst s1 = filestart fddst s" by (rule filestart_gd) (simp add: s1_def)
  then have dd: "dd64 (Some buf) fdsrc fddst offt_src offt_dst sz None p s = dd_loop fdsrc fddst sz None p buf 0 s2"
    using assms by (simp add: dd64_def fileseek_def lseek_set_def s1_def s2_def Let_def)
  have rem: "remaining s2 d = drop (nat (filestart fdsrc s + offt_src)) (content s d)"
    using d de by (simp add: remaining_def s2_def s1_def)
  have "position (open_files s2 ! e) = nat (filestart fddst s + offt_dst)"
    using e by (simp add: s2_def s1_def)
  then show ?thesis
    unfolding dd rem [symmetric]
    using dd_loop_copy [of fdsrc fddst s2 d e sz p buf 0] assms e de
    by (simp add: s2_def s1_def Let_def put_content)
qed

section \<open>Generating\<close>

text \<open>
  Without a source the buffer is zeroed in every round and the scanner makes the bytes to write; \<open>gen n\<close> is what
  it makes of \<open>n\<close> zeros. When the pieces of the buffer's size fit together, the target gets \<open>gen sz\<close>.
\<close>

definition scan_makes :: "'p bufscan option \<Rightarrow> 'p \<Rightarrow> (nat \<Rightarrow> bytes) \<Rightarrow> bool" where
  "scan_makes scan p gen \<longleftrightarrow>
     (\<forall>n. length (gen n) = n) \<and> (\<forall>n. dd_max_bufsz \<le> n \<longrightarrow> gen n = gen dd_max_bufsz @ gen (n - dd_max_bufsz)) \<and>
     (case scan of None \<Rightarrow> \<forall>n. gen n = replicate n 0 | Some f \<Rightarrow> \<forall>n. f (replicate n 0) p = (gen n, p))"

lemma dd_loop_generate:
  assumes "fdsrc < 0" "0 \<le> fddst" "scan_makes scan p gen"
  shows "sys_ok s \<Longrightarrow> ofd_of s fddst = Some e \<Longrightarrow> dd_max_bufsz \<le> max_io s \<Longrightarrow>
    dd_loop fdsrc fddst sz scan p buf n s = (n + sz, p, put e (gen sz) s)"
proof (induction sz arbitrary: s n buf rule: less_induct)
  case (less sz)
  have e: "e < length (open_files s)" using less.prems by (simp add: sys_ok_ofd)
  have len: "length (gen k) = k" for k using assms(3) by (simp add: scan_makes_def)
  show ?case
  proof (cases "sz = 0")
    case True
    then have "gen sz = []" using len [of sz] by simp
    then show ?thesis using True less.prems e by (subst dd_loop.simps) simp
  next
    case False
    define b where "b = (if sz < dd_max_bufsz then sz else dd_max_bufsz)"
    have b: "0 < b" "b \<le> sz" "b \<le> max_io s"
      using False less.prems(3) by (simp_all add: b_def dd_max_bufsz_def)
    have zeros: "map (buf_store buf (replicate b 0)) [0..<b] = replicate b 0"
      using map_buf_store [of buf "replicate b 0"] by simp
    have made: "map (buf_store buf' (gen b)) [0..<b] = gen b" for buf'
      using map_buf_store [of buf' "gen b"] len by simp
    have wr: "sys_write fddst (gen b) s = (int b, put e (gen b) s)"
      using sys_write_put [OF less.prems(2), of "gen b"] len b by simp
    obtain buf' where step: "dd_loop fdsrc fddst sz scan p buf n s =
        dd_loop fdsrc fddst (sz - b) scan p buf' (n + b) (put e (gen b) s)"
    proof (cases scan)
      case None
      then have gen: "gen b = replicate b 0" using assms(3) by (simp add: scan_makes_def)
      show ?thesis
        by (rule that [of "buf_store buf (replicate b 0)"])
           (use None gen False b assms(1,2) wr in \<open>subst dd_loop.simps, simp add: b_def [symmetric] zeros\<close>)
    next
      case (Some f)
      then have f: "f (replicate b 0) p = (gen b, p)" using assms(3) by (simp add: scan_makes_def)
      show ?thesis
        by (rule that [of "buf_store (buf_store buf (replicate b 0)) (gen b)"])
           (use Some f False b assms(1,2) wr in \<open>subst dd_loop.simps, simp add: b_def [symmetric] zeros made\<close>)
    qed
    have "gen sz = gen b @ gen (sz - b)"
    proof (cases "sz < dd_max_bufsz")
      case True
      moreover have "gen 0 = []" using len [of 0] by simp
      ultimately show ?thesis by (simp add: b_def)
    next
      case False
      moreover have "gen sz = gen dd_max_bufsz @ gen (sz - dd_max_bufsz)"
        using assms(3) False unfolding scan_makes_def by (metis not_less)
      ultimately show ?thesis by (simp only: b_def if_False)
    qed
    moreover have "dd_loop fdsrc fddst (sz - b) scan p buf' (n + b) (put e (gen b) s) =
        (n + b + (sz - b), p, put e (gen (sz - b)) (put e (gen b) s))"
      using less.prems b by (intro less.IH) simp_all
    ultimately show ?thesis unfolding step using less.prems(1) e b by (simp add: put_put)
  qed
qed

text \<open>\<open>dd64\<close> with the state it leaves.\<close>

lemma dd64_generate_put:
  assumes "fdsrc < 0" "0 \<le> fddst" "scan_makes scan p gen" "sys_ok s" "ofd_of s fddst = Some e"
    and "dd_max_bufsz \<le> max_io s" "0 \<le> filestart fddst s + offt_dst"
  shows "dd64 (Some buf) fdsrc fddst offt_src offt_dst sz scan p s =
    (sz, p, put e (gen sz) (set_position e (nat (filestart fddst s + offt_dst)) s))"
  using assms dd_loop_generate [OF assms(1-3), of "set_position e (nat (filestart fddst s + offt_dst)) s" e sz buf 0]
  by (simp add: dd64_def fileseek_def lseek_set_def)

lemma dd64_copy_put:
  assumes "0 \<le> fdsrc" "0 \<le> fddst" "sys_ok s" "ofd_of s fdsrc = Some d" "ofd_of s fddst = Some e"
    and "inode (open_files s ! d) \<noteq> inode (open_files s ! e)"
    and "0 \<le> filestart fdsrc s + offt_src" "0 \<le> filestart fddst s + offt_dst"
    and "data = take sz (drop (nat (filestart fdsrc s + offt_src)) (content s d))"
  shows "\<exists>q. dd64 (Some buf) fdsrc fddst offt_src offt_dst sz None p s =
      (length data, p, put e data (set_position d q (set_position e (nat (filestart fddst s + offt_dst)) s)))"
proof -
  have d: "d < length (open_files s)" and e: "e < length (open_files s)" and de: "d \<noteq> e"
    using assms by (auto simp: sys_ok_ofd)
  define s1 where "s1 = set_position d (nat (filestart fdsrc s + offt_src)) s"
  define s2 where "s2 = set_position e (nat (filestart fddst s + offt_dst)) s1"
  have swap: "set_position d q (set_position e p t) = set_position e p (set_position d q t)" for p q t
    using de by (simp add: set_position_def list_update_swap)
  have "filestart fddst s1 = filestart fddst s" by (rule filestart_gd) (simp add: s1_def)
  then have dd: "dd64 (Some buf) fdsrc fddst offt_src offt_dst sz None p s = dd_loop fdsrc fddst sz None p buf 0 s2"
    using assms by (simp add: dd64_def fileseek_def lseek_set_def s1_def s2_def Let_def)
  have rem: "take sz (remaining s2 d) = data"
    using d de assms(9) by (simp add: remaining_def s2_def s1_def)
  have "dd_loop fdsrc fddst sz None p buf 0 s2 = (length data, p, put e data (advance d (length data) s2))"
    using dd_loop_copy [of fdsrc fddst s2 d e sz p buf 0, unfolded rem Let_def] assms(1-6) by (simp add: s2_def s1_def)
  moreover obtain q where "advance d (length data) s2 = set_position d q s2" by (simp add: advance_def)
  moreover have "set_position d q s2 = set_position d q (set_position e (nat (filestart fddst s + offt_dst)) s)" for q
    by (simp add: s2_def s1_def swap [symmetric])
  ultimately show ?thesis unfolding dd by auto
qed

section \<open>Scanning\<close>

lemma map_buf_prefix: "n \<le> length bs \<Longrightarrow> map (buf_store buf bs) [0..<n] = take n bs"
  by (rule nth_equalityI) (simp_all add: buf_store_def)

lemma map_buf_stale:
  "length bs \<le> n \<Longrightarrow> map (buf_store buf bs) [0..<n] = bs @ map buf [length bs..<n]"
  by (rule nth_equalityI) (auto simp: buf_store_def nth_append)

text \<open>One round without a target: a read, and the scanner on the whole of the requested chunk.\<close>

lemma dd_loop_scan_step:
  assumes "0 \<le> fdsrc" "fddst < 0" "ofd_of s fdsrc = Some d" "0 < sz"
    and "b = (if sz < dd_max_bufsz then sz else dd_max_bufsz)"
    and "data = take (min b (max_io s)) (remaining s d)" "data \<noteq> []"
  shows "dd_loop fdsrc fddst sz (Some (\<lambda>bs p. (bs, f p bs))) p buf n s =
    dd_loop fdsrc fddst (sz - length data) (Some (\<lambda>bs p. (bs, f p bs)))
      (f p (data @ map buf [length data..<b]))
      (buf_store (buf_store buf data) (data @ map buf [length data..<b]))
      (n + length data) (advance d (length data) s)"
proof -
  have "length data \<le> b" by (simp add: assms(6))
  then have "map (buf_store buf data) [0..<b] = data @ map buf [length data..<b]" by (rule map_buf_stale)
  moreover have "sys_read fdsrc b s = (int (length data), data, advance d (length data) s)"
    using sys_read_advance [OF assms(3), of b] assms(6) by (simp add: Let_def)
  ultimately show ?thesis
    using assms(1,2,4,7) by (subst dd_loop.simps) (simp add: assms(5) [symmetric])
qed

lemma dd_loop_end:
  assumes "0 \<le> fdsrc" "ofd_of s fdsrc = Some d" "d < length (open_files s)" "sz = 0 \<or> remaining s d = []"
  shows "dd_loop fdsrc fddst sz scan p buf n s = (n, p, s)"
  using assms sys_read_advance [OF assms(2)] by (subst dd_loop.simps) (auto simp: Let_def)

context byte_stream begin

text \<open>
  When a transfer can fill the buffer and the source has all the bytes, the scanner sees exactly the
  requested range: how it is cut into buffers does not matter.
\<close>

lemma dd_loop_scan:
  assumes "0 \<le> fdsrc" "fddst < 0"
  shows "sys_ok s \<Longrightarrow> ofd_of s fdsrc = Some d \<Longrightarrow> dd_max_bufsz \<le> max_io s \<Longrightarrow> sz \<le> length (remaining s d) \<Longrightarrow> inv p \<Longrightarrow>
    \<exists>p'. dd_loop fdsrc fddst sz (Some (\<lambda>bs p. (bs, absorb p bs))) p buf n s = (n + sz, p', advance d sz s) \<and>
      inv p' \<and> obs p' = obs (absorb p (take sz (remaining s d)))"
proof (induction sz arbitrary: s n buf p rule: less_induct)
  case (less sz)
  have d: "d < length (open_files s)" using less.prems by (simp add: sys_ok_ofd)
  show ?case
  proof (cases "sz = 0")
    case True
    have "dd_loop fdsrc fddst sz (Some (\<lambda>bs p. (bs, absorb p bs))) p buf n s = (n, p, s)"
      by (rule dd_loop_end [OF assms(1) less.prems(2) d disjI1 [OF True]])
    then show ?thesis using True less.prems(5) d by (simp add: absorb_nil)
  next
    case False
    define b where "b = (if sz < dd_max_bufsz then sz else dd_max_bufsz)"
    define data where "data = take (min b (max_io s)) (remaining s d)"
    have b: "0 < b" "b \<le> sz" "b \<le> max_io s"
      using False less.prems(3) by (simp_all add: b_def dd_max_bufsz_def)
    have len: "length data = b" using b less.prems(4) by (simp add: data_def)
    have ne: "data \<noteq> []" using len b by auto
    define s1 where "s1 = advance d b s"
    have step: "dd_loop fdsrc fddst sz (Some (\<lambda>bs p. (bs, absorb p bs))) p buf n s =
        dd_loop fdsrc fddst (sz - b) (Some (\<lambda>bs p. (bs, absorb p bs))) (absorb p data)
          (buf_store (buf_store buf data) data) (n + b) s1"
      using dd_loop_scan_step [OF assms less.prems(2) _ b_def data_def ne] False len by (simp add: s1_def)
    have rem: "remaining s1 d = drop b (remaining s d)" using d by (simp add: s1_def remaining_advance)
    have "\<exists>p'. dd_loop fdsrc fddst (sz - b) (Some (\<lambda>bs p. (bs, absorb p bs))) (absorb p data)
          (buf_store (buf_store buf data) data) (n + b) s1 = (n + b + (sz - b), p', advance d (sz - b) s1) \<and>
        inv p' \<and> obs p' = obs (absorb (absorb p data) (take (sz - b) (remaining s1 d)))"
      using less.prems b rem by (intro less.IH) (simp_all add: s1_def absorb_inv)
    moreover have "take sz (remaining s d) = data @ take (sz - b) (remaining s1 d)"
      using b by (simp add: rem data_def min_absorb1) (metis add_diff_inverse_nat not_le take_add)
    ultimately show ?thesis
      unfolding step using b d less.prems(5) by (auto simp: s1_def advance_advance absorb_append)
  qed
qed

end

text \<open>At the end of a file \<open>dd64\<close> hands its scanner bytes that are not in the file: when fewer bytes are left than
  requested, the scanner gets them followed by what the buffer happens to hold, up to the requested size, although
  only the bytes read are counted.\<close>

theorem dd_scans_stale:
  assumes "0 \<le> fdsrc" "fddst < 0" "sys_ok s" "ofd_of s fdsrc = Some d"
    and "sz \<le> dd_max_bufsz" "dd_max_bufsz \<le> max_io s" "remaining s d \<noteq> []" "length (remaining s d) < sz"
  shows "dd_loop fdsrc fddst sz (Some (\<lambda>bs p. (bs, p @ [bs]))) [] buf 0 s =
    (length (remaining s d), [remaining s d @ map buf [length (remaining s d)..<sz]],
     advance d (length (remaining s d)) s)"
proof -
  have d: "d < length (open_files s)" using assms by (simp add: sys_ok_ofd)
  have b: "sz = (if sz < dd_max_bufsz then sz else dd_max_bufsz)" using assms(5) by simp
  have data: "remaining s d = take (min sz (max_io s)) (remaining s d)" using assms(5,6,8) by simp
  have "0 < sz" using assms(8) by simp
  note step = dd_loop_scan_step [OF assms(1,2,4) this b data assms(7), of "\<lambda>p bs. p @ [bs]" "[]" buf 0]
  have rest: "remaining (advance d (length (remaining s d)) s) d = []" using d by (simp add: remaining_advance)
  have "dd_loop fdsrc fddst k scan p' buf' n (advance d (length (remaining s d)) s)
      = (n, p', advance d (length (remaining s d)) s)" for k scan p' buf' n
    using dd_loop_end [OF assms(1), of "advance d (length (remaining s d)) s" d] assms(4) d rest by simp
  then show ?thesis unfolding step by simp
qed

section \<open>Virtual files\<close>

text \<open>The table has its slots, the used ones hold different open descriptors.\<close>

definition vfps_ok :: "sys \<Rightarrow> bool" where
  "vfps_ok s \<longleftrightarrow> length (vfps (gd s)) = MAX_VIRTUAL_FILE \<and>
     (\<forall>i<length (vfps (gd s)). used (vfps (gd s) ! i) \<longrightarrow> ofd_of s (vf_fd (vfps (gd s) ! i)) \<noteq> None) \<and>
     (\<forall>i<length (vfps (gd s)). \<forall>j<length (vfps (gd s)).
        used (vfps (gd s) ! i) \<and> used (vfps (gd s) ! j) \<and> vf_fd (vfps (gd s) ! i) = vf_fd (vfps (gd s) ! j) \<longrightarrow> i = j)"

lemma virtual_file_get_Some:
  "virtual_file_get fd s = Some i \<Longrightarrow> i < length (vfps (gd s)) \<and> used (vfps (gd s) ! i) \<and> vf_fd (vfps (gd s) ! i) = fd"
proof -
  assume a: "virtual_file_get fd s = Some i"
  let ?P = "\<lambda>v. \<not> (used v \<and> vf_fd v = fd)"
  have i: "i = length (takeWhile ?P (vfps (gd s)))" "i < length (vfps (gd s))"
    using a by (auto simp: virtual_file_get_def Let_def split: if_splits)
  with nth_length_takeWhile [of ?P "vfps (gd s)"] show ?thesis by auto
qed

lemma virtual_file_get_None:
  "virtual_file_get fd s = None \<Longrightarrow> i < length (vfps (gd s)) \<Longrightarrow> used (vfps (gd s) ! i) \<Longrightarrow> vf_fd (vfps (gd s) ! i) \<noteq> fd"
proof -
  assume a: "virtual_file_get fd s = None" "i < length (vfps (gd s))" "used (vfps (gd s) ! i)"
  let ?P = "\<lambda>v. \<not> (used v \<and> vf_fd v = fd)"
  have "length (vfps (gd s)) \<le> length (takeWhile ?P (vfps (gd s)))"
    using a(1) by (simp add: virtual_file_get_def Let_def split: if_splits)
  then have "takeWhile ?P (vfps (gd s)) = vfps (gd s)"
    by (metis takeWhile_eq_take take_all)
  then have "\<forall>v\<in>set (vfps (gd s)). ?P v" by (simp only: takeWhile_eq_all_conv)
  with a(2,3) show ?thesis by auto
qed

lemma vfps_ok_get:
  "vfps_ok s \<Longrightarrow> i < length (vfps (gd s)) \<Longrightarrow> used (vfps (gd s) ! i) \<Longrightarrow> virtual_file_get (vf_fd (vfps (gd s) ! i)) s = Some i"
  using virtual_file_get_None [of "vf_fd (vfps (gd s) ! i)" s i] virtual_file_get_Some [of "vf_fd (vfps (gd s) ! i)" s]
  by (cases "virtual_file_get (vf_fd (vfps (gd s) ! i)) s") (auto simp: vfps_ok_def)

lemma get_unused:
  "virtual_file_get_unused s = (Some i, s') \<Longrightarrow> i < length (vfps (gd s)) \<and> \<not> used (vfps (gd s) ! i) \<and>
     s' = set_vfp i ((vfps (gd s) ! i)\<lparr>used := True\<rparr>) s"
  using nth_length_takeWhile [of used "vfps (gd s)"]
  by (auto simp: virtual_file_get_unused_def Let_def split: if_splits)

lemma set_vfp_simps [simp]:
  "fds (set_vfp i v s) = fds s" "open_files (set_vfp i v s) = open_files s" "inodes (set_vfp i v s) = inodes s"
  "max_io (set_vfp i v s) = max_io s" "vfps (gd (set_vfp i v s)) = (vfps (gd s))[i := v]"
  "ofd_of (set_vfp i v s) fd = ofd_of s fd" "content (set_vfp i v s) d = content s d"
  by (simp_all add: set_vfp_def ofd_of_def content_def)

lemma alloc_fd_fresh:
  assumes "alloc_fd d s = (fd, s')"
  shows "ofd_of s fd = None" "ofd_of s' fd = Some d" "0 \<le> fd" "fd' \<noteq> fd \<Longrightarrow> ofd_of s' fd' = ofd_of s fd'"
    "open_files s' = open_files s" "inodes s' = inodes s" "max_io s' = max_io s" "gd s' = gd s"
proof -
  define n where "n = length (takeWhile (\<lambda>x. x \<noteq> None) (fds s))"
  have fd: "fd = int n" "s' = s\<lparr>fds := (if n < length (fds s) then (fds s)[n := Some d] else fds s @ [Some d])\<rparr>"
    using assms by (auto simp: alloc_fd_def Let_def n_def)
  have le: "n \<le> length (fds s)" by (simp add: n_def length_takeWhile_le)
  have none: "n < length (fds s) \<Longrightarrow> fds s ! n = None"
    using nth_length_takeWhile [of "\<lambda>x. x \<noteq> None" "fds s"] by (simp add: n_def)
  show "ofd_of s fd = None" "0 \<le> fd" using none by (auto simp: fd(1) ofd_of_def)
  show "ofd_of s' fd = Some d" using le by (auto simp: fd ofd_of_def nth_append)
  show "fd' \<noteq> fd \<Longrightarrow> ofd_of s' fd' = ofd_of s fd'"
    using le by (auto simp: fd ofd_of_def nth_append nth_list_update)
  show "open_files s' = open_files s" "inodes s' = inodes s" "max_io s' = max_io s" "gd s' = gd s"
    by (simp_all add: fd(2))
qed

lemma lseek_end_eq: "ofd_of s fd = Some d \<Longrightarrow> lseek_end fd s = (int (length (content s d)), set_position d (length (content s d)) s)"
  by (simp add: lseek_end_def Let_def)

lemma lseek_frame:
  "gd (snd (lseek_set fd off s)) = gd s" "ofd_of (snd (lseek_set fd off s)) = ofd_of s"
  "inodes (snd (lseek_set fd off s)) = inodes s" "content (snd (lseek_set fd off s)) = content s"
  by (rule ext | simp add: lseek_set_def Let_def split: option.split)+

lemma alloc_fd_ok:
  "sys_ok s \<Longrightarrow> d < length (open_files s) \<Longrightarrow> alloc_fd d s = (fd, s') \<Longrightarrow> sys_ok s'"
proof -
  assume a: "sys_ok s" "d < length (open_files s)" "alloc_fd d s = (fd, s')"
  have "x = d \<or> Some x \<in> set (fds s)" if "Some x \<in> set (fds s')" for x
    using that a(3) set_update_subset_insert [of "fds s" "length (takeWhile (\<lambda>x. x \<noteq> None) (fds s))" "Some d"]
    by (auto simp: alloc_fd_def Let_def split: if_splits)
  with a show ?thesis using alloc_fd_fresh(5,6,7) [OF a(3)] by (auto simp: sys_ok_def)
qed

lemma length_takeWhile_update:
  "P (xs ! i) = P w \<Longrightarrow> length (takeWhile P (xs[i := w])) = length (takeWhile P xs)"
  by (induction xs arbitrary: i) (auto split: nat.splits)

lemma filestart_new_slot:
  assumes "\<not> used (vfps (gd s) ! i)" "vf_fd v \<noteq> fd"
  shows "filestart fd (set_vfp i v s) = filestart fd s"
proof -
  let ?P = "\<lambda>v. \<not> (used v \<and> vf_fd v = fd)"
  have "length (takeWhile ?P ((vfps (gd s))[i := v])) = length (takeWhile ?P (vfps (gd s)))"
    using assms by (intro length_takeWhile_update) auto
  then have get: "virtual_file_get fd (set_vfp i v s) = virtual_file_get fd s"
    by (simp add: virtual_file_get_def Let_def)
  show ?thesis
  proof (cases "virtual_file_get fd s")
    case None
    with get show ?thesis by (simp add: filestart_def)
  next
    case (Some j)
    with virtual_file_get_Some [OF Some] assms(1) have "j \<noteq> i" by auto
    with Some get show ?thesis by (simp add: filestart_def)
  qed
qed

lemma vfps_ok_add:
  assumes "vfps_ok s" "i < length (vfps (gd s))" "vfps (gd s') = (vfps (gd s))[i := v]" "used v" "vf_fd v = fd"
    and "ofd_of s fd = None" "ofd_of s' fd \<noteq> None" "\<And>fd'. ofd_of s fd' \<noteq> None \<Longrightarrow> ofd_of s' fd' \<noteq> None"
  shows "vfps_ok s'"
  using assms unfolding vfps_ok_def by (auto simp: nth_list_update)

lemma vfps_ok_drop:
  assumes "vfps_ok s" "vfps (gd s') = (vfps (gd s))[i := v]" "\<not> used v"
    and "\<And>j. j \<noteq> i \<Longrightarrow> j < length (vfps (gd s)) \<Longrightarrow> used (vfps (gd s) ! j) \<Longrightarrow> ofd_of s' (vf_fd (vfps (gd s) ! j)) \<noteq> None"
  shows "vfps_ok s'"
proof -
  have key: "j \<noteq> i \<and> (vfps (gd s))[i := v] ! j = vfps (gd s) ! j"
    if "j < length (vfps (gd s))" "used ((vfps (gd s))[i := v] ! j)" for j
    using that assms(3) by (cases "j = i") auto
  show ?thesis
    unfolding vfps_ok_def assms(2)
  proof (intro conjI allI impI)
    show "length ((vfps (gd s))[i := v]) = MAX_VIRTUAL_FILE" using assms(1) by (simp add: vfps_ok_def)
    fix j
    assume j: "j < length ((vfps (gd s))[i := v])" "used ((vfps (gd s))[i := v] ! j)"
    then show "ofd_of s' (vf_fd ((vfps (gd s))[i := v] ! j)) \<noteq> None"
      using key [of j] assms(4) [of j] by simp
  next
    fix j k
    assume j: "j < length ((vfps (gd s))[i := v])" "k < length ((vfps (gd s))[i := v])"
      "used ((vfps (gd s))[i := v] ! j) \<and> used ((vfps (gd s))[i := v] ! k) \<and>
       vf_fd ((vfps (gd s))[i := v] ! j) = vf_fd ((vfps (gd s))[i := v] ! k)"
    then show "j = k"
      using key [of j] key [of k] assms(1) by (auto simp: vfps_ok_def)
  qed
qed

lemma vfps_ok_same:
  assumes "vfps_ok s" "gd s' = gd s" "\<And>fd'. ofd_of s fd' \<noteq> None \<Longrightarrow> ofd_of s' fd' \<noteq> None"
  shows "vfps_ok s'"
  using assms unfolding vfps_ok_def by auto

lemma ofd_of_close: "fd' \<noteq> fd \<Longrightarrow> ofd_of (sys_close fd s) fd' = ofd_of s fd'"
  by (auto simp: sys_close_def ofd_of_def)

lemma sys_close_simps [simp]:
  "gd (sys_close fd s) = gd s" "inodes (sys_close fd s) = inodes s" "open_files (sys_close fd s) = open_files s"
  by (simp_all add: sys_close_def)

text \<open>What a successful \<open>virtual_file_open\<close> does, step by step.\<close>

lemma virtual_file_open_steps:
  assumes "virtual_file_open (Some f) offset s = (fd, s')"
  obtains (full) "fd = -1" "gd s' = gd s" "\<And>x. ofd_of s x \<noteq> None \<Longrightarrow> ofd_of s' x = ofd_of s x"
  | (ok) i where "i < length (vfps (gd s))" "ofd_of s fd = None" "0 \<le> fd" "ofd_of s' fd = Some (length (open_files s))"
      "\<And>x. x \<noteq> fd \<Longrightarrow> ofd_of s' x = ofd_of s x" "inodes s' = inodes s"
      "inode (open_files s' ! length (open_files s)) = f" "length (open_files s') = Suc (length (open_files s))"
      "\<And>e. e < length (open_files s) \<Longrightarrow> open_files s' ! e = open_files s ! e"
      "vfps (gd s') = (vfps (gd s))[i := \<lparr>vf_fd = fd, start_offset = offset,
         total_length = int (length (inodes s ! f)) - offset, used = True\<rparr>]"
proof -
  define s0 where "s0 = s\<lparr>open_files := open_files s @ [\<lparr>inode = f, position = 0\<rparr>]\<rparr>"
  let ?d = "length (open_files s)"
  obtain fd1 s1 where a: "alloc_fd ?d s0 = (fd1, s1)" by fastforce
  note fresh = alloc_fd_fresh [OF a]
  have s0: "ofd_of s0 x = ofd_of s x" "gd s0 = gd s" "inodes s0 = inodes s" for x
    by (simp_all add: s0_def ofd_of_def)
  have op: "fileopen (Some f) s = (fd1, s1)" using a by (simp add: fileopen_def sys_open_def s0_def)
  show thesis
  proof (cases "virtual_file_get_unused s1")
    case (Pair i1 s2)
    show thesis
    proof (cases i1)
      case None
      then have s2: "s2 = s1" using Pair by (auto simp: virtual_file_get_unused_def Let_def split: if_splits)
      have res: "fd = -1" "s' = sys_close fd1 s1"
        using assms op Pair None fresh(3) s2 by (simp_all add: virtual_file_open_def)
      show thesis
      proof (rule full)
        show "fd = -1" "gd s' = gd s" using res fresh(8) s0 by simp_all
        fix x
        assume "ofd_of s x \<noteq> None"
        then have "x \<noteq> fd1" using fresh(1) s0 by auto
        then show "ofd_of s' x = ofd_of s x" using fresh(4) s0 res by (simp add: ofd_of_close)
      qed
    next
      case (Some i)
      note un = get_unused [of s1 i s2]
      have i: "i < length (vfps (gd s))" and s2: "s2 = set_vfp i ((vfps (gd s) ! i)\<lparr>used := True\<rparr>) s1"
        using un Pair Some fresh(8) s0 by auto
      have of2: "ofd_of s2 fd1 = Some ?d" using s2 fresh(2) by simp
      have files: "open_files s1 = open_files s @ [\<lparr>inode = f, position = 0\<rparr>]"
        using fresh(5) by (simp add: s0_def)
      have cont: "content s2 ?d = inodes s ! f"
        using fresh(6) s0 files by (simp add: content_def s2)
      define s3 where "s3 = set_position ?d (length (inodes s ! f)) s2"
      have le: "lseek_end fd1 s2 = (int (length (inodes s ! f)), s3)"
        using lseek_end_eq [OF of2] cont by (simp add: s3_def)
      define v where "v = \<lparr>vf_fd = fd1, start_offset = offset, total_length = int (length (inodes s ! f)) - offset, used = True\<rparr>"
      have vi: "vfps (gd s3) ! i = (vfps (gd s) ! i)\<lparr>used := True\<rparr>"
        using i fresh(8) s0 by (simp add: s3_def s2)
      have v: "(vfps (gd s3) ! i)\<lparr>vf_fd := fd1, start_offset := offset,
          total_length := int (length (inodes s ! f)) - offset\<rparr> = v"
        by (simp add: vi v_def)
      have "virtual_file_open (Some f) offset s = (fd1, snd (lseek_set fd1 offset (set_vfp i v s3)))"
        using fresh(3) Pair Some
        by (simp add: virtual_file_open_def op filelength_no_cache_def Let_def le v case_prod_beta)
      then have res: "fd = fd1" "s' = snd (lseek_set fd1 offset (set_vfp i v s3))"
        using assms by simp_all
      have files': "inode (open_files s' ! e) = inode (open_files s1 ! e)" "e \<noteq> ?d \<Longrightarrow> open_files s' ! e = open_files s1 ! e"
        "length (open_files s') = length (open_files s1)" for e
        using fresh(2) by (simp_all add: res lseek_set_def s3_def s2 Let_def split: option.split)
      show thesis
      proof (rule ok [OF i])
        show "ofd_of s fd = None" "0 \<le> fd" using fresh(1,3) s0 res by auto
        show "ofd_of s' fd = Some ?d" using fresh(2) by (simp add: res lseek_frame s3_def s2)
        show "x \<noteq> fd \<Longrightarrow> ofd_of s' x = ofd_of s x" for x
          using fresh(4) s0 by (simp add: res lseek_frame s3_def s2)
        show "inodes s' = inodes s" using fresh(6) s0 by (simp add: res lseek_frame s3_def s2)
        show "inode (open_files s' ! ?d) = f" "length (open_files s') = Suc ?d"
          using files files' by simp_all
        show "e < ?d \<Longrightarrow> open_files s' ! e = open_files s ! e" for e
          using files files'(2) [of e] by (simp add: nth_append)
        show "vfps (gd s') = (vfps (gd s))[i := \<lparr>vf_fd = fd, start_offset = offset,
            total_length = int (length (inodes s ! f)) - offset, used = True\<rparr>]"
          using fresh(8) s0 by (simp add: res lseek_frame s3_def s2 v_def)
      qed
    qed
  qed
qed

lemma virtual_file_dup_steps:
  assumes "virtual_file_dup ref_fd offset s = Ok (fd, s')" "ofd_of s ref_fd = Some d" "d < length (open_files s)"
  obtains i where "i < length (vfps (gd s))" "ofd_of s fd = None" "0 \<le> fd" "ofd_of s' fd = Some d"
      "\<And>x. x \<noteq> fd \<Longrightarrow> ofd_of s' x = ofd_of s x" "content s' = content s" "max_io s' = max_io s"
      "sys_ok s \<Longrightarrow> sys_ok s'"
      "vfps (gd s') = (vfps (gd s))[i := \<lparr>vf_fd = fd, start_offset = offset + filestart ref_fd s,
         total_length = int (length (content s d)) - (offset + filestart ref_fd s), used = True\<rparr>]"
proof -
  obtain i s1 where un: "virtual_file_get_unused s = (Some i, s1)"
    using assms(1) by (auto simp: virtual_file_dup_def split: prod.splits option.splits)
  have i: "i < length (vfps (gd s))" and s1: "s1 = set_vfp i ((vfps (gd s) ! i)\<lparr>used := True\<rparr>) s"
    using get_unused [OF un] by auto
  obtain fd1 s2 where a: "alloc_fd d s1 = (fd1, s2)" by fastforce
  note fresh = alloc_fd_fresh [OF a]
  have dup: "sys_dup ref_fd s1 = (fd1, s2)" using assms(2) a by (simp add: sys_dup_def s1)
  define v where "v = (vfps (gd s) ! i)\<lparr>vf_fd := fd1, used := True\<rparr>"
  have vi: "vfps (gd s2) ! i = (vfps (gd s) ! i)\<lparr>used := True\<rparr>"
    using i fresh(8) by (simp add: s1)
  define vv where "vv = vfps (gd s2) ! i"
  have v: "vv\<lparr>vf_fd := fd1\<rparr> = v" by (simp add: vv_def vi v_def)
  define s3 where "s3 = set_vfp i v s2"
  define start where "start = offset + filestart ref_fd s3"
  have of3: "ofd_of s3 ref_fd = Some d"
  proof -
    have "ref_fd \<noteq> fd1" using fresh(1) assms(2) by (auto simp: s1)
    then show ?thesis using fresh(4) assms(2) by (simp add: s3_def s1)
  qed
  have inodes: "inodes s3 = inodes s" "open_files s3 = open_files s" "max_io s3 = max_io s"
    using fresh(5,6,7) by (simp_all add: s3_def s1)
  then have cont: "content s3 = content s" by (simp add: content_def fun_eq_iff)
  define s4 where "s4 = set_position d (length (content s d)) s3"
  have le: "lseek_end ref_fd s3 = (int (length (content s d)), s4)"
    using lseek_end_eq [OF of3] cont by (simp add: s4_def)
  define w where "w = \<lparr>vf_fd = fd1, start_offset = start, total_length = int (length (content s d)) - start, used = True\<rparr>"
  have w: "v\<lparr>start_offset := start, total_length := int (length (content s d)) - start\<rparr> = w"
    by (simp add: v_def w_def)
  have "virtual_file_dup ref_fd offset s = Ok (fd1, snd (lseek_set fd1 start (set_vfp i w s4)))"
    using fresh(3)
    by (simp add: virtual_file_dup_def un dup filelength_no_cache_def Let_def vv_def [symmetric] v s3_def [symmetric]
        le start_def [symmetric] w case_prod_beta)
  then have res: "fd = fd1" "s' = snd (lseek_set fd1 start (set_vfp i w s4))"
    using assms(1) by simp_all
  have gd3: "filestart ref_fd s3 = filestart ref_fd s"
  proof -
    have "filestart ref_fd s3 = filestart ref_fd (set_vfp i v s)"
      by (rule filestart_gd) (simp add: s3_def s1 set_vfp_def fresh(8))
    also have "\<dots> = filestart ref_fd s"
      using get_unused [OF un] fresh(1) assms(2) by (intro filestart_new_slot) (auto simp: v_def s1)
    finally show ?thesis .
  qed
  show thesis
  proof (rule that [OF i])
    show "ofd_of s fd = None" "0 \<le> fd" using fresh(1,3) res by (simp_all add: s1)
    show "ofd_of s' fd = Some d" using fresh(2) by (simp add: res lseek_frame s4_def s3_def)
    show "x \<noteq> fd \<Longrightarrow> ofd_of s' x = ofd_of s x" for x
      using fresh(4) by (simp add: res lseek_frame s4_def s3_def s1)
    show "content s' = content s" using cont by (simp add: res lseek_frame fun_eq_iff s4_def)
    show "max_io s' = max_io s"
      using inodes by (simp add: res lseek_set_def s4_def Let_def split: option.split)
    assume "sys_ok s"
    then have "sys_ok s2" using alloc_fd_ok [OF _ _ a] assms(3) by (simp add: s1 sys_ok_def)
    then show "sys_ok s'"
      by (simp add: res lseek_set_def s4_def s3_def Let_def sys_ok_def list_all_length split: option.split)
  next
    show "vfps (gd s') = (vfps (gd s))[i := \<lparr>vf_fd = fd, start_offset = offset + filestart ref_fd s,
         total_length = int (length (content s d)) - (offset + filestart ref_fd s), used = True\<rparr>]"
      using fresh(8) gd3 by (simp add: res lseek_frame s4_def s3_def s1 w_def start_def)
  qed
qed

section \<open>Output files\<close>

lemma filestart_plain: "virtual_file_get fd s = None \<Longrightarrow> filestart fd s = 0"
  by (simp add: filestart_def)

lemma ofd_of_nonneg: "ofd_of s fd = Some d \<Longrightarrow> 0 \<le> fd"
  by (auto simp: ofd_of_def split: if_splits)

lemma virtual_file_get_gd: "gd s' = gd s \<Longrightarrow> virtual_file_get fd s' = virtual_file_get fd s"
  unfolding virtual_file_get_def by simp

lemma virtual_file_get_frame [simp]:
  "virtual_file_get fd (set_position d p s) = virtual_file_get fd s"
  "virtual_file_get fd (put d bs s) = virtual_file_get fd s"
  "virtual_file_get fd (advance d n s) = virtual_file_get fd s"
  by (rule virtual_file_get_gd, simp)+

text \<open>A file that a packer writes: its descriptor, its content and the position in it.\<close>

definition out_state :: "sys \<Rightarrow> int \<Rightarrow> nat \<Rightarrow> bytes \<Rightarrow> nat \<Rightarrow> bool" where
  "out_state s fd e c p \<longleftrightarrow> sys_ok s \<and> ofd_of s fd = Some e \<and> list_all (\<lambda>v. \<not> used v) (vfps (gd s)) \<and>
     0x200000 \<le> max_io s \<and> content s e = c \<and> position (open_files s ! e) = p"

lemma no_virtual_file: "list_all (\<lambda>v. \<not> used v) (vfps (gd s)) \<Longrightarrow> virtual_file_get fd s = None"
proof -
  assume "list_all (\<lambda>v. \<not> used v) (vfps (gd s))"
  then have "takeWhile (\<lambda>v. \<not> (used v \<and> vf_fd v = fd)) (vfps (gd s)) = vfps (gd s)"
    by (simp add: list_all_iff takeWhile_eq_all_conv)
  then show ?thesis unfolding virtual_file_get_def Let_def by (simp only: less_irrefl if_False)
qed

lemma out_state_index: "out_state s fd e c p \<Longrightarrow> e < length (open_files s)"
  by (auto simp: out_state_def sys_ok_ofd)

lemma out_state_write:
  "out_state s fd e c p \<Longrightarrow> length bs \<le> 0x200000 \<Longrightarrow>
     out_state (snd (sys_write fd bs s)) fd e (overlay c p bs) (p + length bs)"
  using sys_write_put [of s fd e bs] by (auto simp: out_state_def put_content sys_ok_ofd)

lemma out_state_seek: "out_state s fd e c p \<Longrightarrow> 0 \<le> q \<Longrightarrow> out_state (snd (lseek_set fd q s)) fd e c (nat q)"
  by (auto simp: out_state_def lseek_set_def sys_ok_ofd)

lemma overlay_start: "length bs = k \<Longrightarrow> 0 < k \<Longrightarrow> overlay (replicate k 0 @ c) 0 bs = bs @ c"
  by (auto simp: overlay_def)

text \<open>A state to try the theorems on: two files and the first three descriptors.\<close>

definition demo_gd :: global_data where
  "demo_gd = \<lparr>verbose_level = 0, active_partitions = 0, disk_parts_array = replicate GD_MAX_PARTITIONS None,
     export_imgeditor_counts = 0, export_imgeditors = replicate GD_MAX_IMGEDITOR None,
     vfps = replicate MAX_VIRTUAL_FILE \<lparr>vf_fd = 0, start_offset = 0, total_length = 0, used = False\<rparr>, search_mode = 0\<rparr>"

definition demo_sys :: "bytes \<Rightarrow> sys" where
  "demo_sys c = \<lparr>fds = [Some 0, Some 1, None],
     open_files = [\<lparr>inode = 0, position = 1\<rparr>, \<lparr>inode = 1, position = 0\<rparr>],
     inodes = [c, [1, 2, 3]], max_io = 2 ^ 20, gd = demo_gd\<rparr>"

lemma demo_sys_ok: "sys_ok (demo_sys c)" "ofd_of (demo_sys c) 0 = Some 0" "ofd_of (demo_sys c) 1 = Some 1"
  "content (demo_sys c) 0 = c" "content (demo_sys c) 1 = [1, 2, 3]" "filestart fd (demo_sys c) = 0"
  by (auto simp: sys_ok_def demo_sys_def ofd_of_def content_def filestart_def virtual_file_get_def demo_gd_def
      Let_def takeWhile_replicate)

lemma demo_sys_vfps: "vfps_ok (demo_sys c)"
  by (simp add: vfps_ok_def demo_sys_def demo_gd_def)

theorem fileread_exact_witness:
  "fst (fileread 0 2 (demo_sys [7, 8, 9])) = 0 \<and> fst (snd (fileread 0 5 (demo_sys [7, 8, 9]))) = [8, 9]"
proof -
  have pos: "position (open_files (demo_sys [7, 8, 9]) ! 0) = 1" by (simp add: demo_sys_def)
  show ?thesis
    using fileread_exact [OF demo_sys_ok(1,2), of 2 "[7, 8, 9]"] fileread_exact [OF demo_sys_ok(1,2), of 5 "[7, 8, 9]"]
    by (simp add: demo_sys_ok pos Let_def)
qed

theorem dd64_copies_witness:
  "fst (dd64 (Some (\<lambda>_. 0)) 0 1 0 2 2 None () (demo_sys [7, 8, 9])) = 2"
proof -
  have "inode (open_files (demo_sys [7, 8, 9]) ! 0) \<noteq> inode (open_files (demo_sys [7, 8, 9]) ! 1)"
    by (simp add: demo_sys_def)
  with dd64_copies [of 0 1 "demo_sys [7, 8, 9]" 0 1 0 2 "\<lambda>_. 0" 2 "()"] show ?thesis
    by (auto simp: demo_sys_ok)
qed

theorem dd_scans_stale_witness:
  "fst (snd (dd_loop 0 (-1) 4 (Some (\<lambda>bs p. (bs, p @ [bs]))) [] (\<lambda>_. 0xaa) 0 (demo_sys [7, 8, 9])))
    = [[8, 9, 0xaa, 0xaa]]"
proof -
  have r: "remaining (demo_sys [7, 8, 9]) 0 = [8, 9]"
    by (simp add: remaining_def demo_sys_ok) (simp add: demo_sys_def)
  have "max_io (demo_sys [7, 8, 9]) = 2 ^ 20" by (simp add: demo_sys_def)
  then show ?thesis
    using dd_scans_stale [of 0 "-1" "demo_sys [7, 8, 9]" 0 4 "\<lambda>_. 0xaa"]
    by (simp add: demo_sys_ok r dd_max_bufsz_def upt_conv_Cons)
qed

text \<open>C27: the table of virtual files keeps its invariant under every operation: opening a file, duplicating a descriptor
  that is open and closing leave the used slots with different open descriptors, so a descriptor names at most one virtual
  file; a failing open or duplication leaves no slot used for it.\<close>

theorem virtual_files_inv:
  assumes "vfps_ok s" "sys_ok s"
  shows "(virtual_file_open fo offset s = (fd, s') \<longrightarrow> vfps_ok s') \<and>
    (virtual_file_dup ref_fd offset s = Ok (fd, s') \<longrightarrow> vfps_ok s') \<and>
    (virtual_file_close ref_fd s = (r, s') \<longrightarrow> vfps_ok s')"
proof (intro conjI impI)
  assume o: "virtual_file_open fo offset s = (fd, s')"
  show "vfps_ok s'"
  proof (cases fo)
    case None
    with o assms show ?thesis by (simp add: virtual_file_open_def fileopen_def sys_open_def)
  next
    case (Some f)
    show ?thesis
    proof (cases rule: virtual_file_open_steps [OF o [unfolded Some], case_names full ok])
      case full
      then show ?thesis using vfps_ok_same [OF assms(1)] by metis
    next
      case (ok i)
      have "ofd_of s fd' \<noteq> None \<Longrightarrow> ofd_of s' fd' \<noteq> None" for fd'
        using ok(4,5) by (cases "fd' = fd") auto
      then show ?thesis
        using vfps_ok_add [OF assms(1) ok(1,10) _ _ ok(2)] ok(4) by simp
    qed
  qed
next
  assume o: "virtual_file_dup ref_fd offset s = Ok (fd, s')"
  show "vfps_ok s'"
  proof (cases "ofd_of s ref_fd")
    case None
    obtain i s1 where un: "virtual_file_get_unused s = (Some i, s1)"
      using o by (auto simp: virtual_file_dup_def split: prod.splits option.splits)
    have i: "i < length (vfps (gd s))" and s1: "s1 = set_vfp i ((vfps (gd s) ! i)\<lparr>used := True\<rparr>) s"
      using get_unused [OF un] by auto
    have "s' = set_vfp i ((vfps (gd s1) ! i)\<lparr>vf_fd := -1, used := False\<rparr>) s1"
      using o un None by (auto simp: virtual_file_dup_def sys_dup_def s1)
    then have "vfps (gd s') = (vfps (gd s))[i := (vfps (gd s1) ! i)\<lparr>vf_fd := -1, used := False\<rparr>]" "ofd_of s' = ofd_of s"
      by (simp_all add: s1 fun_eq_iff)
    then show ?thesis
      using vfps_ok_drop [OF assms(1), of s' i] assms(1) by (simp add: vfps_ok_def)
  next
    case (Some d)
    have d: "d < length (open_files s)" using sys_ok_ofd [OF assms(2) Some] .
    show ?thesis
    proof (rule virtual_file_dup_steps [OF o Some d])
      fix i
      assume a: "i < length (vfps (gd s))" "ofd_of s fd = None" "0 \<le> fd" "ofd_of s' fd = Some d"
        "\<And>x. x \<noteq> fd \<Longrightarrow> ofd_of s' x = ofd_of s x" "content s' = content s" "max_io s' = max_io s"
        "sys_ok s \<Longrightarrow> sys_ok s'"
        and v: "vfps (gd s') = (vfps (gd s))[i := \<lparr>vf_fd = fd, start_offset = offset + filestart ref_fd s,
         total_length = int (length (content s d)) - (offset + filestart ref_fd s), used = True\<rparr>]"
      have "ofd_of s fd' \<noteq> None \<Longrightarrow> ofd_of s' fd' \<noteq> None" for fd'
        using a(4,5) by (cases "fd' = fd") auto
      then show "vfps_ok s'"
        using vfps_ok_add [OF assms(1) a(1) v _ _ a(2)] a(4) by simp
    qed
  qed
next
  assume o: "virtual_file_close ref_fd s = (r, s')"
  show "vfps_ok s'"
  proof (cases "virtual_file_get ref_fd s")
    case None
    with o assms show ?thesis by (simp add: virtual_file_close_def)
  next
    case (Some i)
    note i = virtual_file_get_Some [OF Some]
    have s': "s' = set_vfp i \<lparr>vf_fd = -1, start_offset = 0, total_length = 0, used = False\<rparr> (sys_close ref_fd s)"
      using o Some by (simp add: virtual_file_close_def)
    have "ofd_of s' (vf_fd (vfps (gd s) ! j)) \<noteq> None"
      if "j \<noteq> i" "j < length (vfps (gd s))" "used (vfps (gd s) ! j)" for j
    proof -
      have "vf_fd (vfps (gd s) ! j) \<noteq> ref_fd" using that i assms(1) by (auto simp: vfps_ok_def)
      moreover have "ofd_of s (vf_fd (vfps (gd s) ! j)) \<noteq> None" using that assms(1) unfolding vfps_ok_def by blast
      ultimately show ?thesis by (simp add: s' ofd_of_close)
    qed
    then show ?thesis
      using vfps_ok_drop [OF assms(1), of s' i "\<lparr>vf_fd = -1, start_offset = 0, total_length = 0, used = False\<rparr>"]
      by (simp add: s')
  qed
qed

theorem virtual_files_inv_witness:
  "vfps_ok (snd (virtual_file_open (Some 1) 2 (demo_sys [7])))"
  using virtual_files_inv [OF demo_sys_vfps demo_sys_ok(1), of "Some 1" 2 "[7]"
      "fst (virtual_file_open (Some 1) 2 (demo_sys [7]))" "snd (virtual_file_open (Some 1) 2 (demo_sys [7]))"]
  by simp

text \<open>C11: a virtual file is a window: opening a file at an offset, or duplicating any descriptor (itself perhaps a virtual file) at
  an offset, gives a descriptor whose start is that offset behind the start of the original and whose length is what the file
  has from there; seeking in it and reading returns the bytes of the underlying file at start plus position.\<close>

theorem virtual_file_window:
  assumes "vfps_ok s" "sys_ok s" "ofd_of s ref_fd = Some d" "virtual_file_dup ref_fd offset s = Ok (fd, s')"
  shows "filestart fd s' = filestart ref_fd s + offset \<and>
    fst (filelength fd s') = int (length (content s d)) - (filestart ref_fd s + offset) \<and>
    (0 \<le> filestart ref_fd s + offset + pos \<longrightarrow>
      fst (snd (fileread fd n (snd (fileseek fd pos s')))) =
        take n (drop (nat (filestart ref_fd s + offset + pos)) (content s d)))"
proof -
  have d: "d < length (open_files s)" using sys_ok_ofd [OF assms(2,3)] .
  show ?thesis
  proof (rule virtual_file_dup_steps [OF assms(4,3) d])
    fix i
    assume a: "i < length (vfps (gd s))" "ofd_of s fd = None" "0 \<le> fd" "ofd_of s' fd = Some d"
      "\<And>x. x \<noteq> fd \<Longrightarrow> ofd_of s' x = ofd_of s x" "content s' = content s" "max_io s' = max_io s"
      "sys_ok s \<Longrightarrow> sys_ok s'"
      and v: "vfps (gd s') = (vfps (gd s))[i := \<lparr>vf_fd = fd, start_offset = offset + filestart ref_fd s,
         total_length = int (length (content s d)) - (offset + filestart ref_fd s), used = True\<rparr>]"
    have "ofd_of s fd' \<noteq> None \<Longrightarrow> ofd_of s' fd' \<noteq> None" for fd'
      using a(4,5) by (cases "fd' = fd") auto
    then have ok': "vfps_ok s'" using vfps_ok_add [OF assms(1) a(1) v _ _ a(2)] a(4) by simp
    have "virtual_file_get fd s' = Some i"
      using vfps_ok_get [OF ok', of i] a(1) v by simp
    then have get: "filestart fd s' = filestart ref_fd s + offset"
      "fst (filelength fd s') = int (length (content s d)) - (filestart ref_fd s + offset)"
      using a(1) v by (simp_all add: filestart_def filelength_def)
    have d': "d < length (open_files s')" using sys_ok_ofd [OF a(8) [OF assms(2)] a(4)] .
    have "fst (snd (fileread fd n (snd (fileseek fd pos s')))) =
        take n (drop (nat (filestart ref_fd s + offset + pos)) (content s d))"
      if "0 \<le> filestart ref_fd s + offset + pos"
    proof -
      define t where "t = set_position d (nat (filestart ref_fd s + offset + pos)) s'"
      have "snd (fileseek fd pos s') = t"
        using that a(4) get(1) by (simp add: fileseek_def lseek_set_def t_def)
      moreover have "sys_ok t" "ofd_of t fd = Some d" using a(4,8) assms(2) by (simp_all add: t_def)
      ultimately show ?thesis
        using fileread_loop_eq [of t fd d "[]" n] d' a(6) by (simp add: fileread_def remaining_def t_def Let_def)
    qed
    with get show ?thesis by simp
  qed
qed

theorem virtual_file_window_witness:
  "filestart 2 (case virtual_file_dup 0 1 (demo_sys [7, 8, 9]) of Ok (fd, s') \<Rightarrow> s') = 1"
proof -
  have dup: "virtual_file_dup 0 1 (demo_sys [7, 8, 9]) =
      Ok (2, case virtual_file_dup 0 1 (demo_sys [7, 8, 9]) of Ok (fd, s') \<Rightarrow> s')"
    by (simp add: virtual_file_dup_def virtual_file_get_unused_def demo_sys_def demo_gd_def MAX_VIRTUAL_FILE_def
        Let_def sys_dup_def alloc_fd_def ofd_of_def set_vfp_def case_prod_beta)
  show ?thesis
    using virtual_file_window [OF demo_sys_vfps demo_sys_ok(1,2) dup, of 0 0] by (simp add: demo_sys_ok)
qed

section \<open>Registered partitions\<close>

definition covers :: "u64 \<Rightarrow> disk_partition \<Rightarrow> bool" where
  "covers addr p \<longleftrightarrow> start_addr p \<le> addr \<and> addr \<le> end_addr p"

text \<open>The registered partitions that cover an address, in order, with the type and score of their disk.\<close>

definition matches :: "u64 \<Rightarrow> disk_partitions list \<Rightarrow> (string \<times> int \<times> disk_partition) list" where
  "matches addr dps = concat (map (\<lambda>dp. map (\<lambda>p. (disk_type dp, score dp, p)) (filter (covers addr) (parts dp))) dps)"

definition registered :: "global_data \<Rightarrow> disk_partitions list" where
  "registered g = map the (take (active_partitions g) (disk_parts_array g))"

fun pick :: "(string \<times> int \<times> disk_partition) list \<Rightarrow> string option \<times> disk_partition option \<times> int
    \<Rightarrow> string option \<times> disk_partition option \<times> int" where
  "pick [] st = st"
| "pick ((ty, sc, p) # ms) (rty, best, best_score) =
     pick ms (Some ty, if sc > best_score then (Some p, sc) else (best, best_score))"

lemma pick_append: "pick (xs @ ys) st = pick ys (pick xs st)"
  by (induction xs st rule: pick.induct) auto

lemma find_in_parts_pick:
  "find_in_parts addr ty sc ps st = pick (map (\<lambda>p. (ty, sc, p)) (filter (covers addr) ps)) st"
  by (induction addr ty sc ps st rule: find_in_parts.induct) (auto simp: covers_def)

lemma find_in_disks_pick: "find_in_disks addr dps st = pick (matches addr dps) st"
  by (induction addr dps st rule: find_in_disks.induct)
    (simp_all add: matches_def find_in_parts_pick pick_append)

lemma pick_type: "fst (pick ms st) = (if ms = [] then fst st else Some (fst (last ms)))"
  by (induction ms st rule: pick.induct) auto

lemma pick_best:
  assumes "pick ms (ty, best, bs) = (ty', best', bs')"
  shows "bs \<le> bs' \<and> (\<forall>m\<in>set ms. fst (snd m) \<le> bs') \<and>
    (bs' = bs \<and> best' = best \<or> bs < bs' \<and> (\<exists>ty p. best' = Some p \<and> (ty, bs', p) \<in> set ms))"
  using assms
proof (induction ms "(ty, best, bs)" arbitrary: ty best bs rule: pick.induct)
  case 1
  then show ?case by simp
next
  case (2 ty1 sc p ms rty best best_score)
  define st where "st = (if sc > best_score then (Some p, sc) else (best, best_score))"
  obtain b1 s1 where st: "st = (b1, s1)" by (cases st)
  have ih: "s1 \<le> bs' \<and> (\<forall>m\<in>set ms. fst (snd m) \<le> bs') \<and>
    (bs' = s1 \<and> best' = b1 \<or> s1 < bs' \<and> (\<exists>ty p. best' = Some p \<and> (ty, bs', p) \<in> set ms))"
    using 2(1) [of b1 s1] 2(2) st by (simp add: st_def)
  have "s1 = max sc best_score" "b1 = (if sc > best_score then Some p else best)"
    using st by (auto simp: st_def split: if_splits)
  with ih show ?case by (auto simp: max_def split: if_splits)
qed

text \<open>C29: \<open>find_registed_partition\<close> returns a partition that covers the address and belongs to a registered disk whose
  score no other match exceeds, and none only if no disk of positive score has a match; but the disk type it reports is the one of
  the last match in registration order, whatever its score.\<close>

theorem find_registed_partition_best:
  assumes "find_registed_partition addr g = (best, ty)"
  shows "(case best of
      None \<Rightarrow> \<forall>m\<in>set (matches addr (registered g)). fst (snd m) \<le> 0
    | Some p \<Rightarrow> \<exists>t sc. (t, sc, p) \<in> set (matches addr (registered g)) \<and> 0 < sc \<and>
        (\<forall>m\<in>set (matches addr (registered g)). fst (snd m) \<le> sc)) \<and>
    ty = (if matches addr (registered g) = [] then None else Some (fst (last (matches addr (registered g)))))"
proof -
  define ms where "ms = matches addr (registered g)"
  obtain sc where p: "pick ms (None, None, 0) = (ty, best, sc)"
    using assms by (auto simp: find_registed_partition_def find_in_disks_pick registered_def ms_def split: prod.splits)
  have "ty = (if ms = [] then None else Some (fst (last ms)))"
    using pick_type [of ms "(None, None, 0)"] p by simp
  moreover have "case best of None \<Rightarrow> \<forall>m\<in>set ms. fst (snd m) \<le> 0
    | Some p \<Rightarrow> \<exists>t sc. (t, sc, p) \<in> set ms \<and> 0 < sc \<and> (\<forall>m\<in>set ms. fst (snd m) \<le> sc)"
    using pick_best [OF p] by (auto split: option.split)
  ultimately show ?thesis unfolding ms_def [symmetric] by simp
qed

definition demo_disk :: "string \<Rightarrow> string \<Rightarrow> disk_partitions" where
  "demo_disk ty name = \<lparr>disk_type = ty, score = 0, parts = [\<lparr>part_name = name, start_addr = 0, end_addr = 100\<rparr>]\<rparr>"

theorem find_registed_partition_best_witness:
  "find_registed_partition 5 (register_weak_disk_partitions (demo_disk ''MBR'' ''sda1'')
     (register_disk_partitions (demo_disk ''GPT'' ''boot'') demo_gd))
   = (Some \<lparr>part_name = ''boot'', start_addr = 0, end_addr = 100\<rparr>, Some ''MBR'')"
proof -
  define g where "g = register_weak_disk_partitions (demo_disk ''MBR'' ''sda1'')
     (register_disk_partitions (demo_disk ''GPT'' ''boot'') demo_gd)"
  have "registered g = [(demo_disk ''GPT'' ''boot'')\<lparr>score := 80\<rparr>, (demo_disk ''MBR'' ''sda1'')\<lparr>score := 10\<rparr>]"
    by (simp add: g_def registered_def register_weak_disk_partitions_def register_disk_partitions_def demo_gd_def
        GD_MAX_PARTITIONS_def GD_MAX_IMGEDITOR_def demo_disk_def DISK_PARTITIONS_SCORE_GOOD_def
        DISK_PARTITIONS_SCORE_WEAK_def Let_def eval_nat_numeral)
  then have m: "matches 5 (registered g) =
      [(''GPT'', 80, \<lparr>part_name = ''boot'', start_addr = 0, end_addr = 100\<rparr>),
       (''MBR'', 10, \<lparr>part_name = ''sda1'', start_addr = 0, end_addr = 100\<rparr>)]"
    by (simp add: matches_def demo_disk_def covers_def)
  show ?thesis
    using find_registed_partition_best [of 5 g "fst (find_registed_partition 5 g)" "snd (find_registed_partition 5 g)"]
    unfolding m by (cases "find_registed_partition 5 g") (auto simp: g_def [symmetric] split: option.splits)
qed

text \<open>A state with one open file of the given contents, and a device of zeros.\<close>

definition one_file_sys :: "bytes \<Rightarrow> sys" where
  "one_file_sys c = \<lparr>fds = [Some 0], open_files = [\<lparr>inode = 0, position = 0\<rparr>],
     inodes = [c, replicate 0x200000 0], max_io = 0x7ffff000, gd = demo_gd\<rparr>"

lemma one_file_sys_ok: "out_state (one_file_sys c) 0 0 c 0"
  by (simp add: out_state_def sys_ok_def one_file_sys_def ofd_of_def content_def demo_gd_def list_all_iff)

end
