(* ===== verification/Xopt.thy ===== *)
theory Xopt
  imports Strings
begin

text \<open>
  The option parser (libs/libxopt) on top of \<open>getopt_long\<close> of the C library, which is defined here as
  glibc documents it: options and other arguments may be mixed, the arguments that are no options are moved behind
  the options, a long option may be abbreviated. No option is called \<open>:\<close> or \<open>;\<close> and the environment does not
  set \<open>POSIXLY_CORRECT\<close>.
\<close>

section \<open>\<open>getopt_long\<close>\<close>

record getopt_option =
  go_name :: string
  go_has_arg :: bool
  go_val :: int

text \<open>What one call returns: the option's value and \<open>optarg\<close>.\<close>

type_synonym opt_event = "int \<times> string option"

definition bad_opt :: opt_event where "bad_opt = (63, None)"

text \<open>A cluster of short options: the events, the arguments it takes from those behind it, and the rest of them.\<close>

definition short_has_arg :: "string \<Rightarrow> char \<Rightarrow> bool option" where
  "short_has_arg optstring c =
     (if c \<notin> set optstring \<or> c = CHR '':'' then None
      else Some (take 1 (drop 1 (dropWhile (\<lambda>x. x \<noteq> c) optstring)) = '':''))"

fun getopt_short :: "string \<Rightarrow> string \<Rightarrow> string list \<Rightarrow> opt_event list \<times> string list \<times> string list" where
  "getopt_short optstring [] rest = ([], [], rest)"
| "getopt_short optstring (c # cs) rest =
     (case short_has_arg optstring c of
        None \<Rightarrow> (case getopt_short optstring cs rest of (evs, used, r) \<Rightarrow> (bad_opt # evs, used, r))
      | Some False \<Rightarrow>
          (case getopt_short optstring cs rest of (evs, used, r) \<Rightarrow> ((int (of_char c), None) # evs, used, r))
      | Some True \<Rightarrow>
          if cs \<noteq> [] then ([(int (of_char c), Some cs)], [], rest)
          else (case rest of
                  [] \<Rightarrow> ([bad_opt], [], [])
                | v # r \<Rightarrow> ([(int (of_char c), Some v)], [v], r)))"

text \<open>A long option: the text behind the two dashes.\<close>

definition find_long :: "getopt_option list \<Rightarrow> string \<Rightarrow> getopt_option option" where
  "find_long longopts name =
     (case find (\<lambda>o'. go_name o' = name) longopts of
        Some o' \<Rightarrow> Some o'
      | None \<Rightarrow>
          (case filter (\<lambda>o'. take (length name) (go_name o') = name) longopts of
             [] \<Rightarrow> None
           | o' # os \<Rightarrow>
               if list_all (\<lambda>q. go_has_arg q = go_has_arg o' \<and> go_val q = go_val o') os then Some o' else None))"

definition getopt_long1 ::
    "getopt_option list \<Rightarrow> string \<Rightarrow> string list \<Rightarrow> opt_event \<times> string list \<times> string list" where
  "getopt_long1 longopts s rest =
     (let name = takeWhile (\<lambda>c. c \<noteq> CHR ''='') s; val = dropWhile (\<lambda>c. c \<noteq> CHR ''='') s
      in case find_long longopts name of
           None \<Rightarrow> (bad_opt, [], rest)
         | Some o' \<Rightarrow>
             if val \<noteq> [] then
               (if go_has_arg o' then ((go_val o', Some (drop 1 val)), [], rest) else (bad_opt, [], rest))
             else if go_has_arg o' then
               (case rest of
                  [] \<Rightarrow> (bad_opt, [], [])
                | v # r \<Rightarrow> ((go_val o', Some v), [v], r))
             else ((go_val o', None), [], rest))"

lemma getopt_short_rest: "getopt_short optstring cs rest = (evs, used, r) \<Longrightarrow> length r \<le> length rest"
  by (induction optstring cs rest arbitrary: evs used r rule: getopt_short.induct)
     (auto split: option.splits bool.splits list.splits prod.splits if_splits)

lemma getopt_long1_rest: "getopt_long1 longopts s rest = (ev, used, r) \<Longrightarrow> length r \<le> length rest"
  by (auto simp: getopt_long1_def Let_def split: option.splits list.splits if_splits)

text \<open>
  The calls until the end of the arguments: what they return, the elements that are options with their values, and
  those that are not.
\<close>

function getopt_args ::
    "string \<Rightarrow> getopt_option list \<Rightarrow> string list \<Rightarrow> opt_event list \<times> string list \<times> string list" where
  "getopt_args optstring longopts [] = ([], [], [])"
| "getopt_args optstring longopts (a # rest) =
     (if take 2 a = ''--'' then
        (case getopt_long1 longopts (drop 2 a) rest of
           (ev, used, r) \<Rightarrow>
             (case getopt_args optstring longopts r of
                (evs, os, ns) \<Rightarrow> (ev # evs, a # used @ os, ns)))
      else if take 1 a = ''-'' \<and> a \<noteq> ''-'' then
        (case getopt_short optstring (drop 1 a) rest of
           (ev, used, r) \<Rightarrow>
             (case getopt_args optstring longopts r of
                (evs, os, ns) \<Rightarrow> (ev @ evs, a # used @ os, ns)))
      else (case getopt_args optstring longopts rest of (evs, os, ns) \<Rightarrow> (evs, os, a # ns)))"
  by pat_completeness auto

termination
  by (relation "measure (\<lambda>(optstring, longopts, args). length args)")
     (auto simp: less_Suc_eq_le dest: getopt_short_rest getopt_long1_rest sym)

section \<open>Options\<close>

definition XOPT_GETOPT_STARTVAL :: int where "XOPT_GETOPT_STARTVAL = 512"
definition LIBXOPT_FLAG_KEEPFIRST :: u64 where "LIBXOPT_FLAG_KEEPFIRST = 1"

datatype xopt_type = XOPT_TYPE_BOOL | XOPT_TYPE_STRING | XOPT_TYPE_INT | XOPT_TYPE_INT_DEC | XOPT_TYPE_INT_HEX
  | XOPT_TYPE_LONG | XOPT_TYPE_LONG_DEC | XOPT_TYPE_LONG_HEX
  | XOPT_TYPE_ULONG | XOPT_TYPE_ULONG_DEC | XOPT_TYPE_ULONG_HEX

text \<open>A name that is not there is the null character, or \<open>None\<close>.\<close>

record xopt_option =
  xo_name :: char
  long_name :: "string option"
  type :: xopt_type
  offset :: nat

record xopt =
  flags :: u64
  options :: "xopt_option list"
  optstring :: string
  longops :: "getopt_option list"
  errbuf :: string

text \<open>The structure the values are stored to: the fields by their offset.\<close>

datatype xopt_value = XBool bool | XString string | XInt int | XLong int | XULong u64

type_synonym xopt_data = "nat \<Rightarrow> xopt_value option"

definition xopt_push_optstring :: "xopt \<Rightarrow> char \<Rightarrow> bool \<Rightarrow> int \<times> xopt" where
  "xopt_push_optstring xopt name has_arg =
     (let need_space = 1 + 1 + (if has_arg then 1 else 0); remain = 128 - length (optstring xopt)
      in if remain < need_space then (-1, xopt)
         else (0, xopt\<lparr>optstring := optstring xopt @ name # (if has_arg then '':'' else [])\<rparr>))"

definition xopt_push_long_option :: "xopt \<Rightarrow> string \<Rightarrow> bool \<Rightarrow> int \<Rightarrow> int \<times> xopt" where
  "xopt_push_long_option xopt name has_arg val =
     (0, xopt\<lparr>longops := longops xopt @ [\<lparr>go_name = name, go_has_arg = has_arg, go_val = val\<rparr>]\<rparr>)"

definition xopt_option_get_byname :: "xopt \<Rightarrow> char \<Rightarrow> xopt_option option" where
  "xopt_option_get_byname xopt name = find (\<lambda>opt. xo_name opt = name) (options xopt)"

definition xopt_option_get_byval :: "xopt \<Rightarrow> int \<Rightarrow> xopt_option option" where
  "xopt_option_get_byval xopt val =
     (if val < XOPT_GETOPT_STARTVAL then None
      else if val \<ge> XOPT_GETOPT_STARTVAL + int (length (options xopt)) then None
      else Some (options xopt ! nat (val - XOPT_GETOPT_STARTVAL)))"

text \<open>The table ends at the first entry without any name.\<close>

definition xopt_option_counts :: "xopt_option list \<Rightarrow> nat" where
  "xopt_option_counts opts = length (takeWhile (\<lambda>opt. xo_name opt \<noteq> CHR 0x00 \<or> long_name opt \<noteq> None) opts)"

definition libxopt_reinit :: "xopt \<Rightarrow> xopt" where
  "libxopt_reinit xopt = xopt\<lparr>errbuf := []\<rparr>"

text \<open>The status of a long name replaces that of the short name of the same entry.\<close>

fun libxopt_push :: "nat \<Rightarrow> int \<Rightarrow> xopt_option list \<Rightarrow> xopt \<Rightarrow> xopt option" where
  "libxopt_push i ret [] xopt = Some xopt"
| "libxopt_push i ret (xoption # opts) xopt =
     (let has_arg = (type xoption \<noteq> XOPT_TYPE_BOOL);
          val = XOPT_GETOPT_STARTVAL + int i;
          (ret1, xopt1) =
            (if xo_name xoption \<noteq> CHR 0x00 then xopt_push_optstring xopt (xo_name xoption) has_arg else (ret, xopt));
          (ret2, xopt2) =
            (case long_name xoption of
               Some l \<Rightarrow> xopt_push_long_option xopt1 l has_arg val
             | None \<Rightarrow> (ret1, xopt1))
      in if ret2 < 0 then None else libxopt_push (i + 1) ret2 opts xopt2)"

definition libxopt_new :: "bool \<Rightarrow> xopt_option list \<Rightarrow> u64 \<Rightarrow> xopt option" where
  "libxopt_new mem opts fl =
     (if \<not> mem then None
      else
        let opts' = take (xopt_option_counts opts) opts;
            xopt = \<lparr>flags = fl, options = opts', optstring = [], longops = [], errbuf = []\<rparr>
        in map_option libxopt_reinit (libxopt_push 0 0 opts' xopt))"

definition libxopt_set_error :: "xopt \<Rightarrow> string \<Rightarrow> xopt" where
  "libxopt_set_error xopt txt = xopt\<lparr>errbuf := snprintf_s 1024 txt\<rparr>"

definition libxopt_get_error :: "xopt \<Rightarrow> string" where
  "libxopt_get_error xopt = errbuf xopt"

section \<open>Parsing\<close>

definition xopt_base :: "xopt_type \<Rightarrow> nat" where
  "xopt_base ty =
     (case ty of
        XOPT_TYPE_INT_DEC \<Rightarrow> 10 | XOPT_TYPE_LONG_DEC \<Rightarrow> 10 | XOPT_TYPE_ULONG_DEC \<Rightarrow> 10
      | XOPT_TYPE_INT_HEX \<Rightarrow> 16 | XOPT_TYPE_LONG_HEX \<Rightarrow> 16 | XOPT_TYPE_ULONG_HEX \<Rightarrow> 16
      | _ \<Rightarrow> 0)"

text \<open>The value and \<open>endp\<close>, for the text that the option has. \<open>(int)\<close> keeps 32 bits.\<close>

definition xopt_convert :: "xopt_type \<Rightarrow> string \<Rightarrow> xopt_value \<times> string option" where
  "xopt_convert ty s =
     (let base = xopt_base ty; i = strtol base s; u = strtoul base s
      in if ty = XOPT_TYPE_BOOL then (XBool True, None)
         else if ty = XOPT_TYPE_STRING then (XString s, None)
         else if ty \<in> {XOPT_TYPE_INT, XOPT_TYPE_INT_DEC, XOPT_TYPE_INT_HEX}
              then (XInt (sint (word_of_int (fst i) :: u32)), Some (snd i))
         else if ty \<in> {XOPT_TYPE_LONG, XOPT_TYPE_LONG_DEC, XOPT_TYPE_LONG_HEX}
              then (XLong (fst i), Some (snd i))
         else (XULong (fst u), Some (snd u)))"

definition not_a_number :: string where
  "not_a_number = ''value isn't a valid number: ''"

definition xopt_default_callback ::
    "xopt \<Rightarrow> xopt_option \<Rightarrow> bool \<Rightarrow> string option \<Rightarrow> xopt_data \<Rightarrow> int \<times> xopt \<times> xopt_data" where
  "xopt_default_callback xopt opt is_shortarg val data =
     (let s = (case val of None \<Rightarrow> [] | Some s \<Rightarrow> s);
          (v, endp) = xopt_convert (type opt) s;
          data' = data(offset opt \<mapsto> v)
      in case endp of
           Some (_ # _) \<Rightarrow>
             (-1,
              libxopt_set_error xopt
                (not_a_number @
                 (if is_shortarg then ''-'' @ [xo_name opt] else ''--'' @ (case long_name opt of None \<Rightarrow> [] | Some l \<Rightarrow> l))
                 @ '' '' @ s),
              data')
         | _ \<Rightarrow> (0, xopt, data'))"

definition count_argc :: "string list \<Rightarrow> nat" where
  "count_argc argv = length (takeWhile (\<lambda>a. a \<noteq> ''--'') argv)"

definition opt_unknown :: "int \<Rightarrow> string" where
  "opt_unknown opt =
     ''xoption for opt '' @ dec_string (nat opt) @ ''('' @
     [if opt < 128 then char_of (nat opt) else CHR '' ''] @ '') is not found''"

text \<open>
  The loop over the calls of \<open>getopt_long\<close>. \<open>cbs\<close> gives the callback of an option that has one; no table of
  the program sets it.
\<close>

type_synonym xopt_option_callback_t =
  "xopt \<Rightarrow> xopt_option \<Rightarrow> bool \<Rightarrow> string option \<Rightarrow> xopt_data \<Rightarrow> int \<times> xopt \<times> xopt_data"

fun libxopt_dispatch ::
    "(xopt_option \<Rightarrow> xopt_option_callback_t option) \<Rightarrow> xopt \<Rightarrow> opt_event list \<Rightarrow> xopt_data \<Rightarrow> int \<times> xopt \<times> xopt_data" where
  "libxopt_dispatch cbs xopt [] data = (0, xopt, data)"
| "libxopt_dispatch cbs xopt ((opt, optarg) # evs) data =
     (let is_shortarg = (opt < XOPT_GETOPT_STARTVAL);
          found = (if is_shortarg then xopt_option_get_byname xopt (char_of (nat opt)) else xopt_option_get_byval xopt opt)
      in case found of
           None \<Rightarrow> (-1, libxopt_set_error xopt (opt_unknown opt), data)
         | Some xoption \<Rightarrow>
             let callback = (case cbs xoption of None \<Rightarrow> xopt_default_callback | Some cb \<Rightarrow> cb);
                 (ret, xopt', data') = callback xopt xoption is_shortarg optarg data
             in if ret < 0 then (ret, xopt', data') else libxopt_dispatch cbs xopt' evs data')"

text \<open>
  The result is the status, the parser, the data, and on success the arguments in their new order with
  \<open>optind\<close>. Without an argument in front of \<open>--\<close> the library returns at once and leaves \<open>optind\<close> 0.
\<close>

definition libxopt_parse ::
    "(xopt_option \<Rightarrow> xopt_option_callback_t option) \<Rightarrow> xopt \<Rightarrow> string list \<Rightarrow> xopt_data
      \<Rightarrow> int \<times> xopt \<times> xopt_data \<times> string list \<times> int" where
  "libxopt_parse cbs xopt argv data =
     (let keep = (flags xopt AND LIBXOPT_FLAG_KEEPFIRST \<noteq> 0);
          work = (if keep then ''dummy'' # argv else argv);
          n = count_argc work;
          (evs, os, ns) = getopt_args (optstring xopt) (longops xopt) (drop 1 (take n work));
          (ret, xopt', data') = libxopt_dispatch cbs xopt evs data;
          work' = take 1 (take n work) @ os @ ns @ drop n work;
          optind = (if n = 0 then 0 else 1 + int (length os))
      in if ret < 0 then (ret, xopt', data', argv, 0)
         else (0, xopt', data', if keep then drop 1 work' else work', if keep then optind - 1 else optind))"

definition libxopt_get_optind :: "int \<times> xopt \<times> xopt_data \<times> string list \<times> int \<Rightarrow> int" where
  "libxopt_get_optind r = snd (snd (snd (snd r)))"

end
