(* ===== verification/Mbr.thy ===== *)
theory Mbr
  imports FileLaws Xopt
begin

text \<open>
  The DOS partition table reader (disk/mbr.c). A sector is a list of 512 bytes, a partition entry a record of
  its fields in host order. The chain of extended boot records is followed with fuel, since nothing in the code
  bounds it. What the listing commands print is the text they return.
\<close>

section \<open>Partition entries\<close>

definition SECTOR_SIZE :: nat where "SECTOR_SIZE = 512"
definition DOS_PART_DISKSIG_OFFSET :: nat where "DOS_PART_DISKSIG_OFFSET = 0x1b8"
definition DOS_PART_TBL_OFFSET :: nat where "DOS_PART_TBL_OFFSET = 0x1be"
definition DOS_PART_MAGIC_OFFSET :: nat where "DOS_PART_MAGIC_OFFSET = 0x1fe"
definition DOS_PART_TYPE_EXTENDED :: u8 where "DOS_PART_TYPE_EXTENDED = 0x05"
definition DOS_PART_TYPE_FAT16 :: u8 where "DOS_PART_TYPE_FAT16 = 0x06"
definition DOS_PART_TYPE_FAT32 :: u8 where "DOS_PART_TYPE_FAT32 = 0x0b"
definition DOS_PART_TYPE_EFI :: u8 where "DOS_PART_TYPE_EFI = 0xee"
definition DOS_PART_TYPE_EXTENDED_LBA :: u8 where "DOS_PART_TYPE_EXTENDED_LBA = 0x0f"
definition DOS_PART_TYPE_EXTENDED_LINUX :: u8 where "DOS_PART_TYPE_EXTENDED_LINUX = 0x85"
definition DOS_PRIMARY_PARTITIONS :: nat where "DOS_PRIMARY_PARTITIONS = 4"
definition MAX_EXT_PARTS :: nat where "MAX_EXT_PARTS = 256"

record dos_partition =
  boot_ind :: u8
  head :: u8
  sector :: u8
  cyl :: u8
  sys_ind :: u8
  end_head :: u8
  end_sector :: u8
  end_cyl :: u8
  start :: u32
  nr_sects :: u32

definition decode_partition :: "bytes \<Rightarrow> dos_partition" where
  "decode_partition b =
     \<lparr>boot_ind = b ! 0, head = b ! 1, sector = b ! 2, cyl = b ! 3, sys_ind = b ! 4, end_head = b ! 5,
      end_sector = b ! 6, end_cyl = b ! 7, start = word_of_nat (le_decode (take 4 (drop 8 b))),
      nr_sects = word_of_nat (le_decode (take 4 (drop 12 b)))\<rparr>"

text \<open>The four entries that \<open>memcpy\<close> takes out of a sector.\<close>

definition decode_table :: "bytes \<Rightarrow> dos_partition list" where
  "decode_table buf =
     map (\<lambda>i. decode_partition (take 16 (drop (DOS_PART_TBL_OFFSET + 16 * i) buf))) [0..<DOS_PRIMARY_PARTITIONS]"

definition bad_magic :: "bytes \<Rightarrow> bool" where
  "bad_magic buf \<longleftrightarrow> buf ! DOS_PART_MAGIC_OFFSET \<noteq> 0x55 \<and> buf ! (DOS_PART_MAGIC_OFFSET + 1) \<noteq> 0xaa"

definition is_extended :: "u8 \<Rightarrow> bool" where
  "is_extended t \<longleftrightarrow> t = DOS_PART_TYPE_EXTENDED \<or> t = DOS_PART_TYPE_EXTENDED_LBA \<or> t = DOS_PART_TYPE_EXTENDED_LINUX"

text \<open>Cylinder, head and sector.\<close>

definition dos_partition_chs :: "dos_partition \<Rightarrow> u16 \<times> u8 \<times> u8" where
  "dos_partition_chs part =
     (push_bit 8 (drop_bit 6 (ucast (sector part))) OR ucast (cyl part), head part, sector part AND 0x3f)"

definition dos_partition_end_chs :: "dos_partition \<Rightarrow> u16 \<times> u8 \<times> u8" where
  "dos_partition_end_chs part =
     (push_bit 8 (drop_bit 6 (ucast (end_sector part))) OR ucast (end_cyl part), end_head part, end_sector part AND 0x3f)"

definition string_lba_size :: "nat \<Rightarrow> u64 \<Rightarrow> string" where
  "string_lba_size bufsz lba =
     (let bytes = 512 * lba;
          dec = (\<lambda>w :: u64. dec_string (unat w))
      in snprintf_s bufsz
           (if bytes < push_bit 10 1 then dec bytes
            else if bytes < push_bit 20 1 then dec (drop_bit 10 bytes) @ ''K''
            else if bytes < push_bit 30 1 then dec (drop_bit 20 bytes) @ ''M''
            else if bytes AND (push_bit 30 1 - 1) \<noteq> 0 then
              dec (drop_bit 30 bytes) @ ''.'' @ dec ((bytes AND (push_bit 30 1 - 1)) * 10 div push_bit 30 1) @ ''G''
            else dec (drop_bit 30 bytes) @ ''G''))"

definition string_dos_partition_sys_ind :: "nat \<Rightarrow> u8 \<Rightarrow> string" where
  "string_dos_partition_sys_ind sz sysind =
     snprintf_s sz
       (if sysind = DOS_PART_TYPE_FAT16 then ''FAT16''
        else if sysind = DOS_PART_TYPE_FAT32 then ''FAT32''
        else if sysind = DOS_PART_TYPE_EXTENDED then ''Extended''
        else if sysind = DOS_PART_TYPE_EFI then ''EFI''
        else if sysind = 0x83 then ''Linux''
        else ''?'')"

section \<open>Extended boot records\<close>

type_synonym 'd ext_cb = "dos_partition \<Rightarrow> u32 \<Rightarrow> u32 \<Rightarrow> 'd \<Rightarrow> (int \<times> 'd) cres"

text \<open>
  \<open>start * SECTOR_SIZE\<close> is computed in 32 bits. \<open>mbr_foreach_parts\<close> is the loop over the four entries;
  an extended entry leaves it by the recursive call.
\<close>

function mbr_foreach_extended ::
    "nat \<Rightarrow> int \<Rightarrow> u32 \<Rightarrow> u32 \<Rightarrow> 'd ext_cb \<Rightarrow> 'd \<Rightarrow> sys \<Rightarrow> (int \<times> 'd \<times> sys) cres"
  and mbr_foreach_parts ::
    "nat \<Rightarrow> int \<Rightarrow> u32 \<Rightarrow> u32 \<Rightarrow> 'd ext_cb \<Rightarrow> dos_partition list \<Rightarrow> 'd \<Rightarrow> sys \<Rightarrow> (int \<times> 'd \<times> sys) cres" where
  "mbr_foreach_extended 0 fd extend_start part_start cb data s = NoFuel"
| "mbr_foreach_extended (Suc fuel) fd extend_start part_start cb data s =
     (let begin = extend_start + part_start;
          (_, s1) = fileseek fd (int (unat (begin * 512))) s;
          (ret, buf, s2) = fileread fd SECTOR_SIZE s1
      in if ret < 0 then Ok (ret, data, s2)
         else if bad_magic buf then Ok (0, data, s2)
         else mbr_foreach_parts fuel fd extend_start part_start cb (decode_table buf) data s2)"
| "mbr_foreach_parts fuel fd extend_start part_start cb [] data s = Ok (0, data, s)"
| "mbr_foreach_parts fuel fd extend_start part_start cb (part # ps) data s =
     (if sys_ind part = 0 then mbr_foreach_parts fuel fd extend_start part_start cb ps data s
      else cbind (cb part extend_start part_start data)
        (\<lambda>(ret, data').
           if ret < 0 then Ok (ret, data', s)
           else if is_extended (sys_ind part)
           then mbr_foreach_extended fuel fd extend_start (start part) cb data' s
           else mbr_foreach_parts fuel fd extend_start part_start cb ps data' s))"
  by pat_completeness auto

termination
  by (relation "inv_image (less_than <*lex*> less_than)
       (\<lambda>x. case x of Inl (fuel, _) \<Rightarrow> (fuel, 0)
          | Inr (fuel, _, _, _, _, ps, _) \<Rightarrow> (fuel, Suc (length ps)))") auto

record mbr_editor_private_data =
  mbr_fd :: int
  disksig :: u32
  primary :: "dos_partition list"
  logic_counts :: nat
  logic :: "dos_partition list"

text \<open>The bound admits one partition more than the array holds.\<close>

definition mbr_save_logic_cb :: "mbr_editor_private_data ext_cb" where
  "mbr_save_logic_cb part extend_start part_start p =
     (if logic_counts p > MAX_EXT_PARTS then Ok (-1, p)
      else if is_extended (sys_ind part) then Ok (0, p)
      else if length (logic p) \<le> logic_counts p then Oob
      else
        let logic_start = start part + part_start + extend_start
        in Ok (0, p\<lparr>logic := (logic p)[logic_counts p := part\<lparr>start := logic_start\<rparr>],
                    logic_counts := logic_counts p + 1\<rparr>))"

section \<open>Detection\<close>

text \<open>The first loop: the primary partitions before the extended one, and the chain of the extended one.\<close>

fun mbr_scan_primary ::
    "nat \<Rightarrow> int \<Rightarrow> dos_partition list \<Rightarrow> nat \<Rightarrow> mbr_editor_private_data \<Rightarrow> sys
      \<Rightarrow> (int \<times> nat \<times> mbr_editor_private_data \<times> sys) cres" where
  "mbr_scan_primary fuel fd [] n p s = Ok (0, n, p, s)"
| "mbr_scan_primary fuel fd (part # ps) n p s =
     (if sys_ind part = 0 then mbr_scan_primary fuel fd ps n p s
      else if is_extended (sys_ind part) then
        cbind (mbr_foreach_extended fuel fd (start part) 0 mbr_save_logic_cb p s)
          (\<lambda>(ret, p', s'). Ok (ret, n, p', s'))
      else mbr_scan_primary fuel fd ps (n + 1) p s)"

text \<open>
  The second loop fills the partitions to register: \<open>i\<close> is the number of the entry, \<open>di\<close> the cell it is
  written to. The name is written before the entry is looked at.
\<close>

fun mbr_fill_parts :: "nat \<Rightarrow> nat \<Rightarrow> dos_partition list \<Rightarrow> disk_partition list \<Rightarrow> disk_partition list cres" where
  "mbr_fill_parts i di [] ps = Ok ps"
| "mbr_fill_parts i di (part # rest) ps =
     (if length ps \<le> di then Oob
      else
        let diskp = (ps ! di)\<lparr>part_name := snprintf_s 32 (''sda'' @ dec_string (i + 1))\<rparr>;
            ps1 = ps[di := diskp]
        in if i < DOS_PRIMARY_PARTITIONS \<and> (sys_ind part = 0 \<or> is_extended (sys_ind part))
           then mbr_fill_parts (i + 1) di rest ps1
           else
             let sa = ucast (start part) :: u64;
                 ea = sa + ucast (nr_sects part);
                 diskp' = diskp\<lparr>start_addr := sa * 512, end_addr := ea * 512 - 1\<rparr>
             in mbr_fill_parts (i + 1) (di + 1) rest (ps1[di := diskp']))"

definition mbr_detect ::
    "nat \<Rightarrow> bool \<Rightarrow> bytes \<Rightarrow> bool \<Rightarrow> int \<Rightarrow> mbr_editor_private_data \<Rightarrow> sys
      \<Rightarrow> (int \<times> mbr_editor_private_data \<times> sys) cres" where
  "mbr_detect fuel mem garbage force_type fd p0 s0 =
     (let p = p0\<lparr>mbr_fd := fd\<rparr>;
          (ret, data, s) = sys_read fd SECTOR_SIZE s0;
          buf = take SECTOR_SIZE (data @ drop (length data) garbage)
      in if ret < 0 then Ok (ret, p, s)
         else if bad_magic buf then Ok (-1, p, s)
         else
           let sig = word_of_nat (le_decode (take 4 (drop DOS_PART_DISKSIG_OFFSET buf)));
               p1 = p\<lparr>disksig := sig, primary := decode_table buf\<rparr>
           in if sys_ind (primary p1 ! 0) = DOS_PART_TYPE_EFI \<and> \<not> force_type then Ok (-1, p1, s)
              else cbind (mbr_scan_primary fuel fd (primary p1) 0 p1 s)
                (\<lambda>(ret, primary_count, p2, s2).
                   if ret < 0 then Ok (ret, p2, s2)
                   else case alloc_disk_partitions mem ''MBR'' (primary_count + logic_counts p2) of
                       None \<Rightarrow> Ok (0, p2, s2)
                     | Some dp \<Rightarrow>
                         cbind (mbr_fill_parts 0 0 (primary p2 @ take (logic_counts p2) (logic p2)) (parts dp))
                           (\<lambda>ps. Ok (0, p2, s2\<lparr>gd := register_weak_disk_partitions (dp\<lparr>parts := ps\<rparr>) (gd s2)\<rparr>))))"

section \<open>Listing\<close>

record fdisk_option_value =
  opt_l :: bool
  opt_x :: bool

definition fmt_chs :: "u16 \<times> u8 \<times> u8 \<Rightarrow> string" where
  "fmt_chs chs = (case chs of (c, h, sc) \<Rightarrow>
     dec_string (unat c) @ ''/'' @ dec_string (unat h) @ ''/'' @ dec_string (unat sc))"

definition mbr_do_fdisk_partition :: "dos_partition \<Rightarrow> nat \<Rightarrow> fdisk_option_value \<Rightarrow> string" where
  "mbr_do_fdisk_partition part part_idx arg =
     (let st = start part; sz = nr_sects part
      in if sz = 0 then []
         else ''/dev/sda'' @ pad_right 2 (dec_string part_idx) @ '' ''
           @ (if boot_ind part AND 0x80 \<noteq> 0 then ''boot'' else ''    '') @ '' ''
           @ pad_left 8 (fmt_d st) @ '' '' @ pad_left 8 (fmt_d (st + sz - 1)) @ '' '' @ pad_left 8 (fmt_d sz) @ '' ''
           @ (if opt_x arg then [] else pad_left 5 (string_lba_size 64 (ucast sz)) @ '' '')
           @ pad_left 2 (hex_string (unat (sys_ind part))) @ '' ''
           @ pad_right 8 (string_dos_partition_sys_ind 64 (sys_ind part)) @ '' ''
           @ (if opt_x arg then pad_left 11 (fmt_chs (dos_partition_chs part)) @ '' ''
                @ pad_left 10 (fmt_chs (dos_partition_end_chs part)) @ '' ''
              else [])
           @ [newline])"

definition fdisk_options :: "xopt_option list" where
  "fdisk_options =
     [\<lparr>xo_name = CHR ''l'', long_name = None, type = XOPT_TYPE_BOOL, offset = 0\<rparr>,
      \<lparr>xo_name = CHR ''x'', long_name = None, type = XOPT_TYPE_BOOL, offset = 1\<rparr>,
      \<lparr>xo_name = CHR 0x00, long_name = None, type = XOPT_TYPE_BOOL, offset = 0\<rparr>]"

definition fdisk_title :: "u32 \<Rightarrow> fdisk_option_value \<Rightarrow> string" where
  "fdisk_title sig arg =
     ''Disklabel type: dos'' @ [newline]
       @ ''disk identifier: 0x'' @ pad_zero 8 (hex_string (unat sig)) @ [newline]
       @ [newline]
       @ ''Device     Boot    Start      End  Sectors'' @ (if opt_x arg then [] else ''  Size'') @ '' Id Type''
       @ (if opt_x arg then ''     Start-C/H/S  End-C/H/S'' else []) @ [newline]"

text \<open>The status and what is printed: the title, then a line per partition. An allocation that fails is not tested.\<close>

definition mbr_do_fdisk :: "bool \<Rightarrow> mbr_editor_private_data \<Rightarrow> string list \<Rightarrow> (int \<times> string list) cres" where
  "mbr_do_fdisk mem p argv =
     (case libxopt_new mem fdisk_options LIBXOPT_FLAG_KEEPFIRST of
        None \<Rightarrow> Oob
      | Some xopt \<Rightarrow>
          (case libxopt_parse (\<lambda>_. None) xopt argv (\<lambda>_. Some (XBool False)) of
             (ret, _, data, _) \<Rightarrow>
               if ret < 0 then Ok (ret, [])
               else
                 let arg = \<lparr>opt_l = (data 0 = Some (XBool True)), opt_x = (data 1 = Some (XBool True))\<rparr>
                 in Ok (0, fdisk_title (disksig p) arg #
                          map (\<lambda>(i, part). mbr_do_fdisk_partition part i arg)
                            (enumerate 1 (primary p @ take (logic_counts p) (logic p))))))"

text \<open>\<open>mbr_do_parts\<close>: the entries it prints, with their numbers; the callback keeps them and counts up.\<close>

definition mbr_print_logic_cb :: "(nat \<times> dos_partition) list ext_cb" where
  "mbr_print_logic_cb part extend_start part_start out =
     Ok (0, out @ [(DOS_PRIMARY_PARTITIONS + 1 + (length out - DOS_PRIMARY_PARTITIONS), part)])"

definition mbr_do_parts ::
    "nat \<Rightarrow> mbr_editor_private_data \<Rightarrow> sys \<Rightarrow> (int \<times> (nat \<times> dos_partition) list \<times> sys) cres" where
  "mbr_do_parts fuel p s =
     (let out = enumerate 1 (primary p)
      in case find (\<lambda>part. is_extended (sys_ind part)) (primary p) of
           None \<Rightarrow> Ok (0, out, s)
         | Some part \<Rightarrow> mbr_foreach_extended fuel (mbr_fd p) (start part) 0 mbr_print_logic_cb out s)"

text \<open>The command that \<open>mbr_main\<close> selects: the partitions one by one, or the table.\<close>

definition mbr_main ::
    "nat \<Rightarrow> bool \<Rightarrow> mbr_editor_private_data \<Rightarrow> string list \<Rightarrow> sys
      \<Rightarrow> (int \<times> ((nat \<times> dos_partition) list + string list) \<times> sys) cres" where
  "mbr_main fuel mem p argv s =
     (if argv \<noteq> [] \<and> hd argv = ''parts'' then
        cbind (mbr_do_parts fuel p s) (\<lambda>(ret, out, s'). Ok (ret, Inl out, s'))
      else cbind (mbr_do_fdisk mem p argv) (\<lambda>(ret, out). Ok (ret, Inr out, s)))"

end
