(* ===== verification/MbrLaws.thy ===== *)
theory MbrLaws
  imports Mbr
begin

text \<open>
  What the MBR reader does: the chain of extended boot records gives the logical partitions with their
  absolute start, records that lead back to each other are followed for ever or until the array is overrun, and the partitions to register fit
  their allocation exactly when no empty entry ends the table.
\<close>

section \<open>Filling the partitions to register\<close>

definition skipped :: "nat \<Rightarrow> dos_partition \<Rightarrow> bool" where
  "skipped i part \<longleftrightarrow> i < DOS_PRIMARY_PARTITIONS \<and> (sys_ind part = 0 \<or> is_extended (sys_ind part))"


definition kept :: "nat \<Rightarrow> dos_partition list \<Rightarrow> (nat \<times> dos_partition) list" where
  "kept i es = filter (\<lambda>(j, part). \<not> skipped j part) (enumerate i es)"

lemma kept_simps [simp]:
  "kept i [] = []" "kept i (part # es) = (if skipped i part then kept (Suc i) es else (i, part) # kept (Suc i) es)"
  by (simp_all add: kept_def)













section \<open>The chain of extended boot records\<close>

definition sector_at :: "bytes \<Rightarrow> nat \<Rightarrow> bytes" where
  "sector_at c off = take SECTOR_SIZE (drop off c)"

text \<open>The byte offset of the record of this part of the chain.\<close>

definition ebr_offset :: "u32 \<Rightarrow> u32 \<Rightarrow> nat" where
  "ebr_offset extend_start part_start = unat ((extend_start + part_start) * 512 :: u32)"

definition ebr :: "bytes \<Rightarrow> u32 \<Rightarrow> u32 \<Rightarrow> dos_partition list \<Rightarrow> bool" where
  "ebr c es ps table \<longleftrightarrow> ebr_offset es ps + SECTOR_SIZE \<le> length c \<and>
     \<not> bad_magic (sector_at c (ebr_offset es ps)) \<and> decode_table (sector_at c (ebr_offset es ps)) = table"

lemma foreach_extended_step:
  assumes "sys_ok s" "ofd_of s fd = Some d" "filestart fd s = 0" "ebr (content s d) es ps table"
  shows "\<exists>q. mbr_foreach_extended (Suc fuel) fd es ps cb data s =
    mbr_foreach_parts fuel fd es ps cb table data (set_position d q s)"
proof -
  let ?off = "ebr_offset es ps"
  define t where "t = set_position d ?off s"
  have d: "d < length (open_files s)" using sys_ok_ofd [OF assms(1,2)] .
  have seek: "snd (fileseek fd (int (unat ((es + ps) * 512))) s) = t"
    using assms(2,3) by (simp add: fileseek_def lseek_set_def t_def ebr_offset_def)
  have t: "sys_ok t" "ofd_of t fd = Some d" using assms by (simp_all add: t_def)
  have "fileread fd SECTOR_SIZE t =
      (0, sector_at (content s d) ?off, set_position d (?off + SECTOR_SIZE) s)"
    using fileread_loop_eq [OF t, of "[]" SECTOR_SIZE] assms(4) d
    by (auto simp: fileread_def remaining_def t_def sector_at_def ebr_def Let_def)
  then show ?thesis
    using seek assms(4) by (auto simp: Let_def case_prod_beta ebr_def)
qed

lemma set_position_keeps:
  "sys_ok s \<Longrightarrow> ofd_of s fd = Some d \<Longrightarrow> filestart fd s = 0 \<Longrightarrow>
     sys_ok (set_position d q s) \<and> ofd_of (set_position d q s) fd = Some d \<and> filestart fd (set_position d q s) = 0 \<and>
     content (set_position d q s) d = content s d"
  using filestart_gd [of "set_position d q s" s fd] by simp

definition logical :: "dos_partition \<Rightarrow> bool" where
  "logical part \<longleftrightarrow> sys_ind part \<noteq> 0 \<and> \<not> is_extended (sys_ind part)"

text \<open>A chain: every record holds a logical partition and, but for the last, an extended entry that leads to the next.\<close>

fun ebr_chain :: "bytes \<Rightarrow> u32 \<Rightarrow> (u32 \<times> dos_partition) list \<Rightarrow> bool" where
  "ebr_chain c es [] \<longleftrightarrow> False"
| "ebr_chain c es [(ps, l)] \<longleftrightarrow> logical l \<and>
     (\<exists>a b e. ebr c es ps [l, a, b, e] \<and> sys_ind a = 0 \<and> sys_ind b = 0 \<and> sys_ind e = 0)"
| "ebr_chain c es ((ps, l) # (ps', l') # rest) \<longleftrightarrow> logical l \<and>
     (\<exists>a b e. ebr c es ps [l, a, b, e] \<and> is_extended (sys_ind a) \<and> start a = ps') \<and> ebr_chain c es ((ps', l') # rest)"

definition absolute :: "u32 \<Rightarrow> u32 \<times> dos_partition \<Rightarrow> dos_partition" where
  "absolute es e = (snd e)\<lparr>start := start (snd e) + fst e + es\<rparr>"

lemma is_extended_0 [simp]: "\<not> is_extended 0"
  by (simp add: is_extended_def DOS_PART_TYPE_EXTENDED_def DOS_PART_TYPE_EXTENDED_LBA_def
      DOS_PART_TYPE_EXTENDED_LINUX_def)

definition saved :: "u32 \<Rightarrow> u32 \<times> dos_partition \<Rightarrow> mbr_editor_private_data \<Rightarrow> mbr_editor_private_data" where
  "saved es e p = p\<lparr>logic := (logic p)[logic_counts p := absolute es e], logic_counts := logic_counts p + 1\<rparr>"

lemma save_logical:
  "logical l \<Longrightarrow> logic_counts p < MAX_EXT_PARTS \<Longrightarrow> length (logic p) = MAX_EXT_PARTS \<Longrightarrow>
     mbr_save_logic_cb l es ps p = Ok (0, saved es (ps, l) p)"
  by (simp add: mbr_save_logic_cb_def logical_def saved_def absolute_def Let_def)

lemma save_extended: "is_extended (sys_ind a) \<Longrightarrow> logic_counts p \<le> MAX_EXT_PARTS \<Longrightarrow> mbr_save_logic_cb a es ps p = Ok (0, p)"
  by (simp add: mbr_save_logic_cb_def)

lemma walk_chain:
  "ebr_chain (content s d) es chain \<Longrightarrow> sys_ok s \<Longrightarrow> ofd_of s fd = Some d \<Longrightarrow> filestart fd s = 0 \<Longrightarrow>
   length (logic p) = MAX_EXT_PARTS \<Longrightarrow> logic_counts p + length chain \<le> MAX_EXT_PARTS \<Longrightarrow> length chain \<le> fuel \<Longrightarrow>
   \<exists>q. mbr_foreach_extended fuel fd es (fst (hd chain)) mbr_save_logic_cb p s
     = Ok (0, fold (saved es) chain p, set_position d q s)"
proof (induction "content s d" es chain arbitrary: s p fuel rule: ebr_chain.induct)
  case (1 es)
  then show ?case by simp
next
  case (2 es ps l)
  then obtain a b e where t: "ebr (content s d) es ps [l, a, b, e]" "sys_ind a = 0" "sys_ind b = 0" "sys_ind e = 0"
    and l: "logical l" by auto
  obtain f where f: "fuel = Suc f" using 2 by (cases fuel) auto
  obtain q where q: "mbr_foreach_extended (Suc f) fd es ps mbr_save_logic_cb p s =
      mbr_foreach_parts f fd es ps mbr_save_logic_cb [l, a, b, e] p (set_position d q s)"
    using foreach_extended_step [OF 2(2,3,4) t(1), of f mbr_save_logic_cb p] by blast
  have "mbr_save_logic_cb l es ps p = Ok (0, saved es (ps, l) p)" using save_logical [OF l] 2 by simp
  with l t q f show ?case by (intro exI [of _ q]) (simp add: logical_def)
next
  case (3 es ps l ps' l' rest)
  then obtain a b e where t: "ebr (content s d) es ps [l, a, b, e]" "is_extended (sys_ind a)" "start a = ps'"
    and l: "logical l" and c: "ebr_chain (content s d) es ((ps', l') # rest)" by auto
  obtain f where f: "fuel = Suc f" using 3 by (cases fuel) auto
  obtain q where q: "mbr_foreach_extended (Suc f) fd es ps mbr_save_logic_cb p s =
      mbr_foreach_parts f fd es ps mbr_save_logic_cb [l, a, b, e] p (set_position d q s)"
    using foreach_extended_step [OF 3(3,4,5) t(1), of f mbr_save_logic_cb p] by blast
  define p1 where "p1 = saved es (ps, l) p"
  have s1: "mbr_save_logic_cb l es ps p = Ok (0, p1)" using save_logical [OF l] 3 by (simp add: p1_def)
  have p1: "length (logic p1) = MAX_EXT_PARTS" "logic_counts p1 = Suc (logic_counts p)"
    using 3 by (simp_all add: p1_def saved_def)
  have s2: "mbr_save_logic_cb a es ps p1 = Ok (0, p1)" using save_extended [OF t(2)] p1 3 by simp
  have a0: "sys_ind a \<noteq> 0" using t(2) by auto
  note keep = set_position_keeps [OF 3(3,4,5), of q]
  have "\<exists>r. mbr_foreach_extended f fd es (fst (hd ((ps', l') # rest))) mbr_save_logic_cb p1 (set_position d q s)
     = Ok (0, fold (saved es) ((ps', l') # rest) p1, set_position d r (set_position d q s))"
    using keep c 3 p1 f by (intro 3(1)) auto
  then show ?case
    using q f l t(2,3) a0 s1 s2 by (auto simp: logical_def p1_def)
qed

lemma fold_saved:
  "length (logic p) = MAX_EXT_PARTS \<Longrightarrow> logic_counts p + length chain \<le> MAX_EXT_PARTS \<Longrightarrow>
   logic_counts (fold (saved es) chain p) = logic_counts p + length chain \<and>
   take (logic_counts p + length chain) (logic (fold (saved es) chain p)) = take (logic_counts p) (logic p) @ map (absolute es) chain"
proof (induction chain arbitrary: p)
  case Nil
  then show ?case by simp
next
  case (Cons e chain)
  define p1 where "p1 = saved es e p"
  have p1: "length (logic p1) = MAX_EXT_PARTS" "logic_counts p1 = Suc (logic_counts p)"
    "take (Suc (logic_counts p)) (logic p1) = take (logic_counts p) (logic p) @ [absolute es e]"
    using Cons.prems by (simp_all add: p1_def saved_def take_Suc_conv_app_nth)
  show ?case using Cons.IH [of p1] Cons.prems p1 by (simp add: p1_def)
qed

text \<open>C15: on a chain of extended boot records that each hold a logical partition and lead to the next, the walk from the
  extended partition stops within one step per record and saves exactly the logical partitions, in order, with their
  start made absolute: the start in the entry plus the record's place in the extended partition plus its start.\<close>

theorem mbr_logical_partitions:
  assumes "ebr_chain (content s d) es chain" "fst (hd chain) = 0" "sys_ok s" "ofd_of s fd = Some d" "filestart fd s = 0"
    and "length (logic p) = MAX_EXT_PARTS" "logic_counts p = 0" "length chain \<le> MAX_EXT_PARTS" "length chain \<le> fuel"
  shows "\<exists>p' s'. mbr_foreach_extended fuel fd es 0 mbr_save_logic_cb p s = Ok (0, p', s') \<and>
    take (logic_counts p') (logic p') = map (absolute es) chain"
proof -
  obtain q where "mbr_foreach_extended fuel fd es 0 mbr_save_logic_cb p s
     = Ok (0, fold (saved es) chain p, set_position d q s)"
    using walk_chain [OF assms(1,3,4,5,6), of fuel] assms by auto
  then show ?thesis using fold_saved [of p chain es] assms by simp
qed

text \<open>Records that lead back to themselves: what is in front of the first extended entry, which leads to a record of the set.\<close>

definition leads_into :: "u32 set \<Rightarrow> bytes \<Rightarrow> u32 \<Rightarrow> u32 \<Rightarrow> dos_partition list \<Rightarrow> bool" where
  "leads_into S c es ps front \<longleftrightarrow> (\<exists>a post. ebr c es ps (front @ a # post) \<and> is_extended (sys_ind a) \<and> start a \<in> S) \<and>
     (\<forall>l\<in>set front. \<not> is_extended (sys_ind l))"

definition room_ok :: "mbr_editor_private_data \<Rightarrow> bool" where
  "room_ok p \<longleftrightarrow> length (logic p) = MAX_EXT_PARTS \<and> logic_counts p \<le> MAX_EXT_PARTS"

lemma save_logical_room:
  assumes "logical l" "room_ok p"
  shows "mbr_save_logic_cb l es ps p = (if logic_counts p < MAX_EXT_PARTS then Ok (0, saved es (ps, l) p) else Oob)"
    "logic_counts p < MAX_EXT_PARTS \<Longrightarrow> room_ok (saved es (ps, l) p) \<and> logic_counts (saved es (ps, l) p) = Suc (logic_counts p)"
  using assms save_logical [OF assms(1), of p] by (auto simp: room_ok_def mbr_save_logic_cb_def logical_def saved_def)

lemma foreach_parts_front:
  assumes "\<forall>l\<in>set front. \<not> is_extended (sys_ind l)" "is_extended (sys_ind a)" "room_ok p"
  shows "mbr_foreach_parts fuel fd es ps mbr_save_logic_cb (front @ a # post) p s = Oob \<and> (\<exists>l\<in>set front. sys_ind l \<noteq> 0) \<or>
    (\<exists>p'. room_ok p' \<and> logic_counts p \<le> logic_counts p' \<and> ((\<exists>l\<in>set front. sys_ind l \<noteq> 0) \<longrightarrow> logic_counts p < logic_counts p') \<and>
      mbr_foreach_parts fuel fd es ps mbr_save_logic_cb (front @ a # post) p s =
      mbr_foreach_extended fuel fd es (start a) mbr_save_logic_cb p' s)"
  using assms(1,3)
proof (induction front arbitrary: p)
  case Nil
  have "sys_ind a \<noteq> 0" using assms(2) by auto
  then show ?case using Nil assms(2) save_extended [OF assms(2), of p es ps] by (intro disjI2 exI [of _ p]) (simp add: room_ok_def)
next
  case (Cons l front)
  show ?case
  proof (cases "sys_ind l = 0")
    case True
    then show ?thesis using Cons.IH [of p] Cons.prems by simp
  next
    case False
    then have l: "logical l" using Cons.prems(1) by (simp add: logical_def)
    note sv = save_logical_room [OF l Cons.prems(2), of es ps]
    show ?thesis
    proof (cases "logic_counts p < MAX_EXT_PARTS")
      case True
      define p1 where "p1 = saved es (ps, l) p"
      have p1: "room_ok p1" "logic_counts p1 = Suc (logic_counts p)" using sv(2) [OF True] by (simp_all add: p1_def)
      have "mbr_foreach_parts fuel fd es ps mbr_save_logic_cb ((l # front) @ a # post) p s =
          mbr_foreach_parts fuel fd es ps mbr_save_logic_cb (front @ a # post) p1 s"
        using False l sv(1) True by (simp add: logical_def p1_def)
      then show ?thesis using Cons.IH [of p1] Cons.prems(1) p1 False by (auto simp: Suc_le_eq)
    next
      case no: False
      then show ?thesis using False sv(1) by (intro disjI1) simp
    qed
  qed
qed

text \<open>C34: records of the chain that lead back to each other. When none of them has a logical partition in front of its extended
  entry, the walk never comes back: no amount of fuel is enough. When every one of them has such a partition, the walk
  ends by writing one partition behind the array of logical ones, at the latest in the record after as many as there are free places.\<close>

theorem mbr_chain_loops:
  assumes "ps \<in> S" "sys_ok s" "ofd_of s fd = Some d" "filestart fd s = 0"
    and "length (logic p) = MAX_EXT_PARTS" "logic_counts p \<le> MAX_EXT_PARTS"
  shows "((\<forall>ps\<in>S. \<exists>front. leads_into S (content s d) es ps front \<and> (\<forall>l\<in>set front. sys_ind l = 0)) \<longrightarrow>
      mbr_foreach_extended fuel fd es ps mbr_save_logic_cb p s = NoFuel) \<and>
    ((\<forall>ps\<in>S. \<exists>front. leads_into S (content s d) es ps front \<and> (\<exists>l\<in>set front. sys_ind l \<noteq> 0)) \<longrightarrow>
      MAX_EXT_PARTS - logic_counts p < fuel \<longrightarrow> mbr_foreach_extended fuel fd es ps mbr_save_logic_cb p s = Oob)"
proof (intro conjI impI)
  assume S: "\<forall>ps\<in>S. \<exists>front. leads_into S (content s d) es ps front \<and> (\<forall>l\<in>set front. sys_ind l = 0)"
  have r: "room_ok p" using assms(5,6) by (simp add: room_ok_def)
  show "mbr_foreach_extended fuel fd es ps mbr_save_logic_cb p s = NoFuel"
    using S assms(1-4) r
  proof (induction fuel arbitrary: s p ps)
    case (Suc fuel)
    obtain front a post where f: "ebr (content s d) es ps (front @ a # post)" "is_extended (sys_ind a)" "start a \<in> S"
        "\<forall>l\<in>set front. \<not> is_extended (sys_ind l)" "\<forall>l\<in>set front. sys_ind l = 0"
      using Suc.prems(1,2) unfolding leads_into_def by blast
    obtain q where q: "mbr_foreach_extended (Suc fuel) fd es ps mbr_save_logic_cb p s =
        mbr_foreach_parts fuel fd es ps mbr_save_logic_cb (front @ a # post) p (set_position d q s)"
      using foreach_extended_step [OF Suc.prems(3-5) f(1), of fuel mbr_save_logic_cb p] by blast
    obtain p' where p': "room_ok p'" "mbr_foreach_parts fuel fd es ps mbr_save_logic_cb (front @ a # post) p (set_position d q s) =
        mbr_foreach_extended fuel fd es (start a) mbr_save_logic_cb p' (set_position d q s)"
      using foreach_parts_front [OF f(4,2) Suc.prems(6), of fuel fd es ps post "set_position d q s"] f(5) by blast
    show ?case
      unfolding q p'(2) using Suc.IH [of "set_position d q s" "start a" p'] Suc.prems(1) f(3) p'(1) set_position_keeps [OF Suc.prems(3-5), of q]
      by simp
  qed simp
next
  assume S: "\<forall>ps\<in>S. \<exists>front. leads_into S (content s d) es ps front \<and> (\<exists>l\<in>set front. sys_ind l \<noteq> 0)"
    and fuel: "MAX_EXT_PARTS - logic_counts p < fuel"
  have r: "room_ok p" using assms(5,6) by (simp add: room_ok_def)
  show "mbr_foreach_extended fuel fd es ps mbr_save_logic_cb p s = Oob"
    using S assms(1-4) r fuel
  proof (induction fuel arbitrary: s p ps)
    case (Suc fuel)
    obtain front a post where f: "ebr (content s d) es ps (front @ a # post)" "is_extended (sys_ind a)" "start a \<in> S"
        "\<forall>l\<in>set front. \<not> is_extended (sys_ind l)" "\<exists>l\<in>set front. sys_ind l \<noteq> 0"
      using Suc.prems(1,2) unfolding leads_into_def by blast
    obtain q where q: "mbr_foreach_extended (Suc fuel) fd es ps mbr_save_logic_cb p s =
        mbr_foreach_parts fuel fd es ps mbr_save_logic_cb (front @ a # post) p (set_position d q s)"
      using foreach_extended_step [OF Suc.prems(3-5) f(1), of fuel mbr_save_logic_cb p] by blast
    from foreach_parts_front [OF f(4,2) Suc.prems(6), of fuel fd es ps post "set_position d q s"] f(5)
    consider "mbr_foreach_parts fuel fd es ps mbr_save_logic_cb (front @ a # post) p (set_position d q s) = Oob"
      | p' where "room_ok p'" "logic_counts p < logic_counts p'"
        "mbr_foreach_parts fuel fd es ps mbr_save_logic_cb (front @ a # post) p (set_position d q s) =
          mbr_foreach_extended fuel fd es (start a) mbr_save_logic_cb p' (set_position d q s)"
      by blast
    then show ?case
    proof cases
      case 1
      then show ?thesis using q by simp
    next
      case (2 p')
      have "MAX_EXT_PARTS - logic_counts p' < fuel" using 2(2) Suc.prems(7) conjunct2 [OF 2(1) [unfolded room_ok_def]] by arith
      then show ?thesis
        unfolding q 2(3) using Suc.IH [of "set_position d q s" "start a" p'] Suc.prems(1) f(3) 2(1) set_position_keeps [OF Suc.prems(3-5), of q]
        by simp
    qed
  qed simp
qed

section \<open>Sectors to try the theorems on\<close>

definition entry_bytes :: "u8 \<Rightarrow> nat \<Rightarrow> nat \<Rightarrow> bytes" where
  "entry_bytes t st n = [0, 0, 0, 0, t, 0, 0, 0] @ le_encode 4 st @ le_encode 4 n"

definition table_sector :: "bytes list \<Rightarrow> bytes" where
  "table_sector es = replicate 0x1be 0 @ concat es @ [0x55, 0xaa]"

lemma decode_table_sector:
  assumes "length a = 16" "length b = 16" "length c = 16" "length d = 16"
  shows "decode_table (table_sector [a, b, c, d]) = map decode_partition [a, b, c, d]"
    "length (table_sector [a, b, c, d]) = 512" "\<not> bad_magic (table_sector [a, b, c, d])"
  using assms
  by (simp_all add: decode_table_def table_sector_def DOS_PRIMARY_PARTITIONS_def DOS_PART_TBL_OFFSET_def
      upt_conv_Cons bad_magic_def DOS_PART_MAGIC_OFFSET_def nth_append)

lemma length_entry_bytes [simp]: "length (entry_bytes t st n) = 16"
  by (simp add: entry_bytes_def)

lemma decode_entry:
  "st < 2 ^ 32 \<Longrightarrow> sys_ind (decode_partition (entry_bytes t st n)) = t \<and>
     start (decode_partition (entry_bytes t st n)) = word_of_nat st"
  by (simp add: decode_partition_def entry_bytes_def le_decode_encode)

definition demo_table :: "u8 \<Rightarrow> nat \<Rightarrow> bytes" where
  "demo_table t st = table_sector [entry_bytes t st 5, entry_bytes 0 0 0, entry_bytes 0 0 0, entry_bytes 0 0 0]"

lemma demo_table:
  assumes "st < 2 ^ 32"
  shows "decode_table (demo_table t st) = decode_partition (entry_bytes t st 5) # replicate 3 (decode_partition (entry_bytes 0 0 0))"
    "length (demo_table t st) = 512" "\<not> bad_magic (demo_table t st)"
  by (simp_all add: demo_table_def decode_table_sector numeral_3_eq_3)

definition demo_editor :: mbr_editor_private_data where
  "demo_editor = \<lparr>mbr_fd = 0, disksig = 0, primary = [], logic_counts = 0,
     logic = replicate MAX_EXT_PARTS (decode_partition (replicate 16 0))\<rparr>"

lemma ebr_demo:
  "st < 2 ^ 32 \<Longrightarrow> ebr (content (demo_sys (demo_table t st)) 0) 0 0
     (decode_partition (entry_bytes t st 5) # replicate 3 (decode_partition (entry_bytes 0 0 0)))"
  using demo_table [of st t]
  by (simp add: ebr_def ebr_offset_def sector_at_def demo_sys_ok SECTOR_SIZE_def)

definition demo_loop :: bytes where
  "demo_loop = table_sector [entry_bytes 0x83 7 5, entry_bytes 5 0 5, entry_bytes 0 0 0, entry_bytes 0 0 0]"

lemma demo_loop_leads:
  "\<exists>front. leads_into {0} demo_loop 0 0 front \<and> (\<exists>l\<in>set front. sys_ind l \<noteq> 0)"
proof -
  let ?l = "decode_partition (entry_bytes 0x83 7 5)" and ?a = "decode_partition (entry_bytes 5 0 5)"
  have a: "is_extended (sys_ind ?a)" "start ?a = 0" "sys_ind ?l = 0x83"
    using decode_entry [of 0 5 5] decode_entry [of 7 "0x83" 5] by (simp_all add: is_extended_def DOS_PART_TYPE_EXTENDED_def)
  then have l: "\<not> is_extended (sys_ind ?l)" "sys_ind ?l \<noteq> 0"
    by (simp_all add: is_extended_def DOS_PART_TYPE_EXTENDED_def DOS_PART_TYPE_EXTENDED_LBA_def DOS_PART_TYPE_EXTENDED_LINUX_def)
  have "ebr demo_loop 0 0 ([?l] @ ?a # [decode_partition (entry_bytes 0 0 0), decode_partition (entry_bytes 0 0 0)])"
    using decode_table_sector [of "entry_bytes 0x83 7 5" "entry_bytes 5 0 5" "entry_bytes 0 0 0" "entry_bytes 0 0 0"]
    by (simp add: ebr_def ebr_offset_def sector_at_def SECTOR_SIZE_def demo_loop_def)
  then have "leads_into {0} demo_loop 0 0 [?l]" using a(1,2) l(1) by (auto simp: leads_into_def)
  then show ?thesis using l(2) by (intro exI [of _ "[?l]"]) simp
qed

theorem mbr_chain_loops_witness:
  "mbr_foreach_extended 1000 0 0 0 mbr_save_logic_cb demo_editor (demo_sys (demo_table 5 0)) = NoFuel \<and>
   mbr_foreach_extended 257 0 0 0 mbr_save_logic_cb demo_editor (demo_sys demo_loop) = Oob"
proof -
  let ?a = "decode_partition (entry_bytes 5 0 5)"
  have a: "is_extended (sys_ind ?a)" "start ?a = 0"
    using decode_entry [of 0 5 5] by (simp_all add: is_extended_def DOS_PART_TYPE_EXTENDED_def)
  have "leads_into {0} (content (demo_sys (demo_table 5 0)) 0) 0 0 []"
    using ebr_demo [of 0 5] a by (auto simp: leads_into_def)
  then have 1: "\<forall>ps\<in>{0}. \<exists>front. leads_into {0} (content (demo_sys (demo_table 5 0)) 0) 0 ps front \<and> (\<forall>l\<in>set front. sys_ind l = 0)"
    by (intro ballI exI [of _ "[]"]) simp
  have 2: "\<forall>ps\<in>{0}. \<exists>front. leads_into {0} (content (demo_sys demo_loop) 0) 0 ps front \<and> (\<exists>l\<in>set front. sys_ind l \<noteq> 0)"
    using demo_loop_leads by (simp add: demo_sys_ok)
  have room: "length (logic demo_editor) = MAX_EXT_PARTS" "logic_counts demo_editor \<le> MAX_EXT_PARTS" "MAX_EXT_PARTS - logic_counts demo_editor < 257"
    by (simp_all add: demo_editor_def MAX_EXT_PARTS_def)
  note r = mbr_chain_loops [OF singletonI demo_sys_ok(1,2,6) room(1,2)]
  show ?thesis
    using mp [OF conjunct1 [OF r] 1] mp [OF mp [OF conjunct2 [OF r] 2] room(3)] by (rule conjI)
qed

theorem mbr_logical_partitions_witness:
  "\<exists>p' s'. mbr_foreach_extended 1 0 0 0 mbr_save_logic_cb demo_editor (demo_sys (demo_table 0x83 7)) = Ok (0, p', s') \<and>
    map start (take (logic_counts p') (logic p')) = [7]"
proof -
  define l where "l = decode_partition (entry_bytes 0x83 7 5)"
  have l: "logical l" "start l = 7"
    using decode_entry [of 7 "0x83" 5]
    by (simp_all add: logical_def l_def is_extended_def DOS_PART_TYPE_EXTENDED_def DOS_PART_TYPE_EXTENDED_LBA_def
        DOS_PART_TYPE_EXTENDED_LINUX_def)
  have "ebr_chain (content (demo_sys (demo_table 0x83 7)) 0) 0 [(0, l)]"
    using ebr_demo [of 7 "0x83"] l decode_entry [of 0 0 0] by (auto simp: l_def numeral_3_eq_3)
  from mbr_logical_partitions [OF this, of 0 demo_editor 1]
  obtain p' s' where p': "mbr_foreach_extended 1 0 0 0 mbr_save_logic_cb demo_editor (demo_sys (demo_table 0x83 7)) = Ok (0, p', s')"
    "take (logic_counts p') (logic p') = [absolute 0 (0, l)]"
    by (auto simp: demo_sys_ok demo_editor_def MAX_EXT_PARTS_def simp del: mbr_foreach_extended.simps)
  then have "map start (take (logic_counts p') (logic p')) = [7]" using l by (simp add: absolute_def)
  with p'(1) show ?thesis by (intro exI conjI) assumption
qed


end
