(* ===== verification/XoptLaws.thy ===== *)
theory XoptLaws
  imports Xopt
begin

text \<open>
  A command line written from options and other arguments in any order is read back: the fields hold the values,
  the other arguments come behind the options in their order.
\<close>

section \<open>The tables that \<open>libxopt_new\<close> builds\<close>

definition long_entry :: "nat \<Rightarrow> xopt_option \<Rightarrow> getopt_option option" where
  "long_entry i opt =
     map_option (\<lambda>l. \<lparr>go_name = l, go_has_arg = (type opt \<noteq> XOPT_TYPE_BOOL), go_val = XOPT_GETOPT_STARTVAL + int i\<rparr>) (long_name opt)"

lemma libxopt_push_table:
  "libxopt_push i ret opts x = Some x' \<Longrightarrow>
     flags x' = flags x \<and> options x' = options x \<and>
     longops x' = longops x @ List.map_filter (\<lambda>(i, opt). long_entry i opt) (enumerate i opts)"
proof (induction opts arbitrary: i ret x)
  case Nil
  then show ?case by (simp add: List.map_filter_simps)
next
  case (Cons opt opts)
  obtain r y where first: "(r, y) = (if xo_name opt \<noteq> CHR 0x00
      then xopt_push_optstring x (xo_name opt) (type opt \<noteq> XOPT_TYPE_BOOL) else (ret, x))"
    by (metis surj_pair)
  have y: "flags y = flags x" "options y = options x" "longops y = longops x"
    using first by (auto simp: xopt_push_optstring_def Let_def split: if_splits)
  show ?case
  proof (cases "long_name opt")
    case None
    then have "libxopt_push (i + 1) r opts y = Some x'"
      using Cons.prems first [symmetric] by (simp add: Let_def split: if_splits)
    from Cons.IH [OF this] y None show ?thesis by (simp add: List.map_filter_simps long_entry_def)
  next
    case (Some l)
    then have "libxopt_push (i + 1) 0 opts (snd (xopt_push_long_option y l (type opt \<noteq> XOPT_TYPE_BOOL) (XOPT_GETOPT_STARTVAL + int i))) = Some x'"
      using Cons.prems first [symmetric] by (simp add: Let_def xopt_push_long_option_def split: if_splits)
    from Cons.IH [OF this] y Some show ?thesis
      by (simp add: List.map_filter_simps long_entry_def xopt_push_long_option_def)
  qed
qed

lemma libxopt_new_table:
  assumes "libxopt_new mem opts fl = Some x" "xopt_option_counts opts = length opts"
  shows "flags x = fl" "options x = opts"
    "longops x = List.map_filter (\<lambda>(i, opt). long_entry i opt) (enumerate 0 opts)"
proof -
  obtain x' where "libxopt_push 0 0 opts \<lparr>flags = fl, options = opts, optstring = [], longops = [], errbuf = []\<rparr> = Some x'"
    "x = libxopt_reinit x'"
    using assms by (auto simp: libxopt_new_def Let_def split: if_splits)
  with libxopt_push_table [OF this(1)]
  show "flags x = fl" "options x = opts" "longops x = List.map_filter (\<lambda>(i, opt). long_entry i opt) (enumerate 0 opts)"
    by (simp_all add: libxopt_reinit_def)
qed

text \<open>Looking up a full long name finds its entry, when the long names differ.\<close>

definition long_names_distinct :: "xopt_option list \<Rightarrow> bool" where
  "long_names_distinct opts \<longleftrightarrow>
     (\<forall>i < length opts. \<forall>j < length opts. long_name (opts ! i) \<noteq> None \<and> long_name (opts ! i) = long_name (opts ! j) \<longrightarrow> i = j)"

lemma find_Some_unique:
  "\<lbrakk>x \<in> set xs; P x; \<And>y. y \<in> set xs \<Longrightarrow> P y \<Longrightarrow> y = x\<rbrakk> \<Longrightarrow> find P xs = Some x"
proof (induction xs)
  case (Cons a xs)
  have "a = x" if "P a" using Cons.prems(3) [OF _ that] by simp
  moreover have "find P xs = Some x" if "\<not> P a"
    using that Cons.prems(1,2) by (intro Cons.IH Cons.prems(3)) auto
  ultimately show ?case by (cases "P a") simp_all
qed simp

lemma in_map_filter: "y \<in> set (List.map_filter f xs) \<longleftrightarrow> (\<exists>x \<in> set xs. f x = Some y)"
  by (induction xs) (auto simp: List.map_filter_simps split: option.splits)

lemma find_long_table:
  assumes "long_names_distinct opts" "i < length opts" "long_name (opts ! i) = Some l"
  shows "find_long (List.map_filter (\<lambda>(i, opt). long_entry i opt) (enumerate 0 opts)) l = long_entry i (opts ! i)"
proof -
  let ?es = "List.map_filter (\<lambda>(i, opt). long_entry i opt) (enumerate 0 opts)"
  obtain e where e: "long_entry i (opts ! i) = Some e" "go_name e = l" using assms(3) by (auto simp: long_entry_def)
  have "find (\<lambda>o'. go_name o' = l) ?es = Some e"
  proof (rule find_Some_unique)
    show "e \<in> set ?es"
    proof -
      have "(i, opts ! i) \<in> set (enumerate 0 opts)" using assms(2) by (simp add: in_set_enumerate_eq)
      with e(1) show ?thesis unfolding in_map_filter by (intro bexI [of _ "(i, opts ! i)"]) simp_all
    qed
    fix y assume "y \<in> set ?es" "go_name y = l"
    then obtain j where j: "j < length opts" "long_entry j (opts ! j) = Some y" "long_name (opts ! j) = Some l"
      by (auto simp: in_map_filter in_set_enumerate_eq long_entry_def)
    then have "j = i" using assms unfolding long_names_distinct_def by (metis option.distinct(1))
    with j e show "y = e" by simp
  qed (rule e(2))
  then show ?thesis by (simp add: find_long_def e)
qed

section \<open>Command lines\<close>

text \<open>An argument that is no option, an option without value, one with its value behind it, or joined by \<open>=\<close>.\<close>

datatype xopt_item = Positional string | Switch nat | Valued nat string | Joined nat string

definition long_of :: "xopt_option list \<Rightarrow> nat \<Rightarrow> string" where
  "long_of opts i = ''--'' @ the (long_name (opts ! i))"

fun item_words :: "xopt_option list \<Rightarrow> xopt_item \<Rightarrow> string list" where
  "item_words opts (Positional a) = [a]"
| "item_words opts (Switch i) = [long_of opts i]"
| "item_words opts (Valued i v) = [long_of opts i, v]"
| "item_words opts (Joined i v) = [long_of opts i @ ''='' @ v]"

definition has_long :: "xopt_option list \<Rightarrow> nat \<Rightarrow> bool" where
  "has_long opts i \<longleftrightarrow> i < length opts \<and> (\<exists>l. long_name (opts ! i) = Some l \<and> l \<noteq> [] \<and> CHR ''='' \<notin> set l)"

definition converts :: "xopt_type \<Rightarrow> string \<Rightarrow> bool" where
  "converts ty s \<longleftrightarrow> ty \<noteq> XOPT_TYPE_BOOL \<and> (case snd (xopt_convert ty s) of Some (_ # _) \<Rightarrow> False | _ \<Rightarrow> True)"

fun item_ok :: "xopt_option list \<Rightarrow> xopt_item \<Rightarrow> bool" where
  "item_ok opts (Positional a) = (take 1 a \<noteq> ''-'' \<or> a = ''-'')"
| "item_ok opts (Switch i) = (has_long opts i \<and> type (opts ! i) = XOPT_TYPE_BOOL)"
| "item_ok opts (Valued i v) = (has_long opts i \<and> converts (type (opts ! i)) v \<and> v \<noteq> ''--'')"
| "item_ok opts (Joined i v) = (has_long opts i \<and> converts (type (opts ! i)) v)"

fun item_store :: "xopt_option list \<Rightarrow> xopt_item \<Rightarrow> xopt_data \<Rightarrow> xopt_data" where
  "item_store opts (Positional a) data = data"
| "item_store opts (Switch i) data = data(offset (opts ! i) \<mapsto> XBool True)"
| "item_store opts (Valued i v) data = data(offset (opts ! i) \<mapsto> fst (xopt_convert (type (opts ! i)) v))"
| "item_store opts (Joined i v) data = data(offset (opts ! i) \<mapsto> fst (xopt_convert (type (opts ! i)) v))"

fun is_positional :: "xopt_item \<Rightarrow> bool" where
  "is_positional (Positional a) = True"
| "is_positional it = False"

fun item_events :: "xopt_item \<Rightarrow> opt_event list" where
  "item_events (Positional a) = []"
| "item_events (Switch i) = [(XOPT_GETOPT_STARTVAL + int i, None)]"
| "item_events (Valued i v) = [(XOPT_GETOPT_STARTVAL + int i, Some v)]"
| "item_events (Joined i v) = [(XOPT_GETOPT_STARTVAL + int i, Some v)]"

lemma takeWhile_neq_append: "c \<notin> set l \<Longrightarrow> takeWhile (\<lambda>x. x \<noteq> c) (l @ c # v) = l \<and> dropWhile (\<lambda>x. x \<noteq> c) (l @ c # v) = c # v"
  by (induction l) auto

lemma takeWhile_neq_all: "c \<notin> set l \<Longrightarrow> takeWhile (\<lambda>x. x \<noteq> c) l = l \<and> dropWhile (\<lambda>x. x \<noteq> c) l = []"
  by (induction l) auto

lemma getopt_long1_found:
  assumes "CHR ''='' \<notin> set l" "find_long os l = Some e"
  shows "\<not> go_has_arg e \<Longrightarrow> getopt_long1 os l rest = ((go_val e, None), [], rest)"
    "go_has_arg e \<Longrightarrow> getopt_long1 os l (v # rest) = ((go_val e, Some v), [v], rest)"
    "go_has_arg e \<Longrightarrow> getopt_long1 os (l @ CHR ''='' # v) rest = ((go_val e, Some v), [], rest)"
  by (simp_all add: getopt_long1_def takeWhile_neq_all [OF assms(1)] takeWhile_neq_append [OF assms(1)] assms(2))

lemma getopt_args_items:
  assumes "long_names_distinct opts"
    and table: "longops x = List.map_filter (\<lambda>(i, opt). long_entry i opt) (enumerate 0 opts)"
    and "list_all (item_ok opts) items"
  shows "getopt_args os (longops x) (concat (map (item_words opts) items)) =
     (concat (map item_events items),
      concat (map (item_words opts) (filter (\<lambda>it. \<not> is_positional it) items)),
      concat (map (item_words opts) (filter is_positional items)))"
  using assms(3)
proof (induction items)
  case Nil
  then show ?case by simp
next
  case (Cons it items)
  have found: "find_long (longops x) l = long_entry i (opts ! i)" if "i < length opts" "long_name (opts ! i) = Some l" for i l
    unfolding table by (rule find_long_table [OF assms(1) that])
  show ?case
  proof (cases it)
    case (Positional a)
    then show ?thesis using Cons by (cases a) (auto simp: take_Suc split: if_splits)
  next
    case (Switch i)
    then obtain l where l: "i < length opts" "long_name (opts ! i) = Some l" "CHR ''='' \<notin> set l" "type (opts ! i) = XOPT_TYPE_BOOL"
      using Cons.prems by (auto simp: has_long_def)
    show ?thesis using Switch Cons l found [OF l(1,2)]
      by (simp add: long_of_def getopt_long1_found [OF l(3)] long_entry_def)
  next
    case (Valued i v)
    then obtain l where l: "i < length opts" "long_name (opts ! i) = Some l" "CHR ''='' \<notin> set l" "type (opts ! i) \<noteq> XOPT_TYPE_BOOL"
      using Cons.prems by (auto simp: has_long_def converts_def)
    show ?thesis using Valued Cons l found [OF l(1,2)]
      by (simp add: long_of_def getopt_long1_found [OF l(3)] long_entry_def)
  next
    case (Joined i v)
    then obtain l where l: "i < length opts" "long_name (opts ! i) = Some l" "CHR ''='' \<notin> set l" "type (opts ! i) \<noteq> XOPT_TYPE_BOOL"
      using Cons.prems by (auto simp: has_long_def converts_def)
    show ?thesis using Joined Cons l found [OF l(1,2)]
      by (simp add: long_of_def getopt_long1_found [OF l(3)] long_entry_def)
  qed
qed

lemma dispatch_items:
  assumes "options x = opts" "list_all (item_ok opts) items"
  shows "libxopt_dispatch (\<lambda>_. None) x (concat (map item_events items)) data =
     (0, x, foldl (\<lambda>d it. item_store opts it d) data items)"
  using assms(2)
proof (induction items arbitrary: data)
  case Nil
  then show ?case by simp
next
  case (Cons it items)
  have by_val: "xopt_option_get_byval x (XOPT_GETOPT_STARTVAL + int i) = Some (opts ! i)" if "i < length opts" for i
    using that assms(1) by (simp add: xopt_option_get_byval_def)
  have bool: "xopt_convert XOPT_TYPE_BOOL s = (XBool True, None)" for s by (simp add: xopt_convert_def Let_def)
  have stored: "xopt_default_callback x opt b (Some v) d = (0, x, d(offset opt \<mapsto> fst (xopt_convert (type opt) v)))"
    if "converts (type opt) v" for opt b v d
    using that by (cases "xopt_convert (type opt) v")
      (auto simp: xopt_default_callback_def Let_def converts_def split: option.splits list.splits)
  have switch: "xopt_default_callback x opt b None d = (0, x, d(offset opt \<mapsto> XBool True))" if "type opt = XOPT_TYPE_BOOL" for opt b d
    using that by (simp add: xopt_default_callback_def bool)
  show ?case
    using Cons by_val
    by (cases it) (auto simp: has_long_def switch stored)
qed

lemma count_argc_items:
  assumes "list_all (item_ok opts) items" "tail = [] \<or> hd tail = ''--''"
  shows "count_argc (concat (map (item_words opts) items) @ tail) = length (concat (map (item_words opts) items))"
proof -
  have "a \<noteq> ''--''" if "it \<in> set items" "a \<in> set (item_words opts it)" for it a
  proof -
    have "item_ok opts it" using that(1) assms(1) by (simp add: list_all_iff)
    with that(2) show ?thesis by (cases it) (auto simp: has_long_def long_of_def)
  qed
  then have "\<forall>a \<in> set (concat (map (item_words opts) items)). a \<noteq> ''--''" by auto
  moreover have "length (takeWhile (\<lambda>a. a \<noteq> ''--'') (ws @ tail)) = length ws" if "\<forall>a \<in> set ws. a \<noteq> ''--''" for ws
    using that assms(2) by (induction ws) (cases tail, auto)
  ultimately show ?thesis unfolding count_argc_def by blast
qed

text \<open>C18: the arguments written from a list of items, in any mixture of options and others, are read back: the fields hold
  the values of the options, and the arguments come back with the options first, \<open>optind\<close> behind them, then the
  others in their order and everything from \<open>--\<close> on. The first argument is left alone, or there is none with
  \<open>LIBXOPT_FLAG_KEEPFIRST\<close>.\<close>

theorem libxopt_parse_items:
  assumes "libxopt_new mem opts fl = Some x" "xopt_option_counts opts = length opts" "long_names_distinct opts"
    and "\<forall>it \<in> set items. item_ok opts it" "tail = [] \<or> hd tail = ''--''"
    and "cmd = (if fl AND LIBXOPT_FLAG_KEEPFIRST \<noteq> 0 then [] else [prog])" "prog \<noteq> ''--''"
  shows "libxopt_parse (\<lambda>_. None) x (cmd @ concat (map (item_words opts) items) @ tail) data =
     (0, x, foldl (\<lambda>d it. item_store opts it d) data items,
      cmd @ concat (map (item_words opts) (filter (\<lambda>it. \<not> is_positional it) items))
          @ concat (map (item_words opts) (filter is_positional items)) @ tail,
      int (length (cmd @ concat (map (item_words opts) (filter (\<lambda>it. \<not> is_positional it) items)))))"
proof -
  note new = libxopt_new_table [OF assms(1,2)]
  have ok: "list_all (item_ok opts) items" using assms(4) by (simp add: list_all_iff)
  note args = getopt_args_items [OF assms(3) new(3) ok]
  note disp = dispatch_items [OF new(2) ok]
  note count = count_argc_items [OF ok assms(5)]
  have count1: "count_argc (p # ws) = Suc (count_argc ws)" if "p \<noteq> ''--''" for p ws
    using that by (simp add: count_argc_def)
  define ws where "ws = concat (map (item_words opts) items)"
  define os where "os = concat (map (item_words opts) (filter (\<lambda>it. \<not> is_positional it) items))"
  define ns where "ns = concat (map (item_words opts) (filter is_positional items))"
  define evs where "evs = concat (map item_events items)"
  define d where "d = foldl (\<lambda>d it. item_store opts it d) data items"
  have run: "drop 1 (take n (p # ws @ tail)) = ws" "take 1 (take n (p # ws @ tail)) = [p]" "drop n (p # ws @ tail) = tail"
    if "n = Suc (length ws)" for p n
    using that by simp_all
  have whole: "count_argc (p # ws @ tail) = Suc (length ws)" if "p \<noteq> ''--''" for p
    using count1 [OF that] count by (simp add: ws_def)
  show ?thesis
    unfolding ws_def [symmetric] os_def [symmetric] ns_def [symmetric] d_def [symmetric]
    using assms(6) new(1) args [of "optstring x"] disp [of data] whole [of "''dummy''"] whole [OF assms(7)]
    unfolding ws_def [symmetric] os_def [symmetric] ns_def [symmetric] evs_def [symmetric] d_def [symmetric]
    by (cases "fl AND LIBXOPT_FLAG_KEEPFIRST = 0") (simp_all add: libxopt_parse_def Let_def run)
qed

definition demo_options :: "xopt_option list" where
  "demo_options =
     [\<lparr>xo_name = CHR ''x'', long_name = Some ''all'', type = XOPT_TYPE_BOOL, offset = 0\<rparr>,
      \<lparr>xo_name = CHR 0x00, long_name = Some ''num-parts'', type = XOPT_TYPE_INT_DEC, offset = 8\<rparr>]"

lemma demo_options_simps:
  "length demo_options = 2" "long_name (demo_options ! 0) = Some ''all''" "long_name (demo_options ! 1) = Some ''num-parts''"
  "type (demo_options ! 0) = XOPT_TYPE_BOOL" "type (demo_options ! 1) = XOPT_TYPE_INT_DEC"
  "offset (demo_options ! 0) = 0" "offset (demo_options ! 1) = 8"
  by (simp_all add: demo_options_def)

lemma demo_new: "\<exists>x. libxopt_new True demo_options 0 = Some x"
  by (simp add: libxopt_new_def demo_options_def xopt_option_counts_def xopt_push_optstring_def xopt_push_long_option_def)

theorem libxopt_parse_items_witness:
  "\<exists>x. libxopt_new True demo_options 0 = Some x \<and>
     libxopt_parse (\<lambda>_. None) x [''partitions'', ''out.bin'', ''--num-parts'', ''56'', ''table'', ''--all''] Map.empty =
       (0, x, [8 \<mapsto> XInt 56, 0 \<mapsto> XBool True],
        [''partitions'', ''--num-parts'', ''56'', ''--all'', ''out.bin'', ''table''], 4)"
proof -
  obtain x where x: "libxopt_new True demo_options 0 = Some x"
    using demo_new by blast
  let ?items = "[Positional ''out.bin'', Valued 1 ''56'', Positional ''table'', Switch 0]"
  have conv: "xopt_convert XOPT_TYPE_INT_DEC ''56'' = (XInt 56, Some [])"
    by (simp add: xopt_convert_def xopt_base_def strtol_def strtonum_def strip_sign_def strip_base_def isspace_def
        is_digit_in_def digit_value_def)
  have "libxopt_parse (\<lambda>_. None) x ([''partitions''] @ concat (map (item_words demo_options) ?items) @ []) Map.empty =
     (0, x, foldl (\<lambda>d it. item_store demo_options it d) Map.empty ?items,
      [''partitions''] @ concat (map (item_words demo_options) (filter (\<lambda>it. \<not> is_positional it) ?items))
          @ concat (map (item_words demo_options) (filter is_positional ?items)) @ [],
      int (length ([''partitions''] @ concat (map (item_words demo_options) (filter (\<lambda>it. \<not> is_positional it) ?items)))))"
  proof (rule libxopt_parse_items [OF x, where prog = "''partitions''"])
    show "xopt_option_counts demo_options = length demo_options"
      by (simp add: demo_options_def xopt_option_counts_def)
    show "long_names_distinct demo_options"
      by (auto simp: long_names_distinct_def demo_options_def less_Suc_eq numeral_2_eq_2)
    show "\<forall>it \<in> set ?items. item_ok demo_options it"
      by (simp add: demo_options_simps has_long_def converts_def conv take_Cons' del: One_nat_def)
  qed simp_all
  moreover have "concat (map (item_words demo_options) ?items) = [''out.bin'', ''--num-parts'', ''56'', ''table'', ''--all'']"
    "filter is_positional ?items = [Positional ''out.bin'', Positional ''table'']"
    "filter (\<lambda>it. \<not> is_positional it) ?items = [Valued 1 ''56'', Switch 0]"
    by (simp_all add: long_of_def demo_options_simps del: One_nat_def)
  moreover have "foldl (\<lambda>d it. item_store demo_options it d) Map.empty ?items = [8 \<mapsto> XInt 56, 0 \<mapsto> XBool True]"
    by (simp add: demo_options_simps conv del: One_nat_def)
  moreover have "concat (map (item_words demo_options) [Valued 1 ''56'', Switch 0]) = [''--num-parts'', ''56'', ''--all'']"
    "concat (map (item_words demo_options) [Positional ''out.bin'', Positional ''table'']) = [''out.bin'', ''table'']"
    by (simp_all add: long_of_def demo_options_simps del: One_nat_def)
  ultimately have "libxopt_parse (\<lambda>_. None) x [''partitions'', ''out.bin'', ''--num-parts'', ''56'', ''table'', ''--all''] Map.empty =
       (0, x, [8 \<mapsto> XInt 56, 0 \<mapsto> XBool True],
        [''partitions'', ''--num-parts'', ''56'', ''--all'', ''out.bin'', ''table''], 4)"
    by (simp only: append.simps) simp
  with x show ?thesis by blast
qed

end
