(* ===== verification/Sparse.thy ===== *)
theory Sparse
  imports Bitmask FileLaws
begin

text \<open>
  Android sparse images (android/android\_sparse.c and android\_sparse.h): the writer, which turns the set of
  blocks of a filesystem into chunks, the detector, the walk over the chunks for listing and hashing, and
  the expansion to a raw image. The headers are records in host order with their on-disk encoding; the host is
  little endian, as the code assumes where it does not convert.
\<close>

section \<open>Headers\<close>

definition SPARSE_HEADER_MAGIC :: u32 where "SPARSE_HEADER_MAGIC = 0xed26ff3a"
definition CHUNK_TYPE_RAW :: u16 where "CHUNK_TYPE_RAW = 0xCAC1"
definition CHUNK_TYPE_FILL :: u16 where "CHUNK_TYPE_FILL = 0xCAC2"
definition CHUNK_TYPE_DONT_CARE :: u16 where "CHUNK_TYPE_DONT_CARE = 0xCAC3"
definition CHUNK_TYPE_CRC32 :: u16 where "CHUNK_TYPE_CRC32 = 0xCAC4"

record sparse_header =
  magic :: u32
  major_version :: u16
  minor_version :: u16
  file_hdr_sz :: u16
  chunk_hdr_sz :: u16
  blk_sz :: u32
  hdr_total_blks :: u32
  total_chunks :: u32
  image_checksum :: u32

record chunk_header =
  chunk_type :: u16
  reserved1 :: u16
  chunk_sz :: u32
  total_sz :: u32

definition w16 :: "u16 \<Rightarrow> bytes" where "w16 w = le_encode 2 (unat w)"
definition w32 :: "u32 \<Rightarrow> bytes" where "w32 w = le_encode 4 (unat w)"
definition r16 :: "nat \<Rightarrow> bytes \<Rightarrow> u16" where "r16 off b = word_of_nat (le_decode (take 2 (drop off b)))"
definition r32 :: "nat \<Rightarrow> bytes \<Rightarrow> u32" where "r32 off b = word_of_nat (le_decode (take 4 (drop off b)))"

definition sparse_header_size :: nat where "sparse_header_size = 28"
definition chunk_header_size :: nat where "chunk_header_size = 12"

definition encode_sparse_header :: "sparse_header \<Rightarrow> bytes" where
  "encode_sparse_header h = w32 (magic h) @ w16 (major_version h) @ w16 (minor_version h) @ w16 (file_hdr_sz h)
     @ w16 (chunk_hdr_sz h) @ w32 (blk_sz h) @ w32 (hdr_total_blks h) @ w32 (total_chunks h) @ w32 (image_checksum h)"

definition decode_sparse_header :: "bytes \<Rightarrow> sparse_header" where
  "decode_sparse_header b = \<lparr>magic = r32 0 b, major_version = r16 4 b, minor_version = r16 6 b, file_hdr_sz = r16 8 b,
     chunk_hdr_sz = r16 10 b, blk_sz = r32 12 b, hdr_total_blks = r32 16 b, total_chunks = r32 20 b, image_checksum = r32 24 b\<rparr>"

definition encode_chunk_header :: "chunk_header \<Rightarrow> bytes" where
  "encode_chunk_header c = w16 (chunk_type c) @ w16 (reserved1 c) @ w32 (chunk_sz c) @ w32 (total_sz c)"

definition decode_chunk_header :: "bytes \<Rightarrow> chunk_header" where
  "decode_chunk_header b = \<lparr>chunk_type = r16 0 b, reserved1 = r16 2 b, chunk_sz = r32 4 b, total_sz = r32 8 b\<rparr>"

section \<open>Writing\<close>

record android_sparse_chunk =
  fs_blocknr :: u32
  chunk_count :: u32

record android_sparse_input =
  blksz :: nat
  total_blks :: nat
  input_error :: nat
  chunk_bitmasks :: "bitmask option"

definition android_sparse_init ::
    "bool \<Rightarrow> nat \<Rightarrow> nat \<Rightarrow> int \<times> android_sparse_input" where
  "android_sparse_init mem bsz nblks =
     (let input = \<lparr>blksz = bsz, total_blks = nblks, input_error = 0, chunk_bitmasks = alloc_bitmask mem nblks\<rparr>
      in (if chunk_bitmasks input = None then -1 else 0, input))"

definition android_sparse_free :: "android_sparse_input \<Rightarrow> android_sparse_input" where
  "android_sparse_free input = input\<lparr>chunk_bitmasks := None, input_error := 0\<rparr>"

definition android_sparse_add_chunk ::
    "android_sparse_input \<Rightarrow> u32 \<Rightarrow> u32 \<Rightarrow> int \<times> android_sparse_input" where
  "android_sparse_add_chunk input blocknr count =
     (case chunk_bitmasks input of
        None \<Rightarrow> (-1, input)
      | Some b \<Rightarrow>
          let (ret, b') = bitmask_set_bits b (unat blocknr) (unat count);
              input' = input\<lparr>chunk_bitmasks := Some b'\<rparr>
          in (ret, if ret < 0 then input'\<lparr>input_error := input_error input' + 1\<rparr> else input'))"

text \<open>\<open>cpu_to_le32\<close> of the type is stored in a 16 bit field; the sizes keep their low 32 bits.\<close>

definition android_sparse_append_dontcare :: "int \<Rightarrow> nat \<Rightarrow> sys \<Rightarrow> sys" where
  "android_sparse_append_dontcare fd blks s =
     (let ch = \<lparr>chunk_type = CHUNK_TYPE_DONT_CARE, reserved1 = 0, chunk_sz = word_of_nat blks, total_sz = 12\<rparr>
      in snd (sys_write fd (encode_chunk_header ch) s))"

text \<open>The callback of the filesystem writes the blocks of a chunk at the current position.\<close>

type_synonym 'p android_sparse_write_t = "int \<Rightarrow> android_sparse_chunk \<Rightarrow> 'p \<Rightarrow> sys \<Rightarrow> int \<times> 'p \<times> sys"

text \<open>
  The loop over the runs of one bits; the state is the block reached, the number of chunks and the offset in
  the target. It stops with the callback's status when that is negative.
\<close>

fun android_sparse_chunks ::
    "nat \<Rightarrow> int \<Rightarrow> 'p android_sparse_write_t \<Rightarrow> (int \<times> int) list \<Rightarrow> nat \<Rightarrow> nat \<Rightarrow> nat \<Rightarrow> int \<Rightarrow> 'p \<Rightarrow> sys
      \<Rightarrow> int \<times> nat \<times> nat \<times> nat \<times> 'p \<times> sys" where
  "android_sparse_chunks bsz fd cb [] blk chunks offset ret p s = (ret, blk, chunks, offset, p, s)"
| "android_sparse_chunks bsz fd cb (run # runs) blk chunks offset ret p s =
     (let blocknr = size_of_int (fst run); fs_count = size_of_int (snd run);
          s1 = snd (fileseek fd (int offset) s);
          gap = blk \<noteq> blocknr;
          s2 = (if gap then android_sparse_append_dontcare fd (blocknr - blk) s1 else s1);
          offset2 = (if gap then offset + chunk_header_size else offset);
          chunks2 = (if gap then chunks + 1 else chunks);
          ch = \<lparr>chunk_type = CHUNK_TYPE_RAW, reserved1 = 0, chunk_sz = word_of_nat fs_count,
                total_sz = word_of_nat (fs_count * bsz + chunk_header_size)\<rparr>;
          s3 = snd (sys_write fd (encode_chunk_header ch) s2);
          chunk = \<lparr>fs_blocknr = word_of_nat blocknr, chunk_count = word_of_nat fs_count\<rparr>;
          (ret', p', s4) = cb fd chunk p s3
      in if ret' < 0 then (ret', blocknr, chunks2 + 1, offset2 + chunk_header_size, p', s4)
         else android_sparse_chunks bsz fd cb runs (blocknr + fs_count) (chunks2 + 1)
                (offset2 + chunk_header_size + fs_count * bsz) ret' p' s4)"

definition android_sparse_finish ::
    "android_sparse_input \<Rightarrow> int \<Rightarrow> 'p android_sparse_write_t \<Rightarrow> 'p \<Rightarrow> sys
      \<Rightarrow> (int \<times> android_sparse_input \<times> 'p \<times> sys) cres" where
  "android_sparse_finish input fd cb p s =
     (case chunk_bitmasks input of
        None \<Rightarrow> Ok (-1, android_sparse_free input, p, s)
      | Some b \<Rightarrow>
          if input_error input \<noteq> 0 then Ok (-1, android_sparse_free input, p, s)
          else case bitmask_runs (Suc (bitmask.total_bits b)) b of
              None \<Rightarrow> NoFuel
            | Some runs \<Rightarrow>
                let (ret, blk, chunks, offset, p1, s1) =
                      android_sparse_chunks (blksz input) fd cb runs 0 0 sparse_header_size (-1) p s
                in if runs \<noteq> [] \<and> ret < 0 then Ok (ret, android_sparse_free input, p1, s1)
                   else
                     let gap = blk < total_blks input;
                         s2 = (if gap then android_sparse_append_dontcare fd (total_blks input - blk)
                                             (snd (fileseek fd (int offset) s1))
                               else s1);
                         chunks2 = (if gap then chunks + 1 else chunks);
                         h = \<lparr>magic = SPARSE_HEADER_MAGIC, major_version = 1, minor_version = 0, file_hdr_sz = 28,
                              chunk_hdr_sz = 12, blk_sz = word_of_nat (blksz input),
                              hdr_total_blks = word_of_nat (total_blks input),
                              total_chunks = word_of_nat chunks2, image_checksum = 0\<rparr>;
                         s3 = snd (fileseek fd 0 s2);
                         s4 = snd (sys_write fd (encode_sparse_header h) s3)
                     in Ok (ret, android_sparse_free input, p1, s4))"

text \<open>The self test of the editor: its callback and the chunks it adds.\<close>

definition sparse_gentest_write_chunk :: "unit android_sparse_write_t" where
  "sparse_gentest_write_chunk fd chunk p s =
     (let s1 = snd (sys_write fd (w32 (fs_blocknr chunk)) s);
          s2 = snd (sys_write fd (w32 (chunk_count chunk)) s1)
      in (0, p, s2))"

definition sparse_gentest :: "bool \<Rightarrow> string list \<Rightarrow> nat option \<Rightarrow> sys \<Rightarrow> (int \<times> sys) cres" where
  "sparse_gentest mem argv file s =
     (if length argv < 2 then Ok (-1, s)
      else
        let (fd, s1) = fileopen file s
        in if fd < 0 then Ok (fd, s1)
           else
             let input0 = snd (android_sparse_init mem 4096 (0x200000 div 4096));
                 add = (\<lambda>i (b, c). snd (android_sparse_add_chunk i b c));
                 input = foldl add input0 [(0, 2), (2, 1), (4, 2), (10, 3), (10, 3), (11, 1), (11, 2), (12, 1)]
             in cbind (android_sparse_finish input fd sparse_gentest_write_chunk () s1)
                  (\<lambda>(ret, _, _, s2). Ok (ret, sys_close fd s2)))"

section \<open>Reading\<close>

record sparse_editor_private_data =
  sp_head :: sparse_header

text \<open>
  A read into a structure leaves the bytes that were not read as they were; \<open>old\<close> is what they are.
  The editor does not test the length of this read.
\<close>

definition read_into :: "int \<Rightarrow> bytes \<Rightarrow> sys \<Rightarrow> int \<times> bytes \<times> sys" where
  "read_into fd old s = (case sys_read fd (length old) s of (n, data, s') \<Rightarrow> (n, data @ drop (length data) old, s'))"

definition sparse_detect :: "int \<Rightarrow> sparse_editor_private_data \<Rightarrow> sys \<Rightarrow> int \<times> sparse_editor_private_data \<times> sys" where
  "sparse_detect fd p s =
     (let (ret, b, s') = read_into fd (encode_sparse_header (sp_head p)) s;
          h = decode_sparse_header b; p' = p\<lparr>sp_head := h\<rparr>
      in if ret < 0 then (ret, p, s')
         else if magic h \<noteq> SPARSE_HEADER_MAGIC then (-1, p', s')
         else if major_version h \<noteq> 1 \<or> minor_version h \<noteq> 0 then (-1, p', s')
         else if file_hdr_sz h \<noteq> 28 then (-1, p', s')
         else (0, p', s'))"

text \<open>
  The line printed for a chunk: type, first and last block, blocks, payload size and the fill number. The loop
  returns the lines printed before it stops; \<open>fill\<close> is the variable of that name.
\<close>

record chunk_line =
  line_type :: string
  line_start :: u64
  line_end :: u64
  line_blocks :: u32
  line_size :: u32
  line_fill :: "u32 option"

definition chunk_type_name :: "u16 \<Rightarrow> string option" where
  "chunk_type_name t =
     (if t = CHUNK_TYPE_RAW then Some ''RAW''
      else if t = CHUNK_TYPE_DONT_CARE then Some ''---''
      else if t = CHUNK_TYPE_FILL then Some ''FIL''
      else if t = CHUNK_TYPE_CRC32 then Some ''CRC''
      else None)"

fun sparse_list_chunks :: "nat \<Rightarrow> int \<Rightarrow> nat \<Rightarrow> u64 \<Rightarrow> bytes \<Rightarrow> chunk_line list \<Rightarrow> sys \<Rightarrow> int \<times> chunk_line list \<times> sys" where
  "sparse_list_chunks 0 fd offset blocknr fill out s = (0, out, s)"
| "sparse_list_chunks (Suc i) fd offset blocknr fill out s =
     (let s1 = snd (lseek_set fd (int offset) s);
          (n, b, s2) = sys_read fd chunk_header_size s1
      in if n \<noteq> int chunk_header_size then (-1, out, s2)
         else
           let chunk = decode_chunk_header b
           in case chunk_type_name (chunk_type chunk) of
                None \<Rightarrow> (-1, out, s2)
              | Some ty \<Rightarrow>
                  let line = \<lparr>line_type = ty, line_start = blocknr, line_end = blocknr + ucast (chunk_sz chunk) - 1,
                              line_blocks = chunk_sz chunk, line_size = total_sz chunk - 12, line_fill = None\<rparr>
                  in if chunk_type chunk = CHUNK_TYPE_FILL \<and> total_sz chunk - 12 \<noteq> 4 then (-1, out @ [line], s2)
                     else
                       let (fill', s3) =
                             (if chunk_type chunk = CHUNK_TYPE_FILL
                              then (case read_into fd fill s2 of (_, f, s3) \<Rightarrow> (f, s3)) else (fill, s2));
                           line' = (if chunk_type chunk = CHUNK_TYPE_FILL
                                    then line\<lparr>line_fill := Some (r32 0 fill')\<rparr> else line)
                       in sparse_list_chunks i fd (offset + unat (total_sz chunk)) (blocknr + ucast (chunk_sz chunk))
                            fill' (out @ [line']) s3)"

definition sparse_list :: "int \<Rightarrow> bytes \<Rightarrow> sparse_editor_private_data \<Rightarrow> sys \<Rightarrow> int \<times> chunk_line list \<times> sys" where
  "sparse_list fd fill p s =
     sparse_list_chunks (unat (total_chunks (sp_head p))) fd (unat (file_hdr_sz (sp_head p))) 0 fill [] s"

text \<open>The fill number repeated over the buffer, as \<open>blkbuf_fill\<close> and \<open>chunk_buffer_fill\<close> store it.\<close>

definition blkbuf_fill :: "bytes \<Rightarrow> bytes \<Rightarrow> bytes" where
  "blkbuf_fill buf fill =
     concat (replicate (length buf div 4) fill) @ drop (4 * (length buf div 4)) buf"

definition chunk_buffer_fill :: "bytes bufscan" where
  "chunk_buffer_fill buf fill = (blkbuf_fill buf fill, fill)"

text \<open>
  \<open>sparse_sha1sum\<close> with the hash library (\<open>hash_context_update\<close>) as the parameter \<open>upd\<close>:
  the hash state after the expansion of the chunks. \<open>mul\<close> is \<open>i * blkbuf_sz\<close> in the loop over the blocks.
\<close>

fun hash_raw_blocks ::
    "('h \<Rightarrow> bytes \<Rightarrow> 'h) \<Rightarrow> (nat \<Rightarrow> u8) option \<Rightarrow> int \<Rightarrow> nat \<Rightarrow> nat \<Rightarrow> nat \<Rightarrow> 'h \<Rightarrow> sys \<Rightarrow> 'h \<times> sys" where
  "hash_raw_blocks upd garbage fd base bsz 0 h s = (h, s)"
| "hash_raw_blocks upd garbage fd base bsz (Suc n) h s =
     (let (_, h', s') = dd64 garbage fd (-1) (int base) (-1) bsz (Some (\<lambda>bs h. (bs, upd h bs))) h s
      in hash_raw_blocks upd garbage fd (base + bsz) bsz n h' s')"

fun sparse_sha1_chunks ::
    "('h \<Rightarrow> bytes \<Rightarrow> 'h) \<Rightarrow> (nat \<Rightarrow> u8) option \<Rightarrow> nat \<Rightarrow> int \<Rightarrow> bytes \<Rightarrow> nat \<Rightarrow> bytes \<Rightarrow> 'h \<Rightarrow> sys \<Rightarrow> int \<times> 'h \<times> sys" where
  "sparse_sha1_chunks upd garbage 0 fd blkbuf offset fill h s = (0, h, s)"
| "sparse_sha1_chunks upd garbage (Suc i) fd blkbuf offset fill h s =
     (let s1 = snd (lseek_set fd (int offset) s);
          (n, b, s2) = sys_read fd chunk_header_size s1
      in if n \<noteq> int chunk_header_size then (-1, h, s2)
         else
           let chunk = decode_chunk_header b; ty = chunk_type chunk; bsz = length blkbuf;
               go = (\<lambda>blkbuf. sparse_sha1_chunks upd garbage i fd blkbuf (offset + unat (total_sz chunk)))
           in if ty = CHUNK_TYPE_RAW then
                (case hash_raw_blocks upd garbage fd (offset + chunk_header_size) bsz (unat (chunk_sz chunk)) h s2 of
                   (h', s3) \<Rightarrow> go blkbuf fill h' s3)
              else if ty = CHUNK_TYPE_DONT_CARE then
                go (replicate bsz 0) fill (((\<lambda>h. upd h (replicate bsz 0)) ^^ unat (chunk_sz chunk)) h) s2
              else if ty = CHUNK_TYPE_CRC32 then go blkbuf fill h s2
              else if ty = CHUNK_TYPE_FILL then
                (if total_sz chunk - 12 \<noteq> 4 then (-1, h, s2)
                 else case read_into fd fill s2 of
                     (_, fill', s3) \<Rightarrow>
                       let blk = blkbuf_fill blkbuf fill'
                       in go blk fill' (((\<lambda>h. upd h blk) ^^ unat (chunk_sz chunk)) h) s3)
              else (-1, h, s2))"

text \<open>\<open>blkbuf\<close> is the block buffer that \<open>malloc\<close> returned, \<open>None\<close> when it failed.\<close>

definition sparse_sha1sum ::
    "('h \<Rightarrow> bytes \<Rightarrow> 'h) \<Rightarrow> 'h \<Rightarrow> bytes option \<Rightarrow> (nat \<Rightarrow> u8) option \<Rightarrow> int \<Rightarrow> bytes \<Rightarrow> sparse_editor_private_data \<Rightarrow> sys
      \<Rightarrow> int \<times> 'h \<times> sys" where
  "sparse_sha1sum upd h0 blkbuf garbage fd fill p s =
     (case blkbuf of
        None \<Rightarrow> (-1, h0, s)
      | Some buf \<Rightarrow>
          sparse_sha1_chunks upd garbage (unat (total_chunks (sp_head p))) fd
            (take (unat (blk_sz (sp_head p))) buf) (unat (file_hdr_sz (sp_head p))) fill h0 s)"

section \<open>Expanding to a raw image\<close>

definition fast_option :: "string list \<Rightarrow> bool" where
  "fast_option argv = list_ex (\<lambda>a. a = ''--fast'') argv"

text \<open>\<open>total_data_size\<close> is a 32 bit number.\<close>

fun sparse_unpack_chunks ::
    "(nat \<Rightarrow> u8) option \<Rightarrow> bool \<Rightarrow> u32 \<Rightarrow> nat \<Rightarrow> int \<Rightarrow> int \<Rightarrow> nat \<Rightarrow> nat \<Rightarrow> bytes \<Rightarrow> sys \<Rightarrow> int \<times> sys" where
  "sparse_unpack_chunks garbage fast bsz 0 fd fdout offset_in offset_out fill s = (0, s)"
| "sparse_unpack_chunks garbage fast bsz (Suc i) fd fdout offset_in offset_out fill s =
     (let s1 = snd (lseek_set fd (int offset_in) s);
          (n, b, s2) = sys_read fd chunk_header_size s1
      in if n \<noteq> int chunk_header_size then (-1, s2)
         else
           let chunk = decode_chunk_header b; ty = chunk_type chunk;
               go = sparse_unpack_chunks garbage fast bsz i fd fdout (offset_in + unat (total_sz chunk));
               span = chunk_sz chunk * bsz
           in if ty = CHUNK_TYPE_RAW then
                let size = total_sz chunk - 12;
                    (m, _, s3) = dd garbage fd fdout (int (offset_in + chunk_header_size)) (int offset_out) (unat size)
                                   None () s2
                in if m \<noteq> unat size then (-1, s3) else go (offset_out + unat size) fill s3
              else if ty = CHUNK_TYPE_DONT_CARE then
                let s3 = (if fast then s2
                          else snd (snd (dd garbage (-1) fdout 0 (int offset_out) (unat span) None () s2)))
                in go (offset_out + unat span) fill s3
              else if ty = CHUNK_TYPE_FILL then
                (if total_sz chunk - 12 \<noteq> 4 then (-1, s2)
                 else case read_into fd fill s2 of
                     (_, fill', s3) \<Rightarrow>
                       let s4 = snd (snd (dd garbage (-1) fdout 0 (int offset_out) (unat span)
                                  (Some chunk_buffer_fill) fill' s3))
                       in go (offset_out + unat span) fill' s4)
              else if ty = CHUNK_TYPE_CRC32 then go offset_out fill s2
              else (-1, s2))"

definition sparse_unpack2fd ::
    "(nat \<Rightarrow> u8) option \<Rightarrow> sparse_editor_private_data \<Rightarrow> int \<Rightarrow> int \<Rightarrow> string list \<Rightarrow> bytes \<Rightarrow> sys \<Rightarrow> int \<times> sys" where
  "sparse_unpack2fd garbage p fd fdout argv fill s =
     sparse_unpack_chunks garbage (fast_option argv) (blk_sz (sp_head p)) (unat (total_chunks (sp_head p))) fd fdout
       (unat (file_hdr_sz (sp_head p))) 0 fill s"

end
