(* ===== verification/SparseLaws.thy ===== *)
theory SparseLaws
  imports Sparse
begin

text \<open>
  What a sparse image means: a list of chunks, their bytes in the file and the raw data they stand for. Expanding
  an image writes that data; the writer makes an image of the blocks that were added.
\<close>

section \<open>Headers\<close>

lemma length_w [simp]: "length (w16 a) = 2" "length (w32 b) = 4"
  by (simp_all add: w16_def w32_def)

lemma r16_w16: "r16 (length pre) (pre @ w16 w @ rest) = w"
proof -
  have "unat w < 256 ^ 2" using unsigned_less [of w] by simp
  then show ?thesis by (simp add: r16_def w16_def le_decode_encode)
qed

lemma r32_w32: "r32 (length pre) (pre @ w32 w @ rest) = w"
proof -
  have "unat w < 256 ^ 4" using unsigned_less [of w] by simp
  then show ?thesis by (simp add: r32_def w32_def le_decode_encode)
qed

lemma decode_chunk_header [simp]: "decode_chunk_header (encode_chunk_header c @ rest) = c"
  using r16_w16 [of "[]" "chunk_type c"] r16_w16 [of "w16 (chunk_type c)" "reserved1 c"]
    r32_w32 [of "w16 (chunk_type c) @ w16 (reserved1 c)" "chunk_sz c"]
    r32_w32 [of "w16 (chunk_type c) @ w16 (reserved1 c) @ w32 (chunk_sz c)" "total_sz c"]
  by (simp add: decode_chunk_header_def encode_chunk_header_def)

lemma decode_chunk_header_all [simp]: "decode_chunk_header (encode_chunk_header c) = c"
  using decode_chunk_header [of c "[]"] by (simp del: decode_chunk_header)

lemma length_encode_chunk_header [simp]: "length (encode_chunk_header c) = 12"
  by (simp add: encode_chunk_header_def)

lemma length_encode_sparse_header [simp]: "length (encode_sparse_header h) = 28"
  by (simp add: encode_sparse_header_def)

lemma encode_not_Nil [simp]: "encode_chunk_header c \<noteq> []" "encode_sparse_header h \<noteq> []"
  by (metis length_encode_chunk_header list.size(3) zero_neq_numeral)
     (metis length_encode_sparse_header list.size(3) zero_neq_numeral)

lemma decode_sparse_header [simp]: "decode_sparse_header (encode_sparse_header h) = h"
  using r32_w32 [of "[]" "magic h"] r16_w16 [of "w32 (magic h)" "major_version h"]
    r16_w16 [of "w32 (magic h) @ w16 (major_version h)" "minor_version h"]
    r16_w16 [of "w32 (magic h) @ w16 (major_version h) @ w16 (minor_version h)" "file_hdr_sz h"]
    r16_w16 [of "w32 (magic h) @ w16 (major_version h) @ w16 (minor_version h) @ w16 (file_hdr_sz h)" "chunk_hdr_sz h"]
    r32_w32 [of "w32 (magic h) @ w16 (major_version h) @ w16 (minor_version h) @ w16 (file_hdr_sz h)
      @ w16 (chunk_hdr_sz h)" "blk_sz h"]
    r32_w32 [of "w32 (magic h) @ w16 (major_version h) @ w16 (minor_version h) @ w16 (file_hdr_sz h)
      @ w16 (chunk_hdr_sz h) @ w32 (blk_sz h)" "hdr_total_blks h"]
    r32_w32 [of "w32 (magic h) @ w16 (major_version h) @ w16 (minor_version h) @ w16 (file_hdr_sz h)
      @ w16 (chunk_hdr_sz h) @ w32 (blk_sz h) @ w32 (hdr_total_blks h)" "total_chunks h"]
    r32_w32 [of "w32 (magic h) @ w16 (major_version h) @ w16 (minor_version h) @ w16 (file_hdr_sz h)
      @ w16 (chunk_hdr_sz h) @ w32 (blk_sz h) @ w32 (hdr_total_blks h) @ w32 (total_chunks h)" "image_checksum h" "[]"]
  by (simp add: decode_sparse_header_def encode_sparse_header_def)

section \<open>Chunks\<close>

datatype sparse_chunk = Raw bytes | Fill bytes nat | Gap nat | Crc bytes

fun chunk_bytes :: "nat \<Rightarrow> sparse_chunk \<Rightarrow> bytes" where
  "chunk_bytes bsz (Raw data) = encode_chunk_header \<lparr>chunk_type = CHUNK_TYPE_RAW, reserved1 = 0,
     chunk_sz = word_of_nat (length data div bsz), total_sz = word_of_nat (length data + 12)\<rparr> @ data"
| "chunk_bytes bsz (Fill f n) = encode_chunk_header \<lparr>chunk_type = CHUNK_TYPE_FILL, reserved1 = 0,
     chunk_sz = word_of_nat n, total_sz = 16\<rparr> @ f"
| "chunk_bytes bsz (Gap n) = encode_chunk_header \<lparr>chunk_type = CHUNK_TYPE_DONT_CARE, reserved1 = 0,
     chunk_sz = word_of_nat n, total_sz = 12\<rparr>"
| "chunk_bytes bsz (Crc c) = encode_chunk_header \<lparr>chunk_type = CHUNK_TYPE_CRC32, reserved1 = 0,
     chunk_sz = 0, total_sz = 16\<rparr> @ c"

fun chunk_expand :: "nat \<Rightarrow> sparse_chunk \<Rightarrow> bytes" where
  "chunk_expand bsz (Raw data) = data"
| "chunk_expand bsz (Fill f n) = concat (replicate (n * bsz div 4) f)"
| "chunk_expand bsz (Gap n) = replicate (n * bsz) 0"
| "chunk_expand bsz (Crc c) = []"

text \<open>The sizes are within the 32 bits of the headers.\<close>

fun chunk_fits :: "nat \<Rightarrow> sparse_chunk \<Rightarrow> bool" where
  "chunk_fits bsz (Raw data) = (length data + 12 < 2 ^ 32)"
| "chunk_fits bsz (Fill f n) = (length f = 4 \<and> n < 2 ^ 32 \<and> n * bsz < 2 ^ 32)"
| "chunk_fits bsz (Gap n) = (n < 2 ^ 32 \<and> n * bsz < 2 ^ 32)"
| "chunk_fits bsz (Crc c) = (length c = 4)"

definition image_bytes :: "nat \<Rightarrow> sparse_chunk list \<Rightarrow> bytes" where
  "image_bytes bsz chs = concat (map (chunk_bytes bsz) chs)"

definition image_expand :: "nat \<Rightarrow> sparse_chunk list \<Rightarrow> bytes" where
  "image_expand bsz chs = concat (map (chunk_expand bsz) chs)"

section \<open>Expanding\<close>

text \<open>An input of content c and an output, neither of them a virtual file with an offset.\<close>

definition unpack_env :: "int \<Rightarrow> int \<Rightarrow> nat \<Rightarrow> nat \<Rightarrow> bytes \<Rightarrow> sys \<Rightarrow> bool" where
  "unpack_env fd fdout d e c s \<longleftrightarrow>
     0 \<le> fd \<and> 0 \<le> fdout \<and> sys_ok s \<and> ofd_of s fd = Some d \<and> ofd_of s fdout = Some e \<and>
     inode (open_files s ! d) \<noteq> inode (open_files s ! e) \<and> dd_max_bufsz \<le> max_io s \<and>
     filestart fd s = 0 \<and> filestart fdout s = 0 \<and> content s d = c"

lemma unpack_env_position [simp]: "unpack_env fd fdout d e c (set_position q p s) = unpack_env fd fdout d e c s"
proof -
  have "filestart f (set_position q p s) = filestart f s" for f by (rule filestart_gd) simp
  then show ?thesis by (simp add: unpack_env_def)
qed

lemma unpack_env_put: "unpack_env fd fdout d e c s \<Longrightarrow> unpack_env fd fdout d e c (put e bs s)"
proof -
  assume env: "unpack_env fd fdout d e c s"
  have "filestart f (put e bs s) = filestart f s" for f by (rule filestart_gd) simp
  with env show ?thesis by (simp add: unpack_env_def put_content)
qed

lemma read_header:
  assumes "unpack_env fd fdout d e c s" "off + n \<le> length c" "n \<le> dd_max_bufsz"
  shows "sys_read fd n (snd (lseek_set fd (int off) s)) = (int n, take n (drop off c), set_position d (off + n) s)"
proof -
  have d: "d < length (open_files s)" using assms(1) by (auto simp: unpack_env_def sys_ok_ofd)
  show ?thesis
    using assms d by (simp add: unpack_env_def lseek_set_def sys_read_eq remaining_def Let_def)
qed

lemma read_next:
  assumes "unpack_env fd fdout d e c s" "off + length old \<le> length c" "length old \<le> dd_max_bufsz"
  shows "read_into fd old (set_position d off s) =
    (int (length old), take (length old) (drop off c), set_position d (off + length old) s)"
proof -
  have d: "d < length (open_files s)" using assms(1) by (auto simp: unpack_env_def sys_ok_ofd)
  show ?thesis
    using assms d by (simp add: read_into_def unpack_env_def sys_read_eq remaining_def Let_def)
qed

lemma put_at:
  assumes "unpack_env fd fdout d e c s"
  shows "content (put e bs (set_position q p (set_position e off s))) e =
    overlay (content s e) (if q = e then p else off) bs"
proof -
  have "e < length (open_files s)" using assms by (auto simp: unpack_env_def sys_ok_ofd)
  then show ?thesis using assms by (auto simp: unpack_env_def put_content)
qed

text \<open>The two generators of \<open>dd\<close>: zeros and the fill number.\<close>

definition fill_gen :: "bytes \<Rightarrow> nat \<Rightarrow> bytes" where
  "fill_gen f n = concat (replicate (n div 4) f) @ replicate (n mod 4) 0"

lemma length_concat_replicate: "length (concat (replicate n xs)) = n * length xs"
  by (induction n) auto

lemma scan_makes_zeros: "scan_makes None p (\<lambda>n. replicate n 0)"
  by (simp add: scan_makes_def replicate_add [symmetric])

lemma scan_makes_fill: "length f = 4 \<Longrightarrow> scan_makes (Some chunk_buffer_fill) f (fill_gen f)"
proof -
  assume f: "length f = 4"
  have "fill_gen f n = fill_gen f dd_max_bufsz @ fill_gen f (n - dd_max_bufsz)" if le: "dd_max_bufsz \<le> n" for n
  proof -
    have eq: "dd_max_bufsz = 4 * 2 ^ 18" by (simp add: dd_max_bufsz_def)
    obtain m where m: "n = dd_max_bufsz + m" using le_Suc_ex [OF le] ..
    obtain k where k: "dd_max_bufsz = 4 * k" using eq ..
    then have "n div 4 = k + m div 4" "n mod 4 = m mod 4" unfolding m k by simp_all
    moreover have "dd_max_bufsz div 4 = k" "dd_max_bufsz mod 4 = 0" by (simp_all add: k)
    ultimately show ?thesis by (simp add: fill_gen_def m replicate_add)
  qed
  moreover have "blkbuf_fill (replicate n 0) f = fill_gen f n" for n
    by (simp add: blkbuf_fill_def fill_gen_def minus_mult_div_eq_mod)
  moreover have "length (fill_gen f n) = n" for n
    using f by (simp add: fill_gen_def length_concat_replicate)
  ultimately show ?thesis unfolding scan_makes_def chunk_buffer_fill_def option.case by blast
qed

lemma fill_gen_blocks: "4 dvd n \<Longrightarrow> fill_gen f n = concat (replicate (n div 4) f)"
  by (simp add: fill_gen_def)

lemma image_bytes_Cons: "image_bytes bsz (ch # chs) = chunk_bytes bsz ch @ image_bytes bsz chs"
  by (simp add: image_bytes_def)

lemma unat_small: "n < 2 ^ 32 \<Longrightarrow> unat (word_of_nat n :: u32) = n"
  by (simp add: unat_of_nat)

lemma chunk_total:
  "length (chunk_bytes bsz ch) =
     (case ch of Raw data \<Rightarrow> length data + 12 | Fill f n \<Rightarrow> length f + 12 | Gap n \<Rightarrow> 12 | Crc c \<Rightarrow> length c + 12)"
  by (cases ch) simp_all

lemma dd_generate_env:
  assumes "unpack_env fd fdout d e c s" "scan_makes scan p g"
  obtains s' where "dd (Some buf) (-1) fdout 0 (int off) sz scan p s = (sz, p, s')"
    "unpack_env fd fdout d e c s'" "content s' e = overlay (content s e) off (g sz)"
proof (rule that)
  note env = assms(1) [unfolded unpack_env_def]
  show "dd (Some buf) (-1) fdout 0 (int off) sz scan p s = (sz, p, put e (g sz) (set_position e off s))"
    using dd64_generate_put [of "-1" fdout scan p g s e "int off" buf 0 sz] env assms(2) by (simp add: dd_def)
  show "unpack_env fd fdout d e c (put e (g sz) (set_position e off s))"
    using assms(1) by (intro unpack_env_put) simp
  show "content (put e (g sz) (set_position e off s)) e = overlay (content s e) off (g sz)"
    using put_at [OF assms(1), of "g sz" e off off] by simp
qed

lemma dd_copy_env:
  assumes "unpack_env fd fdout d e c s" "from + sz \<le> length c"
  obtains s' where "dd (Some buf) fd fdout (int from) (int off) sz None p s = (sz, p, s')"
    "unpack_env fd fdout d e c s'" "content s' e = overlay (content s e) off (take sz (drop from c))"
proof -
  note env = assms(1) [unfolded unpack_env_def]
  have de: "d \<noteq> e" using env by auto
  define data where "data = take sz (drop from c)"
  have len: "length data = sz" using assms(2) by (simp add: data_def)
  obtain q where q: "dd64 (Some buf) fd fdout (int from) (int off) sz None p s =
      (length data, p, put e data (set_position d q (set_position e off s)))"
    using dd64_copy_put [of fd fdout s d e "int from" "int off" data sz buf p] env by (auto simp: data_def)
  show ?thesis
  proof (rule that)
    show "dd (Some buf) fd fdout (int from) (int off) sz None p s = (sz, p, put e data (set_position d q (set_position e off s)))"
      using q len by (simp add: dd_def)
    show "unpack_env fd fdout d e c (put e data (set_position d q (set_position e off s)))"
      using assms(1) by (intro unpack_env_put) simp
    show "content (put e data (set_position d q (set_position e off s))) e = overlay (content s e) off (take sz (drop from c))"
      using put_at [OF assms(1), of data d q off] de by (simp add: data_def)
  qed
qed

text \<open>One round: the chunk at the offset is written to the output, and the loop goes on behind both.\<close>

lemma unpack_step:
  assumes env: "unpack_env fd fdout d e (pre @ chunk_bytes bsz ch @ post) s" and fits: "chunk_fits bsz ch"
    and "bsz = unat w" "4 dvd bsz" "length fill = 4"
  shows "\<exists>fill' s'. length fill' = 4 \<and> unpack_env fd fdout d e (pre @ chunk_bytes bsz ch @ post) s' \<and>
    content s' e = overlay (content s e) off (chunk_expand bsz ch) \<and>
    sparse_unpack_chunks (Some buf) False w (Suc i) fd fdout (length pre) off fill s =
      sparse_unpack_chunks (Some buf) False w i fd fdout (length pre + length (chunk_bytes bsz ch))
        (off + length (chunk_expand bsz ch)) fill' s'"
proof -
  let ?c = "pre @ chunk_bytes bsz ch @ post"
  note dest = env [unfolded unpack_env_def]
  have size: "length (chunk_bytes bsz ch) \<ge> 12" by (cases ch) simp_all
  have e: "e < length (open_files s)" using dest by (auto simp: sys_ok_ofd)
  define s2 where "s2 = set_position d (length pre + 12) s"
  have rd: "sys_read fd 12 (snd (lseek_set fd (int (length pre)) s)) = (12, take 12 (chunk_bytes bsz ch), s2)"
    using read_header [OF env, of "length pre" 12] size by (simp add: dd_max_bufsz_def s2_def)
  have env2: "unpack_env fd fdout d e ?c s2" using env by (simp add: s2_def)
  have c2: "content s2 e = content s e" by (simp add: s2_def)
  have w: "chunk_sz * w = word_of_nat (n * bsz)" if "chunk_sz = word_of_nat n" for chunk_sz :: u32 and n
    using that assms(3) by simp
  have types: "CHUNK_TYPE_RAW \<noteq> CHUNK_TYPE_DONT_CARE" "CHUNK_TYPE_RAW \<noteq> CHUNK_TYPE_FILL" "CHUNK_TYPE_RAW \<noteq> CHUNK_TYPE_CRC32"
    "CHUNK_TYPE_FILL \<noteq> CHUNK_TYPE_DONT_CARE" "CHUNK_TYPE_FILL \<noteq> CHUNK_TYPE_CRC32" "CHUNK_TYPE_DONT_CARE \<noteq> CHUNK_TYPE_CRC32"
    by (simp_all add: CHUNK_TYPE_RAW_def CHUNK_TYPE_DONT_CARE_def CHUNK_TYPE_FILL_def CHUNK_TYPE_CRC32_def)
  note step = Let_def rd chunk_header_size_def
  show ?thesis
  proof (cases ch)
    case (Raw data)
    have total: "unat (word_of_nat (length data) + 12 - 12 :: u32) = length data"
      "unat (word_of_nat (length data) + 12 :: u32) = length data + 12"
      using fits Raw unat_small [of "length data"] unat_small [of "length data + 12"] by simp_all
    obtain s3 where s3: "dd (Some buf) fd fdout (int (length pre + 12)) (int off) (length data) None () s2 = (length data, (), s3)"
      "unpack_env fd fdout d e ?c s3" "content s3 e = overlay (content s2 e) off (take (length data) (drop (length pre + 12) ?c))"
      by (rule dd_copy_env [OF env2, of "length pre + 12" "length data" buf off "()"]) (simp add: Raw)
    then show ?thesis
      using Raw total assms(5) c2 by (intro exI [of _ fill] exI [of _ s3]) (simp add: step add.commute)
  next
    case (Fill f n)
    then have f: "length f = 4" "n < 2 ^ 32" "n * bsz < 2 ^ 32" using fits by simp_all
    have span: "unat (word_of_nat n * w) = n * bsz"
      using f(2,3) assms(3) unat_small [of "n * bsz"] by simp
    define s3 where "s3 = set_position d (16 + length pre) s2"
    have next4: "read_into fd fill s2 = (4, f, s3)"
      using read_next [OF env, of "length pre + 12" fill] assms(5) f Fill by (simp add: s2_def s3_def dd_max_bufsz_def)
    have env3: "unpack_env fd fdout d e ?c s3" using env2 by (simp add: s3_def)
    obtain s4 where s4: "dd (Some buf) (-1) fdout 0 (int off) (n * bsz) (Some chunk_buffer_fill) f s3 = (n * bsz, f, s4)"
      "unpack_env fd fdout d e ?c s4" "content s4 e = overlay (content s3 e) off (fill_gen f (n * bsz))"
      by (rule dd_generate_env [OF env3 scan_makes_fill [OF f(1)], of buf off "n * bsz"])
    have "fill_gen f (n * bsz) = chunk_expand bsz ch"
      using fill_gen_blocks [of "n * bsz" f] assms(4) Fill by simp
    moreover have "length (chunk_expand bsz ch) = n * bsz" using Fill f assms(4) by (simp add: length_concat_replicate)
    ultimately show ?thesis
      using Fill f span s4 next4 c2 types by (intro exI [of _ f] exI [of _ s4]) (simp add: step s3_def)
  next
    case (Gap n)
    then have f: "n < 2 ^ 32" "n * bsz < 2 ^ 32" using fits by simp_all
    have span: "unat (word_of_nat n * w) = n * bsz"
      using f assms(3) unat_small [of "n * bsz"] by simp
    obtain s3 where s3: "dd (Some buf) (-1) fdout 0 (int off) (n * bsz) None () s2 = (n * bsz, (), s3)"
      "unpack_env fd fdout d e ?c s3" "content s3 e = overlay (content s2 e) off (replicate (n * bsz) 0)"
      by (rule dd_generate_env [OF env2 scan_makes_zeros, of buf off "n * bsz" "()"])
    then show ?thesis
      using Gap span assms(5) c2 types by (intro exI [of _ fill] exI [of _ s3]) (simp add: step)
  next
    case (Crc c)
    then show ?thesis
      using fits assms(5) c2 env2 types by (intro exI [of _ fill] exI [of _ s2]) (simp add: step)
  qed
qed

lemma unpack_chunks:
  assumes "bsz = unat w" "4 dvd bsz"
  shows "\<lbrakk>unpack_env fd fdout d e (pre @ image_bytes bsz chs @ post) s; list_all (chunk_fits bsz) chs; length fill = 4\<rbrakk> \<Longrightarrow>
    \<exists>s'. sparse_unpack_chunks (Some buf) False w (length chs) fd fdout (length pre) off fill s = (0, s') \<and>
      unpack_env fd fdout d e (pre @ image_bytes bsz chs @ post) s' \<and>
      content s' e = overlay (content s e) off (image_expand bsz chs)"
proof (induction chs arbitrary: pre off fill s)
  case Nil
  then show ?case by (simp add: image_expand_def)
next
  case (Cons ch chs)
  let ?c = "pre @ image_bytes bsz (ch # chs) @ post"
  have c: "?c = pre @ chunk_bytes bsz ch @ image_bytes bsz chs @ post" "?c = (pre @ chunk_bytes bsz ch) @ image_bytes bsz chs @ post"
    by (simp_all add: image_bytes_Cons)
  have fits: "chunk_fits bsz ch" "list_all (chunk_fits bsz) chs" using Cons.prems by simp_all
  obtain fill1 s1 where one: "length fill1 = 4" "unpack_env fd fdout d e ?c s1"
    "content s1 e = overlay (content s e) off (chunk_expand bsz ch)"
    "sparse_unpack_chunks (Some buf) False w (Suc (length chs)) fd fdout (length pre) off fill s =
      sparse_unpack_chunks (Some buf) False w (length chs) fd fdout (length (pre @ chunk_bytes bsz ch))
        (off + length (chunk_expand bsz ch)) fill1 s1"
    using unpack_step [OF Cons.prems(1) [unfolded c(1)] fits(1) assms Cons.prems(3), where buf = buf and i = "length chs" and off = off]
    unfolding c(1) length_append by blast
  obtain s2 where two: "sparse_unpack_chunks (Some buf) False w (length chs) fd fdout (length (pre @ chunk_bytes bsz ch))
        (off + length (chunk_expand bsz ch)) fill1 s1 = (0, s2)"
    "unpack_env fd fdout d e ?c s2"
    "content s2 e = overlay (content s1 e) (off + length (chunk_expand bsz ch)) (image_expand bsz chs)"
    using Cons.IH [OF one(2) [unfolded c(2)] fits(2) one(1), where off = "off + length (chunk_expand bsz ch)"] unfolding c(2) by blast
  have "content s2 e = overlay (content s e) off (image_expand bsz (ch # chs))"
    unfolding two(3) one(3) overlay_append by (simp add: image_expand_def)
  with one(4) two show ?case by (intro exI [of _ s2]) simp
qed

lemma unpack_sparse:
  assumes "unpack_env fd fdout d e (encode_sparse_header h @ image_bytes bsz chs @ rest) s"
    and "sp_head p = h" "file_hdr_sz h = 28" "unat (total_chunks h) = length chs" "bsz = unat (blk_sz h)" "4 dvd bsz"
    and "list_all (chunk_fits bsz) chs" "length fill = 4" "''--fast'' \<notin> set argv"
  shows "\<exists>s'. sparse_unpack2fd (Some buf) p fd fdout argv fill s = (0, s') \<and>
    content s' e = overlay (content s e) 0 (image_expand bsz chs) \<and> content s' d = content s d"
proof -
  have "fast_option argv = False" using assms(9) by (induction argv) (auto simp: fast_option_def)
  moreover have "unat (28 :: u16) = length (encode_sparse_header h)" by simp
  ultimately show ?thesis
    using unpack_chunks [OF assms(5,6,1,7,8), where buf = buf and off = 0] assms(1-4)
    by (auto simp: sparse_unpack2fd_def unpack_env_def)
qed

text \<open>C20: expanding a sparse image writes the data its chunks stand for, one behind the other from the start of the
  output: the raw data, the repeated fill number, zeros for the gaps, nothing for a checksum. It ends with status 0 and the
  input is left alone.\<close>

theorem sparse_unpack_expands:
  assumes "unpack_env fd fdout d e (encode_sparse_header h @ image_bytes bsz chs @ rest) s"
    and "sp_head p = h" "file_hdr_sz h = 28" "unat (total_chunks h) = length chs" "bsz = unat (blk_sz h)" "4 dvd bsz"
    and "list_all (chunk_fits bsz) chs" "length fill = 4" "''--fast'' \<notin> set argv"
  shows "\<exists>s'. sparse_unpack2fd (Some buf) p fd fdout argv fill s = (0, s') \<and>
    content s' e = overlay (content s e) 0 (image_expand bsz chs) \<and> content s' d = content s d"
  using assms by (rule unpack_sparse)

section \<open>Writing\<close>

text \<open>A file that is written from the first byte on, not a virtual file with an offset.\<close>

definition target_env :: "int \<Rightarrow> nat \<Rightarrow> sys \<Rightarrow> bool" where
  "target_env fd d s \<longleftrightarrow> 0 \<le> fd \<and> sys_ok s \<and> ofd_of s fd = Some d \<and> filestart fd s = 0 \<and> dd_max_bufsz \<le> max_io s"

lemma target_env_position [simp]: "target_env fd d (set_position q p s) = target_env fd d s"
proof -
  have "filestart f (set_position q p s) = filestart f s" for f by (rule filestart_gd) simp
  then show ?thesis by (simp add: target_env_def)
qed

lemma target_env_put [simp]: "target_env fd d (put e bs s) = target_env fd d s"
proof -
  have "filestart f (put e bs s) = filestart f s" for f by (rule filestart_gd) simp
  then show ?thesis by (simp add: target_env_def)
qed

lemma target_seek: "target_env fd d s \<Longrightarrow> snd (fileseek fd (int off) s) = set_position d off s"
  by (simp add: target_env_def fileseek_def lseek_set_def)

lemma target_write: "target_env fd d s \<Longrightarrow> length bs \<le> 2 ^ 20 \<Longrightarrow> snd (sys_write fd bs s) = put d bs s"
  by (simp add: target_env_def sys_write_put dd_max_bufsz_def)

lemma target_put_put: "target_env fd d s \<Longrightarrow> put d b (put d a s) = put d (a @ b) s"
  by (rule put_put) (auto simp: target_env_def sys_ok_ofd)

text \<open>The content as it reads up to an offset behind its end.\<close>

definition padded :: "nat \<Rightarrow> bytes \<Rightarrow> bytes" where
  "padded off c = c @ replicate (off - length c) 0"

lemma target_put_content:
  assumes "target_env fd d s" "length (content s d) \<le> off" "bs \<noteq> []"
  shows "content (put d bs (set_position d off s)) d = padded off (content s d) @ bs"
proof -
  have "d < length (open_files s)" using assms(1) by (auto simp: target_env_def sys_ok_ofd)
  then show ?thesis
    using assms by (simp add: put_content target_env_def overlay_def padded_def)
qed

lemma length_padded [simp]: "length c \<le> off \<Longrightarrow> length (padded off c) = off"
  by (simp add: padded_def)

lemma padded_append: "length c \<le> off \<Longrightarrow> padded (off + n) (padded off c @ bs) = padded off c @ padded n bs"
  by (simp add: padded_def)

text \<open>Runs of blocks in order, from a block on.\<close>

fun runs_ok :: "nat \<Rightarrow> (int \<times> int) list \<Rightarrow> bool" where
  "runs_ok blk [] = True"
| "runs_ok blk ((st, n) # rs) = (int blk \<le> st \<and> 0 < n \<and> st + n < 2 ^ 31 \<and> runs_ok (nat (st + n)) rs)"

fun end_block :: "nat \<Rightarrow> (int \<times> int) list \<Rightarrow> nat" where
  "end_block blk [] = blk"
| "end_block blk ((st, n) # rs) = end_block (nat (st + n)) rs"

fun body_chunks :: "(nat \<Rightarrow> nat \<Rightarrow> bytes) \<Rightarrow> nat \<Rightarrow> (int \<times> int) list \<Rightarrow> sparse_chunk list" where
  "body_chunks block blk [] = []"
| "body_chunks block blk ((st, n) # rs) =
     (if blk \<noteq> nat st then [Gap (nat st - blk)] else []) @ Raw (block (nat st) (nat n))
       # body_chunks block (nat (st + n)) rs"

text \<open>
  What the writer asks of the filesystem: the callback writes the data of the blocks at the current position, at most
  the size of the blocks, and reports no error.
\<close>

locale sparse_target =
  fixes cb :: "'p android_sparse_write_t" and data :: "nat \<Rightarrow> nat \<Rightarrow> bytes" and bsz :: nat
  assumes writes: "target_env fd d s \<Longrightarrow> nr < 2 ^ 31 \<Longrightarrow> 0 < n \<Longrightarrow> n < 2 ^ 31 \<Longrightarrow>
      \<exists>r p'. 0 \<le> r \<and> cb fd \<lparr>fs_blocknr = word_of_nat nr, chunk_count = word_of_nat n\<rparr> p s = (r, p', put d (data nr n) s)"
    and data_length: "0 < n \<Longrightarrow> length (data nr n) \<le> n * bsz"
    and bsz_pos: "0 < bsz"
begin

definition block :: "nat \<Rightarrow> nat \<Rightarrow> bytes" where
  "block nr n = padded (n * bsz) (data nr n)"

text \<open>All data of the runs is there.\<close>

definition full :: "(int \<times> int) list \<Rightarrow> bool" where
  "full rs \<longleftrightarrow> (\<forall>(st, n) \<in> set rs. length (data (nat st) (nat n)) = nat n * bsz)"

lemma chunk_written:
  assumes "target_env fd d s" "length (content s d) \<le> off" "runs_ok blk ((st, n) # rs)"
    and "chs = body_chunks block blk [(st, n)]"
  shows "\<exists>r p' s'. 0 \<le> r \<and> target_env fd d s' \<and>
    length (content s' d) \<le> off + length (image_bytes bsz chs) \<and>
    (full [(st, n)] \<longrightarrow> length (content s' d) = off + length (image_bytes bsz chs)) \<and>
    padded (off + length (image_bytes bsz chs)) (content s' d) = padded off (content s d) @ image_bytes bsz chs \<and>
    android_sparse_chunks bsz fd cb ((st, n) # rs) blk k off ret p s =
      android_sparse_chunks bsz fd cb rs (nat (st + n)) (k + length chs) (off + length (image_bytes bsz chs)) r p' s'"
proof -
  have st: "size_of_int st = nat st" "size_of_int n = nat n" "nat st < 2 ^ 31" "0 < nat n" "nat n < 2 ^ 31"
    "nat (st + n) = nat st + nat n"
    using assms(3) by (auto simp: size_of_int_def nat_add_distrib nat_less_iff)
  let ?gap = "blk \<noteq> nat st"
  define hg where "hg = (if ?gap then chunk_bytes bsz (Gap (nat st - blk)) else [])"
  define hd where "hd = encode_chunk_header \<lparr>chunk_type = CHUNK_TYPE_RAW, reserved1 = 0, chunk_sz = word_of_nat (nat n),
      total_sz = word_of_nat (nat n * bsz + chunk_header_size)\<rparr>"
  define x where "x = hg @ hd @ data (nat st) (nat n)"
  have blk: "length (block (nat st) (nat n)) = nat n * bsz"
    using data_length [OF st(4)] by (simp add: block_def)
  have img: "image_bytes bsz chs = hg @ hd @ block (nat st) (nat n)"
    using blk bsz_pos by (simp add: assms(4) image_bytes_def hg_def hd_def chunk_header_size_def)
  let ?s1 = "set_position d off s"
  let ?s3 = "put d hd (put d hg ?s1)"
  have env1: "target_env fd d ?s1" using assms(1) by simp
  have d: "d < length (open_files ?s1)" "sys_ok ?s1" using env1 by (auto simp: target_env_def sys_ok_ofd)
  obtain r p' where cb: "0 \<le> r" "cb fd \<lparr>fs_blocknr = word_of_nat (nat st), chunk_count = word_of_nat (nat n)\<rparr> p ?s3 =
      (r, p', put d (data (nat st) (nat n)) ?s3)"
    using writes [of fd d ?s3 "nat st" "nat n" p] env1 st by auto
  define s' where "s' = put d x ?s1"
  have s': "put d (data (nat st) (nat n)) ?s3 = s'"
    using d by (simp add: s'_def x_def put_put)
  have c: "content s' d = padded off (content s d) @ x"
    unfolding s'_def by (rule target_put_content [OF assms(1,2)]) (simp add: x_def hd_def)
  have pad: "padded (length (image_bytes bsz chs)) x = image_bytes bsz chs"
    using data_length [OF st(4)] by (simp add: img x_def block_def padded_def)
  have gap: "(if ?gap then android_sparse_append_dontcare fd (nat st - blk) ?s1 else ?s1) = put d hg ?s1"
    using target_write [OF env1] d by (simp add: android_sparse_append_dontcare_def hg_def Let_def)
  have hdw: "snd (sys_write fd hd (put d hg ?s1)) = ?s3"
    by (rule target_write) (use env1 in \<open>simp_all add: hd_def\<close>)
  have "android_sparse_chunks bsz fd cb ((st, n) # rs) blk k off ret p s =
      android_sparse_chunks bsz fd cb rs (nat (st + n)) (k + length chs) (off + length (image_bytes bsz chs)) r p' s'"
  proof -
    have "android_sparse_chunks bsz fd cb ((st, n) # rs) blk k off ret p s =
      (if r < 0 then (r, nat st, (if ?gap then k + 1 else k) + 1, (if ?gap then off + chunk_header_size else off) + chunk_header_size, p', s')
       else android_sparse_chunks bsz fd cb rs (nat st + nat n) ((if ?gap then k + 1 else k) + 1)
              ((if ?gap then off + chunk_header_size else off) + chunk_header_size + nat n * bsz) r p' s')"
      by (simp only: android_sparse_chunks.simps Let_def fst_conv snd_conv st(1,2) target_seek [OF assms(1)] gap
          hd_def [symmetric] hdw cb(2) s' prod.case)
    moreover have "k + length chs = (if ?gap then k + 1 else k) + 1" by (simp add: assms(4))
    moreover have "off + length (image_bytes bsz chs) =
        (if ?gap then off + chunk_header_size else off) + chunk_header_size + nat n * bsz"
      unfolding img by (simp add: blk hg_def hd_def chunk_header_size_def)
    moreover have "\<not> r < 0" using cb(1) by simp
    ultimately show ?thesis unfolding st(6) by (simp only: if_False)
  qed
  moreover have "length (content s' d) \<le> off + length (image_bytes bsz chs)"
    using assms(2) data_length [OF st(4)] by (simp add: c img x_def blk)
  moreover have "padded (off + length (image_bytes bsz chs)) (content s' d) = padded off (content s d) @ image_bytes bsz chs"
    unfolding c padded_append [OF assms(2)] pad ..
  moreover have "target_env fd d s'" using assms(1) by (simp add: s'_def)
  moreover have "full [(st, n)] \<longrightarrow> length (content s' d) = off + length (image_bytes bsz chs)"
    using assms(2) by (simp add: c img x_def blk full_def)
  ultimately show ?thesis using cb(1) by blast
qed

lemma body_chunks_Cons:
  "body_chunks block blk ((st, n) # rs) = body_chunks block blk [(st, n)] @ body_chunks block (nat (st + n)) rs"
  by simp

lemma chunks_written:
  "\<lbrakk>target_env fd d s; length (content s d) \<le> off; runs_ok blk rs\<rbrakk> \<Longrightarrow>
   \<exists>r p' s'. (if rs = [] then r = ret else 0 \<le> r) \<and> target_env fd d s' \<and>
    length (content s' d) \<le> off + length (image_bytes bsz (body_chunks block blk rs)) \<and>
    (full rs \<and> rs \<noteq> [] \<longrightarrow> length (content s' d) = off + length (image_bytes bsz (body_chunks block blk rs))) \<and>
    padded (off + length (image_bytes bsz (body_chunks block blk rs))) (content s' d) =
      padded off (content s d) @ image_bytes bsz (body_chunks block blk rs) \<and>
    android_sparse_chunks bsz fd cb rs blk k off ret p s =
      (r, end_block blk rs, k + length (body_chunks block blk rs),
       off + length (image_bytes bsz (body_chunks block blk rs)), p', s')"
proof (induction rs arbitrary: s off blk k ret p)
  case Nil
  then show ?case by (simp add: image_bytes_def)
next
  case (Cons run rs)
  obtain st n where run: "run = (st, n)" by (cases run)
  define c1 where "c1 = body_chunks block blk [(st, n)]"
  define c2 where "c2 = body_chunks block (nat (st + n)) rs"
  have body: "body_chunks block blk (run # rs) = c1 @ c2" unfolding run c1_def c2_def by (rule body_chunks_Cons)
  have img: "image_bytes bsz (c1 @ c2) = image_bytes bsz c1 @ image_bytes bsz c2" by (simp add: image_bytes_def)
  obtain r1 p1 s1 where one: "0 \<le> r1" "target_env fd d s1" "length (content s1 d) \<le> off + length (image_bytes bsz c1)"
    "full [(st, n)] \<longrightarrow> length (content s1 d) = off + length (image_bytes bsz c1)"
    "padded (off + length (image_bytes bsz c1)) (content s1 d) = padded off (content s d) @ image_bytes bsz c1"
    "android_sparse_chunks bsz fd cb (run # rs) blk k off ret p s =
      android_sparse_chunks bsz fd cb rs (nat (st + n)) (k + length c1) (off + length (image_bytes bsz c1)) r1 p1 s1"
    using chunk_written [OF Cons.prems(1,2) Cons.prems(3) [unfolded run] c1_def, of k ret p] unfolding run by blast
  have "runs_ok (nat (st + n)) rs" using Cons.prems(3) run by simp
  from Cons.IH [OF one(2,3) this, of r1 "k + length c1" p1]
  obtain r2 p2 s2 where two: "if rs = [] then r2 = r1 else 0 \<le> r2" "target_env fd d s2"
    "length (content s2 d) \<le> off + length (image_bytes bsz c1) + length (image_bytes bsz c2)"
    "full rs \<and> rs \<noteq> [] \<longrightarrow> length (content s2 d) = off + length (image_bytes bsz c1) + length (image_bytes bsz c2)"
    "padded (off + length (image_bytes bsz c1) + length (image_bytes bsz c2)) (content s2 d) =
      padded (off + length (image_bytes bsz c1)) (content s1 d) @ image_bytes bsz c2"
    "android_sparse_chunks bsz fd cb rs (nat (st + n)) (k + length c1) (off + length (image_bytes bsz c1)) r1 p1 s1 =
      (r2, end_block (nat (st + n)) rs, k + length c1 + length c2,
       off + length (image_bytes bsz c1) + length (image_bytes bsz c2), p2, s2)"
    unfolding c2_def by blast
  have "rs = [] \<Longrightarrow> s2 = s1" using two(6) by simp
  then have "full (run # rs) \<longrightarrow> length (content s2 d) = off + length (image_bytes bsz c1) + length (image_bytes bsz c2)"
    using one(4) two(4,5) by (cases "rs = []") (auto simp: full_def run c2_def image_bytes_def)
  then show ?case
    unfolding body img
    by (intro exI [of _ r2] exI [of _ p2] exI [of _ s2])
       (use one(1,5,6) two run in \<open>auto simp: add.assoc simp del: android_sparse_chunks.simps split: if_splits\<close>)
qed

text \<open>All of the file: the header and the chunks, with a last gap up to the end of the filesystem.\<close>

definition image_chunks :: "nat \<Rightarrow> (int \<times> int) list \<Rightarrow> sparse_chunk list" where
  "image_chunks nblks rs = body_chunks block 0 rs @ (if end_block 0 rs < nblks then [Gap (nblks - end_block 0 rs)] else [])"

definition image_header :: "nat \<Rightarrow> (int \<times> int) list \<Rightarrow> sparse_header" where
  "image_header nblks rs = \<lparr>magic = SPARSE_HEADER_MAGIC, major_version = 1, minor_version = 0, file_hdr_sz = 28,
     chunk_hdr_sz = 12, blk_sz = word_of_nat bsz, hdr_total_blks = word_of_nat nblks,
     total_chunks = word_of_nat (length (image_chunks nblks rs)), image_checksum = 0\<rparr>"

lemma finish_written:
  assumes "target_env fd d s" "content s d = []" "chunk_bitmasks input = Some b" "input_error input = 0" "blksz input = bsz"
    and "bitmask_runs (Suc (bitmask.total_bits b)) b = Some rs" "runs_ok 0 rs"
  shows "\<exists>r p' s'. android_sparse_finish input fd cb p s = Ok (r, android_sparse_free input, p', s') \<and>
    (0 \<le> r \<longleftrightarrow> rs \<noteq> []) \<and> target_env fd d s' \<and>
    (full rs \<longrightarrow> content s' d =
      encode_sparse_header (image_header (total_blks input) rs) @ image_bytes bsz (image_chunks (total_blks input) rs)) \<and>
    padded (28 + length (image_bytes bsz (image_chunks (total_blks input) rs))) (content s' d) =
      encode_sparse_header (image_header (total_blks input) rs) @ image_bytes bsz (image_chunks (total_blks input) rs)"
proof -
  define body where "body = body_chunks block 0 rs"
  define n where "n = total_blks input"
  define blk where "blk = end_block 0 rs"
  have "length (content s d) \<le> 28" using assms(2) by simp
  from chunks_written [OF assms(1) this assms(7), of "-1" 0 p]
  obtain r p1 s1 where run: "if rs = [] then r = -1 else 0 \<le> r" "target_env fd d s1"
    "length (content s1 d) \<le> 28 + length (image_bytes bsz body)"
    "full rs \<and> rs \<noteq> [] \<longrightarrow> length (content s1 d) = 28 + length (image_bytes bsz body)"
    "padded (28 + length (image_bytes bsz body)) (content s1 d) = padded 28 [] @ image_bytes bsz body"
    "android_sparse_chunks bsz fd cb rs 0 0 28 (-1) p s = (r, blk, length body, 28 + length (image_bytes bsz body), p1, s1)"
    unfolding body_def blk_def assms(2) by auto
  define off where "off = 28 + length (image_bytes bsz body)"
  define gap where "gap = (if blk < n then chunk_bytes bsz (Gap (n - blk)) else [])"
  define s2 where "s2 = (if blk < n then put d gap (set_position d off s1) else s1)"
  have chs: "image_bytes bsz (image_chunks n rs) = image_bytes bsz body @ gap"
    by (simp add: image_chunks_def body_def gap_def blk_def image_bytes_def)
  have c2: "padded (off + length gap) (content s2 d) = padded 28 [] @ image_bytes bsz body @ gap"
    "length (content s2 d) \<le> off + length gap" "blk < n \<Longrightarrow> length (content s2 d) = off + length gap"
  proof -
    have "content s2 d = padded off (content s1 d) @ gap" if "blk < n"
      using target_put_content [OF run(2) run(3) [folded off_def], of gap] that
      by (simp add: s2_def gap_def)
    then show exact: "blk < n \<Longrightarrow> length (content s2 d) = off + length gap"
      using run(3) by (simp add: off_def)
    from \<open>blk < n \<Longrightarrow> content s2 d = padded off (content s1 d) @ gap\<close>
    show "padded (off + length gap) (content s2 d) = padded 28 [] @ image_bytes bsz body @ gap"
      "length (content s2 d) \<le> off + length gap"
      using run(3,5) by (auto simp: s2_def gap_def off_def padded_def)
  qed
  have w2: "(if blk < n then android_sparse_append_dontcare fd (n - blk) (snd (fileseek fd (int off) s1)) else s1) = s2"
    using run(2) target_write [of fd d "set_position d off s1"]
    by (simp add: s2_def gap_def android_sparse_append_dontcare_def Let_def target_seek)
  have env2: "target_env fd d s2" using run(2) by (simp add: s2_def)
  define hb where "hb = encode_sparse_header (image_header n rs)"
  define s4 where "s4 = put d hb (set_position d 0 s2)"
  have w4: "snd (sys_write fd hb (snd (fileseek fd 0 s2))) = s4"
    using target_write [of fd d "set_position d 0 s2" hb] target_seek [OF env2, of 0] env2 by (simp add: s4_def hb_def)
  have d: "d < length (open_files s2)" "sys_ok s2" using env2 by (auto simp: target_env_def sys_ok_ofd)
  have c4: "content s4 d = hb @ drop 28 (content s2 d)"
    using d by (simp add: s4_def put_content overlay_def hb_def)
  have "padded (off + length gap) (content s4 d) = hb @ drop 28 (padded (off + length gap) (content s2 d))"
    unfolding c4 using c2(2) by (auto simp: padded_def hb_def off_def)
  then have "padded (off + length gap) (content s4 d) = hb @ image_bytes bsz body @ gap"
    unfolding c2(1) by (simp add: padded_def)
  moreover have "content s4 d = hb @ drop 28 (padded (off + length gap) (content s2 d))" if "full rs"
  proof (cases "blk < n \<or> rs \<noteq> []")
    case True
    then have "length (content s2 d) = off + length gap"
      using c2(3) run(4) \<open>full rs\<close> by (cases "blk < n") (auto simp: s2_def gap_def off_def)
    then show ?thesis unfolding c4 by (simp add: padded_def)
  next
    case False
    then have "off + length gap = 28" by (simp add: off_def gap_def body_def image_bytes_def)
    with c2(2) show ?thesis unfolding c4 by simp
  qed
  then have "content s4 d = hb @ image_bytes bsz body @ gap" if "full rs"
    using that unfolding c2(1) by (simp add: padded_def)
  moreover have "android_sparse_finish input fd cb p s = Ok (r, android_sparse_free input, p1, s4)"
  proof -
    have chunks2: "(if blk < n then length body + 1 else length body) = length (image_chunks n rs)"
      by (simp add: image_chunks_def body_def blk_def)
    have "\<not> (rs \<noteq> [] \<and> r < 0)" using run(1) by (auto split: if_splits)
    then show ?thesis
      using run(6) w2 w4 assms(3-6) chunks2
      by (cases "blk < n") (auto simp: android_sparse_finish_def sparse_header_size_def n_def [symmetric] off_def [symmetric] hb_def image_header_def Let_def)
  qed
  moreover have "0 \<le> r \<longleftrightarrow> rs \<noteq> []" using run(1) by (auto split: if_splits)
  moreover have "target_env fd d s4" using env2 by (simp add: s4_def)
  ultimately show ?thesis unfolding n_def [symmetric] chs by (auto simp: off_def hb_def add.assoc)
qed

end

section \<open>The image of a set of blocks\<close>

definition slice :: "bytes \<Rightarrow> nat \<Rightarrow> nat \<Rightarrow> nat \<Rightarrow> bytes" where
  "slice img bsz nr n = take (n * bsz) (drop (nr * bsz) img)"

text \<open>The raw image with zeros in the blocks that are not selected.\<close>

definition masked :: "(nat \<Rightarrow> bool) \<Rightarrow> bytes \<Rightarrow> nat \<Rightarrow> nat list \<Rightarrow> bytes" where
  "masked P img bsz ks = concat (map (\<lambda>k. if P k then slice img bsz k 1 else replicate bsz 0) ks)"

lemma masked_append: "masked P img bsz (xs @ ys) = masked P img bsz xs @ masked P img bsz ys"
  by (simp add: masked_def)

lemma masked_none: "\<forall>k \<in> set ks. \<not> P k \<Longrightarrow> masked P img bsz ks = replicate (length ks * bsz) 0"
  by (induction ks) (simp_all add: masked_def replicate_add)

lemma masked_all:
  "\<lbrakk>\<forall>k \<in> {nr..<nr + n}. P k; (nr + n) * bsz \<le> length img\<rbrakk> \<Longrightarrow> masked P img bsz [nr..<nr + n] = slice img bsz nr n"
proof (induction n)
  case 0
  then show ?case by (simp add: masked_def slice_def)
next
  case (Suc n)
  have "slice img bsz nr (Suc n) = take (n * bsz + bsz) (drop (nr * bsz) img)"
    by (simp add: slice_def add.commute)
  moreover have "slice img bsz (nr + n) 1 = take bsz (drop (n * bsz) (drop (nr * bsz) img))"
    by (simp add: slice_def distrib_right add.commute)
  ultimately have "slice img bsz nr (Suc n) = slice img bsz nr n @ slice img bsz (nr + n) 1"
    by (simp only: take_add slice_def)
  moreover have "masked P img bsz [nr..<nr + n] = slice img bsz nr n"
    using Suc.prems by (intro Suc.IH) auto
  ultimately show ?case using Suc.prems(1) by (simp add: masked_append) (simp add: masked_def)
qed

lemma length_slice: "(nr + n) * bsz \<le> length img \<Longrightarrow> length (slice img bsz nr n) = n * bsz"
  by (simp add: slice_def distrib_right)

lemma run_bits_ge: "runs_ok blk rs \<Longrightarrow> k \<in> set (run_bits rs) \<Longrightarrow> blk \<le> k"
proof (induction rs arbitrary: blk)
  case Nil
  then show ?case by (simp add: run_bits_def)
next
  case (Cons run rs)
  obtain st n where run: "run = (st, n)" by (cases run)
  have "k \<in> {nat st..<nat (st + n)} \<or> k \<in> set (run_bits rs)" using Cons.prems(2) by (auto simp: run_bits_def run)
  then show ?case
    using Cons.IH [of "nat (st + n)"] Cons.prems(1) by (auto simp: run)
qed

text \<open>The runs of a predicate, one by one: nothing before the first, all of it, and the rest behind it.\<close>

lemma runs_split:
  assumes "runs_ok blk ((st, n) # rs)" "run_bits ((st, n) # rs) = filter P [blk..<N]"
  shows "blk \<le> nat st" "nat (st + n) \<le> N" "nat (st + n) = nat st + nat n" "\<forall>k \<in> {blk..<nat st}. \<not> P k"
    "\<forall>k \<in> {nat st..<nat st + nat n}. P k" "run_bits rs = filter P [nat (st + n)..<N]" "runs_ok (nat (st + n)) rs" "0 < nat n"
proof -
  show add: "nat (st + n) = nat st + nat n" and le: "blk \<le> nat st" and rest: "runs_ok (nat (st + n)) rs" and pos: "0 < nat n"
    using assms(1) by (auto simp: nat_add_distrib)
  have bits: "[nat st..<nat st + nat n] @ run_bits rs = filter P [blk..<N]"
    using assms(2) add by (simp add: run_bits_def)
  have mem: "k \<in> {nat st..<nat st + nat n} \<or> k \<in> set (run_bits rs) \<longleftrightarrow> P k \<and> blk \<le> k \<and> k < N" for k
    using arg_cong [OF bits, of "\<lambda>l. k \<in> set l"] by auto
  have last: "P (nat st + nat n - 1) \<and> nat st + nat n - 1 < N"
    using mem [of "nat st + nat n - 1"] pos by auto
  then show N: "nat (st + n) \<le> N" using add pos by linarith
  show none: "\<forall>k \<in> {blk..<nat st}. \<not> P k"
  proof
    fix k assume k: "k \<in> {blk..<nat st}"
    have "k \<notin> set (run_bits rs)" using run_bits_ge [OF rest, of k] k add by auto
    then show "\<not> P k" using mem [of k] k N add by auto
  qed
  show all: "\<forall>k \<in> {nat st..<nat st + nat n}. P k" using mem [THEN iffD1, OF disjI1] by blast
  have "[blk..<N] = [blk..<nat st] @ [nat st..<nat st + nat n] @ [nat (st + n)..<N]"
    using le N add upt_split [of blk "nat st" N] upt_split [of "nat st" "nat st + nat n" N] by simp
  then have "filter P [blk..<N] = [nat st..<nat st + nat n] @ filter P [nat (st + n)..<N]"
    using none all by (simp add: filter_False filter_True)
  then show "run_bits rs = filter P [nat (st + n)..<N]" using bits by simp
qed

definition with_gap :: "(nat \<Rightarrow> nat \<Rightarrow> bytes) \<Rightarrow> nat \<Rightarrow> nat \<Rightarrow> (int \<times> int) list \<Rightarrow> sparse_chunk list" where
  "with_gap block N blk rs = body_chunks block blk rs @ (if end_block blk rs < N then [Gap (N - end_block blk rs)] else [])"

lemma with_gap_Cons:
  "with_gap block N blk ((st, n) # rs) = body_chunks block blk [(st, n)] @ with_gap block N (nat (st + n)) rs"
  by (simp add: with_gap_def)

text \<open>The chunks stand for the selected blocks, there are at most as many as blocks, and they fit into the headers.\<close>

lemma expand_runs:
  assumes "\<And>nr n. nr + n \<le> N \<Longrightarrow> block nr n = slice img bsz nr n" "length img = N * bsz"
  shows "\<lbrakk>runs_ok blk rs; run_bits rs = filter P [blk..<N]; blk \<le> N\<rbrakk> \<Longrightarrow>
    image_expand bsz (with_gap block N blk rs) = masked P img bsz [blk..<N] \<and> length (with_gap block N blk rs) \<le> N - blk \<and>
    (N * bsz + 12 < 2 ^ 32 \<and> 0 < bsz \<longrightarrow> list_all (chunk_fits bsz) (with_gap block N blk rs)) \<and>
    (\<forall>(st, n) \<in> set rs. nat st + nat n \<le> N \<and> 0 < nat n)"
proof (induction rs arbitrary: blk)
  case Nil
  then have "filter P [blk..<N] = []" by (simp add: run_bits_def)
  then have "\<forall>k \<in> set [blk..<N]. \<not> P k" by (simp add: filter_empty_conv)
  then have m: "masked P img bsz [blk..<N] = replicate ((N - blk) * bsz) 0" using masked_none by simp
  have "N - blk < 2 ^ 32" "(N - blk) * bsz < 2 ^ 32" if "N * bsz + 12 < 2 ^ 32" "0 < bsz"
  proof -
    have "(N - blk) * bsz \<le> N * bsz" "N \<le> N * bsz" using that(2) by simp_all
    with that(1) show "N - blk < 2 ^ 32" "(N - blk) * bsz < 2 ^ 32" by linarith+
  qed
  then show ?case using m by (auto simp: with_gap_def image_expand_def)
next
  case (Cons run rs)
  obtain st n where run: "run = (st, n)" by (cases run)
  note sp = runs_split [OF Cons.prems(1,2) [unfolded run]]
  have IH: "image_expand bsz (with_gap block N (nat (st + n)) rs) = masked P img bsz [nat (st + n)..<N]"
    "length (with_gap block N (nat (st + n)) rs) \<le> N - nat (st + n)"
    "N * bsz + 12 < 2 ^ 32 \<and> 0 < bsz \<Longrightarrow> list_all (chunk_fits bsz) (with_gap block N (nat (st + n)) rs)"
    "\<forall>(st, n) \<in> set rs. nat st + nat n \<le> N \<and> 0 < nat n"
    using Cons.IH [OF sp(7,6,2)] by blast+
  have whole: "(nat st + nat n) * bsz \<le> length img" using sp(2,3) assms(2) by simp
  have blk: "block (nat st) (nat n) = slice img bsz (nat st) (nat n)" using assms(1) sp(2,3) by simp
  have "masked P img bsz [blk..<N] = masked P img bsz [blk..<nat st] @ masked P img bsz [nat st..<nat st + nat n]
      @ masked P img bsz [nat (st + n)..<N]"
    unfolding masked_append [symmetric] using sp(1-3) upt_split [of blk "nat st" N] upt_split [of "nat st" "nat st + nat n" N] by simp
  also have "masked P img bsz [blk..<nat st] = replicate ((nat st - blk) * bsz) 0" using masked_none sp(4) by simp
  also have "masked P img bsz [nat st..<nat st + nat n] = slice img bsz (nat st) (nat n)" by (rule masked_all [OF sp(5) whole])
  finally have ex: "image_expand bsz (with_gap block N blk (run # rs)) = masked P img bsz [blk..<N]"
    using IH(1) blk sp(1) by (auto simp: run with_gap_Cons image_expand_def)
  have len: "length (with_gap block N blk (run # rs)) \<le> N - blk"
  proof -
    have "length (body_chunks block blk [(st, n)]) \<le> (nat st - blk) + nat n" using sp(1,8) by auto
    then show ?thesis using IH(2) sp(1-3) unfolding run with_gap_Cons length_append by linarith
  qed
  have fits: "list_all (chunk_fits bsz) (with_gap block N blk (run # rs))" if b: "N * bsz + 12 < 2 ^ 32 \<and> 0 < bsz"
  proof -
    have "(nat st - blk) * bsz \<le> N * bsz" "nat n * bsz \<le> N * bsz" using sp(2,3) by (simp_all only: mult_le_mono1)
    moreover have "nat st - blk \<le> (nat st - blk) * bsz" using b by simp
    ultimately have "(nat st - blk) * bsz < 2 ^ 32" "nat st - blk < 2 ^ 32" "nat n * bsz + 12 < 2 ^ 32" using b by linarith+
    then show ?thesis using IH(3) [OF b] by (simp add: run with_gap_Cons blk length_slice [OF whole])
  qed
  show ?case using ex len fits IH(4) sp(2,3,8) by (simp add: run)
qed

lemma separated_runs_ok:
  "\<lbrakk>separated rs; \<forall>(st, n) \<in> set rs. int blk \<le> st \<and> st + n < 2 ^ 31\<rbrakk> \<Longrightarrow> runs_ok blk rs"
proof (induction rs arbitrary: blk)
  case Nil
  then show ?case by simp
next
  case (Cons run rs)
  obtain st n where run: "run = (st, n)" by (cases run)
  have sep: "\<forall>(st', n') \<in> set rs. st + n < st'" "separated rs" "0 < n"
    using Cons.prems(1) by (auto simp: separated_def run)
  have "0 \<le> st" using Cons.prems(2) by (auto simp: run)
  have "runs_ok (nat (st + n)) rs"
    using sep Cons.prems(2) \<open>0 \<le> st\<close> by (intro Cons.IH) force+
  then show ?case using Cons.prems(2) sep(3) by (simp add: run)
qed

text \<open>The runs that the iteration over a bitmask delivers.\<close>

lemma bitmask_runs_chunks:
  assumes "wf_bitmask b" "bitmask.total_bits b < 2 ^ 31"
  obtains rs where "bitmask_runs (Suc (bitmask.total_bits b)) b = Some rs" "runs_ok 0 rs"
    "run_bits rs = filter (one b) [0..<bitmask.total_bits b]"
proof -
  obtain rs where rs: "bitmask_runs (Suc (bitmask.total_bits b)) b = Some rs"
    "run_bits rs = filter (one b) [0..<bitmask.total_bits b]" "separated rs" "\<forall>(s, n) \<in> set rs. 0 \<le> s \<and> one b (nat s)"
    by (rule bitmask_runs_ok [OF assms])
  have "int 0 \<le> st \<and> st + n < 2 ^ 31" if "(st, n) \<in> set rs" for st n
  proof -
    have n: "0 \<le> st" "0 < n" using rs(3,4) that by (auto simp: separated_def)
    then have "nat (st + n) - 1 \<in> set (run_bits rs)" using that by (force simp: run_bits_def)
    then have "nat (st + n) - 1 < bitmask.total_bits b" unfolding rs(2) by simp
    then have "nat (st + n) < 2 ^ 31" using assms(2) by linarith
    with n(1) show ?thesis by (simp add: nat_less_iff)
  qed
  then have "runs_ok 0 rs" by (intro separated_runs_ok [OF rs(3)]) auto
  with rs show ?thesis by (intro that)
qed

text \<open>The detector on a file that starts with a header.\<close>

lemma sparse_detect_header:
  assumes "unpack_env fd fdout d e (encode_sparse_header h @ rest) t" "position (open_files t ! d) = 0"
    and "magic h = SPARSE_HEADER_MAGIC" "major_version h = 1" "minor_version h = 0" "file_hdr_sz h = 28"
  shows "sparse_detect fd ed t = (0, ed\<lparr>sp_head := h\<rparr>, set_position d 28 t)"
proof -
  have d: "d < length (open_files t)" using assms(1) by (auto simp: unpack_env_def sys_ok_ofd)
  have "read_into fd (encode_sparse_header (sp_head ed)) (set_position d 0 t) =
      (28, encode_sparse_header h, set_position d 28 t)"
    using read_next [OF assms(1), where off = 0 and old = "encode_sparse_header (sp_head ed)"] by (simp add: dd_max_bufsz_def)
  moreover have "set_position d 0 t = t" using set_position_same [OF d] assms(2) by simp
  ultimately show ?thesis using assms(3-6) by (simp add: sparse_detect_def)
qed

text \<open>C1: a filesystem whose callback writes its blocks gets an image that is accepted by the detector and expands to the
  filesystem with zeros in the blocks that were not added. The status of the writer is an error exactly when no block was
  added, although the image is written then too.\<close>

theorem sparse_image_roundtrip:
  assumes "chunk_bitmasks input = Some b" "wf_bitmask b" "bitmask.total_bits b = total_blks input" "total_blks input < 2 ^ 31"
    and "input_error input = 0" "0 < total_blks input" "0 < blksz input" "4 dvd blksz input" "total_blks input * blksz input + 12 < 2 ^ 32"
    and "length img = total_blks input * blksz input"
    and cb: "\<And>fd d nr n p s. \<lbrakk>target_env fd d s; nr < 2 ^ 31; 0 < n; n < 2 ^ 31\<rbrakk> \<Longrightarrow>
      \<exists>r p'. 0 \<le> r \<and> cb fd \<lparr>fs_blocknr = word_of_nat nr, chunk_count = word_of_nat n\<rparr> p s =
        (r, p', put d (slice img (blksz input) nr n) s)"
    and "target_env fd d s" "content s d = []"
  shows "\<exists>r p' s'. android_sparse_finish input fd cb p s = Ok (r, android_sparse_free input, p', s') \<and>
    (0 \<le> r \<longleftrightarrow> (\<exists>k < total_blks input. bitmask_get b k = 1)) \<and>
    (\<forall>t fdin fdout din e ed fill buf.
       unpack_env fdin fdout din e (content s' d) t \<and> position (open_files t ! din) = 0 \<and> length fill = 4 \<longrightarrow>
       (\<exists>ed' t1 t2. sparse_detect fdin ed t = (0, ed', t1) \<and>
          sparse_unpack2fd (Some buf) ed' fdin fdout [] fill t1 = (0, t2) \<and>
          content t2 e = overlay (content t e) 0
            (masked (\<lambda>k. bitmask_get b k = 1) img (blksz input) [0..<total_blks input])))"
proof -
  define bsz where "bsz = blksz input"
  define N where "N = total_blks input"
  obtain rs where rs: "bitmask_runs (Suc (bitmask.total_bits b)) b = Some rs" "runs_ok 0 rs"
    "run_bits rs = filter (one b) [0..<N]"
    using bitmask_runs_chunks [OF assms(2)] assms(3,4) unfolding N_def by metis
  have bits: "masked (\<lambda>k. bitmask_get b k = 1) img bsz [0..<N] = masked (one b) img bsz [0..<N]"
    unfolding masked_def using assms(3) by (intro arg_cong [of _ _ concat] map_cong) (auto simp: bitmask_get_one N_def)
  have some: "rs \<noteq> [] \<longleftrightarrow> (\<exists>k < N. bitmask_get b k = 1)"
  proof -
    have "rs \<noteq> [] \<longleftrightarrow> run_bits rs \<noteq> []"
      using rs(2) by (cases rs) (auto simp: run_bits_def)
    also have "\<dots> \<longleftrightarrow> (\<exists>k < N. one b k)" unfolding rs(3) by (auto simp: filter_empty_conv)
    also have "\<dots> \<longleftrightarrow> (\<exists>k < N. bitmask_get b k = 1)"
      using assms(3) by (intro ex_cong) (auto simp: bitmask_get_one N_def)
    finally show ?thesis .
  qed
  have target: "sparse_target cb (slice img bsz) bsz"
    using cb assms(7) by unfold_locales (simp_all add: bsz_def slice_def)
  note W = sparse_target.finish_written [OF target assms(12,13,1,5) bsz_def [symmetric] rs(1,2), folded N_def]
  define chs where "chs = sparse_target.image_chunks (slice img bsz) bsz N rs"
  define h where "h = sparse_target.image_header (slice img bsz) bsz N rs"
  have lenimg: "length img = N * bsz" using assms(10) by (simp add: N_def bsz_def)
  have block: "sparse_target.block (slice img bsz) bsz nr n = slice img bsz nr n" if "nr + n \<le> N" for nr n
    using length_slice [of nr n bsz img] that lenimg
    by (simp add: sparse_target.block_def [OF target] padded_def)
  have gap: "chs = with_gap (sparse_target.block (slice img bsz) bsz) N 0 rs"
    by (simp add: chs_def sparse_target.image_chunks_def [OF target] with_gap_def)
  have ex: "image_expand bsz chs = masked (one b) img bsz [0..<N]" "length chs \<le> N" "list_all (chunk_fits bsz) chs"
    "\<forall>(st, n) \<in> set rs. nat st + nat n \<le> N \<and> 0 < nat n"
    using expand_runs [OF block lenimg rs(2,3)] assms(7,9) unfolding gap by (simp_all add: N_def bsz_def)
  have "sparse_target.full (slice img bsz) bsz rs"
    using ex(4) length_slice [of _ _ bsz img] lenimg by (fastforce simp: sparse_target.full_def [OF target])
  with W obtain r p' s' where fin: "android_sparse_finish input fd cb p s = Ok (r, android_sparse_free input, p', s')"
    "0 \<le> r \<longleftrightarrow> rs \<noteq> []" "content s' d = encode_sparse_header h @ image_bytes bsz chs"
    unfolding chs_def h_def by blast
  have "bsz \<le> N * bsz" "N \<le> N * bsz" using assms(6,7) by (simp_all add: N_def bsz_def)
  moreover have "N * bsz < 2 ^ 32" using assms(9) by (simp add: N_def bsz_def)
  ultimately have small: "N < 2 ^ 32" "bsz < 2 ^ 32" by linarith+
  have h: "magic h = SPARSE_HEADER_MAGIC" "major_version h = 1" "minor_version h = 0" "file_hdr_sz h = 28"
    "unat (total_chunks h) = length chs" "bsz = unat (blk_sz h)"
    using small ex(2) unat_small [of "length chs"] unat_small [OF small(2)]
    by (simp_all add: h_def sparse_target.image_header_def [OF target] chs_def)
  have "\<exists>ed' t1 t2. sparse_detect fdin ed t = (0, ed', t1) \<and>
      sparse_unpack2fd (Some buf) ed' fdin fdout [] fill t1 = (0, t2) \<and>
      content t2 e = overlay (content t e) 0 (masked (one b) img bsz [0..<N])"
    if t: "unpack_env fdin fdout din e (content s' d) t" "position (open_files t ! din) = 0" "length fill = 4"
    for t fdin fdout din e ed fill buf
  proof -
    have env: "unpack_env fdin fdout din e (encode_sparse_header h @ image_bytes bsz chs @ []) t"
      using t(1) fin(3) by simp
    have detect: "sparse_detect fdin ed t = (0, ed\<lparr>sp_head := h\<rparr>, set_position din 28 t)"
      by (rule sparse_detect_header [OF env t(2) h(1-4)])
    have "unpack_env fdin fdout din e (encode_sparse_header h @ image_bytes bsz chs @ []) (set_position din 28 t)"
      using env by simp
    from unpack_sparse [OF this _ h(4,5,6) _ ex(3) t(3), of "ed\<lparr>sp_head := h\<rparr>" "[]" buf]
    obtain t2 where "sparse_unpack2fd (Some buf) (ed\<lparr>sp_head := h\<rparr>) fdin fdout [] fill (set_position din 28 t) = (0, t2)"
      "content t2 e = overlay (content t e) 0 (image_expand bsz chs)"
      using assms(8) by (auto simp: bsz_def)
    with detect ex(1) show ?thesis by auto
  qed
  then show ?thesis
    unfolding N_def [symmetric] bsz_def [symmetric] bits some [symmetric] using fin(1,2) by blast
qed

text \<open>The callback of the self test writes eight bytes for every chunk, whatever its size.\<close>

interpretation gentest: sparse_target sparse_gentest_write_chunk
  "\<lambda>nr n. w32 (word_of_nat nr) @ w32 (word_of_nat n)" 4096
proof unfold_locales
  fix fd d nr n and s and p :: unit
  assume env: "target_env fd d s"
  have d: "d < length (open_files s)" "sys_ok s" using env by (auto simp: target_env_def sys_ok_ofd)
  have "snd (sys_write fd (w32 b) (snd (sys_write fd (w32 a) s))) = put d (w32 a @ w32 b) s" for a b
    using target_write [OF env] target_write [of fd d "put d (w32 a) s"] env d by (simp add: put_put)
  then show "\<exists>r p'. 0 \<le> r \<and> sparse_gentest_write_chunk fd \<lparr>fs_blocknr = word_of_nat nr, chunk_count = word_of_nat n\<rparr> p s =
      (r, p', put d (w32 (word_of_nat nr) @ w32 (word_of_nat n)) s)"
    by (simp add: sparse_gentest_write_chunk_def)
qed simp_all

section \<open>Images to try the theorems on\<close>

lemma demo_unpack_env: "unpack_env 0 1 0 1 c (demo_sys c)"
  using demo_sys_ok by (auto simp: unpack_env_def) (simp_all add: demo_sys_def dd_max_bufsz_def)

lemma four_zeros: "replicate 4 (0 :: u8) = [0, 0, 0, 0]"
  by (simp add: numeral_eq_Suc)

definition demo_header :: "nat \<Rightarrow> sparse_header" where
  "demo_header n = \<lparr>magic = SPARSE_HEADER_MAGIC, major_version = 1, minor_version = 0, file_hdr_sz = 28, chunk_hdr_sz = 12,
     blk_sz = 4, hdr_total_blks = 3, total_chunks = word_of_nat n, image_checksum = 0\<rparr>"

theorem sparse_unpack_expands_witness:
  "\<exists>s'. sparse_unpack2fd (Some (\<lambda>_. 7)) \<lparr>sp_head = demo_header 3\<rparr> 0 1 [] [0, 0, 0, 0]
      (demo_sys (encode_sparse_header (demo_header 3) @ image_bytes 4 [Raw [1, 2, 3, 4], Gap 1, Fill [9, 8, 9, 8] 1] @ [])) = (0, s') \<and>
    content s' 1 = [1, 2, 3, 4, 0, 0, 0, 0, 9, 8, 9, 8]"
proof -
  let ?chs = "[Raw [1, 2, 3, 4], Gap 1, Fill [9, 8, 9, 8] 1]"
  have "image_expand 4 ?chs = [1, 2, 3, 4, 0, 0, 0, 0, 9, 8, 9, 8]"
    by (simp add: image_expand_def four_zeros)
  moreover have "chunk_fits 4 ch" if "ch \<in> set ?chs" for ch using that by auto
  then have "list_all (chunk_fits 4) ?chs" by (simp only: list_all_iff) blast
  moreover have "unat (total_chunks (demo_header 3)) = length ?chs" "4 = unat (blk_sz (demo_header 3))"
    "file_hdr_sz (demo_header 3) = 28"
    by (simp_all add: demo_header_def)
  ultimately obtain s' where "sparse_unpack2fd (Some (\<lambda>_. 7)) \<lparr>sp_head = demo_header 3\<rparr> 0 1 [] [0, 0, 0, 0]
      (demo_sys (encode_sparse_header (demo_header 3) @ image_bytes 4 ?chs @ [])) = (0, s')"
    "content s' 1 = overlay [1, 2, 3] 0 [1, 2, 3, 4, 0, 0, 0, 0, 9, 8, 9, 8]"
    using sparse_unpack_expands [OF demo_unpack_env, where h = "demo_header 3" and bsz = 4 and chs = ?chs and rest = "[]" and
        p = "\<lparr>sp_head = demo_header 3\<rparr>" and fill = "[0, 0, 0, 0]" and argv = "[]" and buf = "\<lambda>_. 7"]
    unfolding demo_sys_ok by fastforce
  then show ?thesis by (intro exI [of _ s'] conjI) (simp_all add: overlay_def)
qed

definition demo_slice_cb :: "bytes \<Rightarrow> unit android_sparse_write_t" where
  "demo_slice_cb img fd chunk p s =
     (0, p, snd (sys_write fd (slice img 4 (unat (fs_blocknr chunk)) (unat (chunk_count chunk))) s))"

definition demo_bitmask :: bitmask where
  "demo_bitmask = \<lparr>bitmask.total_bits = 3, bufsize = 1, buffer = [0x40]\<rparr>"

definition demo_input :: android_sparse_input where
  "demo_input = \<lparr>blksz = 4, total_blks = 3, input_error = 0,
     chunk_bitmasks = Some demo_bitmask\<rparr>"

lemma demo_slice_cb:
  assumes "target_env fd d s" "nr < 2 ^ 31" "0 < n" "n < 2 ^ 31" "length img \<le> 2 ^ 20"
  shows "\<exists>r p'. 0 \<le> r \<and> demo_slice_cb img fd \<lparr>fs_blocknr = word_of_nat nr, chunk_count = word_of_nat n\<rparr> p s =
     (r, p', put d (slice img 4 nr n) s)"
proof -
  have "length (slice img 4 nr n) \<le> 2 ^ 20" using assms(5) by (simp add: slice_def)
  then show ?thesis
    using target_write [OF assms(1), of "slice img 4 nr n"] assms(2,4) unat_small [of nr] unat_small [of n]
    by (simp add: demo_slice_cb_def)
qed

theorem sparse_image_roundtrip_witness:
  "\<exists>r s' ed' t1 t2. android_sparse_finish demo_input 0 (demo_slice_cb [1, 2, 3, 4, 5, 6, 7, 8, 9, 10, 11, 12]) () (demo_sys []) =
      Ok (r, android_sparse_free demo_input, (), s') \<and> 0 \<le> r \<and>
    sparse_detect 0 \<lparr>sp_head = demo_header 0\<rparr> (set_position 0 0 (demo_sys (content s' 0))) = (0, ed', t1) \<and>
    sparse_unpack2fd (Some (\<lambda>_. 7)) ed' 0 1 [] [0, 0, 0, 0] t1 = (0, t2) \<and>
    content t2 1 = [0, 0, 0, 0, 5, 6, 7, 8, 0, 0, 0, 0]"
proof -
  let ?b = demo_bitmask
  let ?img = "[1, 2, 3, 4, 5, 6, 7, 8, 9, 10, 11, 12] :: bytes"
  have wf: "wf_bitmask ?b" "bitmask.total_bits ?b = 3" by (simp_all add: wf_bitmask_def aligned_bytes_def demo_bitmask_def)
  have bits: "bitmask_get ?b k = (if 3 \<le> k then -1 else if k = 1 then 1 else 0)" for k
    using less_Suc_eq [of k 2]
    by (auto simp: demo_bitmask_def bitmask_get_one one_def bit_numeral_rec less_Suc_eq numeral_3_eq_3 not_le)
  have env: "target_env 0 0 (demo_sys [])"
    using demo_sys_ok by (auto simp: target_env_def) (simp add: demo_sys_def dd_max_bufsz_def)
  have masked: "masked (\<lambda>k. bitmask_get ?b k = 1) ?img 4 [0..<3] = [0, 0, 0, 0, 5, 6, 7, 8, 0, 0, 0, 0]"
    by (simp add: masked_def bits slice_def upt_conv_Cons four_zeros)
  have inp: "chunk_bitmasks demo_input = Some ?b" "total_blks demo_input = 3" "blksz demo_input = 4" "input_error demo_input = 0"
    by (simp_all add: demo_input_def)
  have cb: "\<exists>r p'. 0 \<le> r \<and> demo_slice_cb ?img fd \<lparr>fs_blocknr = word_of_nat nr, chunk_count = word_of_nat n\<rparr> p s =
      (r, p', put d (slice ?img (blksz demo_input) nr n) s)"
    if "target_env fd d s" "nr < 2 ^ 31" "0 < n" "n < 2 ^ 31" for fd d nr n p s
    unfolding inp(3) by (rule demo_slice_cb [OF that]) simp
  have some: "\<exists>k < 3. bitmask_get ?b k = 1" using bits by (intro exI [of _ 1]) simp
  have "\<exists>r p' s'. android_sparse_finish demo_input 0 (demo_slice_cb ?img) () (demo_sys []) =
      Ok (r, android_sparse_free demo_input, p', s') \<and> (0 \<le> r \<longleftrightarrow> (\<exists>k < 3. bitmask_get ?b k = 1)) \<and>
    (\<forall>t fdin fdout din e ed fill buf.
       unpack_env fdin fdout din e (content s' 0) t \<and> position (open_files t ! din) = 0 \<and> length fill = 4 \<longrightarrow>
       (\<exists>ed' t1 t2. sparse_detect fdin ed t = (0, ed', t1) \<and>
          sparse_unpack2fd (Some buf) ed' fdin fdout [] fill t1 = (0, t2) \<and>
          content t2 e = overlay (content t e) 0 (masked (\<lambda>k. bitmask_get ?b k = 1) ?img 4 [0..<3])))"
    using sparse_image_roundtrip [where cb = "demo_slice_cb ?img" and img = ?img, OF inp(1) wf(1) _ _ inp(4) _ _ _ _ _ cb env,
        where p = "()"]
    unfolding inp wf(2) by (simp add: demo_sys_ok)
  then obtain r s' where fin: "android_sparse_finish demo_input 0 (demo_slice_cb ?img) () (demo_sys []) =
      Ok (r, android_sparse_free demo_input, (), s')" "0 \<le> r"
    and reads: "\<And>t fdin fdout din e ed fill buf.
       \<lbrakk>unpack_env fdin fdout din e (content s' 0) t; position (open_files t ! din) = 0; length fill = 4\<rbrakk> \<Longrightarrow>
       \<exists>ed' t1 t2. sparse_detect fdin ed t = (0, ed', t1) \<and>
          sparse_unpack2fd (Some buf) ed' fdin fdout [] fill t1 = (0, t2) \<and>
          content t2 e = overlay (content t e) 0 (masked (\<lambda>k. bitmask_get ?b k = 1) ?img 4 [0..<3])"
    using some by auto
  let ?t = "set_position 0 0 (demo_sys (content s' 0))"
  have "unpack_env 0 1 0 1 (content s' 0) ?t" "position (open_files ?t ! 0) = 0" "content ?t 1 = [1, 2, 3]"
  proof -
    show "unpack_env 0 1 0 1 (content s' 0) ?t" using demo_unpack_env [of "content s' 0"] by simp
    show "position (open_files ?t ! 0) = 0" by (simp add: demo_sys_def set_position_def)
    show "content ?t 1 = [1, 2, 3]" unfolding content_set_position by (rule demo_sys_ok)
  qed
  from reads [OF this(1,2), of "[0, 0, 0, 0]" "\<lparr>sp_head = demo_header 0\<rparr>" "\<lambda>_. 7"] this(3) fin
  show ?thesis unfolding masked by (auto simp: overlay_def)
qed

end
