(* ===== verification/Uenv.thy ===== *)
theory Uenv
  imports Files Strings Crc
begin

text \<open>
  The u-boot environment editor (u-boot/uenv.c): finding the size of an image by its checksum, listing it as text and
  packing such a text. The tables of \<open>crc32\<close> are passed along. The text file is the characters left in it.
\<close>

definition ENV_PART_MAIN :: int where "ENV_PART_MAIN = 0"
definition ENV_PART_REDUND :: int where "ENV_PART_REDUND = 1"
definition UENV_MINIMUM_SIZE :: int where "UENV_MINIMUM_SIZE = 2048"
definition UENV_MAXIMUM_SIZE :: int where "UENV_MAXIMUM_SIZE = 0x200000"

record uenv_editor_private_data =
  env_size :: int

text \<open>The scanner that \<open>dd\<close> calls; it leaves the buffer alone.\<close>

definition uenv_calc_crc :: "(libcrc32 list \<times> u32) bufscan" where
  "uenv_calc_crc buf p = (buf, crc32 (fst p) (snd p) buf)"

text \<open>\<open>aligned_length\<close> of imgeditor.h, with the division of C.\<close>

definition aligned_length :: "int \<Rightarrow> int \<Rightarrow> int" where
  "aligned_length len align = (len + align - 1) div align * align"

section \<open>Detection\<close>

definition better_sz :: int where "better_sz = 0x20000"

text \<open>The loop: the sizes that are tried, each with a checksum over what \<open>dd\<close> scans behind the first four bytes.\<close>

function uenv_try_sizes ::
    "(nat \<Rightarrow> u8) option \<Rightarrow> int \<Rightarrow> u32 \<Rightarrow> int \<Rightarrow> libcrc32 list \<Rightarrow> sys \<Rightarrow> int option \<times> libcrc32 list \<times> sys" where
  "uenv_try_sizes garbage fd crc_expected sz algos s =
     (if sz > UENV_MINIMUM_SIZE then
        case dd garbage fd (-1) 4 (-1) (nat (sz - 4)) (Some uenv_calc_crc) (algos, 0) s of
          (_, (algos', crc), s') \<Rightarrow>
            if crc = crc_expected then (Some sz, algos', s')
            else uenv_try_sizes garbage fd crc_expected (if sz > better_sz then sz - better_sz else sz div 2) algos' s'
      else (None, algos, s))"
  by pat_completeness auto

termination
  by (relation "measure (\<lambda>(garbage, fd, crc_expected, sz, algos, s). nat sz)")
     (auto simp: UENV_MINIMUM_SIZE_def better_sz_def)

declare uenv_try_sizes.simps [simp del]

text \<open>\<open>old\<close> is what the four bytes on the stack are when the read is short.\<close>

definition uenv_auto_detect_filesize ::
    "(nat \<Rightarrow> u8) option \<Rightarrow> bytes \<Rightarrow> int \<Rightarrow> int \<Rightarrow> libcrc32 list \<Rightarrow> sys \<Rightarrow> int \<times> int \<times> libcrc32 list \<times> sys" where
  "uenv_auto_detect_filesize garbage old fd filesz algos s =
     (let (len, s1) = filelength fd s;
          sz = (if len \<ge> UENV_MAXIMUM_SIZE then UENV_MAXIMUM_SIZE else aligned_length len better_sz);
          (_, data, s2) = sys_read fd 4 s1;
          crc_expected = word_of_nat (le_decode (take 4 (data @ drop (length data) old)))
      in case uenv_try_sizes garbage fd crc_expected sz algos s2 of
           (Some found, algos', s3) \<Rightarrow> (0, found, algos', s3)
         | (None, algos', s3) \<Rightarrow> (-1, filesz, algos', s3))"

definition uenv_detect ::
    "(nat \<Rightarrow> u8) option \<Rightarrow> bytes \<Rightarrow> uenv_editor_private_data \<Rightarrow> bool \<Rightarrow> int \<Rightarrow> libcrc32 list \<Rightarrow> sys
      \<Rightarrow> int \<times> uenv_editor_private_data \<times> libcrc32 list \<times> sys" where
  "uenv_detect garbage old p force_type fd algos s =
     (if \<not> force_type then (-1, p, algos, s)
      else case uenv_auto_detect_filesize garbage old fd (env_size p) algos s of
          (ret, sz, algos', s') \<Rightarrow> (ret, p\<lparr>env_size := sz\<rparr>, algos', s'))"

section \<open>Listing\<close>

text \<open>The loop over the bytes from \<open>s\<close> on, of which \<open>n\<close> may be looked at; the byte behind the last one is there.\<close>

fun uenv_print :: "nat \<Rightarrow> bytes \<Rightarrow> string" where
  "uenv_print 0 s = []"
| "uenv_print (Suc n) s =
     (let c = hd s in
      if c = 13 then CHR 0x5c # ''r'' @ uenv_print n (List.tl s)
      else if c = 10 then CHR 0x5c # ''n'' @ [newline] @ uenv_print n (List.tl s)
      else if c = 0 then newline # (if hd (List.tl s) = 0 then [] else uenv_print n (List.tl s))
      else char_of (unat c) # uenv_print n (List.tl s))"

text \<open>\<open>buf\<close> is what \<open>malloc\<close> returned, at least as long as the environment; the read may leave its end as it was.\<close>

definition uenv_list :: "uenv_editor_private_data \<Rightarrow> int \<Rightarrow> bytes option \<Rightarrow> sys \<Rightarrow> int \<times> string \<times> sys" where
  "uenv_list p fd mem s =
     (case mem of
        None \<Rightarrow> (-1, [], s)
      | Some garbage \<Rightarrow>
          let n = nat (env_size p);
              (_, data, s') = sys_read fd n s;
              buf = drop 4 (take n (data @ drop (length data) garbage));
              part = hd buf;
              is_part = (part = 0 \<or> part = 1);
              title = ''#uEnv '' @ dec_string n @ '' '' @ (if is_part then dec_string (unat part) else []) @ [newline];
              skip = (if is_part then 1 else 0)
          in (0, title @ uenv_print (n - 1 - (4 + skip)) (drop skip buf), s'))"

section \<open>Packing\<close>

text \<open>
  \<open>sscanf(buffer, "#uEnv %ld %d", ...)\<close>: the number of conversions and their values. A space in the format skips any
  white space; \<open>%d\<close> keeps the low 32 bits.
\<close>

definition scan_number :: "string \<Rightarrow> (int \<times> string) option" where
  "scan_number s = (let s1 = dropWhile isspace s; (v, endp) = strtol 10 s1 in if endp = s1 then None else Some (v, endp))"

definition scan_title :: "string \<Rightarrow> int \<times> int \<times> int \<Rightarrow> int \<times> int \<times> int" where
  "scan_title buffer vals =
     (case vals of (_, esz0, part0) \<Rightarrow>
        if take 5 buffer \<noteq> ''#uEnv'' then (0, esz0, part0)
        else case scan_number (drop 5 buffer) of
            None \<Rightarrow> (0, esz0, part0)
          | Some (esz, rest) \<Rightarrow>
              (case scan_number rest of
                 None \<Rightarrow> (1, esz, part0)
               | Some (part, _) \<Rightarrow> (2, esz, sint (word_of_int part :: u32))))"

definition good_part :: "int \<Rightarrow> bool" where
  "good_part part \<longleftrightarrow> part = ENV_PART_MAIN \<or> part = ENV_PART_REDUND"

text \<open>The title line: the new size and part, and the output filled with zeros. \<open>zero\<close> is the file \<open>/dev/zero\<close>.\<close>

definition uenv_pack_title ::
    "(nat \<Rightarrow> u8) option \<Rightarrow> nat option \<Rightarrow> int \<Rightarrow> string \<Rightarrow> int \<Rightarrow> int \<Rightarrow> sys \<Rightarrow> int \<times> int \<times> int \<times> sys" where
  "uenv_pack_title garbage zero fd_outimg buffer esz0 part0 s =
     (let (n, esz, part) = scan_title buffer (0, esz0, part0)
      in if n < 1 then (-1, esz, part, s)
         else if odd esz then (-1, esz, part, s)
         else if n = 2 \<and> \<not> good_part part then (-1, esz, part, s)
         else
           let (fd_zero, s1) = sys_open zero s;
               s2 = snd (snd (dd garbage fd_zero fd_outimg 0 0 (size_of_int esz) None () s1));
               s3 = sys_close fd_zero s2;
               s4 = snd (lseek_set fd_outimg 4 s3);
               s5 = (if good_part part then snd (sys_write fd_outimg [word_of_int part] s4) else s4)
           in (0, esz, part, s5))"

text \<open>A line of the file in the buffer, without its newline. An empty C string is looked at in front of the buffer.\<close>

definition uenv_line :: "string \<Rightarrow> string cres" where
  "uenv_line linebuf =
     (let buffer = c_string linebuf
      in if buffer = [] then Oob
         else Ok (if last buffer = newline then butlast buffer else buffer))"

definition uenv_pack_line :: "int \<Rightarrow> string \<Rightarrow> sys \<Rightarrow> sys cres" where
  "uenv_pack_line fd_outimg buffer s =
     cbind (string_replace_in_buffer (Suc (length buffer)) buffer 1024 [CHR 0x5c, CHR ''r''] [CHR 0x0d])
       (\<lambda>(_, b1). cbind (string_replace_in_buffer (Suc (length b1)) b1 1024 [CHR 0x5c, CHR ''n''] [CHR 0x0a])
         (\<lambda>(_, b2). Ok (snd (sys_write fd_outimg (bytes_of_string b2 @ [0]) s))))"

function uenv_pack_lines ::
    "(nat \<Rightarrow> u8) option \<Rightarrow> nat option \<Rightarrow> int \<Rightarrow> bool \<Rightarrow> int \<Rightarrow> int \<Rightarrow> string \<Rightarrow> sys \<Rightarrow> (int \<times> int \<times> sys) cres" where
  "uenv_pack_lines garbage zero fd_outimg read_title esz part fp s =
     (case fgets (1024 - 1) fp of
        None \<Rightarrow> Ok (0, esz, s)
      | Some (linebuf, rest) \<Rightarrow>
          cbind (uenv_line linebuf)
            (\<lambda>buffer.
              if \<not> read_title then
                (case uenv_pack_title garbage zero fd_outimg buffer esz part s of
                   (ret, esz', part', s') \<Rightarrow>
                     if ret < 0 then Ok (ret, esz', s')
                     else uenv_pack_lines garbage zero fd_outimg True esz' part' rest s')
              else cbind (uenv_pack_line fd_outimg buffer s)
                     (\<lambda>s'. uenv_pack_lines garbage zero fd_outimg True esz part rest s')))"
  by pat_completeness auto

termination
  by (relation "measure (\<lambda>(garbage, zero, fd_outimg, read_title, esz, part, fp, s). length fp)")
     (auto dest: fgets_shrinks)

declare uenv_pack_lines.simps [simp del]

text \<open>\<open>env_size - sizeof(crc)\<close> is unsigned. \<open>fp\<close> is \<open>None\<close> when the file cannot be opened.\<close>

definition uenv_pack ::
    "(nat \<Rightarrow> u8) option \<Rightarrow> nat option \<Rightarrow> string option \<Rightarrow> int \<Rightarrow> libcrc32 list \<Rightarrow> sys \<Rightarrow> (int \<times> libcrc32 list \<times> sys) cres" where
  "uenv_pack garbage zero fp fd_outimg algos s =
     (case fp of
        None \<Rightarrow> Ok (-1, algos, s)
      | Some text \<Rightarrow>
          cbind (uenv_pack_lines garbage zero fd_outimg False 0 (-1) text s)
            (\<lambda>(ret, esz, s1).
              if ret < 0 then Ok (ret, algos, s1)
              else
                let (len, s2) = filelength fd_outimg s1
                in if len > esz then Ok (-1, algos, s2)
                   else case dd garbage fd_outimg (-1) 4 0 (size_of_int (esz - 4)) (Some uenv_calc_crc) (algos, 0) s2 of
                       (_, (algos', crc), s3) \<Rightarrow>
                         let s4 = snd (lseek_set fd_outimg 0 s3);
                             s5 = snd (sys_write fd_outimg (le_encode 4 (unat crc)) s4)
                         in Ok (0, algos', s5)))"

end
