(* ===== verification/UenvLaws.thy ===== *)
theory UenvLaws
  imports Uenv CrcLaws FileLaws StringLaws
begin

text \<open>
  The u-boot environment: the size that detection reports is the first of the tried sizes whose checksum is right, and
  a packed text is detected with its size and listed as it was.
\<close>

section \<open>The checksum of a file\<close>

lemma uenv_dd_crc:
  assumes "sys_ok s" "ofd_of s fd = Some d" "virtual_file_get fd s = None" "dd_max_bufsz \<le> max_io s"
    and "algos_ok algos" "4 + n \<le> length (content s d)"
  shows "\<exists>algos'. dd (Some g) fd (-1) 4 offt n (Some uenv_calc_crc) (algos, 0) s =
      (n, (algos', zlib_crc (take n (drop 4 (content s d)))), set_position d (4 + n) s) \<and> algos_ok algos'"
proof -
  have d: "d < length (open_files s)" using assms(1,2) by (rule sys_ok_ofd)
  define s1 where "s1 = set_position d 4 s"
  have cb: "uenv_calc_crc = (\<lambda>bs p. (bs, crc32 (fst p) (snd p) bs))"
    by (rule ext)+ (simp add: uenv_calc_crc_def)
  have rem: "remaining s1 d = drop 4 (content s d)" using d by (simp add: remaining_def s1_def)
  have "dd (Some g) fd (-1) 4 offt n (Some uenv_calc_crc) (algos, 0) s =
      dd_loop fd (-1) n (Some uenv_calc_crc) (algos, 0) g 0 s1"
    using ofd_of_nonneg [OF assms(2)] assms(2)
    by (simp add: dd_def dd64_def fileseek_def filestart_plain [OF assms(3)] lseek_set_def s1_def)
  moreover obtain p' where "dd_loop fd (-1) n (Some uenv_calc_crc) (algos, 0) g 0 s1 = (n, p', advance d n s1)"
    "algos_ok (fst p')" "snd p' = snd (crc32 algos 0 (take n (remaining s1 d)))"
    using byte_stream.dd_loop_scan [OF old.byte_stream_axioms, of fd "-1" s1 d n "(algos, 0)" g 0] ofd_of_nonneg [OF assms(2)] assms d rem
    unfolding cb by (fastforce simp: s1_def)
  moreover have "advance d n s1 = set_position d (4 + n) s" using d by (simp add: advance_def s1_def)
  ultimately show ?thesis using assms(5) by (cases p') (simp add: rem crc32_zlib)
qed

section \<open>Detection\<close>

text \<open>The sizes the loop tries.\<close>

function tried :: "nat \<Rightarrow> nat list" where
  "tried n = (if n > 2048 then n # tried (if n > 0x20000 then n - 0x20000 else n div 2) else [])"
  by pat_completeness auto

termination
  by (relation "measure id") auto

declare tried.simps [simp del]

definition env_matches :: "bytes \<Rightarrow> u32 \<Rightarrow> nat \<Rightarrow> bool" where
  "env_matches c crc n \<longleftrightarrow> zlib_crc (take (n - 4) (drop 4 c)) = crc"

lemma uenv_try_sizes_find:
  "sys_ok s \<Longrightarrow> ofd_of s fd = Some d \<Longrightarrow> virtual_file_get fd s = None \<Longrightarrow> dd_max_bufsz \<le> max_io s \<Longrightarrow>
   algos_ok algos \<Longrightarrow> n \<le> length (content s d) \<Longrightarrow>
   \<exists>algos' p. uenv_try_sizes (Some g) fd crc (int n) algos s =
     (map_option int (find (env_matches (content s d) crc) (tried n)), algos', set_position d p s)"
proof (induction n arbitrary: algos s rule: tried.induct)
  case (1 n)
  have d: "d < length (open_files s)" using 1(2,3) by (rule sys_ok_ofd)
  show ?case
  proof (cases "n > 2048")
    case False
    then show ?thesis
      using set_position_same [OF d]
      by (subst uenv_try_sizes.simps, subst tried.simps) (auto simp: UENV_MINIMUM_SIZE_def intro!: exI [of _ "position (open_files s ! d)"])
  next
    case True
    define next_n where "next_n = (if n > 0x20000 then n - 0x20000 else n div 2)"
    have next_int: "(if int n > better_sz then int n - better_sz else int n div 2) = int next_n"
      by (simp add: better_sz_def next_n_def zdiv_int)
    have "next_n \<le> n" by (simp add: next_n_def)
    have sz: "nat (int n - 4) = n - 4" by simp
    obtain algos1 where dd: "dd (Some g) fd (-1) 4 (-1) (n - 4) (Some uenv_calc_crc) (algos, 0) s =
        (n - 4, (algos1, zlib_crc (take (n - 4) (drop 4 (content s d)))), set_position d n s)" "algos_ok algos1"
      using uenv_dd_crc [OF 1(2,3,4,5,6), of "n - 4" g "-1"] True 1(7) by auto
    obtain algos2 p where ih: "uenv_try_sizes (Some g) fd crc (int next_n) algos1 (set_position d n s) =
        (map_option int (find (env_matches (content s d) crc) (tried next_n)), algos2, set_position d p s)"
      using 1(1) [OF True, of "set_position d n s" algos1] 1(2-7) dd(2) \<open>next_n \<le> n\<close> by (auto simp: next_n_def)
    have min: "UENV_MINIMUM_SIZE < int n" using True by (simp add: UENV_MINIMUM_SIZE_def)
    show ?thesis
    proof (cases "env_matches (content s d) crc n")
      case m: True
      then show ?thesis
        using True by (subst uenv_try_sizes.simps, subst tried.simps) (auto simp: min sz dd(1) env_matches_def)
    next
      case m: False
      then show ?thesis
        using True ih
        by (subst uenv_try_sizes.simps, subst tried.simps)
          (auto simp: min sz dd(1) env_matches_def next_int next_n_def [symmetric])
    qed
  qed
qed

lemma tried_halves: "tried 0x20000 = [0x20000, 0x10000, 0x8000, 0x4000, 0x2000, 0x1000]"
  by (simp add: tried.simps)

lemma tried_blocks:
  "tried (Suc k * 0x20000) = map (\<lambda>i. (Suc k - i) * 0x20000) [0..<Suc k] @ [0x10000, 0x8000, 0x4000, 0x2000, 0x1000]"
proof (induction k)
  case 0
  then show ?case by (simp add: tried_halves)
next
  case (Suc k)
  have "tried (Suc (Suc k) * 0x20000) = Suc (Suc k) * 0x20000 # tried (Suc k * 0x20000)"
    by (subst tried.simps) simp
  also have "\<dots> = map (\<lambda>i. (Suc (Suc k) - i) * 0x20000) (0 # map Suc [0..<Suc k]) @ [0x10000, 0x8000, 0x4000, 0x2000, 0x1000]"
    unfolding Suc.IH by (simp add: comp_def del: upt_Suc)
  also have "0 # map Suc [0..<Suc k] = [0..<Suc (Suc k)]"
    by (simp only: map_Suc_upt) (simp add: upt_conv_Cons del: upt_Suc)
  finally show ?case .
qed

lemma le_word_eq: "length bs = 4 \<Longrightarrow> crc = (word_of_nat (le_decode bs) :: u32) \<longleftrightarrow> le_decode bs = unat crc"
  using le_decode_less [of bs] by (auto simp: unat_of_nat take_bit_eq_mod)

lemma uenv_auto_detect_find:
  assumes "sys_ok s" "ofd_of s fd = Some d" "virtual_file_get fd s = None" "dd_max_bufsz \<le> max_io s" "algos_ok algos"
    and "0 < k" "k \<le> 16" "length (content s d) = k * 0x20000 \<or> k = 16 \<and> 16 * 0x20000 \<le> length (content s d)"
  shows "\<exists>algos' p. uenv_auto_detect_filesize (Some g) old fd filesz algos s =
     (case find (env_matches (content s d) (word_of_nat (le_decode (take 4 (content s d))))) (tried (k * 0x20000)) of
        Some n \<Rightarrow> (0, int n, algos', set_position d p s)
      | None \<Rightarrow> (-1, filesz, algos', set_position d p s))"
proof -
  let ?c = "content s d"
  have d: "d < length (open_files s)" using assms(1,2) by (rule sys_ok_ofd)
  have io: "4 \<le> max_io s" using assms(4) by (simp add: dd_max_bufsz_def)
  have len: "4 \<le> length ?c" "k * 0x20000 \<le> length ?c" using assms(6,8) by auto
  define s1 where "s1 = set_position d 0 s"
  have fl: "filelength fd s = (int (length ?c), s1)"
    using assms(2,3) by (simp add: filelength_def lseek_end_eq lseek_set_def s1_def)
  have rd: "sys_read fd 4 s1 = (4, take 4 ?c, set_position d 4 s)"
    using assms(2) len(1) io d by (simp add: sys_read_eq s1_def remaining_def Let_def)
  have "(if int (length ?c) \<ge> UENV_MAXIMUM_SIZE then UENV_MAXIMUM_SIZE else aligned_length (int (length ?c)) better_sz) =
      int (k * 0x20000)"
    using assms(6,7,8) by (auto simp: UENV_MAXIMUM_SIZE_def aligned_length_def better_sz_def)
  moreover obtain algos' p where "uenv_try_sizes (Some g) fd (word_of_nat (le_decode (take 4 ?c))) (int (k * 0x20000)) algos
      (set_position d 4 s) =
      (map_option int (find (env_matches ?c (word_of_nat (le_decode (take 4 ?c)))) (tried (k * 0x20000))), algos', set_position d p s)"
    using uenv_try_sizes_find [of "set_position d 4 s" fd d algos "k * 0x20000" g "word_of_nat (le_decode (take 4 ?c))"] assms len
    by auto
  ultimately show ?thesis
    using len(1)
    by (auto simp: uenv_auto_detect_filesize_def fl rd Let_def split: option.splits)
qed

text \<open>C21: on an image of \<open>k\<close> blocks of 128 KiB, and on one of at least 2 MiB with \<open>k = 16\<close>, \<open>uenv_auto_detect_filesize\<close>
  reports the first size, of \<open>k\<close> blocks and downwards by blocks and then by halves to 4 KiB, at which the bytes behind the
  first four have the CRC-32 that those four hold; there is no other result, and without such a size it fails.\<close>

theorem uenv_detects_size:
  assumes "sys_ok s" "ofd_of s fd = Some d" "virtual_file_get fd s = None" "dd_max_bufsz \<le> max_io s" "algos_ok algos"
    and "0 < k" "k \<le> 16" "length (content s d) = k * 0x20000 \<or> k = 16 \<and> 16 * 0x20000 \<le> length (content s d)"
  shows "\<exists>algos' s'. uenv_auto_detect_filesize (Some g) old fd filesz algos s =
     (case find (\<lambda>n. le_decode (take 4 (content s d)) = unat (zlib_crc (take (n - 4) (drop 4 (content s d)))))
             (map (\<lambda>i. (k - i) * 0x20000) [0..<k] @ [0x10000, 0x8000, 0x4000, 0x2000, 0x1000]) of
        Some n \<Rightarrow> (0, int n, algos', s')
      | None \<Rightarrow> (-1, filesz, algos', s'))"
proof -
  have len: "length (take 4 (content s d)) = 4" using assms(6,8) by auto
  have "env_matches (content s d) (word_of_nat (le_decode (take 4 (content s d)))) =
      (\<lambda>n. le_decode (take 4 (content s d)) = unat (zlib_crc (take (n - 4) (drop 4 (content s d)))))"
    using le_word_eq [OF len] by (auto simp: env_matches_def)
  then show ?thesis
    using uenv_auto_detect_find [OF assms, of g old filesz] tried_blocks [of "k - 1"] assms(6)
    by (fastforce split: option.splits)
qed

section \<open>Packing\<close>

text \<open>Opening another file, copying it to the start of the output, and closing it.\<close>

lemma out_state_fill:
  assumes "out_state s fd e [] p" "zi < length (inodes s)" "zi \<noteq> inode (open_files s ! e)"
    and "n \<le> length (inodes s ! zi)" "sys_open (Some zi) s = (fd0, s1)"
  shows "out_state (sys_close fd0 (snd (snd (dd (Some g) fd0 fd 0 0 n None () s1)))) fd e (take n (inodes s ! zi)) n"
proof -
  let ?s0 = "s\<lparr>open_files := open_files s @ [\<lparr>inode = zi, position = 0\<rparr>]\<rparr>"
  define d where "d = length (open_files s)"
  have e: "e < d" using out_state_index [OF assms(1)] by (simp add: d_def)
  have ok0: "sys_ok ?s0"
    using assms(1,2) by (fastforce simp: out_state_def sys_ok_def)
  have al: "alloc_fd d ?s0 = (fd0, s1)" using assms(5) by (simp add: sys_open_def d_def)
  note fresh = alloc_fd_fresh [OF al]
  have files: "open_files s1 = open_files s @ [\<lparr>inode = zi, position = 0\<rparr>]" "inodes s1 = inodes s" "gd s1 = gd s"
      "max_io s1 = max_io s"
    using fresh(5-8) by simp_all
  have ok1: "sys_ok s1" by (rule alloc_fd_ok [OF ok0 _ al]) (simp add: d_def)
  have ofd: "ofd_of s fd = Some e" using assms(1) by (simp add: out_state_def)
  have ofd0: "ofd_of ?s0 x = ofd_of s x" for x by (simp add: ofd_of_def)
  have ne: "fd \<noteq> fd0" using fresh(1) ofd ofd0 by auto
  have ofd1: "ofd_of s1 fd = Some e" "ofd_of s1 fd0 = Some d"
    using fresh(2) fresh(4) [OF ne] ofd ofd0 by simp_all
  have plain: "filestart x s1 = 0" for x
    using assms(1) files(3) no_virtual_file [of s1] by (simp add: out_state_def filestart_def)
  have src: "content s1 d = inodes s ! zi" using files by (simp add: content_def d_def)
  have ie: "inode (open_files s1 ! e) = inode (open_files s ! e)" using files e by (simp add: d_def nth_append)
  have id: "inode (open_files s1 ! d) = zi" using files by (simp add: d_def)
  obtain q where dd: "dd64 (Some g) fd0 fd 0 0 n None () s1 =
      (length (take n (inodes s ! zi)), (), put e (take n (inodes s ! zi)) (set_position d q (set_position e 0 s1)))"
    using dd64_copy_put [of fd0 fd s1 d e 0 0 "take n (inodes s ! zi)" n g "()"] fresh(3) ofd_of_nonneg [OF ofd] ok1 ofd1 id ie
      assms(3) plain src by auto
  define s2 where "s2 = put e (take n (inodes s ! zi)) (set_position d q (set_position e 0 s1))"
  have el: "e < length (open_files s1)" "d \<noteq> e" "e \<noteq> d" using files e by (simp_all add: d_def)
  have c1: "content s1 e = []"
    using assms(1) files e by (simp add: content_def out_state_def d_def nth_append)
  have c2: "content s2 e = take n (inodes s ! zi)" "position (open_files s2 ! e) = n" "sys_ok s2"
    using ok1 el c1 assms(4) by (simp_all add: s2_def put_content overlay_def)
  have closed: "ofd_of (sys_close fd0 s2) fd = Some e"
    using ofd_of_close [OF ne, of s2] ofd1 by (simp add: s2_def)
  have "sys_ok (sys_close fd0 s2)"
    using c2(3) set_update_subset_insert [of "fds s2" "nat fd0" None] by (auto simp: sys_ok_def sys_close_def)
  moreover have "max_io (sys_close fd0 s2) = max_io s" "gd (sys_close fd0 s2) = gd s"
    by (simp_all add: s2_def files sys_close_def)
  moreover have "content (sys_close fd0 s2) e = content s2 e" by (simp add: content_def)
  ultimately show ?thesis
    using assms(1) c2 closed by (simp add: out_state_def dd_def dd s2_def)
qed

section \<open>The text of an environment\<close>

text \<open>The names and values an environment may have, and its text.\<close>

definition env_line_ok :: "string \<Rightarrow> bool" where
  "env_line_ok l \<longleftrightarrow> l \<noteq> [] \<and> length l < 1022 \<and> nul \<notin> set l \<and> newline \<notin> set l \<and> char_of (13 :: nat) \<notin> set l \<and>
     CHR 0x5c \<notin> set l \<and> CHR 0x01 \<notin> set l"

definition env_lines :: "string list \<Rightarrow> string" where
  "env_lines ls = concat (map (\<lambda>l. l @ [newline]) ls)"

definition env_title :: "nat \<Rightarrow> nat option \<Rightarrow> string" where
  "env_title n part = ''#uEnv '' @ dec_string n @ '' '' @ (case part of None \<Rightarrow> [] | Some k \<Rightarrow> dec_string k)"

definition env_part :: "nat option \<Rightarrow> bytes" where
  "env_part part = (case part of None \<Rightarrow> [] | Some k \<Rightarrow> [word_of_nat k])"

definition env_bytes :: "string list \<Rightarrow> bytes" where
  "env_bytes ls = concat (map (\<lambda>l. bytes_of_string l @ [0]) ls)"

definition env_body :: "nat \<Rightarrow> nat option \<Rightarrow> string list \<Rightarrow> bytes" where
  "env_body n part ls = env_part part @ env_bytes ls @ replicate (n - 4 - length (env_part part @ env_bytes ls)) 0"

lemma env_simps [simp]:
  "env_lines [] = []" "env_lines (l # ls) = l @ newline # env_lines ls"
  "env_bytes [] = []" "env_bytes (l # ls) = bytes_of_string l @ 0 # env_bytes ls"
  by (simp_all add: env_lines_def env_bytes_def)

lemma strstr_absent: "tok \<noteq> [] \<Longrightarrow> hd tok \<notin> set s \<Longrightarrow> strstr s tok = None"
  by (induction s) (auto simp: prefix_Cons neq_Nil_conv)

lemma uenv_pack_line_ok:
  "env_line_ok l \<Longrightarrow> uenv_pack_line fd l s = Ok (snd (sys_write fd (bytes_of_string l @ [0]) s))"
  by (simp add: uenv_pack_line_def string_replace_in_buffer_def strstr_absent env_line_ok_def)

lemma uenv_line_ok: "newline \<notin> set l \<Longrightarrow> nul \<notin> set l \<Longrightarrow> uenv_line (l @ [newline]) = Ok l"
  by (simp add: uenv_line_def c_string_line)

lemma uenv_fgets: "newline \<notin> set l \<Longrightarrow> length l < 1022 \<Longrightarrow> fgets (1024 - 1) (l @ newline # rest) = Some (l @ [newline], rest)"
  using fgets_line [of l 1022 rest] by (simp add: fgets_def split: list.splits)

lemma uenv_pack_lines_ok:
  "list_all env_line_ok ls \<Longrightarrow> out_state s fd e c p \<Longrightarrow>
   \<exists>s'. uenv_pack_lines garbage zero fd True esz part (env_lines ls) s = Ok (0, esz, s') \<and>
     out_state s' fd e (overlay c p (env_bytes ls)) (p + length (env_bytes ls))"
proof (induction ls arbitrary: s c p)
  case Nil
  then show ?case by (subst uenv_pack_lines.simps) (simp add: fgets_def)
next
  case (Cons l ls)
  have l: "env_line_ok l" using Cons.prems(1) by simp
  define s1 where "s1 = snd (sys_write fd (bytes_of_string l @ [0]) s)"
  have "out_state s1 fd e (overlay c p (bytes_of_string l @ [0])) (p + length (bytes_of_string l @ [0]))"
    unfolding s1_def using l by (intro out_state_write Cons.prems) (simp add: env_line_ok_def bytes_of_string_def)
  from Cons.IH [OF _ this] Cons.prems(1) obtain s2 where s2:
    "uenv_pack_lines garbage zero fd True esz part (env_lines ls) s1 = Ok (0, esz, s2)"
    "out_state s2 fd e (overlay c p ((bytes_of_string l @ [0]) @ env_bytes ls))
       (p + length (bytes_of_string l @ [0]) + length (env_bytes ls))"
    unfolding overlay_append by auto
  then show ?case
    using l uenv_fgets [of l "env_lines ls"] uenv_line_ok [of l]
    by (subst uenv_pack_lines.simps)
      (use s2 in \<open>auto simp: uenv_pack_line_ok s1_def [symmetric] env_line_ok_def add.assoc\<close>)
qed

text \<open>The title line.\<close>

definition part_ok :: "nat option \<Rightarrow> bool" where
  "part_ok part \<longleftrightarrow> part \<in> {None, Some 0, Some 1}"

lemma strtol_dec:
  "n < 2 ^ 63 \<Longrightarrow> rest = [] \<or> \<not> is_digit_in 10 (hd rest) \<Longrightarrow> strtol 10 (dec_string n @ rest) = (int n, rest)"
  using strtonum_dec [of 10 n rest] by (simp add: strtol_def)

lemma dec_string_unspaced: "dropWhile isspace (dec_string n @ rest) = dec_string n @ rest"
  using dec_string_class [of "hd (dec_string n)" n] dec_string_not_Nil [of n]
  by (cases "dec_string n") simp_all

lemma scan_number_dec:
  assumes "n < 2 ^ 63" "rest = [] \<or> \<not> is_digit_in 10 (hd rest)"
  shows "scan_number (CHR '' '' # dec_string n @ rest) = Some (int n, rest)"
  using strtol_dec [OF assms] by (simp add: scan_number_def Let_def dec_string_unspaced)

lemma scan_number_empty: "scan_number '' '' = None"
  by (simp add: scan_number_def strtol_def strtonum_def strip_sign_def strip_base_def)

lemma scan_title_env:
  assumes "n < 2 ^ 63" "part_ok part"
  shows "scan_title (env_title n part) (0, 0, -1) =
    (case part of None \<Rightarrow> (1, int n, -1) | Some k \<Rightarrow> (2, int n, int k))"
proof -
  have "\<not> is_digit_in 10 (CHR '' '')" by (simp add: is_digit_in_def digit_value_def)
  then have first: "scan_number (CHR '' '' # dec_string n @ CHR '' '' # r) = Some (int n, CHR '' '' # r)" for r
    using scan_number_dec [OF assms(1), of "CHR '' '' # r"] by simp
  have second: "scan_number (CHR '' '' # dec_string k) = Some (int k, [])" if "k \<le> 1" for k
    using scan_number_dec [of k "[]"] that by simp
  show ?thesis
    using assms(2) by (auto simp: scan_title_def env_title_def first second scan_number_empty part_ok_def)
qed

lemma nul_newline_chars: "nul = CHR 0x00" "newline = CHR 0x0a"
  by (simp_all add: nul_def newline_def char_of_def bit_0)

lemma env_title_chars:
  "part_ok part \<Longrightarrow> nul \<notin> set (env_title n part) \<and> newline \<notin> set (env_title n part)"
  using dec_string_class [of nul n] dec_string_class [of newline n] dec_string_class [of nul 0] dec_string_class [of newline 0]
    dec_string_class [of nul 1] dec_string_class [of newline 1]
  by (auto simp: env_title_def part_ok_def nul_newline_chars)

lemma uenv_pack_title_ok:
  assumes "out_state s fd e [] p" "zi < length (inodes s)" "zi \<noteq> inode (open_files s ! e)"
    and "inodes s ! zi = replicate z 0" "n \<le> z" "even n" "n < 2 ^ 63" "part_ok part"
  shows "\<exists>s' pr. uenv_pack_title (Some g) (Some zi) fd (env_title n part) 0 (-1) s = (0, int n, pr, s') \<and>
    out_state s' fd e (overlay (replicate n 0) 4 (env_part part)) (4 + length (env_part part))"
proof -
  obtain fd0 s1 where op: "sys_open (Some zi) s = (fd0, s1)" by (cases "sys_open (Some zi) s")
  define s3 where "s3 = sys_close fd0 (snd (snd (dd (Some g) fd0 fd 0 0 n None () s1)))"
  have "out_state s3 fd e (replicate n 0) n"
    using out_state_fill [OF assms(1-3) _ op, of n g] assms(4,5) by (simp add: s3_def min_absorb1)
  from out_state_seek [OF this, of 4] have s4: "out_state (snd (lseek_set fd 4 s3)) fd e (replicate n 0) 4" by simp
  have n: "size_of_int (int n) = n" using assms(7) by simp
  show ?thesis
  proof (cases part)
    case None
    then show ?thesis
      using s4 assms(6-8) scan_title_env [OF assms(7,8)]
      by (auto simp: uenv_pack_title_def op n s3_def [symmetric] Let_def env_part_def good_part_def ENV_PART_MAIN_def ENV_PART_REDUND_def)
  next
    case (Some k)
    then have k: "good_part (int k)" "(word_of_int (int k) :: u8) = word_of_nat k"
      using assms(8) by (auto simp: part_ok_def good_part_def ENV_PART_MAIN_def ENV_PART_REDUND_def)
    have "out_state (snd (sys_write fd [word_of_nat k] (snd (lseek_set fd 4 s3)))) fd e
        (overlay (replicate n 0) 4 [word_of_nat k]) 5"
      using out_state_write [OF s4, of "[word_of_nat k]"] by simp
    then show ?thesis
      using Some k assms(6) scan_title_env [OF assms(7,8)]
      by (auto simp: uenv_pack_title_def op n s3_def [symmetric] Let_def env_part_def)
  qed
qed

text \<open>The packed image: the checksum, the part, the lines, and zeros up to the size.\<close>

lemma uenv_pack_image:
  assumes "out_state s fd e [] p" "zi < length (inodes s)" "zi \<noteq> inode (open_files s ! e)"
    and "inodes s ! zi = replicate z 0" "n \<le> z" "even n" "n \<le> 0x200000" "part_ok part" "algos_ok algos"
    and "list_all env_line_ok ls" "4 + length (env_part part) + length (env_bytes ls) \<le> n"
  shows "\<exists>algos' s'. uenv_pack (Some g) (Some zi) (Some (env_title n part @ newline # env_lines ls)) fd algos s = Ok (0, algos', s') \<and>
    algos_ok algos' \<and>
    out_state s' fd e (le_encode 4 (unat (zlib_crc (env_body n part ls))) @ env_body n part ls) 4"
proof -
  have n63: "n < 2 ^ 63" using assms(7) by simp
  let ?c = "overlay (replicate n 0) 4 (env_part part @ env_bytes ls)"
  obtain s1 pr where s1: "uenv_pack_title (Some g) (Some zi) fd (env_title n part) 0 (-1) s = (0, int n, pr, s1)"
    "out_state s1 fd e (overlay (replicate n 0) 4 (env_part part)) (4 + length (env_part part))"
    using uenv_pack_title_ok [OF assms(1-6) n63 assms(8), of g] by auto
  obtain s2 where s2: "uenv_pack_lines (Some g) (Some zi) fd True (int n) pr (env_lines ls) s1 = Ok (0, int n, s2)"
    "out_state s2 fd e ?c (4 + length (env_part part) + length (env_bytes ls))"
    using uenv_pack_lines_ok [OF assms(10) s1(2), of "Some g" "Some zi" "int n" pr] by (auto simp: overlay_append)
  have tl: "length (env_title n part) < 1022"
    using length_dec_string [of n 9] assms(7,8)
    by (auto simp: env_title_def part_ok_def dec_string_less)
  have lines: "uenv_pack_lines (Some g) (Some zi) fd False 0 (-1) (env_title n part @ newline # env_lines ls) s = Ok (0, int n, s2)"
    using env_title_chars [OF assms(8), of n] uenv_fgets [OF _ tl] uenv_line_ok [of "env_title n part"]
    by (subst uenv_pack_lines.simps) (simp add: s1(1) s2(1))
  have c: "?c = replicate 4 0 @ env_body n part ls"
    using assms(11) by (simp add: overlay_inside env_body_def min_absorb1 drop_replicate add.assoc)
  have lenb: "length (env_body n part ls) = n - 4" using assms(11) by (simp add: env_body_def)
  have lenc: "length ?c = n" using assms(11) by (simp add: c lenb)
  define s3 where "s3 = snd (lseek_set fd 0 (set_position e (length ?c) s2))"
  have ofd: "ofd_of s2 fd = Some e" using s2(2) by (simp add: out_state_def)
  have s3: "out_state s3 fd e ?c 0"
    using s2(2) ofd out_state_index [OF s2(2)] by (auto simp: s3_def out_state_def lseek_set_def)
  have fl: "filelength fd s2 = (int n, s3)"
    using s2(2) lenc no_virtual_file [of s2 fd]
    by (simp add: filelength_def lseek_end_eq [OF ofd] lseek_set_def s3_def out_state_def)
  have "content s3 e = ?c" "dd_max_bufsz \<le> max_io s3" "sys_ok s3" "ofd_of s3 fd = Some e" "virtual_file_get fd s3 = None"
    using s3 no_virtual_file [of s3] by (simp_all add: out_state_def dd_max_bufsz_def)
  then obtain algos' where dd: "dd (Some g) fd (-1) 4 0 (n - 4) (Some uenv_calc_crc) (algos, 0) s3 =
      (n - 4, (algos', zlib_crc (env_body n part ls)), set_position e n s3)" "algos_ok algos'"
    using uenv_dd_crc [of s3 fd e algos "n - 4" g 0] assms(9,11) lenc lenb by (auto simp: c)
  have sz: "size_of_int (int n - 4) = n - 4"
    using assms(7,11) size_of_int_nat [of "n - 4"] by (simp add: of_nat_diff)
  define s4 where "s4 = snd (lseek_set fd 0 (set_position e n s3))"
  have "out_state s4 fd e ?c 0"
    using s3 out_state_index [OF s3] by (auto simp: s4_def out_state_def lseek_set_def)
  from out_state_write [OF this, of "le_encode 4 (unat (zlib_crc (env_body n part ls)))"]
  have "out_state (snd (sys_write fd (le_encode 4 (unat (zlib_crc (env_body n part ls)))) s4)) fd e
      (le_encode 4 (unat (zlib_crc (env_body n part ls))) @ env_body n part ls) 4"
    unfolding c using overlay_start [of "le_encode 4 (unat (zlib_crc (env_body n part ls)))" 4 "env_body n part ls"]
    by (simp)
  moreover have "uenv_pack (Some g) (Some zi) (Some (env_title n part @ newline # env_lines ls)) fd algos s =
      Ok (0, algos', snd (sys_write fd (le_encode 4 (unat (zlib_crc (env_body n part ls)))) s4))"
    by (simp add: uenv_pack_def lines fl sz dd(1) s4_def)
  ultimately show ?thesis using dd(2) by blast
qed

section \<open>Listing\<close>

lemma byte_of_char_eq: "k < 256 \<Longrightarrow> (word_of_nat (of_char c) :: u8) = word_of_nat k \<longleftrightarrow> c = char_of k"
proof
  assume "k < 256" "(word_of_nat (of_char c) :: u8) = word_of_nat k"
  then have "unat (word_of_nat (of_char c) :: u8) = unat (word_of_nat k :: u8)" by simp
  then have "of_char c = k" using nat_of_char_less_256 [of c] \<open>k < 256\<close> by (simp add: unat_of_nat)
  then show "c = char_of k" by auto
qed simp

lemma byte_of_char_back: "char_of (unat (word_of_nat (of_char c) :: u8)) = c"
  using nat_of_char_less_256 [of c] by (simp add: unat_of_nat)

lemma uenv_print_line:
  "nul \<notin> set l \<Longrightarrow> newline \<notin> set l \<Longrightarrow> char_of (13 :: nat) \<notin> set l \<Longrightarrow>
   uenv_print (length l + m) (bytes_of_string l @ rest) = l @ uenv_print m rest"
proof (induction l)
  case Nil
  then show ?case by (simp add: bytes_of_string_def)
next
  case (Cons c l)
  have "(word_of_nat (of_char c) :: u8) \<noteq> 13" "(word_of_nat (of_char c) :: u8) \<noteq> 10" "(word_of_nat (of_char c) :: u8) \<noteq> 0"
    using Cons.prems byte_of_char_eq [of 13 c] byte_of_char_eq [of 10 c] byte_of_char_eq [of 0 c]
    by (auto simp: nul_def newline_def)
  with Cons show ?case by (simp add: bytes_of_string_def Let_def byte_of_char_back)
qed

lemma env_bytes_hd: "list_all env_line_ok (l # ls) \<Longrightarrow> hd (env_bytes (l # ls) @ rest) \<noteq> 0 \<and> hd (env_bytes (l # ls) @ rest) \<noteq> 1"
  using byte_of_char_eq [of 0 "hd l"] byte_of_char_eq [of 1 "hd l"]
  by (cases l) (auto simp: env_line_ok_def bytes_of_string_def nul_def char_of_def bit_0)

lemma uenv_print_lines:
  "list_all env_line_ok ls \<Longrightarrow> ls \<noteq> [] \<Longrightarrow>
   uenv_print (length (env_bytes ls) + m) (env_bytes ls @ replicate (Suc r) 0) = env_lines ls"
proof (induction ls)
  case Nil
  then show ?case by simp
next
  case (Cons l ls)
  have split: "length (env_bytes (l # ls)) + m = length l + Suc (length (env_bytes ls) + m)"
    by (simp add: bytes_of_string_def)
  have line: "uenv_print (length (env_bytes (l # ls)) + m) (env_bytes (l # ls) @ replicate (Suc r) 0) =
      l @ uenv_print (Suc (length (env_bytes ls) + m)) (0 # env_bytes ls @ replicate (Suc r) 0)"
    unfolding split
    using Cons.prems(1) uenv_print_line [of l "Suc (length (env_bytes ls) + m)" "0 # env_bytes ls @ replicate (Suc r) 0"]
    by (simp add: env_line_ok_def del: uenv_print.simps)
  show ?case
  proof (cases ls)
    case Nil
    then show ?thesis unfolding line by (simp add: Let_def)
  next
    case (Cons l' ls')
    then have "hd (env_bytes ls @ replicate (Suc r) 0) \<noteq> 0" using env_bytes_hd Cons.prems(1) by simp
    then show ?thesis unfolding line using Cons.IH Cons.prems(1) Cons by (simp add: Let_def)
  qed
qed

lemma uenv_list_image:
  assumes "out_state s fd e (crc @ env_body n part ls) 0" "length crc = 4" "n \<le> 0x200000" "part_ok part"
    and "list_all env_line_ok ls" "ls \<noteq> []" "4 + length (env_part part) + length (env_bytes ls) < n"
  shows "\<exists>s'. uenv_list \<lparr>env_size = int n\<rparr> fd (Some mem) s = (0, env_title n part @ newline # env_lines ls, s')"
proof -
  let ?body = "env_body n part ls"
  let ?k = "length (env_part part)"
  have ofd: "ofd_of s fd = Some e" using assms(1) by (simp add: out_state_def)
  have len: "length ?body = n - 4" using assms(7) by (simp add: env_body_def)
  have rem: "take (min n (max_io s)) (remaining s e) = crc @ ?body"
    using assms(1,2,3,7) len by (simp add: out_state_def remaining_def)
  have rd: "sys_read fd n s = (int n, crc @ ?body, advance e n s)"
    using sys_read_advance [OF ofd, of n] assms(2,7) len unfolding rem by (simp add: Let_def)
  have buf: "drop 4 (take n ((crc @ ?body) @ drop (length (crc @ ?body)) mem)) = ?body"
    using assms(2,7) len by simp
  define r where "r = n - 4 - ?k - length (env_bytes ls) - 1"
  have body: "?body = env_part part @ env_bytes ls @ replicate (Suc r) 0"
    using assms(7) by (simp add: env_body_def r_def flip: replicate_Suc)
  have tail: "drop ?k ?body = env_bytes ls @ replicate (Suc r) 0" by (simp add: body)
  have steps: "n - 1 - (4 + ?k) = length (env_bytes ls) + r" using assms(7) by (simp add: r_def)
  have printed: "uenv_print (n - 1 - (4 + ?k)) (drop ?k ?body) = env_lines ls"
    unfolding steps tail by (rule uenv_print_lines [OF assms(5,6)])
  have listed: "uenv_list \<lparr>env_size = int n\<rparr> fd (Some mem) s =
      (0, (''#uEnv '' @ dec_string n @ '' '' @ (if hd ?body = 0 \<or> hd ?body = 1 then dec_string (unat (hd ?body)) else []) @ [newline])
        @ uenv_print (n - 1 - (4 + (if hd ?body = 0 \<or> hd ?body = 1 then 1 else 0)))
            (drop (if hd ?body = 0 \<or> hd ?body = 1 then 1 else 0) ?body), advance e n s)"
    by (simp only: uenv_list_def option.case Let_def uenv_editor_private_data.select_convs nat_int rd prod.case buf)
  show ?thesis
  proof (cases part)
    case None
    then have "hd ?body \<noteq> 0 \<and> hd ?body \<noteq> 1"
      using assms(5,6) env_bytes_hd [of "hd ls" "List.tl ls" "replicate (Suc r) 0"] unfolding body by (simp add: env_part_def)
    then show ?thesis
      using None printed unfolding listed by (simp add: env_title_def env_part_def)
  next
    case (Some k)
    then have "hd ?body = word_of_nat k" "k = 0 \<or> k = 1" "?k = 1"
      using assms(4) unfolding body by (auto simp: env_part_def part_ok_def)
    then show ?thesis
      using Some printed unfolding listed by (auto simp: env_title_def)
  qed
qed

section \<open>The editor as a whole\<close>

text \<open>C7: packing the text of an environment of whole blocks of 128 KiB, up to 2 MiB, into an empty file, detecting that file
  and listing it: packing succeeds, detection reports the size of the title, and the listing is the text. The text is the
  title with an optional part and at least one line, each without backslash, carriage return and the bytes 0 and 1, with room
  for one more byte in the image.\<close>

theorem uenv_pack_detect_list:
  assumes "out_state s fd e [] p" "zi < length (inodes s)" "zi \<noteq> inode (open_files s ! e)"
    and "inodes s ! zi = replicate z 0" "n \<le> z" "n = k * 0x20000" "0 < k" "k \<le> 16" "part_ok part" "algos_ok algos"
    and "list_all env_line_ok ls" "ls \<noteq> []" "4 + length (env_part part) + length (env_bytes ls) < n"
    and "text = env_title n part @ newline # env_lines ls"
  shows "\<exists>algos1 s1 algos2 s2 s3.
    uenv_pack (Some g) (Some zi) (Some text) fd algos s = Ok (0, algos1, s1) \<and>
    uenv_detect (Some g) old priv True fd algos1 s1 = (0, \<lparr>env_size = int n\<rparr>, algos2, s2) \<and>
    uenv_list \<lparr>env_size = int n\<rparr> fd (Some mem) (snd (lseek_set fd 0 s2)) = (0, text, s3)"
proof -
  let ?body = "env_body n part ls"
  let ?crc = "le_encode 4 (unat (zlib_crc ?body))"
  have n: "even n" "n \<le> 0x200000" using assms(6,8) by auto
  have len: "length ?body = n - 4" using assms(13) by (simp add: env_body_def)
  obtain algos1 s1 where pack: "uenv_pack (Some g) (Some zi) (Some text) fd algos s = Ok (0, algos1, s1)" "algos_ok algos1"
      "out_state s1 fd e (?crc @ ?body) 4"
    using uenv_pack_image [OF assms(1-5) n assms(9-11), of g] assms(13,14) by auto
  have c: "content s1 e = ?crc @ ?body" using pack(3) by (simp add: out_state_def)
  have crc: "le_decode ?crc = unat (zlib_crc ?body)"
    using unsigned_less [of "zlib_crc ?body"] by (intro le_decode_encode) simp
  have first: "tried n = n # tl (tried n)" using assms(6,7) by (subst (1 2) tried.simps) simp
  have "env_matches (content s1 e) (word_of_nat (le_decode (take 4 (content s1 e)))) n"
    using assms(13) by (simp add: env_matches_def c crc len)
  then have "find (env_matches (content s1 e) (word_of_nat (le_decode (take 4 (content s1 e))))) (tried n) = Some n"
    by (subst first) simp
  then obtain algos2 q where det: "uenv_auto_detect_filesize (Some g) old fd (env_size priv) algos1 s1 =
      (0, int n, algos2, set_position e q s1)"
    using uenv_auto_detect_find [of s1 fd e algos1 k g old "env_size priv"] pack(2,3) assms(6-8,13) no_virtual_file [of s1] len
    by (auto simp: out_state_def dd_max_bufsz_def c)
  have "out_state (snd (lseek_set fd 0 (set_position e q s1))) fd e (?crc @ ?body) 0"
    using pack(3) out_state_index [OF pack(3)] by (auto simp: out_state_def lseek_set_def)
  from uenv_list_image [OF this _ n(2) assms(9,11,12,13), of mem] obtain s3 where
    "uenv_list \<lparr>env_size = int n\<rparr> fd (Some mem) (snd (lseek_set fd 0 (set_position e q s1))) = (0, text, s3)"
    using assms(14) by auto
  with pack(1) det show ?thesis by (cases priv) (auto simp: uenv_detect_def)
qed

section \<open>Witnesses\<close>

text \<open>An empty output file and a file of zeros.\<close>

theorem uenv_detects_size_witness:
  "\<exists>body. length body = 0x20000 - 4 \<and>
     fst (snd (uenv_auto_detect_filesize (Some (\<lambda>_. 0)) [] 0 7 available_crc32_algos
       (one_file_sys (le_encode 4 (unat (zlib_crc body)) @ body)))) = 0x20000"
proof (intro exI conjI)
  let ?body = "replicate (0x20000 - 4) (0 :: u8)"
  let ?s = "one_file_sys (le_encode 4 (unat (zlib_crc ?body)) @ ?body)"
  show "length ?body = 0x20000 - 4" by (rule length_replicate)
  have st: "sys_ok ?s" "ofd_of ?s 0 = Some 0" "virtual_file_get 0 ?s = None" "dd_max_bufsz \<le> max_io ?s"
      "content ?s 0 = le_encode 4 (unat (zlib_crc ?body)) @ ?body"
    using one_file_sys_ok [of "le_encode 4 (unat (zlib_crc ?body)) @ ?body"] no_virtual_file [of ?s]
    by (simp_all add: out_state_def dd_max_bufsz_def)
  have crc: "le_decode (le_encode 4 (unat (zlib_crc ?body))) = unat (zlib_crc ?body)"
    using unsigned_less [of "zlib_crc ?body"] by (intro le_decode_encode) simp
  have "length (content ?s 0) = 1 * 0x20000" unfolding st(5) by (simp)
  from uenv_detects_size [OF st(1-4) algos_ok_available, of 1 "\<lambda>_. 0" "[]" 7, OF _ _ disjI1 [OF this]]
  show "fst (snd (uenv_auto_detect_filesize (Some (\<lambda>_. 0)) [] 0 7 available_crc32_algos ?s)) = 0x20000"
    unfolding st(5) using crc by auto
qed

theorem uenv_pack_detect_list_witness:
  "\<exists>algos1 s1 algos2 s2 s3.
    uenv_pack (Some (\<lambda>_. 0)) (Some 1) (Some (env_title 0x20000 (Some 1) @ newline # env_lines [''a=b'', ''boot=run x''])) 0
      available_crc32_algos (one_file_sys []) = Ok (0, algos1, s1) \<and>
    uenv_detect (Some (\<lambda>_. 0)) [] \<lparr>env_size = 0\<rparr> True 0 algos1 s1 = (0, \<lparr>env_size = int 0x20000\<rparr>, algos2, s2) \<and>
    uenv_list \<lparr>env_size = int 0x20000\<rparr> 0 (Some []) (snd (lseek_set 0 0 s2)) =
      (0, env_title 0x20000 (Some 1) @ newline # env_lines [''a=b'', ''boot=run x''], s3)"
  by (rule uenv_pack_detect_list [where z = "0x200000" and k = 1 and part = "Some 1" and ls = "[''a=b'', ''boot=run x'']", OF one_file_sys_ok])
     (simp_all add: one_file_sys_def part_ok_def algos_ok_available env_line_ok_def nul_newline_chars env_part_def
        bytes_of_string_def char_of_def bit_0)

end
