(* ===== verification/Json.thy ===== *)
theory Json
  imports Strings
begin

text \<open>
  The helpers over cJSON (json\_helper.c). The library itself is not part of the repository: what the helpers call of it is
  the record \<open>cjson\<close> of functions on a type of values that is not looked into. A pointer that is NULL is \<open>None\<close>.
\<close>

record 'j cjson =
  cJSON_GetObjectItem :: "'j \<Rightarrow> string \<Rightarrow> 'j option"
  cJSON_IsString :: "'j \<Rightarrow> bool"
  cJSON_IsNumber :: "'j \<Rightarrow> bool"
  cJSON_IsArray :: "'j \<Rightarrow> bool"
  cJSON_GetStringValue :: "'j \<Rightarrow> string option"
  cJSON_GetNumberValue :: "'j \<Rightarrow> int"
  cJSON_ArrayItems :: "'j \<Rightarrow> 'j list"
  cJSON_AddStringToObject :: "'j \<Rightarrow> string \<Rightarrow> string \<Rightarrow> 'j option"
  cJSON_SetItemString :: "'j \<Rightarrow> string \<Rightarrow> string \<Rightarrow> 'j"
  cJSON_AddStringsToObject :: "'j \<Rightarrow> string \<Rightarrow> string list \<Rightarrow> 'j option"
  cJSON_CreateObject :: "'j option"
  cJSON_AddItemsToObject :: "'j \<Rightarrow> string \<Rightarrow> 'j list \<Rightarrow> 'j option"

text \<open>
  \<open>cJSON_ArrayItems\<close> are the elements that \<open>cJSON_ArrayForEach\<close> visits. \<open>cJSON_SetItemString json name val\<close> is the
  object after \<open>cJSON_SetValuestring\<close> on its item of that name, \<open>cJSON_AddStringsToObject\<close> the object after an array of
  strings was created, added to it and filled, \<open>None\<close> when an allocation failed; \<open>cJSON_AddItemsToObject\<close> the same with an
  array of given items. A number is what the cast to
  \<open>long long\<close> makes of it.
\<close>

section \<open>Reading\<close>

function json_walk :: "'j cjson \<Rightarrow> 'j \<Rightarrow> string \<Rightarrow> 'j option" where
  "json_walk J json p =
     (let name = takeWhile (\<lambda>c. c \<noteq> CHR ''/'') p; slash = dropWhile (\<lambda>c. c \<noteq> CHR ''/'') p
      in case cJSON_GetObjectItem J json name of
           None \<Rightarrow> None
         | Some j \<Rightarrow> if slash = [] then Some j else json_walk J j (List.tl slash))"
  by pat_completeness auto

termination
proof (relation "measure (\<lambda>(J, json, p). length p)", goal_cases)
  case (2 J json p name slash j)
  then have "slash \<noteq> []" "length slash \<le> length p" by (auto simp: length_dropWhile_le)
  then show ?case by (cases slash) auto
qed simp

declare json_walk.simps [simp del]

definition json_get_object_bypath :: "'j cjson \<Rightarrow> 'j \<Rightarrow> string \<Rightarrow> 'j option" where
  "json_get_object_bypath J root path =
     (let p = take 127 path in json_walk J root (if take 1 p = ''/'' then drop 1 p else p))"

definition json_get_string_value_bypath :: "'j cjson \<Rightarrow> 'j \<Rightarrow> string \<Rightarrow> string option" where
  "json_get_string_value_bypath J root path =
     (case json_get_object_bypath J root path of
        None \<Rightarrow> None
      | Some json \<Rightarrow> if cJSON_IsString J json then cJSON_GetStringValue J json else None)"

definition json_get_ll_value_bypath :: "'j cjson \<Rightarrow> 'j \<Rightarrow> string \<Rightarrow> int \<times> int" where
  "json_get_ll_value_bypath J root path =
     (case json_get_object_bypath J root path of
        None \<Rightarrow> (0, 1)
      | Some json \<Rightarrow> if cJSON_IsNumber J json then (cJSON_GetNumberValue J json, 0) else (0, 1))"

definition json_get_ll_value_bypath_or_default :: "'j cjson \<Rightarrow> 'j \<Rightarrow> string \<Rightarrow> int \<Rightarrow> int" where
  "json_get_ll_value_bypath_or_default J root path defv =
     (let (v, err) = json_get_ll_value_bypath J root path in if err \<noteq> 0 then defv else v)"

definition json_get_string_value_in_object :: "'j cjson \<Rightarrow> 'j \<Rightarrow> string \<Rightarrow> string option" where
  "json_get_string_value_in_object J json id' =
     (case cJSON_GetObjectItem J json id' of
        None \<Rightarrow> None
      | Some s \<Rightarrow> if cJSON_IsString J s then cJSON_GetStringValue J s else None)"

definition json_copy_string_value_in_object :: "'j cjson \<Rightarrow> 'j \<Rightarrow> string \<Rightarrow> nat \<Rightarrow> string option" where
  "json_copy_string_value_in_object J json id' sz =
     map_option (snprintf_s sz) (json_get_string_value_in_object J json id')"

text \<open>The value and \<open>err\<close>.\<close>

definition string_value_to_number :: "string option \<Rightarrow> nat \<Rightarrow> int \<times> int" where
  "string_value_to_number s base =
     (case s of
        None \<Rightarrow> (0, 1)
      | Some str \<Rightarrow> (let (value, endp) = strtol base str in (value, if endp = [] then 0 else 1)))"

definition json_string_value_to_number :: "'j cjson \<Rightarrow> 'j \<Rightarrow> string \<Rightarrow> nat \<Rightarrow> int \<times> int" where
  "json_string_value_to_number J json id' base =
     string_value_to_number (json_get_string_value_in_object J json id') base"

definition json_string_value_to_number_or_default :: "'j cjson \<Rightarrow> 'j \<Rightarrow> string \<Rightarrow> nat \<Rightarrow> int \<Rightarrow> int" where
  "json_string_value_to_number_or_default J json id' base defval =
     (let (value, err) = json_string_value_to_number J json id' base in if err \<noteq> 0 then defval else value)"

definition json_string_value_to_number_bypath_or_default :: "'j cjson \<Rightarrow> 'j \<Rightarrow> string \<Rightarrow> nat \<Rightarrow> int \<Rightarrow> int" where
  "json_string_value_to_number_bypath_or_default J root path base defval =
     (let s = Option.bind (json_get_object_bypath J root path) (cJSON_GetStringValue J);
          (v, err) = string_value_to_number s base
      in if err \<noteq> 0 then defval else v)"

section \<open>Writing\<close>

text \<open>The status and the object. A value that is NULL is not added.\<close>

definition json_add_string_value :: "'j cjson \<Rightarrow> 'j \<Rightarrow> string \<Rightarrow> string option \<Rightarrow> int \<times> 'j" where
  "json_add_string_value J root name val =
     (case val of
        None \<Rightarrow> (0, root)
      | Some v \<Rightarrow> (case cJSON_AddStringToObject J root name v of None \<Rightarrow> (-1, root) | Some r \<Rightarrow> (0, r)))"

text \<open>The object, and whether the item was returned.\<close>

definition json_create_or_update_string_value :: "'j cjson \<Rightarrow> 'j \<Rightarrow> string \<Rightarrow> string \<Rightarrow> bool \<times> 'j" where
  "json_create_or_update_string_value J root name val =
     (case cJSON_GetObjectItem J root name of
        None \<Rightarrow>
          (case cJSON_AddStringToObject J root name val of None \<Rightarrow> (False, root) | Some r \<Rightarrow> (True, r))
      | Some json \<Rightarrow>
          if \<not> cJSON_IsString J json then (False, root)
          else if cJSON_GetStringValue J json \<noteq> Some val then (True, cJSON_SetItemString J root name val)
          else (True, root))"

section \<open>Arrays of strings\<close>

text \<open>Comparing with an element that is no string reads through a null pointer.\<close>

fun json_index_of :: "'j cjson \<Rightarrow> int \<Rightarrow> 'j list \<Rightarrow> string \<Rightarrow> int cres" where
  "json_index_of J i [] matchstr = Ok (-1)"
| "json_index_of J i (json # rest) matchstr =
     (case cJSON_GetStringValue J json of
        None \<Rightarrow> Oob
      | Some s \<Rightarrow> if matchstr = s then Ok i else json_index_of J (i + 1) rest matchstr)"

definition json_string_array_object_index_of :: "'j cjson \<Rightarrow> 'j \<Rightarrow> string \<Rightarrow> int cres" where
  "json_string_array_object_index_of J string_arrays matchstr =
     json_index_of J 0 (cJSON_ArrayItems J string_arrays) matchstr"

definition json_string_array_object_is_match :: "'j cjson \<Rightarrow> 'j \<Rightarrow> string \<Rightarrow> bool cres" where
  "json_string_array_object_is_match J string_arrays matchstr =
     cbind (json_string_array_object_index_of J string_arrays matchstr) (\<lambda>i. Ok (\<not> i < 0))"

definition json_string_array_is_match :: "'j cjson \<Rightarrow> 'j \<Rightarrow> string \<Rightarrow> string \<Rightarrow> bool cres" where
  "json_string_array_is_match J root path matchstr =
     (case json_get_object_bypath J root path of
        None \<Rightarrow> Ok False
      | Some array \<Rightarrow>
          if cJSON_IsArray J array then json_string_array_object_is_match J array matchstr else Ok False)"

text \<open>
  The elements loaded by a callback into an array that \<open>calloc\<close> returned, \<open>mem\<close> telling whether it did: the array, or NULL
  with a count of 0. \<open>load\<close> returns a negative status as \<open>None\<close>.
\<close>

definition json_loading_arrays :: "'j cjson \<Rightarrow> bool \<Rightarrow> 'j \<Rightarrow> ('j \<Rightarrow> 'a option) \<Rightarrow> 'a list option \<times> nat" where
  "json_loading_arrays J mem arrays load =
     (if \<not> cJSON_IsArray J arrays then (None, 0)
      else if cJSON_ArrayItems J arrays = [] then (None, 0)
      else if \<not> mem then (None, 0)
      else
        let vs = map load (cJSON_ArrayItems J arrays)
        in if None \<in> set vs then (None, 0) else (Some (map the vs), length vs))"

definition json_loading_arrays_from_object ::
    "'j cjson \<Rightarrow> bool \<Rightarrow> 'j \<Rightarrow> string \<Rightarrow> ('j \<Rightarrow> 'a option) \<Rightarrow> nat \<Rightarrow> 'a list option \<times> nat" where
  "json_loading_arrays_from_object J mem root id' load count =
     (case cJSON_GetObjectItem J root id' of
        None \<Rightarrow> (None, count)
      | Some json \<Rightarrow> if cJSON_IsArray J json then json_loading_arrays J mem json load else (None, count))"

end
