(* ===== verification/Structure.thy ===== *)
theory Structure
  imports Json
begin

text \<open>
  Dumping memory (hexdump\_printf.c) and describing packed structures (structure.c, structure.h): printing their fields, saving
  them to a JSON object and loading them back. A field is its bytes; a table of fields has their names, offsets and sizes.
  What is printed is the returned text. Integers of the file are stored in either byte order, and a global setting may force one.
\<close>

section \<open>hexdump\_printf.c\<close>

definition HEXDUMP_PER_LINE :: nat where "HEXDUMP_PER_LINE = 16"

definition isprint :: "u8 \<Rightarrow> bool" where
  "isprint b \<longleftrightarrow> 32 \<le> unat b \<and> unat b \<le> 126"

definition fmt_02x :: "nat \<Rightarrow> string" where
  "fmt_02x n = pad_zero 2 (hex_string n)"

definition fmt_08lx :: "u64 \<Rightarrow> string" where
  "fmt_08lx w = pad_zero 8 (hex_string (unat w))"

text \<open>The line of the block that starts at \<open>i\<close>.\<close>

definition hexdump_line :: "bytes \<Rightarrow> u64 \<Rightarrow> nat \<Rightarrow> string" where
  "hexdump_line blk baseaddr i =
     fmt_08lx (baseaddr + word_of_nat i) @ '' ''
       @ concat (map (\<lambda>j. if i + j \<ge> length blk then ''   '' else fmt_02x (unat (blk ! (i + j))) @ '' '') [0..<HEXDUMP_PER_LINE])
       @ concat (map (\<lambda>j. (if j = 0 then ''|'' else [])
            @ (if i + j \<ge> length blk then '' ''
               else [if isprint (blk ! (i + j)) then char_of (unat (blk ! (i + j))) else CHR ''.''])
            @ (if j = HEXDUMP_PER_LINE - 1 then ''|'' else [])) [0..<HEXDUMP_PER_LINE])
       @ [newline]"

text \<open>
  The blocks from \<open>i\<close> on: \<open>preline\<close> is what the last printed block left in the array, \<open>indent\<close> what the format of the
  indentation prints for the empty string, nothing when it is NULL.
\<close>

function hexdump_blocks :: "string \<Rightarrow> bytes \<Rightarrow> u64 \<Rightarrow> bytes \<Rightarrow> bool \<Rightarrow> nat \<Rightarrow> string" where
  "hexdump_blocks indent blk baseaddr preline skip i =
     (if i < length blk then
        let sz_buster = min (length blk - i) HEXDUMP_PER_LINE; cur = take sz_buster (drop i blk)
        in if i \<noteq> 0 \<and> take sz_buster preline = cur
           then (if skip then [] else indent @ ''*'' @ [newline])
                @ hexdump_blocks indent blk baseaddr preline True (i + HEXDUMP_PER_LINE)
           else (if i \<noteq> 0 then indent else []) @ hexdump_line blk baseaddr i
                @ hexdump_blocks indent blk baseaddr (cur @ drop sz_buster preline) False (i + HEXDUMP_PER_LINE)
      else [])"
  by pat_completeness auto

termination
  by (relation "measure (\<lambda>(indent, blk, baseaddr, preline, skip, i). length blk - i)") (auto simp: HEXDUMP_PER_LINE_def)

declare hexdump_blocks.simps [simp del]

definition hexdump_indent :: "string \<Rightarrow> bytes \<Rightarrow> u64 \<Rightarrow> string" where
  "hexdump_indent indent blk baseaddr =
     hexdump_blocks indent blk baseaddr (replicate HEXDUMP_PER_LINE 0) False 0 @ indent
       @ fmt_08lx (baseaddr
           + word_of_nat ((length blk + HEXDUMP_PER_LINE - 1) div HEXDUMP_PER_LINE * HEXDUMP_PER_LINE)) @ [newline]"

definition hexdump :: "bytes \<Rightarrow> u64 \<Rightarrow> string" where
  "hexdump blk baseaddr = hexdump_indent [] blk baseaddr"

section \<open>Byte order\<close>

datatype structure_endian = STRUCTURE_ENDIAN_FORCE_NONE | STRUCTURE_ENDIAN_FORCE_LE | STRUCTURE_ENDIAN_FORCE_BE

text \<open>The setting before, and after.\<close>

definition structure_force_endian :: "structure_endian \<Rightarrow> structure_endian \<Rightarrow> structure_endian \<times> structure_endian" where
  "structure_force_endian forced_endian new = (forced_endian, new)"

definition structure_endian_prefer_le :: "structure_endian \<Rightarrow> bool \<Rightarrow> bool" where
  "structure_endian_prefer_le forced_endian le =
     (case forced_endian of
        STRUCTURE_ENDIAN_FORCE_BE \<Rightarrow> False
      | STRUCTURE_ENDIAN_FORCE_LE \<Rightarrow> True
      | STRUCTURE_ENDIAN_FORCE_NONE \<Rightarrow> le)"

definition to_cpu :: "bool \<Rightarrow> bytes \<Rightarrow> nat" where
  "to_cpu le bs = (if le then le_decode bs else be_decode bs)"

definition from_cpu :: "bool \<Rightarrow> nat \<Rightarrow> nat \<Rightarrow> bytes" where
  "from_cpu le k n = (if le then le_encode k n else be_encode k n)"

definition get_unsigned :: "bool \<Rightarrow> bytes \<Rightarrow> u64" where
  "get_unsigned le un = (if length un \<in> {1, 2, 4, 8} then word_of_nat (to_cpu le un) else 0)"

text \<open>Four bytes are printed as a signed number.\<close>

definition snprintf_unsigned :: "nat \<Rightarrow> bool \<Rightarrow> bytes \<Rightarrow> string" where
  "snprintf_unsigned bufsz le un =
     (if length un = 1 then snprintf_s bufsz (dec_string (to_cpu le un))
      else if length un = 2 then snprintf_s bufsz (dec_string (to_cpu le un))
      else if length un = 4 then snprintf_s bufsz (fmt_d (word_of_nat (to_cpu le un)))
      else if length un = 8 then snprintf_s bufsz (dec_string (to_cpu le un))
      else [])"

definition fmt_0x :: "nat \<Rightarrow> nat \<Rightarrow> string" where
  "fmt_0x width n = ''0x'' @ pad_zero width (hex_string n)"

definition snprintf_xunsigned :: "nat \<Rightarrow> bool \<Rightarrow> bytes \<Rightarrow> string" where
  "snprintf_xunsigned bufsz le un =
     (if length un = 1 then snprintf_s bufsz (fmt_0x 2 (to_cpu le un))
      else if length un = 2 then snprintf_s bufsz (fmt_0x 4 (to_cpu le un))
      else if length un = 4 then snprintf_s bufsz (fmt_0x 8 (to_cpu le un))
      else if length un = 8 then snprintf_s bufsz (fmt_0x 16 (to_cpu le un))
      else [])"

section \<open>Printing\<close>

text \<open>
  \<open>printf\<close> of a format with one conversion \<open>%s\<close>, which may have the flag \<open>-\<close> and a width; the formats of the callers have
  no other.
\<close>

definition printf_s :: "string \<Rightarrow> string \<Rightarrow> string" where
  "printf_s fmt arg =
     (let before = takeWhile (\<lambda>c. c \<noteq> CHR ''%'') fmt;
          conv = drop 1 (dropWhile (\<lambda>c. c \<noteq> CHR ''%'') fmt);
          left = (take 1 conv = ''-'');
          (width, rest) = read_digits 10 0 (if left then drop 1 conv else conv)
      in if take 1 rest = ''s''
         then before @ (if left then pad_right width arg else pad_left width arg) @ drop 1 rest
         else before)"

definition structure_print_name :: "string \<Rightarrow> string \<Rightarrow> string" where
  "structure_print_name print_name_fmt name = printf_s (snprintf_s 64 print_name_fmt) name"

text \<open>Every function below takes the forced byte order where it may matter.\<close>

definition print_unsigned_le :: "structure_endian \<Rightarrow> string \<Rightarrow> string \<Rightarrow> bool \<Rightarrow> bytes \<Rightarrow> string" where
  "print_unsigned_le fe print_name_fmt name le un =
     structure_print_name print_name_fmt name
       @ snprintf_unsigned 64 (structure_endian_prefer_le fe le) un @ [newline]"

definition print_xunsigned_le :: "structure_endian \<Rightarrow> string \<Rightarrow> string \<Rightarrow> bool \<Rightarrow> bytes \<Rightarrow> string" where
  "print_xunsigned_le fe print_name_fmt name le un =
     structure_print_name print_name_fmt name
       @ snprintf_xunsigned 64 (structure_endian_prefer_le fe le) un @ [newline]"

type_synonym structure_bit_descriptor = "u64 \<times> string"

fun print_bit_descriptors :: "u64 \<Rightarrow> nat \<Rightarrow> structure_bit_descriptor list \<Rightarrow> string" where
  "print_bit_descriptors fl index [] = []"
| "print_bit_descriptors fl index ((val, descr) # d) =
     (if fl AND val \<noteq> 0
      then (if index \<noteq> 0 then '' '' else []) @ descr @ print_bit_descriptors fl (index + 1) d
      else print_bit_descriptors fl index d)"

text \<open>The number is read before the forced byte order is looked at, its text after.\<close>

definition structure_item_print_bit_flags_le ::
    "structure_endian \<Rightarrow> string \<Rightarrow> string \<Rightarrow> bytes \<Rightarrow> bool \<Rightarrow> structure_bit_descriptor list \<Rightarrow> string" where
  "structure_item_print_bit_flags_le fe print_name_fmt name un le d =
     (let fl = get_unsigned le un
      in structure_print_name print_name_fmt name
           @ snprintf_xunsigned 64 (structure_endian_prefer_le fe le) un @ '' (''
           @ print_bit_descriptors fl 0 d @ '')'' @ [newline])"

definition structure_item_print_enum_le ::
    "structure_endian \<Rightarrow> string \<Rightarrow> string \<Rightarrow> bytes \<Rightarrow> bool \<Rightarrow> nat \<Rightarrow> u64 \<Rightarrow> structure_bit_descriptor list \<Rightarrow> string" where
  "structure_item_print_enum_le fe print_name_fmt name un le rshift msk d =
     (let n0 = drop_bit rshift (get_unsigned le un);
          n = (if msk \<noteq> 0 then n0 AND msk else n0)
      in structure_print_name print_name_fmt name
           @ snprintf_unsigned 64 (structure_endian_prefer_le fe le) un @ '' (''
           @ (case ksmap_find d n of Some k \<Rightarrow> snd k | None \<Rightarrow> ''???'') @ '')'' @ [newline])"

definition structure_item_print_x8_array :: "string \<Rightarrow> string \<Rightarrow> bytes \<Rightarrow> string" where
  "structure_item_print_x8_array print_name_fmt name p =
     structure_print_name print_name_fmt name @ concat (map (\<lambda>b. fmt_02x (unat b) @ '' '') p) @ [newline]"

text \<open>The array of k-byte elements that the bytes hold; a rest that is no element is left out.\<close>

definition elements_of :: "nat \<Rightarrow> bytes \<Rightarrow> bytes list" where
  "elements_of k bs = elements (length bs div k) k bs"

definition print_n_array ::
    "structure_endian \<Rightarrow> string \<Rightarrow> string \<Rightarrow> bool \<Rightarrow> nat \<Rightarrow> (nat \<Rightarrow> string) \<Rightarrow> bytes \<Rightarrow> string" where
  "print_n_array fe print_name_fmt name le k fmt p =
     structure_print_name print_name_fmt name
       @ concat (map (\<lambda>e. fmt (to_cpu (structure_endian_prefer_le fe le) e)) (elements_of k p)) @ [newline]"

definition print_x32_array_le :: "structure_endian \<Rightarrow> string \<Rightarrow> string \<Rightarrow> bool \<Rightarrow> bytes \<Rightarrow> string" where
  "print_x32_array_le fe print_name_fmt name le p = print_n_array fe print_name_fmt name le 4 (\<lambda>n. fmt_0x 8 n @ '' '') p"

definition print_u32_array_le :: "structure_endian \<Rightarrow> string \<Rightarrow> string \<Rightarrow> bool \<Rightarrow> bytes \<Rightarrow> string" where
  "print_u32_array_le fe print_name_fmt name le p = print_n_array fe print_name_fmt name le 4 (\<lambda>n. dec_string n @ '' '') p"

definition print_x16_array_le :: "structure_endian \<Rightarrow> string \<Rightarrow> string \<Rightarrow> bool \<Rightarrow> bytes \<Rightarrow> string" where
  "print_x16_array_le fe print_name_fmt name le p = print_n_array fe print_name_fmt name le 2 (\<lambda>n. fmt_0x 4 n @ '' '') p"

definition print_u16_array_le :: "structure_endian \<Rightarrow> string \<Rightarrow> string \<Rightarrow> bool \<Rightarrow> bytes \<Rightarrow> string" where
  "print_u16_array_le fe print_name_fmt name le p = print_n_array fe print_name_fmt name le 2 (\<lambda>n. dec_string n @ '' '') p"

definition structure_item_print_string :: "string \<Rightarrow> string \<Rightarrow> bytes \<Rightarrow> string" where
  "structure_item_print_string print_name_fmt name p =
     structure_print_name print_name_fmt name @ string_of_bytes p @ [newline]"

text \<open>The indentation of the dump is the format of the name, printed for the empty string.\<close>

definition structure_item_print_hexdump :: "string \<Rightarrow> string \<Rightarrow> bytes \<Rightarrow> string" where
  "structure_item_print_hexdump print_name_fmt name p =
     structure_print_name print_name_fmt name @ hexdump_indent (printf_s print_name_fmt []) p 0"

section \<open>Saving and loading fields\<close>

text \<open>A save function returns its status and the object, a load function its status and the bytes of the field afterwards.\<close>

definition save_json_unsigned_le ::
    "'j cjson \<Rightarrow> structure_endian \<Rightarrow> bool \<Rightarrow> 'j \<Rightarrow> string \<Rightarrow> bytes \<Rightarrow> int \<times> 'j" where
  "save_json_unsigned_le J fe le json name un =
     json_add_string_value J json name (Some (snprintf_unsigned 64 (structure_endian_prefer_le fe le) un))"

definition save_json_xunsigned_le ::
    "'j cjson \<Rightarrow> structure_endian \<Rightarrow> bool \<Rightarrow> 'j \<Rightarrow> string \<Rightarrow> bytes \<Rightarrow> int \<times> 'j" where
  "save_json_xunsigned_le J fe le json name un =
     json_add_string_value J json name (Some (snprintf_xunsigned 64 (structure_endian_prefer_le fe le) un))"

definition structure_item_load_json_number :: "'j cjson \<Rightarrow> 'j \<Rightarrow> string \<Rightarrow> nat \<Rightarrow> int \<times> u64" where
  "structure_item_load_json_number J json name base =
     (case json_get_string_value_in_object J json name of
        None \<Rightarrow> (-1, 0)
      | Some s \<Rightarrow> (let (un, err) = strict_strtoul s base None in (- err, un)))"

definition structure_item_set_unsigned :: "bytes \<Rightarrow> bool \<Rightarrow> u64 \<Rightarrow> int \<times> bytes" where
  "structure_item_set_unsigned addr le un =
     (if length addr \<in> {1, 2, 4, 8} then (0, from_cpu le (length addr) (unat un)) else (-1, addr))"

definition structure_item_load_set_json_value ::
    "'j cjson \<Rightarrow> structure_endian \<Rightarrow> bool \<Rightarrow> nat \<Rightarrow> 'j \<Rightarrow> string \<Rightarrow> bytes \<Rightarrow> (int \<times> bytes) cres" where
  "structure_item_load_set_json_value J fe le base json name addr =
     (let (ret, un) = structure_item_load_json_number J json name base
      in if ret < 0 then Ok (ret, addr)
         else Ok (structure_item_set_unsigned addr (structure_endian_prefer_le fe le) un))"

definition structure_item_save_json_x8_array :: "'j cjson \<Rightarrow> 'j \<Rightarrow> string \<Rightarrow> bytes \<Rightarrow> int \<times> 'j" where
  "structure_item_save_json_x8_array J json name u8s =
     (case cJSON_AddStringsToObject J json name (map (\<lambda>b. fmt_0x 2 (unat b)) u8s) of
        None \<Rightarrow> (-1, json)
      | Some r \<Rightarrow> (0, r))"

text \<open>The loop over the elements of an array: the element is stored before its text is judged.\<close>

fun load_x8 :: "'j cjson \<Rightarrow> 'j list \<Rightarrow> bytes \<Rightarrow> (int \<times> bytes) cres" where
  "load_x8 J [] u8s = Ok (0, u8s)"
| "load_x8 J (item # rest) [] = Ok (0, [])"
| "load_x8 J (item # rest) (b # u8s) =
     (case cJSON_GetStringValue J item of
        None \<Rightarrow> Oob
      | Some s \<Rightarrow>
          let (n, err) = strict_strtol s 16 None
          in if err \<noteq> 0 then Ok (-1, word_of_int n # u8s)
             else cbind (load_x8 J rest u8s) (\<lambda>(ret, bs). Ok (ret, word_of_int n # bs)))"

definition structure_item_load_json_x8_array :: "'j cjson \<Rightarrow> 'j \<Rightarrow> string \<Rightarrow> bytes \<Rightarrow> (int \<times> bytes) cres" where
  "structure_item_load_json_x8_array J json name addr =
     (case cJSON_GetObjectItem J json name of
        None \<Rightarrow> Ok (-1, addr)
      | Some array \<Rightarrow>
          if \<not> cJSON_IsArray J array then Ok (-1, addr) else load_x8 J (cJSON_ArrayItems J array) addr)"

definition save_json_n32_array ::
    "'j cjson \<Rightarrow> structure_endian \<Rightarrow> bool \<Rightarrow> (u32 \<Rightarrow> string) \<Rightarrow> 'j \<Rightarrow> string \<Rightarrow> bytes \<Rightarrow> int \<times> 'j" where
  "save_json_n32_array J fe le fmt json name n32 =
     (case cJSON_AddStringsToObject J json name
        (map (\<lambda>e. snprintf_s 32 (fmt (word_of_nat (to_cpu (structure_endian_prefer_le fe le) e)))) (elements_of 4 n32)) of
        None \<Rightarrow> (-1, json)
      | Some r \<Rightarrow> (0, r))"

fun load_n32 :: "'j cjson \<Rightarrow> bool \<Rightarrow> nat \<Rightarrow> nat \<Rightarrow> 'j list \<Rightarrow> bytes \<Rightarrow> (int \<times> bytes) cres" where
  "load_n32 J le base 0 items u32s = Ok (0, u32s)"
| "load_n32 J le base (Suc n) [] u32s = Ok (0, u32s)"
| "load_n32 J le base (Suc n) (item # rest) u32s =
     (case cJSON_GetStringValue J item of
        None \<Rightarrow> Oob
      | Some s \<Rightarrow>
          let (v, err) = strict_strtol s base None
          in if err \<noteq> 0 then Ok (-1, u32s)
             else cbind (load_n32 J le base n rest (drop 4 u32s))
               (\<lambda>(ret, bs). Ok (ret, from_cpu le 4 (unat (word_of_int v :: u32)) @ bs)))"

definition load_json_n32_array ::
    "'j cjson \<Rightarrow> structure_endian \<Rightarrow> bool \<Rightarrow> nat \<Rightarrow> 'j \<Rightarrow> string \<Rightarrow> bytes \<Rightarrow> (int \<times> bytes) cres" where
  "load_json_n32_array J fe le base json name addr =
     (case cJSON_GetObjectItem J json name of
        None \<Rightarrow> Ok (-1, addr)
      | Some array \<Rightarrow>
          if \<not> cJSON_IsArray J array then Ok (-1, addr)
          else load_n32 J (structure_endian_prefer_le fe le) base (length addr div 4) (cJSON_ArrayItems J array) addr)"

text \<open>\<open>snprintf\<close> into the field keeps what is behind the terminator.\<close>

definition structure_item_load_json_string :: "'j cjson \<Rightarrow> 'j \<Rightarrow> string \<Rightarrow> bytes \<Rightarrow> (int \<times> bytes) cres" where
  "structure_item_load_json_string J json name addr =
     (case json_get_string_value_in_object J json name of
        None \<Rightarrow> Ok (-1, addr)
      | Some s \<Rightarrow>
          let b = (if addr = [] then [] else bytes_of_string (snprintf_s (length addr) s) @ [0])
          in Ok (0, b @ drop (length b) addr))"

definition structure_item_save_json_string :: "'j cjson \<Rightarrow> 'j \<Rightarrow> string \<Rightarrow> bytes \<Rightarrow> int \<times> 'j" where
  "structure_item_save_json_string J json name addr =
     (0, snd (json_create_or_update_string_value J json name (string_of_bytes addr)))"

section \<open>Tables of fields\<close>

text \<open>The print function of a field; a function of another file is given with what it prints.\<close>

datatype item_print = Print_none | Print_string | Print_unsigned | Print_be_unsigned | Print_xunsigned | Print_be_xunsigned
  | Print_x8_array | Print_x32_array | Print_other "string \<Rightarrow> string \<Rightarrow> bytes \<Rightarrow> string"

type_synonym 'j save_json_t = "'j \<Rightarrow> string \<Rightarrow> bytes \<Rightarrow> int \<times> 'j"
type_synonym 'j load_json_t = "'j \<Rightarrow> string \<Rightarrow> bytes \<Rightarrow> (int \<times> bytes) cres"

definition STRUCTURE_FLAG_NOT_SAVE :: u32 where "STRUCTURE_FLAG_NOT_SAVE = 1"

record 'j structure_item =
  item_name :: string
  item_offset :: nat
  item_size :: nat
  item_print :: item_print
  item_save_json :: "'j save_json_t option"
  item_load_json :: "'j load_json_t option"
  item_flags :: u32

definition item_print_fn :: "structure_endian \<Rightarrow> item_print \<Rightarrow> string \<Rightarrow> string \<Rightarrow> bytes \<Rightarrow> string" where
  "item_print_fn fe pr print_name_fmt name p =
     (case pr of
        Print_none \<Rightarrow> []
      | Print_string \<Rightarrow> structure_item_print_string print_name_fmt name p
      | Print_unsigned \<Rightarrow> print_unsigned_le fe print_name_fmt name True p
      | Print_be_unsigned \<Rightarrow> print_unsigned_le fe print_name_fmt name False p
      | Print_xunsigned \<Rightarrow> print_xunsigned_le fe print_name_fmt name True p
      | Print_be_xunsigned \<Rightarrow> print_xunsigned_le fe print_name_fmt name False p
      | Print_x8_array \<Rightarrow> structure_item_print_x8_array print_name_fmt name p
      | Print_x32_array \<Rightarrow> print_x32_array_le fe print_name_fmt name True p
      | Print_other f \<Rightarrow> f print_name_fmt name p)"

text \<open>The table of the types that have a save and a load function of their own.\<close>

definition get_structure_item_type ::
    "'j cjson \<Rightarrow> structure_endian \<Rightarrow> item_print \<Rightarrow> ('j save_json_t \<times> 'j load_json_t) option" where
  "get_structure_item_type J fe pr =
     (case pr of
        Print_string \<Rightarrow> Some (structure_item_save_json_string J, structure_item_load_json_string J)
      | Print_unsigned \<Rightarrow> Some (save_json_unsigned_le J fe True, structure_item_load_set_json_value J fe True 10)
      | Print_be_unsigned \<Rightarrow> Some (save_json_unsigned_le J fe False, structure_item_load_set_json_value J fe False 10)
      | Print_xunsigned \<Rightarrow> Some (save_json_xunsigned_le J fe True, structure_item_load_set_json_value J fe True 16)
      | Print_be_xunsigned \<Rightarrow> Some (save_json_xunsigned_le J fe False, structure_item_load_set_json_value J fe False 16)
      | Print_x8_array \<Rightarrow> Some (structure_item_save_json_x8_array J, structure_item_load_json_x8_array J)
      | Print_x32_array \<Rightarrow> Some (save_json_n32_array J fe True (\<lambda>w. fmt_0x 8 (unat w)), load_json_n32_array J fe True 16)
      | _ \<Rightarrow> None)"

definition field :: "'j structure_item \<Rightarrow> bytes \<Rightarrow> bytes" where
  "field item base = take (item_size item) (drop (item_offset item) base)"

definition set_field :: "'j structure_item \<Rightarrow> bytes \<Rightarrow> bytes \<Rightarrow> bytes" where
  "set_field item bs base = take (item_offset item) base @ bs @ drop (item_offset item + item_size item) base"

definition structure_print :: "structure_endian \<Rightarrow> string \<Rightarrow> bytes \<Rightarrow> 'j structure_item list \<Rightarrow> string" where
  "structure_print fe print_name_fmt base items =
     concat (map (\<lambda>item. item_print_fn fe (item_print item) print_name_fmt (item_name item) (field item base)) items)"

fun structure_save_json ::
    "'j cjson \<Rightarrow> structure_endian \<Rightarrow> 'j \<Rightarrow> bytes \<Rightarrow> 'j structure_item list \<Rightarrow> int \<times> 'j" where
  "structure_save_json J fe json base [] = (0, json)"
| "structure_save_json J fe json base (item # items) =
     (if item_flags item AND STRUCTURE_FLAG_NOT_SAVE \<noteq> 0 then structure_save_json J fe json base items
      else
        let save = (case item_save_json item of
                      Some f \<Rightarrow> Some f
                    | None \<Rightarrow> map_option fst (get_structure_item_type J fe (item_print item)))
        in case save of
             None \<Rightarrow> (-1, json)
           | Some f \<Rightarrow>
               (case f json (item_name item) (field item base) of
                  (ret, json') \<Rightarrow> if ret < 0 then (ret, json') else structure_save_json J fe json' base items))"

fun structure_load_json ::
    "'j cjson \<Rightarrow> structure_endian \<Rightarrow> 'j \<Rightarrow> bytes \<Rightarrow> 'j structure_item list \<Rightarrow> (int \<times> bytes) cres" where
  "structure_load_json J fe json base [] = Ok (0, base)"
| "structure_load_json J fe json base (item # items) =
     (if item_flags item AND STRUCTURE_FLAG_NOT_SAVE \<noteq> 0 then structure_load_json J fe json base items
      else
        let load = (case item_load_json item of
                      Some f \<Rightarrow> Some f
                    | None \<Rightarrow> map_option snd (get_structure_item_type J fe (item_print item)))
        in case load of
             None \<Rightarrow> Ok (-1, base)
           | Some f \<Rightarrow>
               cbind (f json (item_name item) (field item base))
                 (\<lambda>(ret, bs).
                    let base' = set_field item bs base
                    in if ret < 0 then Ok (ret, base') else structure_load_json J fe json base' items))"

end
