(* ===== verification/StructureLaws.thy ===== *)
theory StructureLaws
  imports Structure StringLaws
begin

text \<open>
  Numbers in hexadecimal are read back, fields saved to a JSON object are loaded as they were, and so are whole tables of
  them.
\<close>

section \<open>Hexadecimal numbers\<close>

lemma hex_char_class:
  assumes "d < 16"
  shows "digit_value (hex_char d) = Some d" "is_digit_in 16 (hex_char d)"
proof -
  have n: "(of_char (hex_char d) :: nat) = (if d < 10 then 48 + d else 87 + d)"
    using assms by (simp add: hex_char_def)
  show "digit_value (hex_char d) = Some d" using assms by (simp add: digit_value_def n Let_def)
  then show "is_digit_in 16 (hex_char d)" using assms by (simp add: is_digit_in_def)
qed

lemma hex_string_less: "n < 16 \<Longrightarrow> hex_string n = [hex_char n]"
  by (simp add: hex_string.simps [of n])

lemma hex_string_ge: "\<not> n < 16 \<Longrightarrow> hex_string n = hex_string (n div 16) @ [hex_char (n mod 16)]"
  by (simp add: hex_string.simps [of n])

lemma read_digits_hex:
  "\<exists>k. \<forall>acc. read_digits 16 acc (hex_string n @ rest) = read_digits 16 (acc * 16 ^ k + n) rest"
proof (induction n arbitrary: rest rule: less_induct)
  case (less n)
  show ?case
  proof (cases "n < 16")
    case True
    then show ?thesis by (intro exI [of _ 1]) (simp add: hex_string_less hex_char_class)
  next
    case False
    then have "n div 16 < n" by simp
    from less.IH [OF this, of "hex_char (n mod 16) # rest"] obtain k where
      k: "\<And>acc. read_digits 16 acc (hex_string (n div 16) @ hex_char (n mod 16) # rest)
        = read_digits 16 (acc * 16 ^ k + n div 16) (hex_char (n mod 16) # rest)" by blast
    have "read_digits 16 acc (hex_string n @ rest) = read_digits 16 (acc * 16 ^ Suc k + n) rest" for acc
    proof -
      have "read_digits 16 acc (hex_string n @ rest) = read_digits 16 ((acc * 16 ^ k + n div 16) * 16 + n mod 16) rest"
        using False k [of acc] by (simp add: hex_string_ge hex_char_class)
      also have "(acc * 16 ^ k + n div 16) * 16 + n mod 16 = acc * 16 ^ Suc k + n"
        using div_mult_mod_eq [of n 16] by (simp add: algebra_simps)
      finally show ?thesis .
    qed
    then show ?thesis by blast
  qed
qed

lemma read_digits_zeros: "read_digits 16 0 (replicate k (CHR ''0'') @ s) = read_digits 16 0 s"
  by (induction k) (simp_all add: is_digit_in_def digit_value_def)

lemma read_digits_pad: "read_digits 16 0 (pad_zero w (hex_string n)) = (n, [])"
  using read_digits_hex [of n "[]"] by (auto simp: pad_zero_def read_digits_zeros)

lemma hex_string_digits: "c \<in> set (hex_string n) \<Longrightarrow> is_digit_in 16 c"
proof (induction n rule: less_induct)
  case (less n)
  show ?case
    using less.IH [of "n div 16"] less.prems by (cases "n < 16") (auto simp: hex_string_less hex_string_ge hex_char_class)
qed

lemma hex_string_not_Nil [simp]: "hex_string n \<noteq> []"
  by (cases "n < 16") (simp_all add: hex_string_less hex_string_ge)

lemma pad_zero_digits: "pad_zero w (hex_string n) \<noteq> [] \<and> (\<forall>c\<in>set (pad_zero w (hex_string n)). is_digit_in 16 c)"
  using hex_string_digits [of _ n] by (auto simp: pad_zero_def is_digit_in_def digit_value_def)

text \<open>\<open>0x%08x\<close> and the like are read back in base 16.\<close>

lemma strtonum_hex: "strtonum 16 (fmt_0x w n) = (False, n, [])"
proof -
  obtain c cs where c: "pad_zero w (hex_string n) = c # cs" "is_digit_in 16 c"
    using pad_zero_digits [of w n] by (cases "pad_zero w (hex_string n)") auto
  have sp: "\<not> isspace (CHR ''0'')" by (simp add: isspace_def)
  have "strip_base 16 (''0x'' @ c # cs) = (16, c # cs)" using c(2) by (simp add: strip_base_def)
  then show ?thesis
    using c read_digits_pad [of w n] sp by (simp add: fmt_0x_def strtonum_def strip_sign_def Let_def)
qed

lemma length_hex_string: "n < 16 ^ Suc k \<Longrightarrow> length (hex_string n) \<le> Suc k"
proof (induction k arbitrary: n)
  case 0
  then show ?case by (simp add: hex_string_less)
next
  case (Suc k)
  show ?case
  proof (cases "n < 16")
    case False
    have "n div 16 < 16 ^ Suc k" using Suc.prems by (simp add: div_less_iff_less_mult)
    from Suc.IH [OF this] False show ?thesis by (simp add: hex_string_ge)
  qed (simp add: hex_string_less)
qed

section \<open>Numbers of a field\<close>

lemma from_to_cpu: "from_cpu le (length un) (to_cpu le un) = un"
  using le_encode_decode [of un] le_encode_decode [of "rev un"]
  by (simp add: from_cpu_def to_cpu_def be_encode_def be_decode_def)

lemma from_cpu_mod: "from_cpu le k (n mod 256 ^ k) = from_cpu le k n"
  by (simp add: from_cpu_def be_encode_def le_encode_mod)

lemma to_cpu_less: "to_cpu le un < 256 ^ length un"
  using le_decode_less [of un] le_decode_less [of "rev un"] by (simp add: to_cpu_def be_decode_def)

lemma length_from_cpu [simp]: "length (from_cpu le k n) = k"
  by (simp add: from_cpu_def)

text \<open>What a number printed with \<open>%d\<close> is read as: its low 32 bits are kept.\<close>

lemma strtoul_fmt_d: "\<exists>v. strtoul 10 (fmt_d w) = (v, []) \<and> unat v mod 2 ^ 32 = unat w"
proof (cases "sint w < 0")
  case False
  then have "uint w = sint w"
    using sint_lt [of w] by (subst uint_sint) (simp add: take_bit_eq_mod)
  then have "unat w = nat (sint w)" by (simp add: unat_eq_nat_uint)
  then have f: "fmt_d w = dec_string (unat w)" using False by (simp add: fmt_d_def)
  have "unat w < 2 ^ 32" using unsigned_less [of w] by simp
  then show ?thesis
    using strtonum_dec [of 10 "unat w" "[]"] by (simp add: f strtoul_def unsigned_ucast_eq take_bit_nat_eq_self)
next
  case True
  define n where "n = nat (- sint w)"
  have n: "n \<le> 2 ^ 31" "int n = - sint w" "0 < n"
    using True sint_ge [of w] by (simp_all add: n_def)
  have f: "fmt_d w = CHR ''-'' # dec_string n" using True by (simp add: fmt_d_def n_def)
  obtain c cs where c: "dec_string n = c # cs" by (cases "dec_string n") auto
  have cl: "is_digit_in 10 c" "\<not> isspace c" "c \<noteq> CHR ''-''" "c \<noteq> CHR ''+''"
    using dec_string_digits [of c n] c digit_class by auto
  have minus: "\<not> isspace (CHR ''-'')" by (simp add: isspace_def)
  have "strtonum 10 (dec_string n) = (False, n, [])" using strtonum_dec [of 10 n "[]"] by simp
  then have "strtonum 10 (CHR ''-'' # dec_string n) = (True, n, [])"
    using c cl minus by (simp add: strtonum_def strip_sign_def strip_base_def Let_def)
  then have "strtoul 10 (fmt_d w) = (- word_of_nat n, [])" using n(1) by (simp add: f strtoul_def)
  moreover have "unat (- word_of_nat n :: u64) mod 2 ^ 32 = unat w"
  proof -
    define x where "x = (- word_of_nat n :: u64)"
    have m: "- int n = sint w" using n(2) by simp
    have "x = word_of_int (- int n)" by (simp add: x_def)
    then have "uint x = sint w mod 2 ^ 64" unfolding m by (simp only: uint_word_of_int) simp
    then have "uint x mod 2 ^ 32 = sint w mod 2 ^ 32" by (simp only: mod_mod_cancel) (simp add: mod_mod_cancel)
    also have "\<dots> = uint w" by (simp add: uint_sint take_bit_eq_mod)
    finally have "int (unat x mod 2 ^ 32) = int (unat w)" by (simp add: zmod_int)
    then show ?thesis unfolding x_def by (simp only: of_nat_eq_iff)
  qed
  ultimately show ?thesis by simp
qed

text \<open>One field: what a save function writes, the load function of the same type turns back into the bytes.\<close>

definition number_print :: "item_print \<Rightarrow> bool" where
  "number_print pr \<longleftrightarrow> pr \<in> {Print_unsigned, Print_be_unsigned, Print_xunsigned, Print_be_xunsigned}"

text \<open>The text of a field, and its base and byte order.\<close>

definition number_base :: "item_print \<Rightarrow> nat" where
  "number_base pr = (if pr = Print_unsigned \<or> pr = Print_be_unsigned then 10 else 16)"

definition number_le :: "item_print \<Rightarrow> bool" where
  "number_le pr \<longleftrightarrow> pr = Print_unsigned \<or> pr = Print_xunsigned"

definition number_text :: "structure_endian \<Rightarrow> item_print \<Rightarrow> bytes \<Rightarrow> string" where
  "number_text fe pr un =
     (let le = structure_endian_prefer_le fe (number_le pr)
      in if number_base pr = 10 then snprintf_unsigned 64 le un else snprintf_xunsigned 64 le un)"

lemma number_text_read:
  assumes "length un \<in> {1, 2, 4, 8}"
  shows "\<exists>v. strict_strtoul (number_text fe pr un) (number_base pr) None = (v, 0) \<and>
    from_cpu (structure_endian_prefer_le fe (number_le pr)) (length un) (unat v) = un"
proof -
  define le where "le = structure_endian_prefer_le fe (number_le pr)"
  define n where "n = to_cpu le un"
  have n: "n < 256 ^ length un" "n < 2 ^ 64"
    using to_cpu_less [of le un] assms by (auto simp: n_def)
  have undo: "from_cpu le (length un) m = un" if "m mod 256 ^ length un = n" for m
    using from_cpu_mod [of le "length un" m] that from_to_cpu [of le un] by (simp add: n_def)
  have word: "unat (word_of_nat n :: u64) = n" using n(2) by (simp add: unat_of_nat)
  show ?thesis
  proof (cases "number_base pr = 10")
    case dec: True
    show ?thesis
    proof (cases "length un = 4")
      case True
      obtain v where v: "strtoul 10 (fmt_d (word_of_nat n)) = (v, [])" "unat v mod 2 ^ 32 = unat (word_of_nat n :: u32)"
        using strtoul_fmt_d by blast
      have "n < 2 ^ 32" using n(1) True by simp
      then have w: "unat (word_of_nat n :: u32) = n" by (simp add: unat_of_nat)
      define i where "i = sint (word_of_nat n :: u32)"
      have "nat i < 10 ^ Suc 9" "nat (- i) < 10 ^ Suc 9"
        using sint_ge [of "word_of_nat n :: u32"] sint_lt [of "word_of_nat n :: u32"] by (simp_all add: i_def)
      then have "length (fmt_d (word_of_nat n)) \<le> 63"
        using length_dec_string [of "nat i" 9] length_dec_string [of "nat (- i)" 9]
        by (simp add: fmt_d_def Let_def flip: i_def)
      then have "number_text fe pr un = fmt_d (word_of_nat n)"
        using dec True by (simp add: number_text_def snprintf_unsigned_def snprintf_s_def le_def n_def Let_def)
      then show ?thesis
        using dec v w True undo [of "unat v"] by (simp add: strict_strtoul_def strict_err_def le_def)
    next
      case False
      have "length (dec_string n) \<le> 63" using length_dec_string [of n 19] n(2) by simp
      then have "number_text fe pr un = dec_string n"
        using dec False assms by (auto simp: number_text_def snprintf_unsigned_def snprintf_s_def le_def n_def Let_def)
      then show ?thesis
        using dec strtonum_dec [of 10 n "[]"] n undo [of n] word by (simp add: strict_strtoul_def strtoul_def strict_err_def le_def)
    qed
  next
    case False
    have "length (hex_string n) \<le> 16" using length_hex_string [of n 15] n(2) by simp
    then have "length (fmt_0x w n) \<le> 63" if "w \<le> 16" for w using that by (simp add: fmt_0x_def pad_zero_def)
    then obtain w where "number_text fe pr un = fmt_0x w n"
      using False assms by (auto simp: number_text_def snprintf_xunsigned_def snprintf_s_def le_def n_def Let_def)
    moreover have "number_base pr = 16" using False by (simp add: number_base_def split: if_splits)
    ultimately show ?thesis
      using strtonum_hex [of w n] n undo [of n] word by (simp add: strict_strtoul_def strtoul_def strict_err_def le_def)
  qed
qed

section \<open>Objects\<close>

text \<open>
  What is relied on of cJSON: a string that was added is found under its name when there was no item of that name before, and
  items whose names differ by more than the case of letters stay as they were.
\<close>

definition cjson_adds :: "'j cjson \<Rightarrow> bool" where
  "cjson_adds J \<longleftrightarrow>
     (\<forall>j n v j'. cJSON_AddStringToObject J j n v = Some j' \<longrightarrow>
        (cJSON_GetObjectItem J j n = None \<longrightarrow>
           (\<exists>s. cJSON_GetObjectItem J j' n = Some s \<and> cJSON_IsString J s \<and> cJSON_GetStringValue J s = Some v)) \<and>
        (\<forall>m. map toupper m \<noteq> map toupper n \<longrightarrow> cJSON_GetObjectItem J j' m = cJSON_GetObjectItem J j m))"

text \<open>A table of numbers: sizes, fields in order and apart from each other, names that differ.\<close>

definition number_item :: "'j structure_item \<Rightarrow> bool" where
  "number_item item \<longleftrightarrow> number_print (item_print item) \<and> item_size item \<in> {1, 2, 4, 8} \<and> item_save_json item = None \<and>
     item_load_json item = None \<and> item_flags item AND STRUCTURE_FLAG_NOT_SAVE = 0"

definition upper_name :: "'j structure_item \<Rightarrow> nat list" where
  "upper_name item = map toupper (item_name item)"

fun in_order :: "nat \<Rightarrow> nat \<Rightarrow> 'j structure_item list \<Rightarrow> bool" where
  "in_order pos len [] \<longleftrightarrow> True"
| "in_order pos len (item # items) \<longleftrightarrow>
     pos \<le> item_offset item \<and> item_offset item + item_size item \<le> len \<and> in_order (item_offset item + item_size item) len items"

lemma number_item_type:
  assumes "number_item item"
  shows "get_structure_item_type J fe (item_print item) =
    Some (\<lambda>json name un. json_add_string_value J json name (Some (number_text fe (item_print item) un)),
      structure_item_load_set_json_value J fe (number_le (item_print item)) (number_base (item_print item)))"
  using assms
  by (auto simp: number_item_def number_print_def get_structure_item_type_def number_le_def number_base_def number_text_def
      save_json_unsigned_le_def save_json_xunsigned_le_def fun_eq_iff)

definition saved :: "'j cjson \<Rightarrow> structure_endian \<Rightarrow> 'j \<Rightarrow> bytes \<Rightarrow> 'j structure_item \<Rightarrow> bool" where
  "saved J fe json base item \<longleftrightarrow>
     json_get_string_value_in_object J json (item_name item) = Some (number_text fe (item_print item) (field item base))"

lemma structure_save_saved:
  assumes "cjson_adds J"
  shows "list_all number_item items \<Longrightarrow> distinct (map upper_name items) \<Longrightarrow>
    \<forall>item\<in>set items. cJSON_GetObjectItem J json (item_name item) = None \<Longrightarrow>
    structure_save_json J fe json base items = (0, json') \<Longrightarrow>
    list_all (saved J fe json' base) items \<and>
    (\<forall>m. map toupper m \<notin> upper_name ` set items \<longrightarrow> cJSON_GetObjectItem J json' m = cJSON_GetObjectItem J json m)"
proof (induction items arbitrary: json)
  case Nil
  then show ?case by simp
next
  case (Cons item items)
  have item: "number_item item" using Cons.prems(1) by simp
  obtain json1 where add: "cJSON_AddStringToObject J json (item_name item) (number_text fe (item_print item) (field item base)) = Some json1"
    and rest: "structure_save_json J fe json1 base items = (0, json')"
    using Cons.prems(4) item number_item_type [OF item, of J fe]
    by (auto simp: number_item_def json_add_string_value_def split: option.splits)
  obtain s where s: "cJSON_GetObjectItem J json1 (item_name item) = Some s" "cJSON_IsString J s"
      "cJSON_GetStringValue J s = Some (number_text fe (item_print item) (field item base))"
    and keep: "\<And>m. map toupper m \<noteq> upper_name item \<Longrightarrow> cJSON_GetObjectItem J json1 m = cJSON_GetObjectItem J json m"
    using assms add Cons.prems(3) unfolding cjson_adds_def upper_name_def by (metis list.set_intros(1))
  have "\<forall>i\<in>set items. cJSON_GetObjectItem J json1 (item_name i) = None"
  proof
    fix i
    assume i: "i \<in> set items"
    then have "upper_name i \<noteq> upper_name item" using Cons.prems(2) by (metis distinct.simps(2) image_eqI list.set_map list.simps(9))
    then show "cJSON_GetObjectItem J json1 (item_name i) = None"
      using keep [of "item_name i"] Cons.prems(3) i by (simp add: upper_name_def)
  qed
  from Cons.IH [OF _ _ this rest] Cons.prems(1,2) have ih: "list_all (saved J fe json' base) items"
    "\<And>m. map toupper m \<notin> upper_name ` set items \<Longrightarrow> cJSON_GetObjectItem J json' m = cJSON_GetObjectItem J json1 m" by auto
  have "cJSON_GetObjectItem J json' (item_name item) = Some s"
    using ih(2) [of "item_name item"] s(1) Cons.prems(2) by (simp add: upper_name_def image_image)
  then have "saved J fe json' base item" using s by (simp add: saved_def json_get_string_value_in_object_def)
  moreover have "cJSON_GetObjectItem J json' m = cJSON_GetObjectItem J json m"
    if "map toupper m \<notin> upper_name ` set (item # items)" for m
    using that ih(2) [of m] keep [of m] by simp
  ultimately show ?case using ih(1) by simp
qed

section \<open>Loading a table\<close>

lemma take_set_field: "o' \<le> item_offset item \<Longrightarrow> o' \<le> length base \<Longrightarrow> take o' (set_field item bs base) = take o' base"
  by (auto simp: set_field_def min_def)

lemma length_set_field:
  "item_offset item + item_size item \<le> length base \<Longrightarrow> length bs = item_size item \<Longrightarrow> length (set_field item bs base) = length base"
  by (simp add: set_field_def)

lemma field_set_field:
  "item_offset item + item_size item \<le> length base \<Longrightarrow> length bs = item_size item \<Longrightarrow> field item (set_field item bs base) = bs"
  by (simp add: field_def set_field_def)

lemma field_take:
  "item_offset item + item_size item \<le> k \<Longrightarrow> field item (take k base) = field item base"
  by (simp add: field_def drop_take min_def)

lemma structure_load_saved:
  "list_all number_item items \<Longrightarrow> list_all (saved J fe json base) items \<Longrightarrow> length base = len \<Longrightarrow> length base2 = len \<Longrightarrow>
   in_order pos len items \<Longrightarrow>
   \<exists>base3. structure_load_json J fe json base2 items = Ok (0, base3) \<and> length base3 = len \<and>
     (pos \<le> len \<longrightarrow> take pos base3 = take pos base2) \<and> (\<forall>item\<in>set items. field item base3 = field item base)"
proof (induction items arbitrary: base2 pos)
  case Nil
  then show ?case by simp
next
  case (Cons item items)
  let ?e = "item_offset item + item_size item"
  have item: "number_item item" and sv: "saved J fe json base item" using Cons.prems(1,2) by simp_all
  have ord: "pos \<le> item_offset item" "?e \<le> len" "in_order ?e len items" using Cons.prems(5) by simp_all
  have lf: "length (field item base) = item_size item" "length (field item base2) = item_size item"
    using ord(2) Cons.prems(3,4) by (simp_all add: field_def)
  have sz: "item_size item \<in> {1, 2, 4, 8}" using item by (simp add: number_item_def)
  obtain v where v: "strict_strtoul (number_text fe (item_print item) (field item base)) (number_base (item_print item)) None = (v, 0)"
      "from_cpu (structure_endian_prefer_le fe (number_le (item_print item))) (item_size item) (unat v) = field item base"
    using number_text_read [of "field item base" fe "item_print item"] lf(1) sz by auto
  define base2' where "base2' = set_field item (field item base) base2"
  have one: "structure_item_load_set_json_value J fe (number_le (item_print item)) (number_base (item_print item)) json
      (item_name item) (field item base2) = Ok (0, field item base)"
    using sv v lf sz
    by (simp add: structure_item_load_set_json_value_def structure_item_load_json_number_def saved_def
        structure_item_set_unsigned_def)
  have step: "structure_load_json J fe json base2 (item # items) = structure_load_json J fe json base2' items"
    using item one number_item_type [OF item, of J fe] by (simp add: number_item_def base2'_def)
  have l2: "length base2' = len" using length_set_field [of item base2] lf(1) ord(2) Cons.prems(4) by (simp add: base2'_def)
  obtain base3 where b3: "structure_load_json J fe json base2' items = Ok (0, base3)" "length base3 = len"
      "take ?e base3 = take ?e base2'" "\<forall>item\<in>set items. field item base3 = field item base"
    using Cons.IH [of base2' ?e] Cons.prems(1-3) l2 ord by auto
  have "field item base3 = field item base2'"
    using field_take [of item ?e base3] field_take [of item ?e base2'] b3(3) by simp
  also have "\<dots> = field item base"
    using field_set_field [of item base2] lf(1) ord(2) Cons.prems(4) by (simp add: base2'_def)
  finally have f: "field item base3 = field item base" .
  have "take pos base3 = take pos base2" if "pos \<le> len"
  proof -
    have "take pos base3 = take pos (take ?e base3)" using ord(1) by simp
    also have "\<dots> = take pos base2'" unfolding b3(3) using ord(1) by simp
    also have "\<dots> = take pos base2" using take_set_field [of pos item base2] ord(1) that Cons.prems(4) by (simp add: base2'_def)
    finally show ?thesis .
  qed
  then show ?case using step b3 f by auto
qed

text \<open>C9: a table of numbers saved to a JSON object and loaded from it into any structure of the same size restores every
  field, in every byte order, forced or not, in decimal or hexadecimal, for fields of 1, 2, 4 and 8 bytes, also those printed
  as negative numbers.\<close>

theorem structure_json_roundtrip:
  assumes "cjson_adds J" "list_all number_item items" "distinct (map upper_name items)" "in_order 0 (length base) items"
    and "\<forall>item\<in>set items. cJSON_GetObjectItem J json (item_name item) = None"
    and "structure_save_json J fe json base items = (0, json')" "length base2 = length base"
  shows "\<exists>base3. structure_load_json J fe json' base2 items = Ok (0, base3) \<and> length base3 = length base \<and>
    (\<forall>item\<in>set items. field item base3 = field item base)"
  using structure_save_saved [OF assms(1-3,5,6)] structure_load_saved [OF assms(2) _ refl assms(7,4), of J fe json'] by blast

section \<open>Witness\<close>

text \<open>Objects whose items are strings, as functions of the name in capitals; an item is its text.\<close>

datatype demo_json = Demo_string string | Demo_object "nat list \<Rightarrow> string option"

definition demo_cjson :: "demo_json cjson" where
  "demo_cjson =
     \<lparr>cJSON_GetObjectItem = (\<lambda>j n. case j of Demo_string s \<Rightarrow> None | Demo_object f \<Rightarrow> map_option Demo_string (f (map toupper n))),
      cJSON_IsString = (\<lambda>j. case j of Demo_string s \<Rightarrow> True | Demo_object f \<Rightarrow> False),
      cJSON_IsNumber = (\<lambda>j. False),
      cJSON_IsArray = (\<lambda>j. False),
      cJSON_GetStringValue = (\<lambda>j. case j of Demo_string s \<Rightarrow> Some s | Demo_object f \<Rightarrow> None),
      cJSON_GetNumberValue = (\<lambda>j. 0),
      cJSON_ArrayItems = (\<lambda>j. []),
      cJSON_AddStringToObject = (\<lambda>j n v. case j of Demo_string s \<Rightarrow> None | Demo_object f \<Rightarrow>
        Some (Demo_object (\<lambda>m. if m = map toupper n \<and> f m = None then Some v else f m))),
      cJSON_SetItemString = (\<lambda>j n v. j),
      cJSON_AddStringsToObject = (\<lambda>j n vs. None), cJSON_CreateObject = Some (Demo_object (\<lambda>m. None)),
      cJSON_AddItemsToObject = (\<lambda>j n vs. None)\<rparr>"

lemma demo_cjson_adds: "cjson_adds demo_cjson"
  by (auto simp: cjson_adds_def demo_cjson_def split: demo_json.splits)

definition demo_items :: "demo_json structure_item list" where
  "demo_items =
     [\<lparr>item_name = ''size'', item_offset = 0, item_size = 4, item_print = Print_unsigned, item_save_json = None,
       item_load_json = None, item_flags = 0\<rparr>,
      \<lparr>item_name = ''addr'', item_offset = 4, item_size = 2, item_print = Print_be_xunsigned, item_save_json = None,
       item_load_json = None, item_flags = 0\<rparr>]"

theorem structure_json_roundtrip_witness:
  "\<exists>base3. structure_load_json demo_cjson STRUCTURE_ENDIAN_FORCE_NONE
      (snd (structure_save_json demo_cjson STRUCTURE_ENDIAN_FORCE_NONE (Demo_object (\<lambda>n. None))
        [0xff, 0xff, 0xff, 0xff, 0x12, 0x34] demo_items)) (replicate 6 0) demo_items = Ok (0, base3) \<and>
    length base3 = 6 \<and> field (hd demo_items) base3 = [0xff, 0xff, 0xff, 0xff] \<and> field (demo_items ! 1) base3 = [0x12, 0x34]"
proof -
  let ?base = "[0xff, 0xff, 0xff, 0xff, 0x12, 0x34] :: bytes"
  let ?save = "structure_save_json demo_cjson STRUCTURE_ENDIAN_FORCE_NONE (Demo_object (\<lambda>n. None)) ?base demo_items"
  have items: "list_all number_item demo_items" "in_order 0 (length ?base) demo_items"
    by (simp_all add: demo_items_def number_item_def number_print_def)
  have names: "distinct (map upper_name demo_items)"
    by (simp add: demo_items_def upper_name_def toupper_def)
  have "\<forall>item\<in>set demo_items. cJSON_GetObjectItem demo_cjson (Demo_object (\<lambda>n. None)) (item_name item) = None"
    by (simp add: demo_cjson_def)
  moreover have "?save = (0, snd ?save)"
    by (simp add: demo_items_def get_structure_item_type_def save_json_unsigned_le_def save_json_xunsigned_le_def
        json_add_string_value_def demo_cjson_def)
  ultimately obtain base3 where "structure_load_json demo_cjson STRUCTURE_ENDIAN_FORCE_NONE (snd ?save) (replicate 6 0) demo_items
      = Ok (0, base3)" "length base3 = 6" "\<forall>item\<in>set demo_items. field item base3 = field item ?base"
    using structure_json_roundtrip [OF demo_cjson_adds items(1) names items(2), of "Demo_object (\<lambda>n. None)" STRUCTURE_ENDIAN_FORCE_NONE
        "snd ?save" "replicate 6 0"] by auto
  then show ?thesis by (auto simp: demo_items_def field_def)
qed

end
