(* ===== verification/Gpt.thy ===== *)
theory Gpt
  imports Files Strings Crc Structure Xopt
begin

text \<open>
  The GUID partition table editor (disk/gpt.c): detection, the listings, writing a table, and the description of partitions
  that u-boot understands. The entries are the memory they lie in, of which the code reads structures of 128 bytes; an access
  behind the memory is \<open>Oob\<close>. Fields have the width of the code, in host order. The tables of \<open>crc32\<close> are passed along. What
  goes to the error output is left out.
\<close>

section \<open>Structures\<close>

definition GPT_DEF_PART_ENTRY_LBA :: u64 where "GPT_DEF_PART_ENTRY_LBA = 2"
definition GPT_DEF_NUM_PARTS :: u32 where "GPT_DEF_NUM_PARTS = 56"
definition GPT_MAX_NUM_PARTS :: u32 where "GPT_MAX_NUM_PARTS = 128"
definition GPT_PARTS_RESERVED_LBA :: u64 where "GPT_PARTS_RESERVED_LBA = (128 * 128) div 512"
definition GPT_DEF_FIRST_LBA :: u64 where "GPT_DEF_FIRST_LBA = GPT_DEF_PART_ENTRY_LBA + GPT_PARTS_RESERVED_LBA"
definition GPT_HEADER_REVISION_V1 :: u32 where "GPT_HEADER_REVISION_V1 = 0x00010000"

definition gpt_signature :: bytes where "gpt_signature = bytes_of_string ''EFI PART''"

record gpt_header =
  signature :: u64
  revision :: u32
  gpt_header_size :: u32
  header_crc32 :: u32
  reserved1 :: u32
  my_lba :: u64
  alternate_lba :: u64
  first_usable_lba :: u64
  last_usable_lba :: u64
  disk_guid :: bytes
  partition_entry_lba :: u64
  hdr_num_partition_entries :: u32
  sizeof_partition_entry :: u32
  partition_entry_array_crc32 :: u32

definition encode_header :: "gpt_header \<Rightarrow> bytes" where
  "encode_header h =
     le64 (signature h) @ le32 (revision h) @ le32 (gpt_header_size h) @ le32 (header_crc32 h) @ le32 (reserved1 h)
       @ le64 (my_lba h) @ le64 (alternate_lba h) @ le64 (first_usable_lba h) @ le64 (last_usable_lba h)
       @ disk_guid h @ le64 (partition_entry_lba h) @ le32 (hdr_num_partition_entries h)
       @ le32 (sizeof_partition_entry h) @ le32 (partition_entry_array_crc32 h)"

definition decode_header :: "bytes \<Rightarrow> gpt_header" where
  "decode_header b =
     \<lparr>signature = get_le 0 8 b, revision = get_le 8 4 b, gpt_header_size = get_le 12 4 b, header_crc32 = get_le 16 4 b,
      reserved1 = get_le 20 4 b, my_lba = get_le 24 8 b, alternate_lba = get_le 32 8 b, first_usable_lba = get_le 40 8 b,
      last_usable_lba = get_le 48 8 b, disk_guid = take 16 (drop 56 b), partition_entry_lba = get_le 72 8 b,
      hdr_num_partition_entries = get_le 80 4 b, sizeof_partition_entry = get_le 84 4 b,
      partition_entry_array_crc32 = get_le 88 4 b\<rparr>"

record gpt_entry =
  partition_type_guid :: bytes
  unique_partition_guid :: bytes
  starting_lba :: u64
  ending_lba :: u64
  attributes :: u64
  partition_name :: "u16 list"

definition PARTNAME_SZ :: nat where "PARTNAME_SZ = 72 div 2"

definition encode_entry :: "gpt_entry \<Rightarrow> bytes" where
  "encode_entry e =
     partition_type_guid e @ unique_partition_guid e @ le64 (starting_lba e) @ le64 (ending_lba e) @ le64 (attributes e)
       @ concat (map le16 (partition_name e))"

definition decode_entry :: "bytes \<Rightarrow> gpt_entry" where
  "decode_entry b =
     \<lparr>partition_type_guid = take 16 b, unique_partition_guid = take 16 (drop 16 b), starting_lba = get_le 32 8 b,
      ending_lba = get_le 40 8 b, attributes = get_le 48 8 b,
      partition_name = map (\<lambda>i. get_le (56 + 2 * i) 2 b) [0..<PARTNAME_SZ]\<rparr>"

text \<open>\<open>&partitions[i]\<close>, of which the first \<open>n\<close> bytes are read, or the whole structure is written.\<close>

definition entry_at :: "nat \<Rightarrow> bytes \<Rightarrow> nat \<Rightarrow> gpt_entry cres" where
  "entry_at n mem i = (if 128 * i + n \<le> length mem then Ok (decode_entry (take 128 (drop (128 * i) mem))) else Oob)"

definition set_entry :: "bytes \<Rightarrow> nat \<Rightarrow> gpt_entry \<Rightarrow> bytes cres" where
  "set_entry mem i e =
     (if 128 * (i + 1) \<le> length mem then Ok (take (128 * i) mem @ encode_entry e @ drop (128 * (i + 1)) mem) else Oob)"

record gpt_write_partition_pdata =
  next_lba :: u64
  active_partition_entries :: u32
  disk_type_uid :: bytes

record gpt_editor_private_data =
  gpt_fd :: int
  hdr :: gpt_header
  partitions :: "bytes option"
  num_partition_entries :: u32
  wpdata :: gpt_write_partition_pdata

text \<open>The memory of the entries; using it while it is NULL is a fault.\<close>

definition entries_mem :: "gpt_editor_private_data \<Rightarrow> bytes cres" where
  "entries_mem p = (case partitions p of None \<Rightarrow> Oob | Some mem \<Rightarrow> Ok mem)"

text \<open>\<open>lba2sz\<close> of a 32 bit number has 32 bits.\<close>

definition lba2sz :: "'a::len word \<Rightarrow> 'a word" where
  "lba2sz lba = lba * 512"

section \<open>GUIDs\<close>

definition uuid_char_order :: "nat list" where
  "uuid_char_order = [0, 1, 2, 3, 4, 5, 6, 7, 8, 9, 10, 11, 12, 13, 14, 15]"

definition guid_char_order :: "nat list" where
  "guid_char_order = [3, 2, 1, 0, 5, 4, 7, 6, 8, 9, 10, 11, 12, 13, 14, 15]"

text \<open>The pieces of text that are appended one after the other, to a buffer with \<open>freesz\<close> bytes left.\<close>

fun snprintf_pieces :: "nat \<Rightarrow> string list \<Rightarrow> string cres" where
  "snprintf_pieces freesz [] = Ok []"
| "snprintf_pieces freesz (txt # txts) =
     cbind (snprintf_continue freesz txt)
       (\<lambda>(s, freesz', _). cbind (snprintf_pieces freesz' txts) (\<lambda>rest. Ok (s @ rest)))"

definition uuid_pieces :: "(nat \<Rightarrow> string) \<Rightarrow> nat list \<Rightarrow> bytes \<Rightarrow> string list" where
  "uuid_pieces char_fmt order guid =
     concat (map (\<lambda>i. char_fmt (unat (guid ! (order ! i))) # (if i \<in> {3, 5, 7, 9} then [''-''] else [])) [0..<16])"

definition snprintf_uuid :: "nat \<Rightarrow> bool \<Rightarrow> (nat \<Rightarrow> string) \<Rightarrow> bytes \<Rightarrow> string cres" where
  "snprintf_uuid sz isuuid char_fmt guid =
     snprintf_pieces sz (uuid_pieces char_fmt (if isuuid then uuid_char_order else guid_char_order) guid)"

text \<open>\<open>%02X\<close>.\<close>

definition fmt_02X :: "nat \<Rightarrow> string" where
  "fmt_02X n = map (\<lambda>c. char_of (toupper c)) (fmt_02x n)"

definition store_uuid :: "nat list \<Rightarrow> bytes \<Rightarrow> bytes \<Rightarrow> bytes" where
  "store_uuid order uuid guid = foldl (\<lambda>g i. g[order ! i := uuid ! i]) guid [0..<16]"

definition sscanf_uuid :: "bytes \<Rightarrow> bool \<Rightarrow> string \<Rightarrow> int \<times> bytes" where
  "sscanf_uuid guid isuuid s =
     (let (ret, buf, endp) = xstring s 17
      in if ret \<noteq> 16 then (-1, guid)
         else (0, store_uuid (if isuuid then uuid_char_order else guid_char_order) buf guid))"

section \<open>Partition names\<close>

text \<open>The C string that the buffer holds afterwards.\<close>

definition gpt_partition_name_to_char :: "u16 list \<Rightarrow> nat \<Rightarrow> string" where
  "gpt_partition_name_to_char ws bufsz =
     c_string (map (\<lambda>c. char_of (unat c)) (takeWhile (\<lambda>c. c \<noteq> 0) (take (min PARTNAME_SZ (bufsz - 1)) ws)))"

text \<open>A \<open>char\<close> is signed.\<close>

definition wchar_of :: "char \<Rightarrow> u16" where
  "wchar_of c = (let n = of_char c in word_of_int (if n < 128 then n else n - 256))"

definition set_gpt_partition_name :: "u16 list \<Rightarrow> string \<Rightarrow> u16 list" where
  "set_gpt_partition_name ws s =
     (let new = map wchar_of (take (PARTNAME_SZ - 1) s) in new @ drop (length new) ws)"

fun gpt_find_part_from :: "bytes \<Rightarrow> nat \<Rightarrow> nat \<Rightarrow> string \<Rightarrow> gpt_entry option cres" where
  "gpt_find_part_from mem i 0 name = Ok None"
| "gpt_find_part_from mem i (Suc n) name =
     cbind (entry_at 128 mem i)
       (\<lambda>e. if gpt_partition_name_to_char (partition_name e) 128 = name then Ok (Some e)
            else gpt_find_part_from mem (i + 1) n name)"

definition gpt_find_part :: "gpt_editor_private_data \<Rightarrow> string \<Rightarrow> gpt_entry option cres" where
  "gpt_find_part p name =
     (if num_partition_entries p = 0 then Ok None
      else cbind (entries_mem p) (\<lambda>mem. gpt_find_part_from mem 0 (unat (num_partition_entries p)) name))"

section \<open>Detection\<close>

definition gpt_header_calc_crc32 :: "libcrc32 list \<Rightarrow> gpt_header \<Rightarrow> libcrc32 list \<times> u32" where
  "gpt_header_calc_crc32 algos h = crc32 algos 0 (encode_header (h\<lparr>header_crc32 := 0\<rparr>))"

text \<open>\<open>read\<close> into the memory of the entries, from an absolute offset.\<close>

definition gpt_load_entries ::
    "gpt_editor_private_data \<Rightarrow> u64 \<Rightarrow> int \<Rightarrow> libcrc32 list \<Rightarrow> sys \<Rightarrow> (int \<times> gpt_editor_private_data \<times> libcrc32 list \<times> sys) cres" where
  "gpt_load_entries p ent fd algos s =
     (let s1 = snd (lseek_set fd (sint ent) s);
          sz = unat (sizeof_partition_entry (hdr p)) * unat (num_partition_entries p);
          (ret, data, s2) = sys_read fd sz s1
      in cbind (entries_mem p)
        (\<lambda>mem.
          let mem' = data @ drop (length data) mem; p' = p\<lparr>partitions := Some mem'\<rparr>
          in if ret < 0 then Ok (ret, p, algos, s2)
             else if ret \<noteq> int sz then Ok (-1, p', algos, s2)
             else
               let (algos', c32) = crc32 algos 0 (take sz mem')
               in Ok (if c32 \<noteq> partition_entry_array_crc32 (hdr p) then -1 else 0, p', algos', s2)))"

text \<open>The number of entries in front of the first unused one.\<close>

fun count_used_from :: "bytes \<Rightarrow> nat \<Rightarrow> nat \<Rightarrow> nat cres" where
  "count_used_from mem i 0 = Ok 0"
| "count_used_from mem i (Suc n) =
     cbind (entry_at 40 mem i)
       (\<lambda>e. if (ucast (starting_lba e) :: u32) = 0 then Ok 0
            else cbind (entry_at 48 mem i)
              (\<lambda>e. if (ucast (ending_lba e) :: u32) = 0 then Ok 0
                   else cbind (count_used_from mem (i + 1) n) (\<lambda>k. Ok (Suc k))))"

definition gpt_disk_partition :: "gpt_entry \<Rightarrow> disk_partition" where
  "gpt_disk_partition e =
     \<lparr>part_name = gpt_partition_name_to_char (partition_name e) 32,
      start_addr = ucast (lba2sz (ucast (starting_lba e) :: u32)),
      end_addr = ucast (lba2sz (ucast (ending_lba e) :: u32) - 1)\<rparr>"

text \<open>\<open>mem\<close> tells whether the allocation succeeds.\<close>

definition gpt_register_disk_partitions :: "bool \<Rightarrow> gpt_editor_private_data \<Rightarrow> global_data \<Rightarrow> global_data cres" where
  "gpt_register_disk_partitions mem p g =
     (if num_partition_entries p = 0 then
        Ok (case alloc_disk_partitions mem ''GPT'' 0 of None \<Rightarrow> g | Some dp \<Rightarrow> register_disk_partitions dp g)
      else cbind (entries_mem p)
        (\<lambda>ents. cbind (count_used_from ents 0 (unat (num_partition_entries p)))
          (\<lambda>n. case alloc_disk_partitions mem ''GPT'' n of
                 None \<Rightarrow> Ok g
               | Some dp \<Rightarrow>
                   cbind (cmap (\<lambda>i. cbind (entry_at 128 ents i) (\<lambda>e. Ok (gpt_disk_partition e))) [0..<n])
                     (\<lambda>ps. Ok (register_disk_partitions (dp\<lparr>parts := ps\<rparr>) g)))))"

text \<open>Looking for the signature at the offset 0 and at the second sector: the result, and the offset it is at.\<close>

definition read_header :: "int \<Rightarrow> int \<Rightarrow> gpt_header \<Rightarrow> sys \<Rightarrow> int \<times> gpt_header \<times> sys" where
  "read_header fd off h s =
     (let (_, s1) = fileseek fd off s; (ret, data, s2) = sys_read fd 92 s1
      in (ret, if ret < 0 then h else decode_header (data @ drop (length data) (encode_header h)), s2))"

definition good_signature :: "gpt_header \<Rightarrow> bool" where
  "good_signature h \<longleftrightarrow> le64 (signature h) = gpt_signature"

definition gpt_probe :: "int \<Rightarrow> gpt_header \<Rightarrow> sys \<Rightarrow> int \<times> bool \<times> nat \<times> gpt_header \<times> sys" where
  "gpt_probe fd h s =
     (case read_header fd 0 h s of
        (ret, h1, s1) \<Rightarrow>
          if ret < 0 then (ret, False, 0, h1, s1)
          else if good_signature h1 then (ret, True, 0, h1, s1)
          else case read_header fd 512 h1 s1 of
              (ret, h2, s2) \<Rightarrow> if ret < 0 then (ret, False, 512, h2, s2) else (ret, good_signature h2, 512, h2, s2))"

text \<open>Where the three attempts look for the entries.\<close>

definition entries_offset :: "gpt_header \<Rightarrow> u64 \<Rightarrow> nat \<Rightarrow> u64" where
  "entries_offset h base retry =
     (if retry = 0 then lba2sz (partition_entry_lba h)
      else if retry = 1 then lba2sz (partition_entry_lba h - my_lba h) + base
      else lba2sz 1 + base)"

fun gpt_try_entries ::
    "nat list \<Rightarrow> int \<Rightarrow> gpt_editor_private_data \<Rightarrow> u64 \<Rightarrow> int \<Rightarrow> libcrc32 list \<Rightarrow> sys
      \<Rightarrow> (int \<times> gpt_editor_private_data \<times> libcrc32 list \<times> sys) cres" where
  "gpt_try_entries [] ret p base fd algos s = Ok (ret, p, algos, s)"
| "gpt_try_entries (retry # rs) ret p base fd algos s =
     cbind (gpt_load_entries p (entries_offset (hdr p) base retry) fd algos s)
       (\<lambda>(ret', p', algos', s').
          if ret' = 0 then Ok (0, p', algos', s') else gpt_try_entries rs ret' p' base fd algos' s')"

text \<open>\<open>mem\<close> and \<open>mem2\<close> tell whether the allocation of the entries and that of the registered partitions succeed.\<close>

definition gpt_detect ::
    "bool \<Rightarrow> bool \<Rightarrow> gpt_editor_private_data \<Rightarrow> int \<Rightarrow> libcrc32 list \<Rightarrow> sys
      \<Rightarrow> (int \<times> gpt_editor_private_data \<times> libcrc32 list \<times> sys) cres" where
  "gpt_detect mem mem2 p fd algos s =
     (case gpt_probe fd (hdr p) s of
        (ret, good, off, h, s1) \<Rightarrow>
          let p1 = p\<lparr>hdr := h\<rparr>
          in if ret < 0 then Ok (ret, p1, algos, s1)
             else if \<not> good then Ok (-1, p1, algos, s1)
             else if gpt_header_size h \<noteq> 92 then Ok (-1, p1, algos, s1)
             else
               let (algos1, c32) = gpt_header_calc_crc32 algos h
               in if c32 \<noteq> header_crc32 h then Ok (-1, p1, algos1, s1)
                  else
                    let num = hdr_num_partition_entries h;
                        ents = (if mem then Some (replicate (unat num * unat (sizeof_partition_entry h)) 0) else None);
                        p2 = p1\<lparr>num_partition_entries := num, partitions := ents\<rparr>
                    in if \<not> mem then Ok (-1, p2, algos1, s1)
                       else cbind (gpt_try_entries [0, 1, 2] 0 p2 (word_of_int (filestart fd s1) + word_of_nat off) fd algos1 s1)
                         (\<lambda>(ret, p3, algos2, s2).
                            if ret < 0 then Ok (ret, p3, algos2, s2)
                            else
                              let p4 = p3\<lparr>gpt_fd := fd\<rparr>
                              in cbind (gpt_register_disk_partitions mem2 p4 (gd s2))
                                   (\<lambda>g. Ok (0, p4, algos2, s2\<lparr>gd := g\<rparr>))))"

section \<open>Describing the structures\<close>

definition guid_text :: "(nat \<Rightarrow> string) \<Rightarrow> bytes \<Rightarrow> string" where
  "guid_text char_fmt guid = (case snprintf_uuid 64 False char_fmt guid of Ok s \<Rightarrow> s | _ \<Rightarrow> [])"

definition structure_item_print_guid :: "string \<Rightarrow> string \<Rightarrow> bytes \<Rightarrow> string" where
  "structure_item_print_guid print_name_fmt name addr =
     structure_print_name print_name_fmt name @ guid_text fmt_02x addr @ [newline]"

definition structure_item_save_guid :: "'j cjson \<Rightarrow> 'j save_json_t" where
  "structure_item_save_guid J root name addr =
     (0, snd (json_create_or_update_string_value J root name (guid_text fmt_02x addr)))"

definition structure_item_load_guid :: "'j cjson \<Rightarrow> 'j load_json_t" where
  "structure_item_load_guid J root name addr =
     (case json_get_string_value_in_object J root name of
        None \<Rightarrow> Ok (-1, addr)
      | Some s \<Rightarrow> Ok (sscanf_uuid addr False s))"

definition words_of :: "bytes \<Rightarrow> u16 list" where
  "words_of b = map (\<lambda>e. word_of_nat (le_decode e)) (elements_of 2 b)"

definition structure_item_print_wchar_string :: "string \<Rightarrow> string \<Rightarrow> bytes \<Rightarrow> string" where
  "structure_item_print_wchar_string print_name_fmt name addr =
     structure_print_name print_name_fmt name
       @ gpt_partition_name_to_char (words_of addr) (PARTNAME_SZ + 1) @ [newline] @ [newline]"

definition structure_item_save_wchar_string :: "'j cjson \<Rightarrow> 'j save_json_t" where
  "structure_item_save_wchar_string J root name addr =
     (0, snd (json_create_or_update_string_value J root name (c_string (map (\<lambda>c. char_of (unat c)) (words_of addr)))))"

definition structure_item_load_wchar_string :: "'j cjson \<Rightarrow> 'j load_json_t" where
  "structure_item_load_wchar_string J root name addr =
     (case json_get_string_value_in_object J root name of
        None \<Rightarrow> Ok (-1, addr)
      | Some s \<Rightarrow> Ok (0, concat (map le16 (set_gpt_partition_name (words_of addr) s))))"

definition plain_item :: "string \<Rightarrow> nat \<Rightarrow> nat \<Rightarrow> item_print \<Rightarrow> u32 \<Rightarrow> 'j structure_item" where
  "plain_item name off sz pr fl =
     \<lparr>item_name = name, item_offset = off, item_size = sz, item_print = pr, item_save_json = None, item_load_json = None,
      item_flags = fl\<rparr>"

definition guid_item :: "'j cjson \<Rightarrow> string \<Rightarrow> nat \<Rightarrow> 'j structure_item" where
  "guid_item J name off =
     \<lparr>item_name = name, item_offset = off, item_size = 16, item_print = Print_other structure_item_print_guid,
      item_save_json = Some (structure_item_save_guid J), item_load_json = Some (structure_item_load_guid J), item_flags = 0\<rparr>"

definition structure_gpt_header :: "'j cjson \<Rightarrow> 'j structure_item list" where
  "structure_gpt_header J =
     [plain_item ''signature'' 0 8 Print_string STRUCTURE_FLAG_NOT_SAVE,
      plain_item ''revision'' 8 4 Print_xunsigned STRUCTURE_FLAG_NOT_SAVE,
      plain_item ''header_size'' 12 4 Print_unsigned STRUCTURE_FLAG_NOT_SAVE,
      plain_item ''header_crc32'' 16 4 Print_xunsigned STRUCTURE_FLAG_NOT_SAVE,
      plain_item ''my_lba'' 24 8 Print_unsigned 0,
      plain_item ''alternate_lba'' 32 8 Print_unsigned 0,
      plain_item ''first_usable_lba'' 40 8 Print_unsigned 0,
      plain_item ''last_usable_lba'' 48 8 Print_unsigned 0,
      guid_item J ''disk_guid'' 56,
      plain_item ''partition_entry_lba'' 72 8 Print_unsigned 0,
      plain_item ''num_partition_entries'' 80 4 Print_unsigned 0,
      plain_item ''sizeof_partition_entry'' 84 4 Print_unsigned 0,
      plain_item ''partition_entry_array_crc32'' 88 4 Print_xunsigned STRUCTURE_FLAG_NOT_SAVE]"

definition structure_gpt_entry :: "'j cjson \<Rightarrow> 'j structure_item list" where
  "structure_gpt_entry J =
     [guid_item J ''partition_type_guid'' 0,
      guid_item J ''unique_partition_guid'' 16,
      plain_item ''starting_lba'' 32 8 Print_unsigned STRUCTURE_FLAG_NOT_SAVE,
      plain_item ''ending_lba'' 40 8 Print_unsigned STRUCTURE_FLAG_NOT_SAVE,
      plain_item ''attributes'' 48 8 Print_xunsigned 0,
      \<lparr>item_name = ''partition_name'', item_offset = 56, item_size = 72, item_print = Print_other structure_item_print_wchar_string,
       item_save_json = Some (structure_item_save_wchar_string J), item_load_json = Some (structure_item_load_wchar_string J),
       item_flags = 0\<rparr>]"

section \<open>Listing\<close>

definition gpt_string_lba_size :: "nat \<Rightarrow> u64 \<Rightarrow> string" where
  "gpt_string_lba_size bufsz lba =
     (let bytes = lba2sz lba; dec = (\<lambda>w :: u64. dec_string (unat w))
      in snprintf_s bufsz
           (if bytes < push_bit 10 1 then pad_left 5 (dec bytes)
            else if bytes < push_bit 20 1 then pad_left 4 (dec (drop_bit 10 bytes)) @ ''K''
            else if bytes \<le> push_bit 30 1 then pad_left 4 (dec (drop_bit 20 bytes)) @ ''M''
            else pad_left 2 (dec (drop_bit 30 bytes)) @ ''.''
              @ dec ((bytes AND (push_bit 30 1 - 1)) * 10 div push_bit 30 1) @ ''G''))"

record gpt_fdisk_option_value =
  fd_l :: bool
  fd_x :: bool
  fd_n :: bool

definition bool_option :: "char \<Rightarrow> string option \<Rightarrow> nat \<Rightarrow> xopt_option" where
  "bool_option c name off = \<lparr>xo_name = c, long_name = name, type = XOPT_TYPE_BOOL, offset = off\<rparr>"

definition gpt_fdisk_options :: "xopt_option list" where
  "gpt_fdisk_options =
     [bool_option (CHR ''l'') None 0, bool_option (CHR ''x'') None 1, bool_option (CHR ''n'') None 2, bool_option nul None 0]"

definition dec64 :: "u64 \<Rightarrow> string" where
  "dec64 w = dec_string (unat w)"

definition gpt_fdisk_line :: "gpt_fdisk_option_value \<Rightarrow> nat \<Rightarrow> gpt_entry \<Rightarrow> string" where
  "gpt_fdisk_line arg i e =
     (let sz_lba = ending_lba e - starting_lba e + 1; name = gpt_partition_name_to_char (partition_name e) 128
      in ''/dev/mmcblk0p'' @ pad_right 2 (dec_string (i + 1)) @ '' '' @ pad_left 8 (dec64 (starting_lba e)) @ '' ''
           @ pad_left 8 (dec64 (ending_lba e)) @ '' '' @ pad_left 7 (dec64 sz_lba) @ '' ''
           @ (if fd_x arg then
                guid_text fmt_02X (partition_type_guid e) @ '' '' @ guid_text fmt_02X (unique_partition_guid e) @ '' '' @ name
              else gpt_string_lba_size 32 sz_lba @ (if fd_n arg then ''  '' @ name else []))
           @ [newline])"

text \<open>The lines of the entries from \<open>i\<close> on, up to the first unused one.\<close>

fun gpt_fdisk_lines :: "bytes \<Rightarrow> gpt_fdisk_option_value \<Rightarrow> nat \<Rightarrow> nat \<Rightarrow> string cres" where
  "gpt_fdisk_lines mem arg i 0 = Ok []"
| "gpt_fdisk_lines mem arg i (Suc n) =
     cbind (entry_at 48 mem i)
       (\<lambda>e. if starting_lba e = 0 \<or> ending_lba e = 0 then Ok []
            else cbind (entry_at 128 mem i)
              (\<lambda>e. cbind (gpt_fdisk_lines mem arg (i + 1) n) (\<lambda>rest. Ok (gpt_fdisk_line arg i e @ rest))))"

definition gpt_fdisk_head :: "gpt_editor_private_data \<Rightarrow> gpt_fdisk_option_value \<Rightarrow> string" where
  "gpt_fdisk_head p arg =
     ''Disklabel type: gpt'' @ [newline]
       @ ''disk identifier: '' @ guid_text fmt_02X (disk_guid (hdr p)) @ [newline]
       @ (if fd_x arg then
            ''First LBA: '' @ dec64 (first_usable_lba (hdr p)) @ [newline]
            @ ''Last LBA: '' @ dec64 (last_usable_lba (hdr p)) @ [newline]
            @ ''Alternative LBA: '' @ dec64 (alternate_lba (hdr p)) @ [newline]
            @ ''Partition entries LBA: '' @ dec64 (partition_entry_lba (hdr p)) @ [newline]
            @ ''Allocated partition entries: '' @ fmt_d (num_partition_entries p) @ [newline]
          else [])
       @ [newline] @ ''Device             Start      End Sectors''
       @ (if fd_x arg then '' Type-UUID                            UUID                                 Name   ''
          else ''  Size'' @ (if fd_n arg then ''  Name'' else []))
       @ [newline]"

text \<open>The loops over the entries do nothing when there are none, whatever the memory.\<close>

definition with_entries :: "gpt_editor_private_data \<Rightarrow> 'a \<Rightarrow> (bytes \<Rightarrow> nat \<Rightarrow> 'a cres) \<Rightarrow> 'a cres" where
  "with_entries p none f =
     (if num_partition_entries p = 0 then Ok none
      else cbind (entries_mem p) (\<lambda>mem. f mem (unat (num_partition_entries p))))"

definition is_true :: "xopt_data \<Rightarrow> nat \<Rightarrow> bool" where
  "is_true data off \<longleftrightarrow> data off = Some (XBool True)"

text \<open>The status and what is printed. \<open>mem\<close> tells whether the allocation of the parser succeeds.\<close>

definition gpt_do_fdisk ::
    "bool \<Rightarrow> structure_endian \<Rightarrow> 'j cjson \<Rightarrow> gpt_editor_private_data \<Rightarrow> string list \<Rightarrow> sys \<Rightarrow> (int \<times> string) cres" where
  "gpt_do_fdisk mem fe J p argv s =
     (let dump = (if get_verbose_level s > 1
                  then structure_print fe ''%-30s'' (encode_header (hdr p)) (structure_gpt_header J) @ [newline] else []);
          parsed = (if argv = [] then Ok (0, \<lambda>_. Some (XBool False))
                    else case libxopt_new mem gpt_fdisk_options 0 of
                        None \<Rightarrow> Oob
                      | Some xopt \<Rightarrow>
                          (case libxopt_parse (\<lambda>_. None) xopt argv (\<lambda>_. Some (XBool False)) of (ret, _, data, _) \<Rightarrow> Ok (ret, data)))
      in cbind parsed
        (\<lambda>(ret, data).
           if ret < 0 then Ok (ret, dump)
           else
             let arg = \<lparr>fd_l = is_true data 0, fd_x = is_true data 1, fd_n = is_true data 2\<rparr>
             in cbind (with_entries p [] (\<lambda>mem n. gpt_fdisk_lines mem arg 0 n))
                  (\<lambda>ls. Ok (0, dump @ gpt_fdisk_head p arg @ ls))))"

fun gpt_show_parts :: "structure_endian \<Rightarrow> 'j cjson \<Rightarrow> bytes \<Rightarrow> nat \<Rightarrow> nat \<Rightarrow> string cres" where
  "gpt_show_parts fe J mem i 0 = Ok []"
| "gpt_show_parts fe J mem i (Suc n) =
     cbind (entry_at 40 mem i)
       (\<lambda>e. if (ucast (starting_lba e) :: u32) = 0 then Ok []
            else cbind (entry_at 48 mem i)
              (\<lambda>e. if (ucast (ending_lba e) :: u32) = 0 then Ok []
                   else cbind (entry_at 128 mem i)
                     (\<lambda>e. cbind (gpt_show_parts fe J mem (i + 1) n)
                       (\<lambda>rest. Ok (''part '' @ dec_string i @ '':'' @ [newline]
                          @ structure_print fe ''    %-30s: '' (take 128 (drop (128 * i) mem)) (structure_gpt_entry J) @ rest)))))"

definition gpt_show ::
    "structure_endian \<Rightarrow> 'j cjson \<Rightarrow> gpt_editor_private_data \<Rightarrow> (int \<times> string) cres" where
  "gpt_show fe J p =
     cbind (with_entries p [] (\<lambda>mem n. gpt_show_parts fe J mem 0 n))
       (\<lambda>ls. Ok (0, structure_print fe ''%-30s: '' (encode_header (hdr p)) (structure_gpt_header J) @ ls))"

section \<open>Partition descriptions\<close>

record list_partitions_arg =
  human :: bool
  lp_c :: bool
  uenv :: bool
  reverse :: bool

definition list_partitions_print :: "list_partitions_arg \<Rightarrow> string \<Rightarrow> string" where
  "list_partitions_print arg s =
     snprintf_s 1024
       (if uenv arg \<or> reverse arg then s
        else if lp_c arg then quote # s @ [quote] @ '' '' @ [CHR 0x5c] @ [newline]
        else s @ [newline])"

definition list_partitions_options :: "xopt_option list" where
  "list_partitions_options =
     [bool_option nul (Some ''human'') 0, bool_option (CHR ''c'') None 1, bool_option nul (Some ''uenv'') 2,
      bool_option nul (Some ''reverse'') 3, bool_option nul None 0]"

definition partition_string_lba_size :: "nat \<Rightarrow> u64 \<Rightarrow> string" where
  "partition_string_lba_size bufsz lba =
     (let bytes = lba2sz lba
      in snprintf_s bufsz
           (if bytes < push_bit 10 1 then dec64 bytes
            else if bytes < push_bit 20 1 then dec64 (drop_bit 10 bytes) @ ''K''
            else if bytes \<le> push_bit 30 1 \<or> bytes mod push_bit 30 1 \<noteq> 0 then dec64 (drop_bit 20 bytes) @ ''M''
            else dec64 (drop_bit 30 bytes) @ ''G''))"

text \<open>The status, and the size when it is 0.\<close>

definition to_partition_lba_size :: "string \<Rightarrow> u64 \<Rightarrow> int \<times> u64" where
  "to_partition_lba_size s lba_size =
     (let (sz, endp) = strtoul 10 s
      in case endp of
           [] \<Rightarrow> (-1, lba_size)
         | c # _ \<Rightarrow>
             if c = CHR ''k'' \<or> c = CHR ''K'' then (0, push_bit 10 sz div 512)
             else if c = CHR ''m'' \<or> c = CHR ''M'' then (0, push_bit 20 sz div 512)
             else if c = CHR ''g'' \<or> c = CHR ''G'' then (0, push_bit 30 sz div 512)
             else (-1, lba_size))"

text \<open>Whether all partitions have the type of the first one.\<close>

fun same_type_uid :: "bytes \<Rightarrow> bytes \<Rightarrow> nat \<Rightarrow> nat \<Rightarrow> bool cres" where
  "same_type_uid uid mem i 0 = Ok True"
| "same_type_uid uid mem i (Suc n) =
     cbind (entry_at 48 mem i)
       (\<lambda>e. if ending_lba e = 0 then Ok True
            else if partition_type_guid e \<noteq> uid then Ok False
            else same_type_uid uid mem (i + 1) n)"

text \<open>\<open>strncatprintf\<close> to the description.\<close>

definition desc_cat :: "string cres \<Rightarrow> string \<Rightarrow> string cres" where
  "desc_cat desc txt = cbind desc (\<lambda>d. cbind (strncatprintf d 512 txt) (\<lambda>(d', n). Ok d'))"

definition partition_desc :: "bool \<Rightarrow> bool \<Rightarrow> gpt_entry \<Rightarrow> string cres" where
  "partition_desc with_start same_uid e =
     (let name = gpt_partition_name_to_char (partition_name e) 128;
          d0 = Ok (snprintf_s 512 (''name='' @ name @ '',''));
          d1 = (if with_start then desc_cat d0 (''start='' @ partition_string_lba_size 64 (starting_lba e) @ '','') else d0);
          d2 = desc_cat d1 (''size='' @ partition_string_lba_size 128 (ending_lba e - starting_lba e + 1) @ '','');
          d3 = (if bit (attributes e) 2 then desc_cat d2 ''bootable,'' else d2);
          d4 = desc_cat d3 (''uuid='' @ guid_text fmt_02x (unique_partition_guid e));
          d5 = (if same_uid then d4 else desc_cat d4 ('',type='' @ guid_text fmt_02x (unique_partition_guid e)))
      in desc_cat d5 '';'')"

text \<open>The descriptions of the entries from \<open>i\<close> on; \<open>lba\<close> is where the next one starts when its start is left out.\<close>

fun partition_descs :: "list_partitions_arg \<Rightarrow> bool \<Rightarrow> bytes \<Rightarrow> u64 \<Rightarrow> nat \<Rightarrow> nat \<Rightarrow> string cres" where
  "partition_descs arg same_uid mem lba i 0 = Ok []"
| "partition_descs arg same_uid mem lba i (Suc n) =
     cbind (entry_at 48 mem i)
       (\<lambda>e. if starting_lba e = 0 \<or> ending_lba e = 0 then Ok []
            else cbind (entry_at 128 mem i)
              (\<lambda>e. cbind (partition_desc (i = 0 \<or> lba \<noteq> starting_lba e) same_uid e)
                (\<lambda>desc. cbind (partition_descs arg same_uid mem (ending_lba e + 1) (i + 1) n)
                  (\<lambda>rest. Ok (list_partitions_print arg desc @ rest)))))"

definition backslash_newline :: string where
  "backslash_newline = [CHR 0x5c, newline]"

definition reverse_head :: "gpt_header \<Rightarrow> bool \<Rightarrow> bytes \<Rightarrow> string" where
  "reverse_head h same_uid uid =
     (let line = (\<lambda>opt val. CHR 0x09 # opt @ '' '' @ val @ '' '' @ backslash_newline)
      in ''imgeditor --type gpt -- partitions '' @ backslash_newline
           @ (if first_usable_lba h \<noteq> GPT_DEF_FIRST_LBA then line ''--first-lba'' (dec64 (first_usable_lba h)) else [])
           @ line ''--last-lba'' (dec64 (last_usable_lba h))
           @ line ''--alt-lba'' (dec64 (alternate_lba h))
           @ (if partition_entry_lba h \<noteq> GPT_DEF_PART_ENTRY_LBA then line ''--part-entry-lba'' (dec64 (partition_entry_lba h)) else [])
           @ (if hdr_num_partition_entries h \<noteq> GPT_DEF_NUM_PARTS then line ''--num-parts'' (fmt_d (hdr_num_partition_entries h)) else [])
           @ (if same_uid then line ''--disk-type-uid'' (guid_text fmt_02x uid) else [])
           @ CHR 0x09 # ''example-gpt-table.bin '' @ backslash_newline
           @ [CHR 0x09, quote])"

definition gpt_list_partitions :: "bool \<Rightarrow> gpt_editor_private_data \<Rightarrow> string list \<Rightarrow> (int \<times> string) cres" where
  "gpt_list_partitions mem p argv =
     (case libxopt_new mem list_partitions_options 0 of
        None \<Rightarrow> Oob
      | Some xopt \<Rightarrow>
          (case libxopt_parse (\<lambda>_. None) xopt argv (\<lambda>_. Some (XBool False)) of
             (ret, _, data, _) \<Rightarrow>
               if ret < 0 then Ok (ret, [])
               else
                 let arg = \<lparr>human = is_true data 0, lp_c = is_true data 1, uenv = is_true data 2, reverse = is_true data 3\<rparr>
                 in cbind (cbind (entries_mem p) (\<lambda>mem. entry_at 16 mem 0))
                   (\<lambda>e0. let uid = partition_type_guid e0
                     in cbind (with_entries p True (\<lambda>mem n. same_type_uid uid mem 0 n))
                       (\<lambda>same_uid. cbind (with_entries p [] (\<lambda>mem n. partition_descs arg same_uid mem (first_usable_lba (hdr p)) 0 n))
                         (\<lambda>descs. Ok (0,
                            (if reverse arg then reverse_head (hdr p) same_uid uid else [])
                            @ (if uenv arg \<or> reverse arg then ''partitions='' else [])
                            @ list_partitions_print arg (snprintf_s 512 (''uuid_disk='' @ guid_text fmt_02x (disk_guid (hdr p)) @ '';''))
                            @ descs
                            @ (if reverse arg then [quote] else [])
                            @ (if uenv arg \<or> reverse arg then [newline] else [])))))))"

text \<open>\<open>files\<close> is the file that a name is opened as, or created. The offsets are products of 64 bits read as signed numbers.\<close>

definition gpt_peek_partition ::
    "(nat \<Rightarrow> u8) option \<Rightarrow> (string \<Rightarrow> nat option) \<Rightarrow> gpt_editor_private_data \<Rightarrow> int \<Rightarrow> string list \<Rightarrow> sys \<Rightarrow> (int \<times> sys) cres" where
  "gpt_peek_partition garbage files p fd argv s =
     (let (total_length, s1) = filelength fd s
      in if length argv \<noteq> 3 then Ok (-1, s1)
         else cbind (gpt_find_part p (argv ! 1))
           (\<lambda>found. case found of
              None \<Rightarrow> Ok (-1, s1)
            | Some e \<Rightarrow>
                if sint (lba2sz (ending_lba e)) > total_length then Ok (-1, s1)
                else
                  let (fd_peek, s2) = fileopen (files (argv ! 2)) s1
                  in if fd_peek < 0 then Ok (fd, s2)
                     else
                       let st = sint (lba2sz (starting_lba e));
                           sz = unat (lba2sz (ending_lba e - starting_lba e + 1));
                           s3 = snd (snd (dd64 garbage fd fd_peek st 0 sz None () s2))
                       in Ok (0, sys_close fd_peek s3)))"

text \<open>The subcommands of \<open>list\<close>: the status, what is printed, the state.\<close>

definition gpt_list_main ::
    "bool \<Rightarrow> structure_endian \<Rightarrow> 'j cjson \<Rightarrow> (nat \<Rightarrow> u8) option \<Rightarrow> (string \<Rightarrow> nat option) \<Rightarrow> gpt_editor_private_data
      \<Rightarrow> int \<Rightarrow> string list \<Rightarrow> sys \<Rightarrow> (int \<times> string \<times> sys) cres" where
  "gpt_list_main mem fe J garbage files p fd argv s =
     (if argv = [] then cbind (gpt_do_fdisk mem fe J p argv s) (\<lambda>(ret, out). Ok (ret, out, s))
      else if hd argv = ''show'' then cbind (gpt_show fe J p) (\<lambda>(ret, out). Ok (ret, out, s))
      else if hd argv = ''fdisk'' then cbind (gpt_do_fdisk mem fe J p argv s) (\<lambda>(ret, out). Ok (ret, out, s))
      else if hd argv = ''partitions'' then cbind (gpt_list_partitions mem p argv) (\<lambda>(ret, out). Ok (ret, out, s))
      else if hd argv = ''peek'' then cbind (gpt_peek_partition garbage files p fd argv s) (\<lambda>(ret, s'). Ok (ret, [], s'))
      else Ok (-1, [], s))"

section \<open>Writing\<close>

text \<open>The protective entry: sector 2, type 0xee, end 0xff 0xff 0xff, start 1, size 0xffffffff.\<close>

definition protective_mbr :: bytes where
  "protective_mbr = [0, 0, 2, 0, 0xee, 0xff, 0xff, 0xff] @ le32 1 @ le32 0xffffffff"

definition gpt_write_mbr :: "int \<Rightarrow> sys \<Rightarrow> sys" where
  "gpt_write_mbr fd_outimg s =
     (let s1 = snd (lseek_set fd_outimg 0x1be s);
          s2 = snd (sys_write fd_outimg protective_mbr s1);
          s3 = snd (lseek_set fd_outimg 0x1fe s2)
      in snd (sys_write fd_outimg [0x55, 0xaa] s3))"

text \<open>The entries from \<open>i\<close> on, each at the offset that the size in the header advances.\<close>

fun gpt_write_entries :: "bytes \<Rightarrow> nat \<Rightarrow> nat \<Rightarrow> u64 \<Rightarrow> u32 \<Rightarrow> int \<Rightarrow> sys \<Rightarrow> sys cres" where
  "gpt_write_entries mem i 0 off step fd s = Ok s"
| "gpt_write_entries mem i (Suc n) off step fd s =
     (if length mem < 128 * (i + 1) then Oob
      else gpt_write_entries mem (i + 1) n (off + ucast step) step fd
             (snd (sys_write fd (take 128 (drop (128 * i) mem)) (snd (lseek_set fd (sint off) s)))))"

definition gpt_write_defaults :: "gpt_header \<Rightarrow> gpt_header" where
  "gpt_write_defaults h =
     h\<lparr>my_lba := (if my_lba h = 0 then 1 else my_lba h),
       partition_entry_lba := (if partition_entry_lba h = 0 then GPT_DEF_PART_ENTRY_LBA else partition_entry_lba h),
       sizeof_partition_entry := (if sizeof_partition_entry h = 0 then 128 else sizeof_partition_entry h),
       hdr_num_partition_entries := (if hdr_num_partition_entries h = 0 then GPT_MAX_NUM_PARTS else hdr_num_partition_entries h)\<rparr>"

text \<open>\<open>cpu_to_le32\<close> of a 64 bit field keeps its low half.\<close>

definition gpt_write ::
    "gpt_editor_private_data \<Rightarrow> int \<Rightarrow> libcrc32 list \<Rightarrow> sys \<Rightarrow> (int \<times> gpt_editor_private_data \<times> libcrc32 list \<times> sys) cres" where
  "gpt_write p fd_outimg algos s =
     (let h1 = gpt_write_defaults (hdr p);
          s1 = (if (ucast (my_lba h1) :: u32) > 0 then gpt_write_mbr fd_outimg s else s);
          h2 = h1\<lparr>signature := word_of_nat (le_decode gpt_signature), revision := GPT_HEADER_REVISION_V1, gpt_header_size := 92\<rparr>;
          off = ucast (lba2sz (ucast (partition_entry_lba h2) :: u32)) :: u64;
          num = hdr_num_partition_entries h2;
          esz = num * sizeof_partition_entry h2
      in cbind (entries_mem p)
        (\<lambda>mem. cbind (gpt_write_entries mem 0 (unat num) off (sizeof_partition_entry h2) fd_outimg s1)
          (\<lambda>s2.
             if length mem < unat esz then Oob
             else
               let (algos1, c) = crc32 algos 0 (take (unat esz) mem);
                   h3 = h2\<lparr>partition_entry_array_crc32 := c\<rparr>;
                   s3 = snd (lseek_set fd_outimg (int (unat (lba2sz (ucast (my_lba h3) :: u32)))) s2);
                   (algos2, hc) = gpt_header_calc_crc32 algos1 h3;
                   h4 = h3\<lparr>header_crc32 := hc\<rparr>;
                   s4 = snd (sys_write fd_outimg (encode_header h4) s3)
               in Ok (0, p\<lparr>hdr := h4\<rparr>, algos2, s4))))"

section \<open>Parsing partition descriptions\<close>

record write_partitions_arg =
  flash_size :: u64
  first_lba :: u64
  last_lba :: u64
  alt_lba :: u64
  part_entry_lba :: u64
  num_parts :: u32
  arg_disk_type_uid :: "string option"

definition write_partitions_arg_autofix :: "write_partitions_arg \<Rightarrow> int \<times> write_partitions_arg" where
  "write_partitions_arg_autofix arg =
     (if flash_size arg = 0 then (0, arg)
      else
        let (n1, arg1) = (if last_lba arg = 0 then (1, arg\<lparr>last_lba := flash_size arg - GPT_DEF_FIRST_LBA\<rparr>) else (0, arg));
            (n2, arg2) = (if alt_lba arg1 = 0 then (n1 + 1, arg1\<lparr>alt_lba := flash_size arg1 - 1\<rparr>) else (n1, arg1))
        in (n2, arg2))"

definition ulong_option :: "string \<Rightarrow> xopt_type \<Rightarrow> nat \<Rightarrow> xopt_option" where
  "ulong_option name ty off = \<lparr>xo_name = nul, long_name = Some name, type = ty, offset = off\<rparr>"

definition write_partitions_options :: "xopt_option list" where
  "write_partitions_options =
     [ulong_option ''flash-size'' XOPT_TYPE_ULONG_DEC 0, ulong_option ''first-lba'' XOPT_TYPE_ULONG_DEC 8,
      ulong_option ''last-lba'' XOPT_TYPE_ULONG_DEC 16, ulong_option ''alt-lba'' XOPT_TYPE_ULONG_DEC 24,
      ulong_option ''part-entry-lba'' XOPT_TYPE_ULONG_DEC 32, ulong_option ''num-parts'' XOPT_TYPE_INT_DEC 40,
      ulong_option ''disk-type-uid'' XOPT_TYPE_STRING 48, bool_option nul None 0]"

text \<open>The rest of the expression behind the text, when it starts with it.\<close>

definition expr_is_match :: "string \<Rightarrow> string \<Rightarrow> string option" where
  "expr_is_match expr s = (if take (length s) expr = s then Some (drop (length s) expr) else None)"

definition update_entry ::
    "gpt_editor_private_data \<Rightarrow> nat \<Rightarrow> (gpt_entry \<Rightarrow> gpt_entry) \<Rightarrow> gpt_editor_private_data cres" where
  "update_entry p idx f =
     cbind (entries_mem p) (\<lambda>mem. cbind (entry_at 128 mem idx)
       (\<lambda>e. cbind (set_entry mem idx (f e)) (\<lambda>mem'. Ok (p\<lparr>partitions := Some mem'\<rparr>))))"

definition read_entry :: "gpt_editor_private_data \<Rightarrow> nat \<Rightarrow> gpt_entry cres" where
  "read_entry p idx = cbind (entries_mem p) (\<lambda>mem. entry_at 128 mem idx)"

text \<open>The state of the loop over the expressions of a part: the editor, start and size, and \<open>is_diskpart\<close>.\<close>

type_synonym part_state = "gpt_editor_private_data \<times> u64 \<times> u64 \<times> bool"

definition gpt_parse_expr :: "nat \<Rightarrow> string \<Rightarrow> part_state \<Rightarrow> (int \<times> part_state) cres" where
  "gpt_parse_expr idx expr st =
     (case st of (p, lba_start, lba_size, is_diskpart) \<Rightarrow>
        (case expr_is_match expr ''uuid_disk='' of Some v \<Rightarrow>
           (let (ret, g) = sscanf_uuid (disk_guid (hdr p)) False v
            in Ok (ret, p\<lparr>hdr := (hdr p)\<lparr>disk_guid := g\<rparr>\<rparr>, lba_start, lba_size, False))
         | None \<Rightarrow>
        (case expr_is_match expr ''name='' of Some v \<Rightarrow>
           cbind (update_entry p idx (\<lambda>e. e\<lparr>partition_name := set_gpt_partition_name (replicate PARTNAME_SZ 0) v\<rparr>))
             (\<lambda>p'. Ok (0, p'\<lparr>wpdata := (wpdata p')\<lparr>active_partition_entries := active_partition_entries (wpdata p') + 1\<rparr>\<rparr>,
                          lba_start, lba_size, is_diskpart))
         | None \<Rightarrow>
        (case expr_is_match expr ''start='' of Some v \<Rightarrow>
           (let (ret, l) = to_partition_lba_size v lba_start in Ok (ret, p, l, lba_size, is_diskpart))
         | None \<Rightarrow>
        (case expr_is_match expr ''size='' of Some v \<Rightarrow>
           (let (ret, l) = to_partition_lba_size v lba_size in Ok (ret, p, lba_start, l, is_diskpart))
         | None \<Rightarrow>
        (case expr_is_match expr ''uuid='' of Some v \<Rightarrow>
           cbind (read_entry p idx)
             (\<lambda>e. let (ret, g) = sscanf_uuid (unique_partition_guid e) False v
                  in cbind (update_entry p idx (\<lambda>e. e\<lparr>unique_partition_guid := g\<rparr>))
                       (\<lambda>p'. Ok (ret, p', lba_start, lba_size, is_diskpart)))
         | None \<Rightarrow>
        (case expr_is_match expr ''type='' of Some v \<Rightarrow>
           cbind (read_entry p idx)
             (\<lambda>e. let (ret, g) = sscanf_uuid (partition_type_guid e) False v
                  in cbind (update_entry p idx (\<lambda>e. e\<lparr>partition_type_guid := g\<rparr>))
                       (\<lambda>p'. Ok (ret, p', lba_start, lba_size, is_diskpart)))
         | None \<Rightarrow>
        (case expr_is_match expr ''bootable'' of Some v \<Rightarrow>
           cbind (update_entry p idx (\<lambda>e. e\<lparr>attributes := 4\<rparr>)) (\<lambda>p'. Ok (0, p', lba_start, lba_size, is_diskpart))
         | None \<Rightarrow> Ok (-1, p, lba_start, lba_size, is_diskpart)))))))))"

fun gpt_parse_exprs :: "nat \<Rightarrow> string list \<Rightarrow> part_state \<Rightarrow> (int \<times> part_state) cres" where
  "gpt_parse_exprs idx [] st = Ok (0, st)"
| "gpt_parse_exprs idx (expr # exprs) st =
     cbind (gpt_parse_expr idx expr st)
       (\<lambda>(ret, st'). if ret < 0 then Ok (ret, st') else gpt_parse_exprs idx exprs st')"

text \<open>\<open>with_type\<close> is never set, so the type of every partition becomes that of the disk.\<close>

definition gpt_parse_part :: "gpt_editor_private_data \<Rightarrow> string \<Rightarrow> (int \<times> gpt_editor_private_data) cres" where
  "gpt_parse_part p part =
     (let idx = unat (active_partition_entries (wpdata p))
      in if active_partition_entries (wpdata p) \<ge> num_partition_entries p then Ok (-1, p)
         else cbind (argv_buffer_split_with_delim (Some (snprintf_s 1024 part)) (Some '','') 32)
           (\<lambda>(argc, argv). cbind (gpt_parse_exprs idx argv (p, next_lba (wpdata p), 0, True))
             (\<lambda>(ret, p', lba_start, lba_size, is_diskpart).
                if ret < 0 then Ok (ret, p')
                else if \<not> is_diskpart then Ok (0, p')
                else if lba_size = 0 then Ok (-1, p')
                else cbind (update_entry p' idx
                       (\<lambda>e. e\<lparr>partition_type_guid := disk_type_uid (wpdata p'), starting_lba := lba_start,
                              ending_lba := lba_start + lba_size - 1\<rparr>))
                  (\<lambda>p''. Ok (0, p''\<lparr>wpdata := (wpdata p'')\<lparr>next_lba := lba_start + lba_size\<rparr>\<rparr>)))))"

fun gpt_parse_parts :: "gpt_editor_private_data \<Rightarrow> string list \<Rightarrow> (int \<times> gpt_editor_private_data) cres" where
  "gpt_parse_parts p [] = Ok (0, p)"
| "gpt_parse_parts p (part # rest) =
     cbind (gpt_parse_part p part) (\<lambda>(ret, p'). if ret < 0 then Ok (ret, p') else gpt_parse_parts p' rest)"

definition gpt_parse_partitions :: "gpt_editor_private_data \<Rightarrow> string \<Rightarrow> (int \<times> gpt_editor_private_data) cres" where
  "gpt_parse_partitions p txt =
     (let txt' = (if take 11 txt = ''partitions='' then drop 11 txt else txt)
      in cbind (argv_buffer_split_with_delim (Some (snprintf_s 4096 txt')) (Some '';'') 128)
           (\<lambda>(argc, argv). gpt_parse_parts p argv))"

section \<open>The command that writes a table\<close>

definition ulong_at :: "xopt_data \<Rightarrow> nat \<Rightarrow> u64" where
  "ulong_at data off = (case data off of Some (XULong v) \<Rightarrow> v | _ \<Rightarrow> 0)"

definition arg_defaults :: xopt_data where
  "arg_defaults = (\<lambda>off.
     if off = 8 then Some (XULong GPT_DEF_FIRST_LBA)
     else if off = 32 then Some (XULong GPT_DEF_PART_ENTRY_LBA)
     else if off = 40 then Some (XInt 56)
     else if off = 48 then None
     else Some (XULong 0))"

definition arg_of :: "xopt_data \<Rightarrow> write_partitions_arg" where
  "arg_of data =
     \<lparr>flash_size = ulong_at data 0, first_lba = ulong_at data 8, last_lba = ulong_at data 16, alt_lba = ulong_at data 24,
      part_entry_lba = ulong_at data 32,
      num_parts = (case data 40 of Some (XInt v) \<Rightarrow> word_of_int v | _ \<Rightarrow> 0),
      arg_disk_type_uid = (case data 48 of Some (XString u) \<Rightarrow> Some u | _ \<Rightarrow> None)\<rparr>"

text \<open>From the file on: the table is filled from the description and written.\<close>

definition gpt_write_table ::
    "bool \<Rightarrow> gpt_editor_private_data \<Rightarrow> write_partitions_arg \<Rightarrow> nat option \<Rightarrow> string \<Rightarrow> libcrc32 list \<Rightarrow> sys
      \<Rightarrow> (int \<times> gpt_editor_private_data \<times> libcrc32 list \<times> sys) cres" where
  "gpt_write_table mem2 p arg file txt algos s =
     (let (fd, s1) = fileopen_trunc file s
      in if fd < 0 then Ok (fd, p, algos, s1)
         else
           let p1 = p\<lparr>wpdata := (wpdata p)\<lparr>active_partition_entries := 0, next_lba := first_lba arg\<rparr>,
                      num_partition_entries := GPT_MAX_NUM_PARTS,
                      partitions := (if mem2 then Some (replicate (128 * 128) 0) else None)\<rparr>
           in if \<not> mem2 then Ok (-1, p1, algos, s1)
              else
                let h = (hdr p1)\<lparr>partition_entry_lba := part_entry_lba arg, hdr_num_partition_entries := num_parts arg,
                          first_usable_lba := first_lba arg, last_usable_lba := last_lba arg, alternate_lba := alt_lba arg\<rparr>
                in cbind (gpt_parse_partitions (p1\<lparr>hdr := h\<rparr>) txt)
                  (\<lambda>(ret, p2).
                     if ret < 0 then Ok (ret, p2, algos, s1)
                     else cbind (gpt_write p2 fd algos s1)
                       (\<lambda>(ret, p3, algos', s2). Ok (ret, p3, algos', sys_close fd s2))))"

text \<open>The arguments with the subcommand in front; what is printed is the second component.\<close>

definition autofix_text :: "write_partitions_arg \<Rightarrow> string" where
  "autofix_text arg =
     ''Auto generated param based on --flash-size '' @ dec64 (flash_size arg) @ '': '' @ ''--first-lba '' @ dec64 (first_lba arg)
       @ '' --last-lba '' @ dec64 (last_lba arg) @ '' --alt-lba '' @ dec64 (alt_lba arg) @ [newline]"

definition gpt_write_partitions ::
    "bool \<Rightarrow> bool \<Rightarrow> (string \<Rightarrow> nat option) \<Rightarrow> gpt_editor_private_data \<Rightarrow> string list \<Rightarrow> libcrc32 list \<Rightarrow> sys
      \<Rightarrow> (int \<times> string \<times> gpt_editor_private_data \<times> libcrc32 list \<times> sys) cres" where
  "gpt_write_partitions mem mem2 files p argv algos s =
     (if length argv = 1 then Ok (-1, [], p, algos, s)
      else case libxopt_new mem write_partitions_options 0 of
          None \<Rightarrow> Oob
        | Some xopt \<Rightarrow>
            (case libxopt_parse (\<lambda>_. None) xopt argv arg_defaults of
               (ret, _, data, argv', optind) \<Rightarrow>
                 let arg = arg_of data
                 in if ret < 0 then Ok (ret, [], p, algos, s)
                    else if int (length argv) - optind < 2 then Ok (-1, [], p, algos, s)
                    else if flash_size arg = 0 \<and> (last_lba arg = 0 \<or> alt_lba arg = 0) then Ok (-1, [], p, algos, s)
                    else
                      let (ret1, uid) = (case arg_disk_type_uid arg of
                              None \<Rightarrow> (0, disk_type_uid (wpdata p))
                            | Some u \<Rightarrow> sscanf_uuid (disk_type_uid (wpdata p)) False u);
                          p1 = p\<lparr>wpdata := (wpdata p)\<lparr>disk_type_uid := uid\<rparr>\<rparr>
                      in if ret1 < 0 then Ok (ret1, [], p1, algos, s)
                         else if sint (num_parts arg) > 128 then Ok (-1, [], p1, algos, s)
                         else
                           let (fixed, arg1) = write_partitions_arg_autofix arg;
                               out = (if fixed \<noteq> 0 then autofix_text arg1 else [])
                           in cbind (gpt_write_table mem2 p1 arg1 (files (argv' ! nat optind)) (argv' ! nat (optind + 1)) algos s)
                                (\<lambda>(ret2, p2, algos', s'). Ok (ret2, out, p2, algos', s'))))"

definition gpt_main ::
    "bool \<Rightarrow> bool \<Rightarrow> (string \<Rightarrow> nat option) \<Rightarrow> gpt_editor_private_data \<Rightarrow> string list \<Rightarrow> libcrc32 list \<Rightarrow> sys
      \<Rightarrow> (int \<times> string \<times> gpt_editor_private_data \<times> libcrc32 list \<times> sys) cres" where
  "gpt_main mem mem2 files p argv algos s =
     (if argv = [] then Oob
      else if hd argv = ''partitions'' then gpt_write_partitions mem mem2 files p argv algos s
      else Ok (-1, [], p, algos, s))"

section \<open>JSON\<close>

text \<open>The objects of the entries from \<open>i\<close> on; \<open>lba\<close> is where the next one starts when its start is left out.\<close>

fun gpt_json_parts :: "'j cjson \<Rightarrow> structure_endian \<Rightarrow> bytes \<Rightarrow> u64 \<Rightarrow> nat \<Rightarrow> nat \<Rightarrow> 'j list cres" where
  "gpt_json_parts J fe mem lba i 0 = Ok []"
| "gpt_json_parts J fe mem lba i (Suc n) =
     cbind (entry_at 48 mem i)
       (\<lambda>e. if starting_lba e = 0 \<or> ending_lba e = 0 then Ok []
            else case cJSON_CreateObject J of
                None \<Rightarrow> Ok []
              | Some part \<Rightarrow>
                  let part1 = (if lba \<noteq> starting_lba e
                               then snd (json_create_or_update_string_value J part ''starting_lba'' (dec64 (starting_lba e)))
                               else part);
                      part2 = snd (json_create_or_update_string_value J part1 ''lba_size''
                                (dec64 (ending_lba e - starting_lba e + 1)))
                  in cbind (entry_at 128 mem i)
                    (\<lambda>e. let part3 = snd (structure_save_json J fe part2 (take 128 (drop (128 * i) mem)) (structure_gpt_entry J))
                      in cbind (gpt_json_parts J fe mem (ending_lba e + 1) (i + 1) n) (\<lambda>rest. Ok (part3 # rest))))"

definition gpt_to_json :: "'j cjson \<Rightarrow> structure_endian \<Rightarrow> gpt_editor_private_data \<Rightarrow> 'j option cres" where
  "gpt_to_json J fe p =
     (case cJSON_CreateObject J of
        None \<Rightarrow> Ok None
      | Some root \<Rightarrow>
          let root1 = snd (structure_save_json J fe root (encode_header (hdr p)) (structure_gpt_header J))
          in cbind (with_entries p [] (\<lambda>mem n. gpt_json_parts J fe mem (first_usable_lba (hdr p)) 0 n))
               (\<lambda>ps. Ok (cJSON_AddItemsToObject J root1 ''partitions'' ps)))"

text \<open>The loop that fills the entries from \<open>i\<close> on: the status and the memory.\<close>

fun gpt_load_parts :: "'j cjson \<Rightarrow> structure_endian \<Rightarrow> u64 \<Rightarrow> nat \<Rightarrow> nat \<Rightarrow> 'j list \<Rightarrow> bytes \<Rightarrow> (int \<times> bytes) cres" where
  "gpt_load_parts J fe lba i 0 items mem = Ok (0, mem)"
| "gpt_load_parts J fe lba i (Suc n) [] mem = Ok (0, mem)"
| "gpt_load_parts J fe lba i (Suc n) (part # items) mem =
     cbind (structure_load_json J fe part (take 128 (drop (128 * i) mem)) (structure_gpt_entry J))
       (\<lambda>(ret, b).
          let mem1 = take (128 * i) mem @ b @ drop (128 * (i + 1)) mem
          in if ret < 0 then Ok (ret, mem1)
             else
               let (start_lba, err) = (case json_get_string_value_in_object J part ''starting_lba'' of
                                         Some s \<Rightarrow> strict_strtoul s 10 None
                                       | None \<Rightarrow> (lba, 0))
               in if err \<noteq> 0 then Ok (-1, mem1)
                  else (case json_get_string_value_in_object J part ''lba_size'' of
                          None \<Rightarrow> Ok (-1, mem1)
                        | Some s \<Rightarrow>
                            let sz_lba = strict_strtoul_or_default s 10 None 0
                            in if sz_lba = 0 then Ok (-1, mem1)
                               else cbind (entry_at 128 mem1 i)
                                 (\<lambda>e. cbind (set_entry mem1 i (e\<lparr>starting_lba := start_lba, ending_lba := start_lba + sz_lba - 1\<rparr>))
                                   (\<lambda>mem2. gpt_load_parts J fe (start_lba + sz_lba) (i + 1) n items mem2))))"

definition gpt_from_json ::
    "'j cjson \<Rightarrow> structure_endian \<Rightarrow> bool \<Rightarrow> gpt_editor_private_data \<Rightarrow> 'j \<Rightarrow> (int \<times> gpt_editor_private_data) cres" where
  "gpt_from_json J fe mem p root =
     (case cJSON_GetObjectItem J root ''partitions'' of
        None \<Rightarrow> Ok (-1, p)
      | Some parts' \<Rightarrow>
          if \<not> cJSON_IsArray J parts' then Ok (-1, p)
          else cbind (structure_load_json J fe root (encode_header (hdr p)) (structure_gpt_header J))
            (\<lambda>(ret, b).
               let h = decode_header b; p1 = p\<lparr>hdr := h\<rparr>; num = hdr_num_partition_entries h;
                   p2 = p1\<lparr>num_partition_entries := num\<rparr>; failed = p2\<lparr>partitions := None\<rparr>
               in if ret < 0 then Ok (ret, p1\<lparr>partitions := None\<rparr>)
                  else if \<not> mem then Ok (-1, failed)
                  else if int (length (cJSON_ArrayItems J parts')) > sint num then Ok (-1, failed)
                  else if first_usable_lba h \<le> my_lba h then Ok (-1, failed)
                  else cbind (gpt_load_parts J fe (first_usable_lba h) 0 (unat num) (cJSON_ArrayItems J parts')
                                (replicate (128 * unat num) 0))
                    (\<lambda>(ret, ents). Ok (ret, p2\<lparr>partitions := (if ret < 0 then None else Some ents)\<rparr>))))"

text \<open>Writing the object to a file and parsing one are left to cJSON: the object, or its absence.\<close>

definition gpt_unpack :: "'j cjson \<Rightarrow> structure_endian \<Rightarrow> gpt_editor_private_data \<Rightarrow> (int \<times> 'j option) cres" where
  "gpt_unpack J fe p =
     cbind (gpt_to_json J fe p) (\<lambda>root. Ok (case root of None \<Rightarrow> -1 | Some r \<Rightarrow> 0, root))"

definition gpt_pack ::
    "'j cjson \<Rightarrow> structure_endian \<Rightarrow> bool \<Rightarrow> gpt_editor_private_data \<Rightarrow> 'j option \<Rightarrow> int \<Rightarrow> libcrc32 list \<Rightarrow> sys
      \<Rightarrow> (int \<times> gpt_editor_private_data \<times> libcrc32 list \<times> sys) cres" where
  "gpt_pack J fe mem p root fd_outimg algos s =
     (case root of
        None \<Rightarrow> Ok (-1, p, algos, s)
      | Some r \<Rightarrow>
          cbind (gpt_from_json J fe mem p r)
            (\<lambda>(ret, p'). if ret < 0 then Ok (ret, p', algos, s) else gpt_write p' fd_outimg algos s))"

end
