(* ===== verification/GptLaws.thy ===== *)
theory GptLaws
  imports Gpt CrcLaws FileLaws StructureLaws
begin

text \<open>
  The GPT editor: structures are read back from their bytes, a written table is detected with its header, its entries and
  its registered partitions.
\<close>

section \<open>Structures\<close>

lemma sint_small: "unat (w :: u64) < 2 ^ 63 \<Longrightarrow> sint w = int (unat w)"
proof -
  assume "unat w < 2 ^ 63"
  then have "int (unat w) < 2 ^ 63" by (simp only: of_nat_less_numeral_power_cancel_iff)
  then have "uint w < 2 ^ 63" by simp
  then have "signed_take_bit 63 (uint w) = uint w"
    using uint_range_size [of w] by (intro signed_take_bit_int_eq_self) (auto intro: order_trans [of _ 0])
  then show ?thesis by (simp add: sint_uint)
qed

lemma length_encode_header: "length (disk_guid h) = 16 \<Longrightarrow> length (encode_header h) = 92"
  by (simp add: encode_header_def)

lemma decode_encode_header: "length (disk_guid h) = 16 \<Longrightarrow> decode_header (encode_header h) = h"
  by (cases h) (simp add: decode_header_def encode_header_def get_le_def le_fields_decode)

lemma decode_header_append: "length b = 92 \<Longrightarrow> decode_header (b @ r) = decode_header b"
  by (simp add: decode_header_def get_le_def)

lemma guid_of_header: "length b = 92 \<Longrightarrow> length (disk_guid (decode_header b)) = 16"
  by (simp add: decode_header_def)

definition entry_ok :: "gpt_entry \<Rightarrow> bool" where
  "entry_ok e \<longleftrightarrow> length (partition_type_guid e) = 16 \<and> length (unique_partition_guid e) = 16 \<and> length (partition_name e) = PARTNAME_SZ"

lemma length_words: "length (concat (map le16 ws)) = 2 * length ws"
  by (induction ws) simp_all

lemma get_le16_words: "i < length ws \<Longrightarrow> get_le (2 * i) 2 (concat (map le16 ws)) = ws ! i"
proof (induction ws arbitrary: i)
  case Nil
  then show ?case by simp
next
  case (Cons w ws)
  then show ?case by (cases i) (simp_all add: get_le_def le_fields_decode)
qed

lemma length_encode_entry: "entry_ok e \<Longrightarrow> length (encode_entry e) = 128"
  by (simp add: encode_entry_def entry_ok_def length_words PARTNAME_SZ_def)

lemma decode_encode_entry: "entry_ok e \<Longrightarrow> decode_entry (encode_entry e) = e"
proof -
  assume e: "entry_ok e"
  have "get_le (56 + 2 * i) 2 (encode_entry e) = partition_name e ! i" if "i < PARTNAME_SZ" for i
    using get_le16_words [of i "partition_name e"] that e by (simp add: encode_entry_def entry_ok_def get_le_def)
  then have "map (\<lambda>i. get_le (56 + 2 * i) 2 (encode_entry e)) [0..<PARTNAME_SZ] = partition_name e"
    using e by (intro nth_equalityI) (simp_all add: entry_ok_def)
  then show ?thesis
    using e by (cases e) (simp add: decode_entry_def encode_entry_def entry_ok_def get_le_def le_fields_decode)
qed

lemma entry_ok_decode: "128 \<le> length b \<Longrightarrow> entry_ok (decode_entry b)"
  by (simp add: entry_ok_def decode_entry_def)

section \<open>Writing\<close>

lemma gpt_write_entries_ok:
  "out_state s fd e c p \<Longrightarrow> 128 * (i + n) \<le> length mem \<Longrightarrow> unat off + 128 * n < 2 ^ 63 \<Longrightarrow>
   \<exists>s' q. gpt_write_entries mem i n off 128 fd s = Ok s' \<and>
     out_state s' fd e (overlay c (unat off) (take (128 * n) (drop (128 * i) mem))) q"
proof (induction n arbitrary: i off s c p)
  case 0
  then show ?case by auto
next
  case (Suc n)
  let ?x = "take 128 (drop (128 * i) mem)"
  have off: "sint off = int (unat off)"
    using Suc.prems(3) by (intro sint_small) simp
  define s1 where "s1 = snd (lseek_set fd (sint off) s)"
  have s1: "out_state s1 fd e c (unat off)" using out_state_seek [OF Suc.prems(1), of "sint off"] off by (simp add: s1_def)
  have len: "length ?x = 128" using Suc.prems(2) by simp
  define s2 where "s2 = snd (sys_write fd ?x s1)"
  have s2: "out_state s2 fd e (overlay c (unat off) ?x) (unat off + 128)"
    using out_state_write [OF s1, of ?x] len by (simp add: s2_def)
  have next_off: "unat (off + 128) = unat off + 128"
    using Suc.prems(3) by (simp add: unat_add_lem [THEN iffD1])
  obtain s3 q where s3: "gpt_write_entries mem (i + 1) n (off + 128) 128 fd s2 = Ok s3"
    "out_state s3 fd e (overlay (overlay c (unat off) ?x) (unat off + 128) (take (128 * n) (drop (128 * (i + 1)) mem))) q"
    using Suc.IH [OF s2, of "i + 1" "off + 128"] Suc.prems(2,3) next_off by auto
  have "take (128 * Suc n) (drop (128 * i) mem) = ?x @ take (128 * n) (drop (128 * (i + 1)) mem)"
    by (simp add: take_add [of 128 "128 * n" "drop (128 * i) mem", simplified] add.commute)
  moreover have "overlay (overlay c (unat off) ?x) (unat off + 128) b = overlay c (unat off) (?x @ b)" for b
    using overlay_append [of c "unat off" ?x b] len by simp
  moreover have "gpt_write_entries mem i (Suc n) off 128 fd s = gpt_write_entries mem (i + 1) n (off + 128) 128 fd s2"
    using Suc.prems(2) by (simp add: s1_def s2_def)
  ultimately show ?case using s3 by auto
qed

text \<open>What a written table is: the protective record, the header in the second sector, the entries at their place.\<close>

definition gpt_image :: "gpt_header \<Rightarrow> bytes \<Rightarrow> bytes" where
  "gpt_image h ents =
     overlay (overlay (overlay (overlay [] 0x1be protective_mbr) 0x1fe [0x55, 0xaa]) (512 * unat (partition_entry_lba h)) ents)
       512 (encode_header h)"

lemma length_protective_mbr: "length protective_mbr = 16"
  by (simp add: protective_mbr_def)

lemma gpt_write_mbr_ok:
  assumes "out_state s fd e [] p"
  shows "\<exists>q. out_state (gpt_write_mbr fd s) fd e (overlay (overlay [] 0x1be protective_mbr) 0x1fe [0x55, 0xaa]) q"
proof -
  have "out_state (snd (lseek_set fd 0x1be s)) fd e [] 0x1be" using out_state_seek [OF assms, of "0x1be"] by simp
  from out_state_write [OF this, of protective_mbr] have
    w: "out_state (snd (sys_write fd protective_mbr (snd (lseek_set fd 0x1be s)))) fd e (overlay [] 0x1be protective_mbr) 0x1ce"
    by (simp add: length_protective_mbr)
  from out_state_seek [OF w, of "0x1fe"] have
    "out_state (snd (lseek_set fd 0x1fe (snd (sys_write fd protective_mbr (snd (lseek_set fd 0x1be s)))))) fd e
       (overlay [] 0x1be protective_mbr) 0x1fe" by simp
  from out_state_write [OF this, of "[0x55, 0xaa]"] show ?thesis by (auto simp: gpt_write_mbr_def)
qed

text \<open>The header that is written, with both checksums.\<close>

definition sealed_header :: "gpt_header \<Rightarrow> bytes \<Rightarrow> gpt_header" where
  "sealed_header h ents =
     (let h2 = (gpt_write_defaults h)\<lparr>signature := word_of_nat (le_decode gpt_signature), revision := GPT_HEADER_REVISION_V1,
            gpt_header_size := 92, partition_entry_array_crc32 := zlib_crc ents\<rparr>
      in h2\<lparr>header_crc32 := zlib_crc (encode_header (h2\<lparr>header_crc32 := 0\<rparr>))\<rparr>)"

lemma gpt_header_crc:
  "algos_ok algos \<Longrightarrow> \<exists>algos'. gpt_header_calc_crc32 algos h = (algos', zlib_crc (encode_header (h\<lparr>header_crc32 := 0\<rparr>))) \<and> algos_ok algos'"
  using crc32_spec [of algos 0 "encode_header (h\<lparr>header_crc32 := 0\<rparr>)"]
  by (metis gpt_header_calc_crc32_def xor.left_neutral zlib_crc_def)

text \<open>A table that can be written: 128 byte entries, all of them in memory, and behind the header on the disk.\<close>

definition table_ok :: "gpt_header \<Rightarrow> bytes \<Rightarrow> bool" where
  "table_ok h mem \<longleftrightarrow>
     my_lba h \<le> 1 \<and> (sizeof_partition_entry h = 0 \<or> sizeof_partition_entry h = 128) \<and>
     (partition_entry_lba h = 0 \<or> 2 \<le> unat (partition_entry_lba h) \<and> unat (partition_entry_lba h) < 2 ^ 23) \<and>
     unat (hdr_num_partition_entries h) \<le> 128 \<and>
     128 * unat (hdr_num_partition_entries (gpt_write_defaults h)) \<le> length mem \<and> length (disk_guid h) = 16"

lemma my_lba_one: "my_lba h \<le> 1 \<Longrightarrow> my_lba (gpt_write_defaults h) = 1"
proof -
  assume "my_lba h \<le> 1"
  then have "unat (my_lba h) \<le> 1" by (simp add: word_le_nat_alt)
  then have "unat (my_lba h) = 0 \<or> unat (my_lba h) = 1" by auto
  then have "my_lba h = 0 \<or> my_lba h = 1" by (auto simp: word_unat_eq_iff)
  then show ?thesis by (auto simp: gpt_write_defaults_def)
qed

lemma table_defaults:
  assumes "table_ok h mem"
  shows "my_lba (gpt_write_defaults h) = 1" "sizeof_partition_entry (gpt_write_defaults h) = 128"
    "2 \<le> unat (partition_entry_lba (gpt_write_defaults h))" "unat (partition_entry_lba (gpt_write_defaults h)) < 2 ^ 23"
    "unat (hdr_num_partition_entries (gpt_write_defaults h)) \<le> 128" "disk_guid (gpt_write_defaults h) = disk_guid h"
    "length (disk_guid h) = 16" "128 * unat (hdr_num_partition_entries (gpt_write_defaults h)) \<le> length mem"
  using assms my_lba_one [of h]
  by (auto simp: table_ok_def gpt_write_defaults_def GPT_DEF_PART_ENTRY_LBA_def GPT_MAX_NUM_PARTS_def)

definition table_entries :: "gpt_header \<Rightarrow> bytes \<Rightarrow> bytes" where
  "table_entries h mem = take (128 * unat (hdr_num_partition_entries (gpt_write_defaults h))) mem"

lemma gpt_write_image:
  assumes "out_state s fd e [] q" "table_ok (hdr p) mem" "partitions p = Some mem" "algos_ok algos"
  shows "\<exists>algos' s' q'. gpt_write p fd algos s =
      Ok (0, p\<lparr>hdr := sealed_header (hdr p) (table_entries (hdr p) mem)\<rparr>, algos', s') \<and> algos_ok algos' \<and>
    out_state s' fd e (gpt_image (sealed_header (hdr p) (table_entries (hdr p) mem)) (table_entries (hdr p) mem)) q'"
proof -
  let ?d = "gpt_write_defaults (hdr p)"
  define h2 where "h2 = ?d\<lparr>signature := word_of_nat (le_decode gpt_signature), revision := GPT_HEADER_REVISION_V1, gpt_header_size := 92\<rparr>"
  define n where "n = unat (hdr_num_partition_entries ?d)"
  define ents where "ents = table_entries (hdr p) mem"
  note d = table_defaults [OF assms(2)]
  have h2: "my_lba h2 = 1" "sizeof_partition_entry h2 = 128" "partition_entry_lba h2 = partition_entry_lba ?d"
      "hdr_num_partition_entries h2 = hdr_num_partition_entries ?d" "disk_guid h2 = disk_guid (hdr p)"
    using d by (simp_all add: h2_def)
  have n: "n \<le> 128" "128 * n \<le> length mem" using d by (simp_all add: n_def)
  have ents: "ents = take (128 * n) mem" by (simp add: ents_def table_entries_def n_def)
  define c1 where "c1 = overlay (overlay [] 0x1be protective_mbr) 0x1fe [0x55, 0xaa]"
  obtain q1 where s1: "out_state (gpt_write_mbr fd s) fd e c1 q1" using gpt_write_mbr_ok [OF assms(1)] unfolding c1_def by blast
  define off :: u64 where "off = ucast (lba2sz (ucast (partition_entry_lba h2) :: u32))"
  have off: "unat off = 512 * unat (partition_entry_lba ?d)"
    using d(4) by (simp add: off_def lba2sz_def h2(3) unsigned_ucast_eq unat_word_ariths(2) take_bit_nat_eq_self)
  have esz: "unat (hdr_num_partition_entries ?d * 128) = 128 * n"
    using n(1) by (simp add: n_def unat_word_ariths(2))
  obtain s2 q2 where s2: "gpt_write_entries mem 0 n off 128 fd (gpt_write_mbr fd s) = Ok s2"
      "out_state s2 fd e (overlay c1 (unat off) ents) q2"
    using gpt_write_entries_ok [OF s1, of 0 n mem off] n d(4) off by (auto simp: ents)
  obtain algos1 where c: "crc32 algos 0 ents = (algos1, zlib_crc ents)" "algos_ok algos1"
    using crc32_spec [OF assms(4), of 0 ents] by (metis xor.left_neutral zlib_crc_def)
  define h3 where "h3 = h2\<lparr>partition_entry_array_crc32 := zlib_crc ents\<rparr>"
  obtain algos2 where hc: "gpt_header_calc_crc32 algos1 h3 = (algos2, zlib_crc (encode_header (h3\<lparr>header_crc32 := 0\<rparr>)))" "algos_ok algos2"
    using gpt_header_crc [OF c(2)] by blast
  define h4 where "h4 = h3\<lparr>header_crc32 := zlib_crc (encode_header (h3\<lparr>header_crc32 := 0\<rparr>))\<rparr>"
  have sealed: "sealed_header (hdr p) ents = h4" by (simp add: sealed_header_def h4_def h3_def h2_def Let_def)
  have one: "uint (lba2sz (ucast (my_lba h2) :: u32)) = 512" by (simp add: h2(1) lba2sz_def)
  define s3 where "s3 = snd (lseek_set fd 512 s2)"
  have s3: "out_state s3 fd e (overlay c1 (unat off) ents) 512" using out_state_seek [OF s2(2), of 512] by (simp add: s3_def)
  have len: "length (encode_header h4) = 92" using d(7) by (intro length_encode_header) (simp add: h4_def h3_def h2(5))
  have "out_state (snd (sys_write fd (encode_header h4) s3)) fd e (overlay (overlay c1 (unat off) ents) 512 (encode_header h4)) 604"
    using out_state_write [OF s3, of "encode_header h4"] len by simp
  moreover have "overlay (overlay c1 (unat off) ents) 512 (encode_header h4) = gpt_image h4 ents"
    by (simp add: gpt_image_def c1_def off h4_def h3_def h2(3))
  moreover have "gpt_write p fd algos s = Ok (0, p\<lparr>hdr := h4\<rparr>, algos2, snd (sys_write fd (encode_header h4) s3))"
  proof -
    have pos: "(ucast (my_lba ?d) :: u32) > 0" by (simp add: d(1))
    show ?thesis
      unfolding gpt_write_def Let_def h2_def [symmetric]
      using s2(1) c(1) hc(1) n esz assms(3) one pos
      by (simp add: entries_mem_def h2(2,4) off_def [symmetric] n_def [symmetric] ents [symmetric] h3_def [symmetric] s3_def h4_def)
  qed
  ultimately show ?thesis using hc(2) unfolding ents_def [symmetric] sealed by auto
qed

section \<open>Reading a written table\<close>

lemma overlay_take: "k \<le> p \<Longrightarrow> k \<le> length c \<Longrightarrow> take k (overlay c p bs) = take k c"
  by (auto simp: overlay_def)

lemma overlay_read: "bs \<noteq> [] \<Longrightarrow> take (length bs) (drop p (overlay c p bs)) = bs"
  by (simp add: overlay_def)

lemma overlay_drop: "p + length bs \<le> r \<Longrightarrow> r \<le> length c \<Longrightarrow> drop r (overlay c p bs) = drop r c"
  by (auto simp: overlay_def)

lemma gpt_image_parts:
  assumes "2 \<le> unat (partition_entry_lba h)" "length (disk_guid h) = 16" "ents \<noteq> []"
  shows "take 92 (gpt_image h ents) = replicate 92 0" "take 92 (drop 512 (gpt_image h ents)) = encode_header h"
    "take (length ents) (drop (512 * unat (partition_entry_lba h)) (gpt_image h ents)) = ents"
    "604 \<le> length (gpt_image h ents)"
proof -
  define c1 where "c1 = overlay (overlay [] 0x1be protective_mbr) 0x1fe [0x55, 0xaa]"
  define off where "off = 512 * unat (partition_entry_lba h)"
  have off: "1024 \<le> off" using assms(1) by (simp add: off_def)
  have img: "gpt_image h ents = overlay (overlay c1 off ents) 512 (encode_header h)" by (simp add: gpt_image_def c1_def off_def)
  have mbr: "protective_mbr \<noteq> []" by (simp add: protective_mbr_def)
  have c0: "overlay [] 0x1be protective_mbr = replicate 0x1be 0 @ protective_mbr" using mbr unfolding overlay_def by simp
  have l1: "length c1 = 512" by (simp add: c1_def length_overlay mbr length_protective_mbr)
  have l2: "off + length ents \<le> length (overlay c1 off ents)" using assms(3) by (simp add: length_overlay)
  have hl: "length (encode_header h) = 92" by (rule length_encode_header [OF assms(2)])
  then have hn: "encode_header h \<noteq> []" by auto
  have "take 92 c1 = take 92 (overlay [] 0x1be protective_mbr)"
    unfolding c1_def by (rule overlay_take) (simp_all add: c0 length_protective_mbr)
  also have "\<dots> = replicate 92 0" unfolding c0 take_append by (simp only: take_replicate length_replicate) simp
  finally have z: "take 92 c1 = replicate 92 0" .
  have "take 92 (overlay c1 off ents) = take 92 c1" by (rule overlay_take) (use off l1 in simp_all)
  then show "take 92 (gpt_image h ents) = replicate 92 0"
    unfolding img z [symmetric] using overlay_take [of 92 512 "overlay c1 off ents" "encode_header h"] l2 off by simp
  show "take 92 (drop 512 (gpt_image h ents)) = encode_header h"
    unfolding img using overlay_read [OF hn, of 512] hl by simp
  have "drop off (gpt_image h ents) = drop off (overlay c1 off ents)"
    unfolding img by (rule overlay_drop) (use off hl l2 in simp_all)
  then show "take (length ents) (drop (512 * unat (partition_entry_lba h)) (gpt_image h ents)) = ents"
    using overlay_read [OF assms(3), of off c1] by (simp add: off_def)
  show "604 \<le> length (gpt_image h ents)" unfolding img using hn hl by (simp add: length_overlay)
qed

lemma read_header_ok:
  assumes "out_state s fd e c q" "off + 92 \<le> length c"
  shows "\<exists>s' q'. read_header fd (int off) h s = (92, decode_header (take 92 (drop off c)), s') \<and> out_state s' fd e c q' \<and> gd s' = gd s"
proof -
  have e: "e < length (open_files s)" by (rule out_state_index [OF assms(1)])
  have ofd: "ofd_of s fd = Some e" and c: "content s e = c" and io: "0x200000 \<le> max_io s" using assms(1) by (simp_all add: out_state_def)
  have plain: "filestart fd s = 0" using assms(1) no_virtual_file [of s fd] by (simp add: out_state_def filestart_def)
  define s1 where "s1 = set_position e off s"
  have seek: "fileseek fd (int off) s = (int off, s1)" using ofd by (simp add: fileseek_def plain lseek_set_def s1_def)
  have rem: "take (min 92 (max_io s1)) (remaining s1 e) = take 92 (drop off c)"
    using e c io by (simp add: remaining_def s1_def)
  have len: "length (take 92 (drop off c)) = 92" using assms(2) by simp
  have rd: "sys_read fd 92 s1 = (92, take 92 (drop off c), advance e 92 s1)"
    using sys_read_advance [of s1 fd e 92] ofd len unfolding rem by (simp add: s1_def Let_def)
  have "out_state (advance e 92 s1) fd e c (off + 92)" using assms(1) e by (simp add: out_state_def s1_def)
  moreover have "read_header fd (int off) h s = (92, decode_header (take 92 (drop off c)), advance e 92 s1)"
    by (simp only: read_header_def seek rd Let_def prod.case) (simp add: decode_header_append [OF len])
  moreover have "gd (advance e 92 s1) = gd s" by (simp add: s1_def)
  ultimately show ?thesis by blast
qed

lemma gpt_load_entries_ok:
  assumes "out_state s fd e c q" "algos_ok algos" "sizeof_partition_entry (hdr p) = 128"
    and "unat (num_partition_entries p) \<le> 128" "length ents = 128 * unat (num_partition_entries p)"
    and "take (length ents) (drop (unat off) c) = ents" "unat off < 2 ^ 63"
    and "partition_entry_array_crc32 (hdr p) = zlib_crc ents" "partitions p = Some mem" "length mem = length ents"
  shows "\<exists>algos' s' q'. gpt_load_entries p off fd algos s = Ok (0, p\<lparr>partitions := Some ents\<rparr>, algos', s') \<and> algos_ok algos' \<and>
    out_state s' fd e c q' \<and> gd s' = gd s"
proof -
  have e: "e < length (open_files s)" by (rule out_state_index [OF assms(1)])
  have ofd: "ofd_of s fd = Some e" and c: "content s e = c" and io: "0x200000 \<le> max_io s" using assms(1) by (simp_all add: out_state_def)
  define s1 where "s1 = set_position e (unat off) s"
  have seek: "snd (lseek_set fd (sint off) s) = s1" using ofd by (simp add: lseek_set_def sint_small [OF assms(7)] s1_def)
  have sz: "unat (sizeof_partition_entry (hdr p)) * unat (num_partition_entries p) = length ents"
    using assms(3,5) by simp
  have rem: "take (min (length ents) (max_io s1)) (remaining s1 e) = ents"
    using e c io assms(4,5,6) by (simp add: remaining_def s1_def)
  have rd: "sys_read fd (length ents) s1 = (int (length ents), ents, advance e (length ents) s1)"
    using sys_read_advance [of s1 fd e "length ents"] ofd unfolding rem by (simp add: s1_def Let_def)
  obtain algos' where crc: "crc32 algos 0 ents = (algos', zlib_crc ents)" "algos_ok algos'"
    using crc32_spec [OF assms(2), of 0 ents] by (metis xor.left_neutral zlib_crc_def)
  have "out_state (advance e (length ents) s1) fd e c (unat off + length ents)" using assms(1) e by (simp add: out_state_def s1_def)
  moreover have "gd (advance e (length ents) s1) = gd s" by (simp add: s1_def)
  moreover have "gpt_load_entries p off fd algos s = Ok (0, p\<lparr>partitions := Some ents\<rparr>, algos', advance e (length ents) s1)"
    using assms(8,9,10) crc(1) by (simp add: gpt_load_entries_def seek sz rd entries_mem_def)
  ultimately show ?thesis using crc(2) by blast
qed

section \<open>Registered partitions\<close>

definition entry_of :: "bytes \<Rightarrow> nat \<Rightarrow> gpt_entry" where
  "entry_of mem i = decode_entry (take 128 (drop (128 * i) mem))"

definition used_entry :: "gpt_entry \<Rightarrow> bool" where
  "used_entry e \<longleftrightarrow> (ucast (starting_lba e) :: u32) \<noteq> 0 \<and> (ucast (ending_lba e) :: u32) \<noteq> 0"

lemma entry_at_ok: "128 * (i + 1) \<le> length mem \<Longrightarrow> n \<le> 128 \<Longrightarrow> entry_at n mem i = Ok (entry_of mem i)"
  by (simp add: entry_at_def entry_of_def)

lemma count_used_ok:
  "128 * (i + n) \<le> length mem \<Longrightarrow> count_used_from mem i n = Ok (length (takeWhile used_entry (map (entry_of mem) [i..<i + n])))"
proof (induction n arbitrary: i)
  case 0
  then show ?case by simp
next
  case (Suc n)
  have entry: "entry_at 40 mem i = Ok (entry_of mem i)" "entry_at 48 mem i = Ok (entry_of mem i)"
    using Suc.prems by (auto intro: entry_at_ok)
  have rest: "count_used_from mem (i + 1) n = Ok (length (takeWhile used_entry (map (entry_of mem) [i + 1..<i + 1 + n])))"
    using Suc.prems by (intro Suc.IH) simp
  have list: "[i..<i + Suc n] = i # [i + 1..<i + 1 + n]" by (simp add: upt_conv_Cons)
  have "count_used_from mem i (Suc n) =
      (if used_entry (entry_of mem i) then cbind (count_used_from mem (i + 1) n) (\<lambda>k. Ok (Suc k)) else Ok 0)"
    by (simp add: entry used_entry_def)
  also have "\<dots> = Ok (length (takeWhile used_entry (map (entry_of mem) [i..<i + Suc n])))"
    unfolding rest list by simp
  finally show ?case .
qed

definition gpt_disk :: "bytes \<Rightarrow> nat \<Rightarrow> disk_partitions" where
  "gpt_disk ents n =
     \<lparr>disk_type = ''GPT'', score = 0, parts = map gpt_disk_partition (takeWhile used_entry (map (entry_of ents) [0..<n]))\<rparr>"

lemma gpt_register_ok:
  assumes "partitions p = Some ents" "128 * unat (num_partition_entries p) \<le> length ents" "num_partition_entries p \<noteq> 0"
  shows "gpt_register_disk_partitions True p g = Ok (register_disk_partitions (gpt_disk ents (unat (num_partition_entries p))) g)"
proof -
  let ?n = "unat (num_partition_entries p)"
  define k where "k = length (takeWhile used_entry (map (entry_of ents) [0..<?n]))"
  have k: "k \<le> ?n" using length_takeWhile_le [of used_entry "map (entry_of ents) [0..<?n]"] by (simp add: k_def)
  have "cmap (\<lambda>i. cbind (entry_at 128 ents i) (\<lambda>e. Ok (gpt_disk_partition e))) [0..<k] =
      Ok (map (\<lambda>i. gpt_disk_partition (entry_of ents i)) [0..<k])"
    using k assms(2) by (intro cmap_Ok) (auto simp: entry_at_ok)
  moreover have "takeWhile used_entry (map (entry_of ents) [0..<?n]) = map (entry_of ents) [0..<k]"
    unfolding k_def by (metis (no_types, lifting) takeWhile_eq_take take_map take_upt k k_def add_0)
  moreover have "count_used_from ents 0 ?n = Ok k" using count_used_ok [of 0 ?n ents] assms(2) by (simp add: k_def)
  ultimately show ?thesis
    using assms(1,3) by (simp add: gpt_register_disk_partitions_def entries_mem_def alloc_disk_partitions_def gpt_disk_def comp_def)
qed

section \<open>Detecting a written table\<close>

lemma le64_decode: "length bs = 8 \<Longrightarrow> le64 (word_of_nat (le_decode bs)) = bs"
proof -
  assume len: "length bs = 8"
  have "le_decode bs < 2 ^ LENGTH(64)" using le_decode_less [of bs] len by simp
  then have "unat (word_of_nat (le_decode bs) :: u64) = le_decode bs" by (simp add: unsigned_of_nat take_bit_nat_eq_self)
  then show ?thesis using le_encode_decode [of bs] len by (simp add: le64_def)
qed

lemma good_signature_decode: "length b = 92 \<Longrightarrow> good_signature (decode_header b) \<longleftrightarrow> take 8 b = gpt_signature"
  by (simp add: good_signature_def decode_header_def get_le_def le64_decode)

lemma length_gpt_signature: "length gpt_signature = 8"
  by (simp add: gpt_signature_def bytes_of_string_def)

lemma good_signature_sealed: "good_signature (sealed_header h ents)"
  by (simp add: good_signature_def sealed_header_def Let_def le64_decode length_gpt_signature)

lemma gpt_probe_ok:
  assumes "out_state s fd e c q" "604 \<le> length c" "take 92 c = replicate 92 0" "take 92 (drop 512 c) = encode_header h"
    and "length (disk_guid h) = 16" "good_signature h"
  shows "\<exists>s' q'. gpt_probe fd h0 s = (92, True, 512, h, s') \<and> out_state s' fd e c q' \<and> gd s' = gd s"
proof -
  obtain s1 q1 where r1: "read_header fd 0 h0 s = (92, decode_header (take 92 c), s1)" "out_state s1 fd e c q1" "gd s1 = gd s"
    using read_header_ok [OF assms(1), of 0 h0] assms(2) by auto
  obtain s2 q2 where r2: "read_header fd 512 (decode_header (take 92 c)) s1 = (92, decode_header (take 92 (drop 512 c)), s2)"
      "out_state s2 fd e c q2" "gd s2 = gd s1"
    using read_header_ok [OF r1(2), of 512 "decode_header (take 92 c)"] assms(2) by auto
  have "hd (take 8 (take 92 c)) = 0" unfolding assms(3) take_replicate by (simp add: hd_replicate)
  moreover have "hd gpt_signature \<noteq> 0" by (simp add: gpt_signature_def bytes_of_string_def)
  moreover have "length (take 92 c) = 92" using assms(2) by simp
  ultimately have bad: "\<not> good_signature (decode_header (take 92 c))"
    using good_signature_decode [of "take 92 c"] by metis
  have "gpt_probe fd h0 s = (92, True, 512, h, s2)"
    using bad by (simp add: gpt_probe_def r1(1) r2(1) assms(4,6) decode_encode_header [OF assms(5)])
  then show ?thesis using r2 r1(3) by auto
qed

text \<open>The checksum of the header and the entries that a written table carries.\<close>

lemma sealed_header_fields:
  assumes "table_ok h mem"
  shows "disk_guid (sealed_header h ents) = disk_guid h" "gpt_header_size (sealed_header h ents) = 92"
    "my_lba (sealed_header h ents) = 1" "sizeof_partition_entry (sealed_header h ents) = 128"
    "hdr_num_partition_entries (sealed_header h ents) = hdr_num_partition_entries (gpt_write_defaults h)"
    "partition_entry_lba (sealed_header h ents) = partition_entry_lba (gpt_write_defaults h)"
    "partition_entry_array_crc32 (sealed_header h ents) = zlib_crc ents"
    "header_crc32 (sealed_header h ents) = zlib_crc (encode_header (sealed_header h ents\<lparr>header_crc32 := 0\<rparr>))"
    "alternate_lba (sealed_header h ents) = alternate_lba h"
    "first_usable_lba (sealed_header h ents) = first_usable_lba h" "last_usable_lba (sealed_header h ents) = last_usable_lba h"
  using table_defaults [OF assms] by (simp_all add: sealed_header_def Let_def gpt_write_defaults_def)

lemma gpt_detect_ok:
  assumes "out_state s fd e (gpt_image h ents) q" "algos_ok algos" "length (disk_guid h) = 16" "good_signature h"
    and "gpt_header_size h = 92" "header_crc32 h = zlib_crc (encode_header (h\<lparr>header_crc32 := 0\<rparr>))"
    and "sizeof_partition_entry h = 128" "2 \<le> unat (partition_entry_lba h)" "unat (partition_entry_lba h) < 2 ^ 23"
    and "hdr_num_partition_entries h \<noteq> 0" "unat (hdr_num_partition_entries h) \<le> 128"
    and "length ents = 128 * unat (hdr_num_partition_entries h)" "partition_entry_array_crc32 h = zlib_crc ents"
  shows "\<exists>p algos' s'. gpt_detect True True p0 fd algos s = Ok (0, p, algos', s') \<and> hdr p = h \<and> partitions p = Some ents \<and>
    num_partition_entries p = hdr_num_partition_entries h \<and>
    gd s' = register_disk_partitions (gpt_disk ents (unat (hdr_num_partition_entries h))) (gd s)"
proof -
  let ?n = "unat (hdr_num_partition_entries h)"
  have n: "?n > 0" using assms(10) by (simp add: unat_gt_0)
  have ents: "ents \<noteq> []" using n assms(12) by auto
  note parts = gpt_image_parts [OF assms(8,3) ents]
  obtain s1 q1 where probe: "gpt_probe fd (hdr p0) s = (92, True, 512, h, s1)" "out_state s1 fd e (gpt_image h ents) q1" "gd s1 = gd s"
    using gpt_probe_ok [OF assms(1) parts(4) parts(1,2) assms(3,4), of "hdr p0"] by blast
  obtain algos1 where hc: "gpt_header_calc_crc32 algos h = (algos1, header_crc32 h)" "algos_ok algos1"
    using gpt_header_crc [OF assms(2), of h] assms(6) by metis
  define p2 where "p2 = p0\<lparr>hdr := h, num_partition_entries := hdr_num_partition_entries h, partitions := Some (replicate (?n * 128) 0)\<rparr>"
  have off: "unat (lba2sz (partition_entry_lba h)) = 512 * unat (partition_entry_lba h)"
    using assms(9) by (simp add: lba2sz_def unat_word_ariths(2))
  have "\<exists>algos' s' q'. gpt_load_entries p2 (lba2sz (partition_entry_lba h)) fd algos1 s1 =
      Ok (0, p2\<lparr>partitions := Some ents\<rparr>, algos', s') \<and> algos_ok algos' \<and> out_state s' fd e (gpt_image h ents) q' \<and> gd s' = gd s1"
    by (rule gpt_load_entries_ok [OF probe(2) hc(2), where mem = "replicate (?n * 128) 0"])
       (use assms parts off in \<open>simp_all add: p2_def\<close>)
  then obtain algos2 s2 q2 where load: "gpt_load_entries p2 (lba2sz (partition_entry_lba h)) fd algos1 s1 =
      Ok (0, p2\<lparr>partitions := Some ents\<rparr>, algos2, s2)" "gd s2 = gd s1" by blast
  define p4 where "p4 = p2\<lparr>partitions := Some ents, gpt_fd := fd\<rparr>"
  have reg: "gpt_register_disk_partitions True p4 (gd s2) = Ok (register_disk_partitions (gpt_disk ents ?n) (gd s2))"
    using gpt_register_ok [of p4 ents "gd s2"] assms(10,12) by (simp add: p4_def p2_def)
  have "gpt_detect True True p0 fd algos s = Ok (0, p4, algos2, s2\<lparr>gd := register_disk_partitions (gpt_disk ents ?n) (gd s2)\<rparr>)"
    using load reg assms(5,7)
    by (simp add: gpt_detect_def probe(1) hc(1) p2_def [symmetric] entries_offset_def p4_def [symmetric] Let_def)
  then show ?thesis using load(2) probe(3) by (simp add: p4_def p2_def)
qed

text \<open>C6: writing a table and detecting it. A table whose entries are 128 bytes and lie in memory is written to an empty file
  with status 0. The detection of that file succeeds: the header is the one that was written, with the guid and the places of
  the table, the entries are those in memory, and the partitions in front of the first unused entry are registered.\<close>

theorem gpt_write_detect:
  assumes "out_state s fd e [] q" "table_ok (hdr p) mem" "partitions p = Some mem" "algos_ok algos"
  shows "\<exists>h algos1 s1 p2 algos2 s2.
    gpt_write p fd algos s = Ok (0, p\<lparr>hdr := h\<rparr>, algos1, s1) \<and>
    gpt_detect True True p0 fd algos1 s1 = Ok (0, p2, algos2, s2) \<and>
    hdr p2 = h \<and> disk_guid h = disk_guid (hdr p) \<and> alternate_lba h = alternate_lba (hdr p) \<and>
    first_usable_lba h = first_usable_lba (hdr p) \<and> last_usable_lba h = last_usable_lba (hdr p) \<and>
    num_partition_entries p2 = hdr_num_partition_entries (gpt_write_defaults (hdr p)) \<and>
    partitions p2 = Some (table_entries (hdr p) mem) \<and>
    gd s2 = register_disk_partitions (gpt_disk (table_entries (hdr p) mem) (unat (num_partition_entries p2))) (gd s1)"
proof -
  let ?ents = "table_entries (hdr p) mem"
  let ?h = "sealed_header (hdr p) ?ents"
  obtain algos1 s1 q1 where w: "gpt_write p fd algos s = Ok (0, p\<lparr>hdr := ?h\<rparr>, algos1, s1)" "algos_ok algos1"
      "out_state s1 fd e (gpt_image ?h ?ents) q1"
    using gpt_write_image [OF assms] by blast
  note f = sealed_header_fields [OF assms(2), of ?ents] and d = table_defaults [OF assms(2)]
  have num: "hdr_num_partition_entries (gpt_write_defaults (hdr p)) \<noteq> 0"
    by (simp add: gpt_write_defaults_def GPT_MAX_NUM_PARTS_def)
  have len: "length ?ents = 128 * unat (hdr_num_partition_entries (gpt_write_defaults (hdr p)))"
    using d(8) by (simp add: table_entries_def)
  have "\<exists>p2 algos' s'. gpt_detect True True p0 fd algos1 s1 = Ok (0, p2, algos', s') \<and> hdr p2 = ?h \<and> partitions p2 = Some ?ents \<and>
      num_partition_entries p2 = hdr_num_partition_entries ?h \<and>
      gd s' = register_disk_partitions (gpt_disk ?ents (unat (hdr_num_partition_entries ?h))) (gd s1)"
    by (rule gpt_detect_ok [OF w(3,2)]) (use d num len f good_signature_sealed in simp_all)
  then show ?thesis using w(1) f by fastforce
qed

definition gpt_demo :: gpt_editor_private_data where
  "gpt_demo =
     \<lparr>gpt_fd = 0,
      hdr = \<lparr>signature = 0, revision = 0, gpt_header_size = 0, header_crc32 = 0, reserved1 = 0, my_lba = 0, alternate_lba = 99,
        first_usable_lba = 34, last_usable_lba = 90, disk_guid = replicate 16 7, partition_entry_lba = 2,
        hdr_num_partition_entries = 1, sizeof_partition_entry = 128, partition_entry_array_crc32 = 0\<rparr>,
      partitions = Some (encode_entry \<lparr>partition_type_guid = replicate 16 1, unique_partition_guid = replicate 16 2,
        starting_lba = 34, ending_lba = 50, attributes = 4, partition_name = replicate 36 65\<rparr>),
      num_partition_entries = 1,
      wpdata = \<lparr>next_lba = 0, active_partition_entries = 0, disk_type_uid = []\<rparr>\<rparr>"

theorem gpt_write_detect_witness:
  "\<exists>h algos1 s1 p2 algos2 s2.
    gpt_write gpt_demo 0 available_crc32_algos (one_file_sys []) = Ok (0, gpt_demo\<lparr>hdr := h\<rparr>, algos1, s1) \<and>
    gpt_detect True True gpt_demo 0 algos1 s1 = Ok (0, p2, algos2, s2) \<and>
    hdr p2 = h \<and> last_usable_lba h = 90 \<and> num_partition_entries p2 = 1"
proof -
  have mem: "partitions gpt_demo = Some (the (partitions gpt_demo))" by (simp add: gpt_demo_def)
  have "table_ok (hdr gpt_demo) (the (partitions gpt_demo))"
    by (simp add: table_ok_def gpt_demo_def gpt_write_defaults_def length_encode_entry entry_ok_def PARTNAME_SZ_def)
  from gpt_write_detect [OF one_file_sys_ok this mem algos_ok_available, of gpt_demo] show ?thesis
    by (fastforce simp: gpt_demo_def gpt_write_defaults_def)
qed

end
