(* ===== verification/Hash.thy ===== *)
theory Hash
  imports Prelude
begin

text \<open>
  The hash library (libs/hash): SHA-1, SHA-224/256, SHA-384/512 and MD5 as they are compiled (64 bit arithmetic, the plain
  macros), and the common interface over them (hash\_compatible.c). The three SHA families share the code of their contexts
  word for word, at two widths: it is written once over the width of the word, the size of a block and the compression
  function. A block index outside the block is \<open>Oob\<close>.
\<close>

section \<open>The context of the SHA functions\<close>

datatype sha_error = shaSuccess | shaNull | shaInputTooLong | shaStateError | shaBadParam

record 'w sha_context =
  Intermediate_Hash :: "'w list"
  Length_High :: 'w
  Length_Low :: 'w
  Message_Block_Index :: nat
  Message_Block :: bytes
  Computed :: bool
  Corrupted :: sha_error

type_synonym SHA1Context = "u32 sha_context"
type_synonym SHA256Context = "u32 sha_context"
type_synonym SHA512Context = "u64 sha_context"

definition SHA1_Message_Block_Size :: nat where "SHA1_Message_Block_Size = 64"
definition SHA256_Message_Block_Size :: nat where "SHA256_Message_Block_Size = 64"
definition SHA512_Message_Block_Size :: nat where "SHA512_Message_Block_Size = 128"

definition SHA_Ch :: "'a::len word \<Rightarrow> 'a word \<Rightarrow> 'a word \<Rightarrow> 'a word" where
  "SHA_Ch x y z = (x AND y) XOR (NOT x AND z)"

definition SHA_Maj :: "'a::len word \<Rightarrow> 'a word \<Rightarrow> 'a word \<Rightarrow> 'a word" where
  "SHA_Maj x y z = (x AND y) XOR (x AND z) XOR (y AND z)"

definition SHA_Parity :: "'a::len word \<Rightarrow> 'a word \<Rightarrow> 'a word \<Rightarrow> 'a word" where
  "SHA_Parity x y z = x XOR y XOR z"

text \<open>The number and the carry into the high half; overflowing that is the error.\<close>

definition sha_add_length :: "'a::len word \<Rightarrow> 'a word sha_context \<Rightarrow> 'a word sha_context" where
  "sha_add_length len c =
     (let low = Length_Low c + len; carry = low < Length_Low c;
          high = (if carry then Length_High c + 1 else Length_High c)
      in c\<lparr>Length_Low := low, Length_High := high,
           Corrupted := (if carry \<and> high = 0 then shaInputTooLong else Corrupted c)\<rparr>)"

definition sha_reset :: "'a::len word list \<Rightarrow> 'a word sha_context \<Rightarrow> 'a word sha_context" where
  "sha_reset H0 c =
     c\<lparr>Length_High := 0, Length_Low := 0, Message_Block_Index := 0, Intermediate_Hash := H0,
       Computed := False, Corrupted := shaSuccess\<rparr>"

text \<open>The message block is hashed; the index starts again.\<close>

type_synonym 'a compress = "'a word list \<Rightarrow> bytes \<Rightarrow> 'a word list"

definition sha_process :: "'a::len compress \<Rightarrow> 'a word sha_context \<Rightarrow> 'a word sha_context" where
  "sha_process compress c =
     c\<lparr>Intermediate_Hash := compress (Intermediate_Hash c) (Message_Block c), Message_Block_Index := 0\<rparr>"

definition sha_push :: "u8 \<Rightarrow> 'a::len word sha_context \<Rightarrow> 'a word sha_context cres" where
  "sha_push b c =
     (if Message_Block_Index c < length (Message_Block c)
      then Ok (c\<lparr>Message_Block := (Message_Block c)[Message_Block_Index c := b], Message_Block_Index := Message_Block_Index c + 1\<rparr>)
      else Oob)"

fun sha_input_loop :: "nat \<Rightarrow> 'a::len compress \<Rightarrow> bytes \<Rightarrow> 'a word sha_context \<Rightarrow> 'a word sha_context cres" where
  "sha_input_loop bsz compress [] c = Ok c"
| "sha_input_loop bsz compress (b # bs) c =
     cbind (sha_push b c)
       (\<lambda>c1. let c2 = sha_add_length 8 c1
             in sha_input_loop bsz compress bs
                  (if Corrupted c2 = shaSuccess \<and> Message_Block_Index c2 = bsz then sha_process compress c2 else c2))"

text \<open>The status and the context.\<close>

definition sha_input :: "nat \<Rightarrow> 'a::len compress \<Rightarrow> bytes \<Rightarrow> 'a word sha_context \<Rightarrow> (sha_error \<times> 'a word sha_context) cres" where
  "sha_input bsz compress msg c =
     (if msg = [] then Ok (shaSuccess, c)
      else if Computed c then Ok (shaStateError, c\<lparr>Corrupted := shaStateError\<rparr>)
      else if Corrupted c \<noteq> shaSuccess then Ok (Corrupted c, c)
      else cbind (sha_input_loop bsz compress msg c) (\<lambda>c'. Ok (Corrupted c', c')))"

text \<open>Zeros up to an index.\<close>

fun sha_fill :: "nat \<Rightarrow> 'a::len word sha_context \<Rightarrow> 'a word sha_context cres" where
  "sha_fill 0 c = Ok c"
| "sha_fill (Suc n) c = cbind (sha_push 0 c) (sha_fill n)"

text \<open>The octets of a word, the highest first.\<close>

definition word_octets :: "'a::len word \<Rightarrow> bytes" where
  "word_octets w = be_encode (LENGTH('a) div 8) (unat w)"

definition sha_pad_message :: "nat \<Rightarrow> nat \<Rightarrow> 'a::len compress \<Rightarrow> u8 \<Rightarrow> 'a word sha_context \<Rightarrow> 'a word sha_context cres" where
  "sha_pad_message bsz lsz compress Pad_Byte c =
     cbind (if Message_Block_Index c \<ge> bsz - lsz
            then cbind (cbind (sha_push Pad_Byte c) (\<lambda>c1. sha_fill (bsz - Message_Block_Index c1) c1))
                   (\<lambda>c2. Ok (sha_process compress c2))
            else sha_push Pad_Byte c)
       (\<lambda>c1. cbind (sha_fill (bsz - lsz - Message_Block_Index c1) c1)
          (\<lambda>c2. Ok (sha_process compress
             (c2\<lparr>Message_Block := take (bsz - lsz) (Message_Block c2) @ word_octets (Length_High c2) @ word_octets (Length_Low c2)\<rparr>))))"

definition sha_finalize :: "nat \<Rightarrow> nat \<Rightarrow> 'a::len compress \<Rightarrow> u8 \<Rightarrow> 'a word sha_context \<Rightarrow> 'a word sha_context cres" where
  "sha_finalize bsz lsz compress Pad_Byte c =
     cbind (sha_pad_message bsz lsz compress Pad_Byte c)
       (\<lambda>c1. Ok (c1\<lparr>Message_Block := replicate bsz 0, Length_High := 0, Length_Low := 0,
                     Computed := True\<rparr>))"

definition final_masks :: bytes where
  "final_masks = [0x00, 0x80, 0xC0, 0xE0, 0xF0, 0xF8, 0xFC, 0xFE]"

definition final_markbit :: bytes where
  "final_markbit = [0x80, 0x40, 0x20, 0x10, 0x08, 0x04, 0x02, 0x01]"

definition sha_final_bits ::
    "nat \<Rightarrow> nat \<Rightarrow> 'a::len compress \<Rightarrow> u8 \<Rightarrow> nat \<Rightarrow> 'a word sha_context \<Rightarrow> (sha_error \<times> 'a word sha_context) cres" where
  "sha_final_bits bsz lsz compress message_bits len c =
     (if len = 0 then Ok (shaSuccess, c)
      else if Corrupted c \<noteq> shaSuccess then Ok (Corrupted c, c)
      else if Computed c then Ok (shaStateError, c\<lparr>Corrupted := shaStateError\<rparr>)
      else if len \<ge> 8 then Ok (shaBadParam, c\<lparr>Corrupted := shaBadParam\<rparr>)
      else cbind (sha_finalize bsz lsz compress ((message_bits AND final_masks ! len) OR final_markbit ! len)
                    (sha_add_length (word_of_nat len) c))
             (\<lambda>c'. Ok (Corrupted c', c')))"

text \<open>The status, the digest and the context.\<close>

definition sha_result ::
    "nat \<Rightarrow> nat \<Rightarrow> 'a::len compress \<Rightarrow> nat \<Rightarrow> 'a word sha_context \<Rightarrow> (sha_error \<times> bytes \<times> 'a word sha_context) cres" where
  "sha_result bsz lsz compress HashSize c =
     (if Corrupted c \<noteq> shaSuccess then Ok (Corrupted c, [], c)
      else cbind (if Computed c then Ok c else sha_finalize bsz lsz compress 0x80 c)
             (\<lambda>c'. Ok (shaSuccess, take HashSize (concat (map word_octets (Intermediate_Hash c'))), c')))"

section \<open>SHA-1\<close>

text \<open>The words of a block, the highest octet first.\<close>

definition block_words :: "nat \<Rightarrow> bytes \<Rightarrow> 'a::len word list" where
  "block_words k block = map (\<lambda>b. word_of_nat (be_decode b)) (elements 16 k block)"

definition SHA1_ROTL :: "nat \<Rightarrow> u32 \<Rightarrow> u32" where
  "SHA1_ROTL bits w = push_bit bits w OR drop_bit (32 - bits) w"

definition SHA1_schedule :: "bytes \<Rightarrow> u32 list" where
  "SHA1_schedule block =
     foldl (\<lambda>W t. W @ [SHA1_ROTL 1 (W ! (t - 3) XOR W ! (t - 8) XOR W ! (t - 14) XOR W ! (t - 16))]) (block_words 4 block) [16..<80]"

type_synonym sha1_state = "u32 \<times> u32 \<times> u32 \<times> u32 \<times> u32"

definition SHA1_round :: "(u32 \<Rightarrow> u32 \<Rightarrow> u32 \<Rightarrow> u32) \<Rightarrow> u32 \<Rightarrow> sha1_state \<Rightarrow> u32 \<Rightarrow> sha1_state" where
  "SHA1_round f K st Wt =
     (case st of (A, B, C, D, E) \<Rightarrow> (SHA1_ROTL 5 A + f B C D + E + Wt + K, A, SHA1_ROTL 30 B, C, D))"

definition SHA1_compress :: "32 compress" where
  "SHA1_compress H block =
     (let W = SHA1_schedule block;
          st0 = (H ! 0, H ! 1, H ! 2, H ! 3, H ! 4);
          st1 = foldl (SHA1_round SHA_Ch 0x5A827999) st0 (take 20 W);
          st2 = foldl (SHA1_round SHA_Parity 0x6ED9EBA1) st1 (take 20 (drop 20 W));
          st3 = foldl (SHA1_round SHA_Maj 0x8F1BBCDC) st2 (take 20 (drop 40 W));
          (A, B, C, D, E) = foldl (SHA1_round SHA_Parity 0xCA62C1D6) st3 (take 20 (drop 60 W))
      in [H ! 0 + A, H ! 1 + B, H ! 2 + C, H ! 3 + D, H ! 4 + E])"

definition SHA1_H0 :: "u32 list" where
  "SHA1_H0 = [0x67452301, 0xEFCDAB89, 0x98BADCFE, 0x10325476, 0xC3D2E1F0]"

definition SHA1Reset :: "SHA1Context \<Rightarrow> SHA1Context" where
  "SHA1Reset = sha_reset SHA1_H0"

definition SHA1ProcessMessageBlock :: "SHA1Context \<Rightarrow> SHA1Context" where
  "SHA1ProcessMessageBlock = sha_process SHA1_compress"

definition SHA1Input :: "bytes \<Rightarrow> SHA1Context \<Rightarrow> (sha_error \<times> SHA1Context) cres" where
  "SHA1Input = sha_input SHA1_Message_Block_Size SHA1_compress"

definition SHA1PadMessage :: "u8 \<Rightarrow> SHA1Context \<Rightarrow> SHA1Context cres" where
  "SHA1PadMessage = sha_pad_message SHA1_Message_Block_Size 8 SHA1_compress"

definition SHA1Finalize :: "u8 \<Rightarrow> SHA1Context \<Rightarrow> SHA1Context cres" where
  "SHA1Finalize = sha_finalize SHA1_Message_Block_Size 8 SHA1_compress"

definition SHA1FinalBits :: "u8 \<Rightarrow> nat \<Rightarrow> SHA1Context \<Rightarrow> (sha_error \<times> SHA1Context) cres" where
  "SHA1FinalBits = sha_final_bits SHA1_Message_Block_Size 8 SHA1_compress"

definition SHA1Result :: "SHA1Context \<Rightarrow> (sha_error \<times> bytes \<times> SHA1Context) cres" where
  "SHA1Result = sha_result SHA1_Message_Block_Size 8 SHA1_compress 20"

section \<open>SHA-224 and SHA-256\<close>

definition SHA256_SHR :: "nat \<Rightarrow> u32 \<Rightarrow> u32" where "SHA256_SHR bits w = drop_bit bits w"
definition SHA256_ROTR :: "nat \<Rightarrow> u32 \<Rightarrow> u32" where "SHA256_ROTR bits w = drop_bit bits w OR push_bit (32 - bits) w"
definition SHA256_SIGMA0 :: "u32 \<Rightarrow> u32" where "SHA256_SIGMA0 w = SHA256_ROTR 2 w XOR SHA256_ROTR 13 w XOR SHA256_ROTR 22 w"
definition SHA256_SIGMA1 :: "u32 \<Rightarrow> u32" where "SHA256_SIGMA1 w = SHA256_ROTR 6 w XOR SHA256_ROTR 11 w XOR SHA256_ROTR 25 w"
definition SHA256_sigma0 :: "u32 \<Rightarrow> u32" where "SHA256_sigma0 w = SHA256_ROTR 7 w XOR SHA256_ROTR 18 w XOR SHA256_SHR 3 w"
definition SHA256_sigma1 :: "u32 \<Rightarrow> u32" where "SHA256_sigma1 w = SHA256_ROTR 17 w XOR SHA256_ROTR 19 w XOR SHA256_SHR 10 w"

definition SHA256_K :: "u32 list" where
  "SHA256_K = concat
     [[0x428a2f98, 0x71374491, 0xb5c0fbcf, 0xe9b5dba5],
      [0x3956c25b, 0x59f111f1, 0x923f82a4, 0xab1c5ed5],
      [0xd807aa98, 0x12835b01, 0x243185be, 0x550c7dc3],
      [0x72be5d74, 0x80deb1fe, 0x9bdc06a7, 0xc19bf174],
      [0xe49b69c1, 0xefbe4786, 0x0fc19dc6, 0x240ca1cc],
      [0x2de92c6f, 0x4a7484aa, 0x5cb0a9dc, 0x76f988da],
      [0x983e5152, 0xa831c66d, 0xb00327c8, 0xbf597fc7],
      [0xc6e00bf3, 0xd5a79147, 0x06ca6351, 0x14292967],
      [0x27b70a85, 0x2e1b2138, 0x4d2c6dfc, 0x53380d13],
      [0x650a7354, 0x766a0abb, 0x81c2c92e, 0x92722c85],
      [0xa2bfe8a1, 0xa81a664b, 0xc24b8b70, 0xc76c51a3],
      [0xd192e819, 0xd6990624, 0xf40e3585, 0x106aa070],
      [0x19a4c116, 0x1e376c08, 0x2748774c, 0x34b0bcb5],
      [0x391c0cb3, 0x4ed8aa4a, 0x5b9cca4f, 0x682e6ff3],
      [0x748f82ee, 0x78a5636f, 0x84c87814, 0x8cc70208],
      [0x90befffa, 0xa4506ceb, 0xbef9a3f7, 0xc67178f2]]"

definition sha2_schedule :: "('a::len word \<Rightarrow> 'a word) \<Rightarrow> ('a word \<Rightarrow> 'a word) \<Rightarrow> 'a word list \<Rightarrow> nat \<Rightarrow> 'a word list" where
  "sha2_schedule sigma0 sigma1 W16 rounds =
     foldl (\<lambda>W t. W @ [sigma1 (W ! (t - 2)) + W ! (t - 7) + sigma0 (W ! (t - 15)) + W ! (t - 16)]) W16 [16..<rounds]"

type_synonym 'a sha2_state = "'a word \<times> 'a word \<times> 'a word \<times> 'a word \<times> 'a word \<times> 'a word \<times> 'a word \<times> 'a word"

definition sha2_round ::
    "('a::len word \<Rightarrow> 'a word) \<Rightarrow> ('a word \<Rightarrow> 'a word) \<Rightarrow> 'a sha2_state \<Rightarrow> 'a word \<times> 'a word \<Rightarrow> 'a sha2_state" where
  "sha2_round SIGMA0 SIGMA1 st KW =
     (case (st, KW) of ((A, B, C, D, E, F, G, H), (Kt, Wt)) \<Rightarrow>
        let temp1 = H + SIGMA1 E + SHA_Ch E F G + Kt + Wt; temp2 = SIGMA0 A + SHA_Maj A B C
        in (temp1 + temp2, A, B, C, D + temp1, E, F, G))"

definition sha2_add :: "'a::len word list \<Rightarrow> 'a sha2_state \<Rightarrow> 'a word list" where
  "sha2_add Hs st =
     (case st of (A, B, C, D, E, F, G, H) \<Rightarrow>
        [Hs ! 0 + A, Hs ! 1 + B, Hs ! 2 + C, Hs ! 3 + D, Hs ! 4 + E, Hs ! 5 + F, Hs ! 6 + G, Hs ! 7 + H])"

definition sha2_load :: "'a::len word list \<Rightarrow> 'a sha2_state" where
  "sha2_load Hs = (Hs ! 0, Hs ! 1, Hs ! 2, Hs ! 3, Hs ! 4, Hs ! 5, Hs ! 6, Hs ! 7)"

definition SHA256_compress :: "32 compress" where
  "SHA256_compress Hs block =
     sha2_add Hs (foldl (sha2_round SHA256_SIGMA0 SHA256_SIGMA1) (sha2_load Hs)
       (zip SHA256_K (sha2_schedule SHA256_sigma0 SHA256_sigma1 (block_words 4 block) 64)))"

definition SHA224_H0 :: "u32 list" where
  "SHA224_H0 = [0xC1059ED8, 0x367CD507, 0x3070DD17, 0xF70E5939, 0xFFC00B31, 0x68581511, 0x64F98FA7, 0xBEFA4FA4]"

definition SHA256_H0 :: "u32 list" where
  "SHA256_H0 = [0x6A09E667, 0xBB67AE85, 0x3C6EF372, 0xA54FF53A, 0x510E527F, 0x9B05688C, 0x1F83D9AB, 0x5BE0CD19]"

definition SHA224Reset :: "SHA256Context \<Rightarrow> SHA256Context" where "SHA224Reset = sha_reset SHA224_H0"
definition SHA256Reset :: "SHA256Context \<Rightarrow> SHA256Context" where "SHA256Reset = sha_reset SHA256_H0"

definition SHA224_256ProcessMessageBlock :: "SHA256Context \<Rightarrow> SHA256Context" where
  "SHA224_256ProcessMessageBlock = sha_process SHA256_compress"

definition SHA256Input :: "bytes \<Rightarrow> SHA256Context \<Rightarrow> (sha_error \<times> SHA256Context) cres" where
  "SHA256Input = sha_input SHA256_Message_Block_Size SHA256_compress"

definition SHA224Input :: "bytes \<Rightarrow> SHA256Context \<Rightarrow> (sha_error \<times> SHA256Context) cres" where
  "SHA224Input = SHA256Input"

definition SHA224_256PadMessage :: "u8 \<Rightarrow> SHA256Context \<Rightarrow> SHA256Context cres" where
  "SHA224_256PadMessage = sha_pad_message SHA256_Message_Block_Size 8 SHA256_compress"

definition SHA224_256Finalize :: "u8 \<Rightarrow> SHA256Context \<Rightarrow> SHA256Context cres" where
  "SHA224_256Finalize = sha_finalize SHA256_Message_Block_Size 8 SHA256_compress"

definition SHA256FinalBits :: "u8 \<Rightarrow> nat \<Rightarrow> SHA256Context \<Rightarrow> (sha_error \<times> SHA256Context) cres" where
  "SHA256FinalBits = sha_final_bits SHA256_Message_Block_Size 8 SHA256_compress"

definition SHA224_256ResultN :: "nat \<Rightarrow> SHA256Context \<Rightarrow> (sha_error \<times> bytes \<times> SHA256Context) cres" where
  "SHA224_256ResultN = sha_result SHA256_Message_Block_Size 8 SHA256_compress"

definition SHA224Result :: "SHA256Context \<Rightarrow> (sha_error \<times> bytes \<times> SHA256Context) cres" where
  "SHA224Result = SHA224_256ResultN 28"

definition SHA256Result :: "SHA256Context \<Rightarrow> (sha_error \<times> bytes \<times> SHA256Context) cres" where
  "SHA256Result = SHA224_256ResultN 32"

section \<open>SHA-384 and SHA-512\<close>

definition SHA512_SHR :: "nat \<Rightarrow> u64 \<Rightarrow> u64" where "SHA512_SHR bits w = drop_bit bits w"
definition SHA512_ROTR :: "nat \<Rightarrow> u64 \<Rightarrow> u64" where "SHA512_ROTR bits w = drop_bit bits w OR push_bit (64 - bits) w"
definition SHA512_SIGMA0 :: "u64 \<Rightarrow> u64" where "SHA512_SIGMA0 w = SHA512_ROTR 28 w XOR SHA512_ROTR 34 w XOR SHA512_ROTR 39 w"
definition SHA512_SIGMA1 :: "u64 \<Rightarrow> u64" where "SHA512_SIGMA1 w = SHA512_ROTR 14 w XOR SHA512_ROTR 18 w XOR SHA512_ROTR 41 w"
definition SHA512_sigma0 :: "u64 \<Rightarrow> u64" where "SHA512_sigma0 w = SHA512_ROTR 1 w XOR SHA512_ROTR 8 w XOR SHA512_SHR 7 w"
definition SHA512_sigma1 :: "u64 \<Rightarrow> u64" where "SHA512_sigma1 w = SHA512_ROTR 19 w XOR SHA512_ROTR 61 w XOR SHA512_SHR 6 w"

definition SHA512_K :: "u64 list" where
  "SHA512_K = concat
     [[0x428A2F98D728AE22, 0x7137449123EF65CD],
      [0xB5C0FBCFEC4D3B2F, 0xE9B5DBA58189DBBC],
      [0x3956C25BF348B538, 0x59F111F1B605D019],
      [0x923F82A4AF194F9B, 0xAB1C5ED5DA6D8118],
      [0xD807AA98A3030242, 0x12835B0145706FBE],
      [0x243185BE4EE4B28C, 0x550C7DC3D5FFB4E2],
      [0x72BE5D74F27B896F, 0x80DEB1FE3B1696B1],
      [0x9BDC06A725C71235, 0xC19BF174CF692694],
      [0xE49B69C19EF14AD2, 0xEFBE4786384F25E3],
      [0x0FC19DC68B8CD5B5, 0x240CA1CC77AC9C65],
      [0x2DE92C6F592B0275, 0x4A7484AA6EA6E483],
      [0x5CB0A9DCBD41FBD4, 0x76F988DA831153B5],
      [0x983E5152EE66DFAB, 0xA831C66D2DB43210],
      [0xB00327C898FB213F, 0xBF597FC7BEEF0EE4],
      [0xC6E00BF33DA88FC2, 0xD5A79147930AA725],
      [0x06CA6351E003826F, 0x142929670A0E6E70],
      [0x27B70A8546D22FFC, 0x2E1B21385C26C926],
      [0x4D2C6DFC5AC42AED, 0x53380D139D95B3DF],
      [0x650A73548BAF63DE, 0x766A0ABB3C77B2A8],
      [0x81C2C92E47EDAEE6, 0x92722C851482353B],
      [0xA2BFE8A14CF10364, 0xA81A664BBC423001],
      [0xC24B8B70D0F89791, 0xC76C51A30654BE30],
      [0xD192E819D6EF5218, 0xD69906245565A910],
      [0xF40E35855771202A, 0x106AA07032BBD1B8],
      [0x19A4C116B8D2D0C8, 0x1E376C085141AB53],
      [0x2748774CDF8EEB99, 0x34B0BCB5E19B48A8],
      [0x391C0CB3C5C95A63, 0x4ED8AA4AE3418ACB],
      [0x5B9CCA4F7763E373, 0x682E6FF3D6B2B8A3],
      [0x748F82EE5DEFB2FC, 0x78A5636F43172F60],
      [0x84C87814A1F0AB72, 0x8CC702081A6439EC],
      [0x90BEFFFA23631E28, 0xA4506CEBDE82BDE9],
      [0xBEF9A3F7B2C67915, 0xC67178F2E372532B],
      [0xCA273ECEEA26619C, 0xD186B8C721C0C207],
      [0xEADA7DD6CDE0EB1E, 0xF57D4F7FEE6ED178],
      [0x06F067AA72176FBA, 0x0A637DC5A2C898A6],
      [0x113F9804BEF90DAE, 0x1B710B35131C471B],
      [0x28DB77F523047D84, 0x32CAAB7B40C72493],
      [0x3C9EBE0A15C9BEBC, 0x431D67C49C100D4C],
      [0x4CC5D4BECB3E42B6, 0x597F299CFC657E2A],
      [0x5FCB6FAB3AD6FAEC, 0x6C44198C4A475817]]"

definition SHA512_compress :: "64 compress" where
  "SHA512_compress Hs block =
     sha2_add Hs (foldl (sha2_round SHA512_SIGMA0 SHA512_SIGMA1) (sha2_load Hs)
       (zip SHA512_K (sha2_schedule SHA512_sigma0 SHA512_sigma1 (block_words 8 block) 80)))"

definition SHA384_H0 :: "u64 list" where
  "SHA384_H0 =
     [0xCBBB9D5DC1059ED8, 0x629A292A367CD507, 0x9159015A3070DD17, 0x152FECD8F70E5939,
      0x67332667FFC00B31, 0x8EB44A8768581511, 0xDB0C2E0D64F98FA7, 0x47B5481DBEFA4FA4]"

definition SHA512_H0 :: "u64 list" where
  "SHA512_H0 =
     [0x6A09E667F3BCC908, 0xBB67AE8584CAA73B, 0x3C6EF372FE94F82B, 0xA54FF53A5F1D36F1,
      0x510E527FADE682D1, 0x9B05688C2B3E6C1F, 0x1F83D9ABFB41BD6B, 0x5BE0CD19137E2179]"

definition SHA384Reset :: "SHA512Context \<Rightarrow> SHA512Context" where "SHA384Reset = sha_reset SHA384_H0"
definition SHA512Reset :: "SHA512Context \<Rightarrow> SHA512Context" where "SHA512Reset = sha_reset SHA512_H0"

definition SHA384_512ProcessMessageBlock :: "SHA512Context \<Rightarrow> SHA512Context" where
  "SHA384_512ProcessMessageBlock = sha_process SHA512_compress"

definition SHA512Input :: "bytes \<Rightarrow> SHA512Context \<Rightarrow> (sha_error \<times> SHA512Context) cres" where
  "SHA512Input = sha_input SHA512_Message_Block_Size SHA512_compress"

definition SHA384Input :: "bytes \<Rightarrow> SHA512Context \<Rightarrow> (sha_error \<times> SHA512Context) cres" where
  "SHA384Input = SHA512Input"

definition SHA384_512PadMessage :: "u8 \<Rightarrow> SHA512Context \<Rightarrow> SHA512Context cres" where
  "SHA384_512PadMessage = sha_pad_message SHA512_Message_Block_Size 16 SHA512_compress"

definition SHA384_512Finalize :: "u8 \<Rightarrow> SHA512Context \<Rightarrow> SHA512Context cres" where
  "SHA384_512Finalize = sha_finalize SHA512_Message_Block_Size 16 SHA512_compress"

definition SHA512FinalBits :: "u8 \<Rightarrow> nat \<Rightarrow> SHA512Context \<Rightarrow> (sha_error \<times> SHA512Context) cres" where
  "SHA512FinalBits = sha_final_bits SHA512_Message_Block_Size 16 SHA512_compress"

definition SHA384_512ResultN :: "nat \<Rightarrow> SHA512Context \<Rightarrow> (sha_error \<times> bytes \<times> SHA512Context) cres" where
  "SHA384_512ResultN = sha_result SHA512_Message_Block_Size 16 SHA512_compress"

definition SHA384Result :: "SHA512Context \<Rightarrow> (sha_error \<times> bytes \<times> SHA512Context) cres" where
  "SHA384Result = SHA384_512ResultN 48"

definition SHA512Result :: "SHA512Context \<Rightarrow> (sha_error \<times> bytes \<times> SHA512Context) cres" where
  "SHA512Result = SHA384_512ResultN 64"

section \<open>MD5\<close>

record MD5_CTX =
  md5_state :: "u32 list"
  md5_count :: "u32 \<times> u32"
  md5_buffer :: bytes

definition MD5_F :: "u32 \<Rightarrow> u32 \<Rightarrow> u32 \<Rightarrow> u32" where "MD5_F x y z = (x AND y) OR (NOT x AND z)"
definition MD5_G :: "u32 \<Rightarrow> u32 \<Rightarrow> u32 \<Rightarrow> u32" where "MD5_G x y z = (x AND z) OR (y AND NOT z)"
definition MD5_H :: "u32 \<Rightarrow> u32 \<Rightarrow> u32 \<Rightarrow> u32" where "MD5_H x y z = x XOR y XOR z"
definition MD5_I :: "u32 \<Rightarrow> u32 \<Rightarrow> u32 \<Rightarrow> u32" where "MD5_I x y z = y XOR (x OR NOT z)"

definition ROTATE_LEFT :: "u32 \<Rightarrow> nat \<Rightarrow> u32" where
  "ROTATE_LEFT x n = push_bit n x OR drop_bit (32 - n) x"

text \<open>
  One of the macros \<open>FF\<close>, \<open>GG\<close>, \<open>HH\<close>, \<open>II\<close>. The roles of the four words move on with every call, from \<open>(a, b, c, d)\<close> to
  \<open>(d, a, b, c)\<close>: the state is kept in the order of the next call.
\<close>

type_synonym md5_state4 = "u32 \<times> u32 \<times> u32 \<times> u32"

definition md5_step ::
    "(u32 \<Rightarrow> u32 \<Rightarrow> u32 \<Rightarrow> u32) \<Rightarrow> u32 list \<Rightarrow> md5_state4 \<Rightarrow> nat \<times> nat \<times> u32 \<Rightarrow> md5_state4" where
  "md5_step f x st op =
     (case (st, op) of ((a, b, c, d), (k, s, ac)) \<Rightarrow> (d, ROTATE_LEFT (a + (f b c d + x ! k + ac)) s + b, b, c))"

definition md5_round1 :: "(nat \<times> nat \<times> u32) list" where
  "md5_round1 =
     [(0, 7, 0xd76aa478), (1, 12, 0xe8c7b756), (2, 17, 0x242070db), (3, 22, 0xc1bdceee),
      (4, 7, 0xf57c0faf), (5, 12, 0x4787c62a), (6, 17, 0xa8304613), (7, 22, 0xfd469501),
      (8, 7, 0x698098d8), (9, 12, 0x8b44f7af), (10, 17, 0xffff5bb1), (11, 22, 0x895cd7be),
      (12, 7, 0x6b901122), (13, 12, 0xfd987193), (14, 17, 0xa679438e), (15, 22, 0x49b40821)]"

definition md5_round2 :: "(nat \<times> nat \<times> u32) list" where
  "md5_round2 =
     [(1, 5, 0xf61e2562), (6, 9, 0xc040b340), (11, 14, 0x265e5a51), (0, 20, 0xe9b6c7aa),
      (5, 5, 0xd62f105d), (10, 9, 0x2441453), (15, 14, 0xd8a1e681), (4, 20, 0xe7d3fbc8),
      (9, 5, 0x21e1cde6), (14, 9, 0xc33707d6), (3, 14, 0xf4d50d87), (8, 20, 0x455a14ed),
      (13, 5, 0xa9e3e905), (2, 9, 0xfcefa3f8), (7, 14, 0x676f02d9), (12, 20, 0x8d2a4c8a)]"

definition md5_round3 :: "(nat \<times> nat \<times> u32) list" where
  "md5_round3 =
     [(5, 4, 0xfffa3942), (8, 11, 0x8771f681), (11, 16, 0x6d9d6122), (14, 23, 0xfde5380c),
      (1, 4, 0xa4beea44), (4, 11, 0x4bdecfa9), (7, 16, 0xf6bb4b60), (10, 23, 0xbebfbc70),
      (13, 4, 0x289b7ec6), (0, 11, 0xeaa127fa), (3, 16, 0xd4ef3085), (6, 23, 0x4881d05),
      (9, 4, 0xd9d4d039), (12, 11, 0xe6db99e5), (15, 16, 0x1fa27cf8), (2, 23, 0xc4ac5665)]"

definition md5_round4 :: "(nat \<times> nat \<times> u32) list" where
  "md5_round4 =
     [(0, 6, 0xf4292244), (7, 10, 0x432aff97), (14, 15, 0xab9423a7), (5, 21, 0xfc93a039),
      (12, 6, 0x655b59c3), (3, 10, 0x8f0ccc92), (10, 15, 0xffeff47d), (1, 21, 0x85845dd1),
      (8, 6, 0x6fa87e4f), (15, 10, 0xfe2ce6e0), (6, 15, 0xa3014314), (13, 21, 0x4e0811a1),
      (4, 6, 0xf7537e82), (11, 10, 0xbd3af235), (2, 15, 0x2ad7d2bb), (9, 21, 0xeb86d391)]"

text \<open>\<open>Decode\<close>: words with the lowest octet first.\<close>

definition md5_Decode :: "bytes \<Rightarrow> u32 list" where
  "md5_Decode input = map (\<lambda>b. word_of_nat (le_decode b)) (elements (length input div 4) 4 input)"

definition md5_Encode :: "u32 list \<Rightarrow> bytes" where
  "md5_Encode input = concat (map (\<lambda>w. le_encode 4 (unat w)) input)"

definition MD5Transform :: "u32 list \<Rightarrow> bytes \<Rightarrow> u32 list" where
  "MD5Transform state block =
     (let x = md5_Decode block;
          st0 = (state ! 0, state ! 1, state ! 2, state ! 3);
          st1 = foldl (md5_step MD5_F x) st0 md5_round1;
          st2 = foldl (md5_step MD5_G x) st1 md5_round2;
          st3 = foldl (md5_step MD5_H x) st2 md5_round3;
          (a, b, c, d) = foldl (md5_step MD5_I x) st3 md5_round4
      in [state ! 0 + a, state ! 1 + b, state ! 2 + c, state ! 3 + d])"

definition MD5Init :: "MD5_CTX \<Rightarrow> MD5_CTX" where
  "MD5Init ctx = ctx\<lparr>md5_count := (0, 0), md5_state := [0x67452301, 0xefcdab89, 0x98badcfe, 0x10325476]\<rparr>"

definition MD5_memcpy :: "nat \<Rightarrow> bytes \<Rightarrow> bytes \<Rightarrow> bytes" where
  "MD5_memcpy index input output = take index output @ input @ drop (index + length input) output"

text \<open>The loop over whole blocks of the input, and what is left of it. \<open>inputLen\<close> is below \<open>2 ^ 32\<close>.\<close>

fun md5_blocks :: "nat \<Rightarrow> u32 list \<Rightarrow> bytes \<Rightarrow> u32 list" where
  "md5_blocks 0 state input = state"
| "md5_blocks (Suc n) state input = md5_blocks n (MD5Transform state (take 64 input)) (drop 64 input)"

definition md5_add_count :: "u32 \<times> u32 \<Rightarrow> nat \<Rightarrow> u32 \<times> u32" where
  "md5_add_count count inputLen =
     (case count of (c0, c1) \<Rightarrow>
        let bits = push_bit 3 (word_of_nat inputLen) :: u32; c0' = c0 + bits;
            c1' = (if c0' < bits then c1 + 1 else c1)
        in (c0', c1' + drop_bit 29 (word_of_nat inputLen)))"

definition MD5Update :: "MD5_CTX \<Rightarrow> bytes \<Rightarrow> MD5_CTX" where
  "MD5Update ctx input =
     (let index = unat (drop_bit 3 (fst (md5_count ctx)) AND 0x3f);
          count = md5_add_count (md5_count ctx) (length input);
          partLen = 64 - index
      in if length input \<ge> partLen
         then
           let block = MD5_memcpy index (take partLen input) (md5_buffer ctx);
               n = (length input - partLen) div 64;
               rest = drop (partLen + 64 * n) input
           in ctx\<lparr>md5_count := count, md5_state := md5_blocks n (MD5Transform (md5_state ctx) block) (drop partLen input),
                  md5_buffer := MD5_memcpy 0 rest block\<rparr>
         else ctx\<lparr>md5_count := count, md5_buffer := MD5_memcpy index input (md5_buffer ctx)\<rparr>)"

definition MD5_PADDING :: bytes where
  "MD5_PADDING = 0x80 # replicate 63 0"

text \<open>The digest, and the context, which is cleared.\<close>

definition MD5Final :: "MD5_CTX \<Rightarrow> bytes \<times> MD5_CTX" where
  "MD5Final ctx =
     (let bits = md5_Encode [fst (md5_count ctx), snd (md5_count ctx)];
          index = unat (drop_bit 3 (fst (md5_count ctx)) AND 0x3f);
          padLen = (if index < 56 then 56 - index else 120 - index);
          ctx' = MD5Update (MD5Update ctx (take padLen MD5_PADDING)) bits
      in (md5_Encode (md5_state ctx'), \<lparr>md5_state = replicate 4 0, md5_count = (0, 0), md5_buffer = replicate 64 0\<rparr>))"

section \<open>The common interface\<close>

datatype hash_type_id = HASH_TYPE_MD5 | HASH_TYPE_SHA1 | HASH_TYPE_SHA224 | HASH_TYPE_SHA256 | HASH_TYPE_SHA384 | HASH_TYPE_SHA512

text \<open>The private structure: the id, and the context of the kind that the id asks for.\<close>

datatype hash_context_t =
    CTX_MD5 MD5_CTX
  | CTX_SHA1 SHA1Context
  | CTX_SHA224 SHA256Context
  | CTX_SHA256 SHA256Context
  | CTX_SHA384 SHA512Context
  | CTX_SHA512 SHA512Context

definition zero_sha_context :: "nat \<Rightarrow> nat \<Rightarrow> 'a::len word sha_context" where
  "zero_sha_context words bsz =
     \<lparr>Intermediate_Hash = replicate words 0, Length_High = 0, Length_Low = 0, Message_Block_Index = 0,
      Message_Block = replicate bsz 0, Computed = False, Corrupted = shaSuccess\<rparr>"

definition hash_context_init :: "hash_type_id \<Rightarrow> hash_context_t" where
  "hash_context_init id' =
     (case id' of
        HASH_TYPE_MD5 \<Rightarrow> CTX_MD5 (MD5Init \<lparr>md5_state = replicate 4 0, md5_count = (0, 0), md5_buffer = replicate 64 0\<rparr>)
      | HASH_TYPE_SHA1 \<Rightarrow> CTX_SHA1 (SHA1Reset (zero_sha_context 5 64))
      | HASH_TYPE_SHA224 \<Rightarrow> CTX_SHA224 (SHA224Reset (zero_sha_context 8 64))
      | HASH_TYPE_SHA256 \<Rightarrow> CTX_SHA256 (SHA256Reset (zero_sha_context 8 64))
      | HASH_TYPE_SHA384 \<Rightarrow> CTX_SHA384 (SHA384Reset (zero_sha_context 8 128))
      | HASH_TYPE_SHA512 \<Rightarrow> CTX_SHA512 (SHA512Reset (zero_sha_context 8 128)))"

definition sha_status :: "sha_error \<Rightarrow> int" where
  "sha_status e =
     (case e of shaSuccess \<Rightarrow> 0 | shaNull \<Rightarrow> -1 | shaInputTooLong \<Rightarrow> -2 | shaStateError \<Rightarrow> -3 | shaBadParam \<Rightarrow> -4)"

text \<open>The length is passed on as an \<open>unsigned int\<close>. The status and the context.\<close>

definition sha_update :: "('c \<Rightarrow> hash_context_t) \<Rightarrow> (sha_error \<times> 'c) cres \<Rightarrow> (int \<times> hash_context_t) cres" where
  "sha_update wrap r = cbind r (\<lambda>(e, c). Ok (sha_status e, wrap c))"

definition hash_context_update :: "hash_context_t \<Rightarrow> bytes \<Rightarrow> (int \<times> hash_context_t) cres" where
  "hash_context_update ctx data =
     (let d = take (length data mod 2 ^ 32) data
      in case ctx of
           CTX_MD5 c \<Rightarrow> Ok (0, CTX_MD5 (MD5Update c d))
         | CTX_SHA1 c \<Rightarrow> sha_update CTX_SHA1 (SHA1Input d c)
         | CTX_SHA224 c \<Rightarrow> sha_update CTX_SHA224 (SHA224Input d c)
         | CTX_SHA256 c \<Rightarrow> sha_update CTX_SHA256 (SHA256Input d c)
         | CTX_SHA384 c \<Rightarrow> sha_update CTX_SHA384 (SHA384Input d c)
         | CTX_SHA512 c \<Rightarrow> sha_update CTX_SHA512 (SHA512Input d c))"

text \<open>What is copied to the buffer of the caller, whose length is returned, and the context.\<close>

definition sha_finish :: "nat \<Rightarrow> ('c \<Rightarrow> hash_context_t) \<Rightarrow> (sha_error \<times> bytes \<times> 'c) cres \<Rightarrow> (bytes \<times> hash_context_t) cres" where
  "sha_finish bufsz wrap r = cbind r (\<lambda>(e, dgst, c). Ok (if e \<noteq> shaSuccess then [] else take bufsz dgst, wrap c))"

definition hash_context_finish :: "hash_context_t \<Rightarrow> nat \<Rightarrow> (bytes \<times> hash_context_t) cres" where
  "hash_context_finish ctx bufsz =
     (case ctx of
        CTX_MD5 c \<Rightarrow> (case MD5Final c of (dgst, c') \<Rightarrow> Ok (take bufsz dgst, CTX_MD5 c'))
      | CTX_SHA1 c \<Rightarrow> sha_finish bufsz CTX_SHA1 (SHA1Result c)
      | CTX_SHA224 c \<Rightarrow> sha_finish bufsz CTX_SHA224 (SHA224Result c)
      | CTX_SHA256 c \<Rightarrow> sha_finish bufsz CTX_SHA256 (SHA256Result c)
      | CTX_SHA384 c \<Rightarrow> sha_finish bufsz CTX_SHA384 (SHA384Result c)
      | CTX_SHA512 c \<Rightarrow> sha_finish bufsz CTX_SHA512 (SHA512Result c))"

end
