(* ===== verification/HashLaws.thy ===== *)
theory HashLaws
  imports Hash
begin

text \<open>
  The hash functions against their specifications: padding and the compression of whole blocks. Feeding the message in any
  pieces gives the digest of the whole.
\<close>

section \<open>Blocks\<close>

text \<open>The state after the whole blocks of a message.\<close>

definition run_blocks :: "('h \<Rightarrow> bytes \<Rightarrow> 'h) \<Rightarrow> 'h \<Rightarrow> nat \<Rightarrow> bytes \<Rightarrow> 'h" where
  "run_blocks compress h bsz msg = foldl compress h (elements (length msg div bsz) bsz msg)"

definition tail_of :: "nat \<Rightarrow> bytes \<Rightarrow> bytes" where
  "tail_of bsz msg = drop (bsz * (length msg div bsz)) msg"

lemma length_tail_of: "0 < bsz \<Longrightarrow> length (tail_of bsz msg) = length msg mod bsz"
  by (simp add: tail_of_def minus_mult_div_eq_mod)

lemma head_tail: "msg = take (bsz * (length msg div bsz)) msg @ tail_of bsz msg"
  by (simp add: tail_of_def)

text \<open>More of the message: the whole blocks of what was left together with the new bytes are compressed.\<close>

lemma run_blocks_append:
  assumes "0 < bsz"
  shows "run_blocks compress h bsz (msg @ d) =
    foldl compress (run_blocks compress h bsz msg) (elements (length (tail_of bsz msg @ d) div bsz) bsz (tail_of bsz msg @ d))"
    "tail_of bsz (msg @ d) = tail_of bsz (tail_of bsz msg @ d)"
proof -
  define q where "q = length msg div bsz"
  define pre where "pre = take (q * bsz) msg"
  have pre: "length pre = q * bsz" "msg = pre @ tail_of bsz msg"
    using head_tail [of msg bsz] by (simp_all add: pre_def q_def mult.commute)
  have len: "length (msg @ d) = q * bsz + length (tail_of bsz msg @ d)"
    using pre by (metis append.assoc length_append)
  then have div: "length (msg @ d) div bsz = q + length (tail_of bsz msg @ d) div bsz"
    using assms by (simp only: div_mult_self3 [of bsz]) 
  have "elements (length (msg @ d) div bsz) bsz (pre @ (tail_of bsz msg @ d)) =
      elements q bsz pre @ elements (length (tail_of bsz msg @ d) div bsz) bsz (tail_of bsz msg @ d)"
    unfolding div by (rule elements_exact [OF pre(1)])
  moreover have "elements q bsz msg = elements q bsz pre"
    using pre elements_append [of q bsz pre "tail_of bsz msg"] by simp
  moreover have "pre @ (tail_of bsz msg @ d) = msg @ d" using pre(2) by simp
  ultimately show "run_blocks compress h bsz (msg @ d) =
    foldl compress (run_blocks compress h bsz msg) (elements (length (tail_of bsz msg @ d) div bsz) bsz (tail_of bsz msg @ d))"
    by (simp add: run_blocks_def q_def)
  have "tail_of bsz (msg @ d) = drop (bsz * (length (tail_of bsz msg @ d) div bsz) + q * bsz) (pre @ (tail_of bsz msg @ d))"
    unfolding tail_of_def [of bsz "msg @ d"] div using pre(2) by (metis add.commute append.assoc distrib_left mult.commute)
  also have "\<dots> = tail_of bsz (tail_of bsz msg @ d)"
    using pre(1) by (simp only: tail_of_def [of bsz "tail_of bsz msg @ d"]) (simp add: drop_drop [symmetric] add.commute del: drop_drop)
  finally show "tail_of bsz (msg @ d) = tail_of bsz (tail_of bsz msg @ d)" .
qed

lemma run_blocks_short: "length msg < bsz \<Longrightarrow> run_blocks compress h bsz msg = h" "length msg < bsz \<Longrightarrow> tail_of bsz msg = msg"
  by (simp_all add: run_blocks_def tail_of_def)

lemma run_blocks_one:
  "0 < bsz \<Longrightarrow> length msg = bsz \<Longrightarrow> run_blocks compress h bsz msg = compress h msg"
  "0 < bsz \<Longrightarrow> length msg = bsz \<Longrightarrow> tail_of bsz msg = []"
  by (simp_all add: run_blocks_def tail_of_def)

section \<open>Padding\<close>

text \<open>A one bit, zeros and the length in bits fill the last block.\<close>

definition pad_zeros :: "nat \<Rightarrow> nat \<Rightarrow> nat \<Rightarrow> nat" where
  "pad_zeros bsz lsz n = (2 * bsz - 1 - lsz - n mod bsz) mod bsz"

definition hash_pad :: "nat \<Rightarrow> bytes \<Rightarrow> bytes \<Rightarrow> bytes" where
  "hash_pad bsz len_bytes msg = msg @ 0x80 # replicate (pad_zeros bsz (length len_bytes) (length msg)) 0 @ len_bytes"

lemma pad_zeros_cases:
  assumes "lsz < bsz" "0 < lsz"
  shows "n mod bsz < bsz - lsz \<Longrightarrow> pad_zeros bsz lsz n = bsz - lsz - 1 - n mod bsz"
    "bsz - lsz \<le> n mod bsz \<Longrightarrow> pad_zeros bsz lsz n = 2 * bsz - lsz - 1 - n mod bsz"
proof -
  assume a: "n mod bsz < bsz - lsz"
  then have "2 * bsz - 1 - lsz - n mod bsz = bsz + (bsz - lsz - 1 - n mod bsz)" using assms by simp
  then have "pad_zeros bsz lsz n = (bsz + (bsz - lsz - 1 - n mod bsz)) mod bsz" by (simp only: pad_zeros_def)
  also have "\<dots> = bsz - lsz - 1 - n mod bsz" using assms by (simp only: mod_add_self1) simp
  finally show "pad_zeros bsz lsz n = bsz - lsz - 1 - n mod bsz" .
next
  assume a: "bsz - lsz \<le> n mod bsz"
  moreover have "n mod bsz < bsz" using assms by simp
  ultimately have "2 * bsz - 1 - lsz - n mod bsz < bsz" using assms by linarith
  then show "pad_zeros bsz lsz n = 2 * bsz - lsz - 1 - n mod bsz" by (simp add: pad_zeros_def)
qed

section \<open>The SHA family\<close>

definition sha_digest :: "'a::len compress \<Rightarrow> 'a word list \<Rightarrow> nat \<Rightarrow> nat \<Rightarrow> bytes \<Rightarrow> bytes" where
  "sha_digest compress H0 bsz lsz msg =
     concat (map word_octets (run_blocks compress H0 bsz (hash_pad bsz (be_encode lsz (8 * length msg)) msg)))"

definition bit_count :: "'a::len word sha_context \<Rightarrow> nat" where
  "bit_count c = unat (Length_High c) * 2 ^ LENGTH('a) + unat (Length_Low c)"

lemma sha_add_length_ok:
  fixes c :: "'a::len word sha_context"
  assumes "bit_count c + unat k < 2 ^ (2 * LENGTH('a))"
  shows "\<exists>h l. sha_add_length k c = c\<lparr>Length_High := h, Length_Low := l\<rparr> \<and> bit_count (c\<lparr>Length_High := h, Length_Low := l\<rparr>) = bit_count c + unat k"
proof -
  let ?m = "2 ^ LENGTH('a) :: nat"
  define low where "low = Length_Low c + k"
  have mm: "(2 :: nat) ^ (2 * LENGTH('a)) = ?m * ?m" by (simp add: mult_2 power_add)
  have lowc: "unat (Length_Low c) < ?m" "unat k < ?m" by (rule unsigned_less)+
  have low: "unat low = (unat (Length_Low c) + unat k) mod ?m" by (simp add: low_def unat_word_ariths(1))
  show ?thesis
  proof (cases "unat (Length_Low c) + unat k < ?m")
    case True
    then have ul: "unat low = unat (Length_Low c) + unat k" using low by simp
    then have "\<not> low < Length_Low c" by (simp add: word_less_nat_alt)
    then have "sha_add_length k c = c\<lparr>Length_High := Length_High c, Length_Low := low\<rparr>"
      by (simp add: sha_add_length_def low_def [symmetric] Let_def)
    then show ?thesis using ul by (intro exI [of _ "Length_High c"] exI [of _ low]) (simp add: bit_count_def)
  next
    case False
    then have ul: "unat low + ?m = unat (Length_Low c) + unat k" using low lowc by (simp add: le_mod_geq)
    then have "unat low < unat (Length_Low c)" using lowc by linarith
    then have less: "low < Length_Low c" by (simp add: word_less_nat_alt)
    have "(unat (Length_High c) + 1) * ?m < ?m * ?m" using assms ul unfolding bit_count_def mm by (simp add: algebra_simps)
    then have "unat (Length_High c) + 1 < ?m" by (metis mult_less_cancel2)
    then have uh: "unat (Length_High c + 1) = unat (Length_High c) + 1" by (simp add: unat_word_ariths(1))
    then have "Length_High c + 1 \<noteq> 0" by (metis add_is_0 one_neq_zero unat_0)
    then have "sha_add_length k c = c\<lparr>Length_High := Length_High c + 1, Length_Low := low\<rparr>"
      using less by (simp add: sha_add_length_def low_def [symmetric] Let_def)
    moreover have "bit_count (c\<lparr>Length_High := Length_High c + 1, Length_Low := low\<rparr>) = bit_count c + unat k"
      using ul uh by (simp add: bit_count_def algebra_simps)
    ultimately show ?thesis by blast
  qed
qed

lemma sha_push_ok:
  "Message_Block_Index c < length (Message_Block c) \<Longrightarrow>
    sha_push b c = Ok (c\<lparr>Message_Block := (Message_Block c)[Message_Block_Index c := b], Message_Block_Index := Message_Block_Index c + 1\<rparr>)"
  by (simp add: sha_push_def)

lemma sha_fill_ok:
  "Message_Block_Index c + n \<le> length (Message_Block c) \<Longrightarrow>
    sha_fill n c = Ok (c\<lparr>Message_Block := take (Message_Block_Index c) (Message_Block c) @ replicate n 0
                          @ drop (Message_Block_Index c + n) (Message_Block c), Message_Block_Index := Message_Block_Index c + n\<rparr>)"
proof (induction n arbitrary: c)
  case 0
  then show ?case by simp
next
  case (Suc n)
  let ?i = "Message_Block_Index c"
  have "take (Suc ?i) ((Message_Block c)[?i := 0]) = take ?i (Message_Block c) @ [0]"
    using Suc.prems by (simp add: take_Suc_conv_app_nth)
  then show ?case using Suc.prems Suc.IH [of "c\<lparr>Message_Block := (Message_Block c)[?i := 0], Message_Block_Index := ?i + 1\<rparr>"]
    by (simp add: sha_push_ok)
qed

text \<open>A context that has absorbed a message.\<close>

definition sha_absorbed :: "nat \<Rightarrow> 'a::len compress \<Rightarrow> 'a word list \<Rightarrow> bytes \<Rightarrow> 'a word sha_context \<Rightarrow> bool" where
  "sha_absorbed bsz compress H0 msg c \<longleftrightarrow>
     Corrupted c = shaSuccess \<and> \<not> Computed c \<and> length (Message_Block c) = bsz \<and>
     Message_Block_Index c = length (tail_of bsz msg) \<and> take (length (tail_of bsz msg)) (Message_Block c) = tail_of bsz msg \<and>
     Intermediate_Hash c = run_blocks compress H0 bsz msg \<and> bit_count c = 8 * length msg"

locale sha_family =
  fixes bsz lsz :: nat and compress :: "'a::len compress"
  assumes lsz: "lsz = 2 * (LENGTH('a) div 8)" "LENGTH('a) mod 8 = 0" "0 < lsz" "lsz < bsz"
    and eight: "8 < (2 :: nat) ^ LENGTH('a)"
begin

lemma bsz: "0 < bsz"
  using lsz by simp

lemma unat_8: "take_bit LENGTH('a) (8 :: nat) = 8" "unat (8 :: 'a word) = 8"
  using eight by (simp_all add: take_bit_nat_eq_self)

lemma absorb_byte:
  assumes "sha_absorbed bsz compress H0 msg c" "8 * length (msg @ [b]) < 2 ^ (2 * LENGTH('a))"
  shows "\<exists>c'. sha_input_loop bsz compress (b # bs) c = sha_input_loop bsz compress bs c' \<and> sha_absorbed bsz compress H0 (msg @ [b]) c'"
proof -
  let ?t = "tail_of bsz msg" and ?i = "length (tail_of bsz msg)"
  note a = assms(1) [unfolded sha_absorbed_def]
  have i: "?i < bsz" using length_tail_of [OF bsz, of msg] bsz by simp
  define c1 where "c1 = c\<lparr>Message_Block := (Message_Block c)[?i := b], Message_Block_Index := ?i + 1\<rparr>"
  have push: "sha_push b c = Ok c1" using a i sha_push_ok [of c b] by (simp add: c1_def)
  have "bit_count c1 + unat (8 :: 'a word) < 2 ^ (2 * LENGTH('a))"
    using a assms(2) by (simp add: c1_def bit_count_def unat_8)
  from sha_add_length_ok [OF this] obtain h l where
    add: "sha_add_length 8 c1 = c1\<lparr>Length_High := h, Length_Low := l\<rparr>" "bit_count (c1\<lparr>Length_High := h, Length_Low := l\<rparr>) = 8 * length (msg @ [b])"
    using a by (auto simp: c1_def bit_count_def unat_8)
  define c2 where "c2 = c1\<lparr>Length_High := h, Length_Low := l\<rparr>"
  have blk: "take (?i + 1) (Message_Block c2) = ?t @ [b]"
    using a i by (simp add: c2_def c1_def take_Suc_conv_app_nth)
  have run: "run_blocks compress H0 bsz (msg @ [b]) = foldl compress (run_blocks compress H0 bsz msg) (elements (length (?t @ [b]) div bsz) bsz (?t @ [b]))"
    "tail_of bsz (msg @ [b]) = tail_of bsz (?t @ [b])" by (rule run_blocks_append [OF bsz])+
  have c2: "Corrupted c2 = shaSuccess" "Message_Block_Index c2 = ?i + 1" using a by (simp_all add: c2_def c1_def)
  define c3 where "c3 = (if ?i + 1 = bsz then sha_process compress c2 else c2)"
  have "sha_input_loop bsz compress (b # bs) c = sha_input_loop bsz compress bs c3"
    using c2 by (simp add: push add(1) c2_def [symmetric] c3_def Let_def)
  moreover have "sha_absorbed bsz compress H0 (msg @ [b]) c3"
  proof (cases "?i + 1 = bsz")
    case True
    then have "Message_Block c2 = ?t @ [b]" using blk a by (simp add: c2_def c1_def)
    moreover have "tail_of bsz (?t @ [b]) = []" using True bsz by (intro run_blocks_one(2)) simp_all
    moreover have "elements (length (?t @ [b]) div bsz) bsz (?t @ [b]) = [?t @ [b]]" using True bsz by simp
    ultimately show ?thesis
      using True a add(2) unfolding sha_absorbed_def run c3_def by (simp add: sha_process_def c2_def c1_def bit_count_def)
  next
    case False
    then have "length (?t @ [b]) < bsz" using i by simp
    then have "tail_of bsz (?t @ [b]) = ?t @ [b]" "elements (length (?t @ [b]) div bsz) bsz (?t @ [b]) = []"
      by (auto intro: run_blocks_short)
    then show ?thesis
      using False a add(2) blk unfolding sha_absorbed_def run c3_def by (simp add: c2_def c1_def bit_count_def)
  qed
  ultimately show ?thesis by blast
qed

lemma input_loop:
  "sha_absorbed bsz compress H0 msg c \<Longrightarrow> 8 * length (msg @ d) < 2 ^ (2 * LENGTH('a)) \<Longrightarrow>
    \<exists>c'. sha_input_loop bsz compress d c = Ok c' \<and> sha_absorbed bsz compress H0 (msg @ d) c'"
proof (induction d arbitrary: msg c)
  case Nil
  then show ?case by simp
next
  case (Cons b d)
  have "8 * length (msg @ [b]) < 2 ^ (2 * LENGTH('a))" using Cons.prems(2) by simp
  from absorb_byte [OF Cons.prems(1) this, of d] obtain c1 where
    c1: "sha_input_loop bsz compress (b # d) c = sha_input_loop bsz compress d c1" "sha_absorbed bsz compress H0 (msg @ [b]) c1" by blast
  then show ?case using Cons.IH [OF c1(2)] Cons.prems(2) unfolding c1(1) by simp
qed

lemma input_ok:
  assumes "sha_absorbed bsz compress H0 msg c" "8 * length (msg @ d) < 2 ^ (2 * LENGTH('a))"
  shows "\<exists>c'. sha_input bsz compress d c = Ok (shaSuccess, c') \<and> sha_absorbed bsz compress H0 (msg @ d) c'"
  using input_loop [OF assms] assms(1) by (cases "d = []") (auto simp: sha_input_def sha_absorbed_def)

lemma octets: "word_octets h @ word_octets l = be_encode lsz (unat (h :: 'a word) * 2 ^ LENGTH('a) + unat (l :: 'a word))"
proof -
  let ?k = "LENGTH('a) div 8"
  have p: "(256 :: nat) ^ ?k = 2 ^ LENGTH('a)"
  proof -
    have "LENGTH('a) = 8 * ?k" using lsz(2) by (metis add.right_neutral mult_div_mod_eq)
    then have "(2 :: nat) ^ LENGTH('a) = (2 ^ 8) ^ ?k" by (metis power_mult)
    then show ?thesis by simp
  qed
  have "unat l < 2 ^ LENGTH('a)" by (rule unsigned_less)
  then show ?thesis
    using be_encode_add [of ?k ?k "unat h * 2 ^ LENGTH('a) + unat l"]
      le_encode_mod [of ?k "unat h * 2 ^ LENGTH('a) + unat l"]
    by (simp add: lsz(1) word_octets_def mult_2 p be_encode_def)
qed

lemma finalize_ok:
  assumes "sha_absorbed bsz compress H0 msg c"
  shows "\<exists>c'. sha_finalize bsz lsz compress 0x80 c = Ok c' \<and> Corrupted c' = shaSuccess \<and>
    Intermediate_Hash c' = run_blocks compress H0 bsz (hash_pad bsz (be_encode lsz (8 * length msg)) msg)"
proof -
  let ?t = "tail_of bsz msg" and ?i = "length (tail_of bsz msg)" and ?lb = "be_encode lsz (8 * length msg)"
  define z where "z = pad_zeros bsz lsz (length msg)"
  define rest where "rest = 0x80 # replicate z 0 @ ?lb"
  note a = assms [unfolded sha_absorbed_def]
  have i: "?i = length msg mod bsz" "?i < bsz" "length msg mod bsz < bsz" using length_tail_of [OF bsz, of msg] bsz by simp_all
  have spec: "run_blocks compress H0 bsz (hash_pad bsz ?lb msg) =
      foldl compress (Intermediate_Hash c) (elements (length (?t @ rest) div bsz) bsz (?t @ rest))"
    using run_blocks_append(1) [OF bsz, of compress H0 msg rest] a by (simp add: hash_pad_def rest_def z_def)
  have lb: "word_octets (Length_High c) @ word_octets (Length_Low c) = ?lb"
    unfolding octets using a by (simp add: bit_count_def)
  define c1 where "c1 = c\<lparr>Message_Block := (Message_Block c)[?i := 0x80], Message_Block_Index := ?i + 1\<rparr>"
  have push: "sha_push 0x80 c = Ok c1" using a i sha_push_ok [of c "0x80"] by (simp add: c1_def)
  have blk1: "take (?i + 1) (Message_Block c1) = ?t @ [0x80]" using a i by (simp add: c1_def take_Suc_conv_app_nth)
  show ?thesis
  proof (cases "bsz - lsz \<le> ?i")
    case True
    have z: "z = (bsz - ?i - 1) + (bsz - lsz)" using pad_zeros_cases(2) [of lsz bsz "length msg"] lsz(3,4) True i unfolding z_def by linarith
    define b1 where "b1 = ?t @ 0x80 # replicate (bsz - ?i - 1) 0"
    have b1: "length b1 = bsz" using i by (simp add: b1_def)
    have "sha_fill (bsz - (?i + 1)) c1 = Ok (c1\<lparr>Message_Block := b1, Message_Block_Index := bsz\<rparr>)"
      using sha_fill_ok [of c1 "bsz - (?i + 1)"] a i blk1 by (simp add: c1_def b1_def)
    moreover define c2 where "c2 = sha_process compress (c1\<lparr>Message_Block := b1, Message_Block_Index := bsz\<rparr>)"
    moreover have "sha_fill (bsz - lsz) c2 = Ok (c2\<lparr>Message_Block := replicate (bsz - lsz) 0 @ drop (bsz - lsz) b1, Message_Block_Index := bsz - lsz\<rparr>)"
      using sha_fill_ok [of c2 "bsz - lsz"] b1 by (simp add: c2_def sha_process_def)
    moreover have "?t @ rest = b1 @ (replicate (bsz - lsz) 0 @ ?lb)" by (simp add: rest_def b1_def z replicate_add)
    moreover have "length (?t @ rest) div bsz = 2"
    proof -
      have "length (?t @ rest) = 2 * bsz" using i(2) lsz(4) z by (simp add: rest_def)
      then show ?thesis using bsz by simp
    qed
    ultimately show ?thesis
      using a True push lb lsz(4) b1
      by (simp add: sha_finalize_def sha_pad_message_def spec sha_process_def c1_def numeral_2_eq_2)
  next
    case False
    have z: "z = bsz - lsz - 1 - ?i" using pad_zeros_cases(1) [of lsz bsz "length msg"] lsz(3,4) False i by (simp add: z_def)
    define b1 where "b1 = ?t @ 0x80 # replicate z 0"
    have b1: "length b1 = bsz - lsz" using False z by (simp add: b1_def)
    have fill: "sha_fill (bsz - lsz - (?i + 1)) c1 = Ok (c1\<lparr>Message_Block := b1 @ drop (bsz - lsz) (Message_Block c1), Message_Block_Index := bsz - lsz\<rparr>)"
    proof -
      have e: "?i + 1 + (bsz - lsz - (?i + 1)) = bsz - lsz" using False by linarith
      have "length (Message_Block c1) = bsz" "Message_Block_Index c1 = ?i + 1" using a by (simp_all add: c1_def)
      moreover have "bsz - lsz - (?i + 1) = z" using z by simp
      ultimately show ?thesis using sha_fill_ok [of c1 "bsz - lsz - (?i + 1)"] e blk1 by (simp add: b1_def)
    qed
    have tot: "?t @ rest = b1 @ ?lb" by (simp add: rest_def b1_def)
    then have len: "length (?t @ rest) = bsz" using b1 lsz(4) by simp
    then show ?thesis
      using a False push lb lsz(4) b1 fill tot bsz
      by (simp add: sha_finalize_def sha_pad_message_def spec sha_process_def c1_def)
  qed
qed

lemma result_ok:
  assumes "sha_absorbed bsz compress H0 msg c"
  shows "\<exists>c'. sha_result bsz lsz compress n c = Ok (shaSuccess, take n (sha_digest compress H0 bsz lsz msg), c')"
  using finalize_ok [OF assms] assms by (auto simp: sha_result_def sha_absorbed_def sha_digest_def)

lemma reset_ok: "length (Message_Block c) = bsz \<Longrightarrow> sha_absorbed bsz compress H0 [] (sha_reset H0 c)"
  by (simp add: sha_absorbed_def sha_reset_def run_blocks_def tail_of_def bit_count_def)

end

interpretation sha1: sha_family SHA1_Message_Block_Size 8 SHA1_compress
  by unfold_locales (simp_all add: SHA1_Message_Block_Size_def)

interpretation sha256: sha_family SHA256_Message_Block_Size 8 SHA256_compress
  by unfold_locales (simp_all add: SHA256_Message_Block_Size_def)

interpretation sha512: sha_family SHA512_Message_Block_Size 16 SHA512_compress
  by unfold_locales (simp_all add: SHA512_Message_Block_Size_def)

section \<open>MD5\<close>

definition MD5_H0 :: "u32 list" where
  "MD5_H0 = [0x67452301, 0xefcdab89, 0x98badcfe, 0x10325476]"

definition md5_digest :: "bytes \<Rightarrow> bytes" where
  "md5_digest msg = md5_Encode (run_blocks MD5Transform MD5_H0 64 (hash_pad 64 (le_encode 8 (8 * length msg)) msg))"

definition md5_bits :: "u32 \<times> u32 \<Rightarrow> nat" where
  "md5_bits count = unat (fst count) + 2 ^ 32 * unat (snd count)"

lemma md5_add_count_ok:
  assumes "md5_bits count + 8 * n < 2 ^ 64" "n < 2 ^ 32"
  shows "md5_bits (md5_add_count count n) = md5_bits count + 8 * n"
proof -
  obtain c0 c1 where c: "count = (c0, c1)" by (cases count)
  define bits where "bits = (push_bit 3 (word_of_nat n) :: u32)"
  define hi where "hi = (drop_bit 29 (word_of_nat n) :: u32)"
  have bits: "unat bits = 8 * n mod 2 ^ 32"
    by (simp add: bits_def push_bit_eq_mult unat_word_ariths(2) unsigned_of_nat take_bit_eq_mod mod_mult_right_eq mult.commute)
  have hi: "unat hi = n div 2 ^ 29"
  proof -
    have "unat (word_of_nat n :: u32) = n" using assms(2) by (simp add: unsigned_of_nat take_bit_eq_mod)
    then show ?thesis unfolding hi_def unat_drop_bit_div by simp
  qed
  have n8: "8 * n = 2 ^ 32 * unat hi + unat bits"
  proof -
    have "8 * n div 2 ^ 32 = n div 2 ^ 29" using div_mult_mult1 [of 8 n "2 ^ 29"] by simp
    then show ?thesis unfolding bits hi by (metis div_mult_mod_eq mult.commute)
  qed
  have lt: "unat c0 < 2 ^ 32" "unat bits < 2 ^ 32" using unsigned_less [of c0] unsigned_less [of bits] by simp_all
  have sum: "unat c0 + unat bits + 2 ^ 32 * (unat c1 + unat hi) < 2 ^ 64" using assms(1) n8 by (simp add: c md5_bits_def)
  have low: "unat (c0 + bits) = (unat c0 + unat bits) mod 2 ^ 32" by (simp add: unat_word_ariths(1))
  show ?thesis
  proof (cases "unat c0 + unat bits < 2 ^ 32")
    case True
    then have l: "unat (c0 + bits) = unat c0 + unat bits" using low by simp
    then have nc: "\<not> c0 + bits < bits" by (simp add: word_less_nat_alt)
    have "unat (c1 + hi) = unat c1 + unat hi" using sum by (simp add: unat_word_ariths(1))
    then show ?thesis using n8 l nc by (simp add: c md5_add_count_def md5_bits_def bits_def [symmetric] hi_def [symmetric] Let_def)
  next
    case False
    then have l: "unat (c0 + bits) + 2 ^ 32 = unat c0 + unat bits" using low lt by (simp add: le_mod_geq)
    then have "unat (c0 + bits) < unat bits" using lt by linarith
    then have nc: "c0 + bits < bits" by (simp add: word_less_nat_alt)
    have "unat (c1 + 1 + hi) = unat c1 + 1 + unat hi" using sum l by (simp add: unat_word_ariths(1))
    then show ?thesis using n8 l nc by (simp add: c md5_add_count_def md5_bits_def bits_def [symmetric] hi_def [symmetric] Let_def)
  qed
qed

definition md5_absorbed :: "bytes \<Rightarrow> MD5_CTX \<Rightarrow> bool" where
  "md5_absorbed msg c \<longleftrightarrow>
     length (md5_buffer c) = 64 \<and> take (length (tail_of 64 msg)) (md5_buffer c) = tail_of 64 msg \<and>
     md5_state c = run_blocks MD5Transform MD5_H0 64 msg \<and> md5_bits (md5_count c) = 8 * length msg"

lemma md5_index:
  assumes "md5_bits count = 8 * n"
  shows "unat (drop_bit 3 (fst count) AND 0x3f) = n mod 64"
proof -
  have "unat (fst count) mod 2 ^ 32 = 8 * n mod 2 ^ 32" unfolding assms [symmetric] md5_bits_def by simp
  moreover have "unat (fst count) < 2 ^ 32" using unsigned_less [of "fst count"] by simp
  ultimately have "unat (fst count) div 8 mod 64 = (8 * n mod 2 ^ 32) div 8 mod 64" by simp
  also have "\<dots> = n mod 64"
  proof -
    have "8 * n mod 2 ^ 32 = 8 * (n mod 2 ^ 29)" using mult_mod_right [of 8 n "2 ^ 29"] by simp
    then show ?thesis by (simp add: mod_mod_cancel)
  qed
  finally have "unat (fst count) div 8 mod 64 = n mod 64" .
  moreover have "unat (x AND 0x3f) = unat x mod 64" for x :: u32
  proof -
    have "unat (x AND 0x3f) = unat x AND 63" by (simp add: unsigned_and_eq)
    also have "\<dots> = take_bit 6 (unat x)" by (simp add: take_bit_eq_mask mask_eq_exp_minus_1)
    finally show ?thesis by (simp add: take_bit_eq_mod)
  qed
  moreover have "unat (drop_bit 3 (fst count)) = unat (fst count) div 8" using unat_drop_bit_div [of 3 "fst count"] by simp
  ultimately show ?thesis by (simp only:)
qed

lemma md5_blocks_foldl: "md5_blocks n st input = foldl MD5Transform st (elements n 64 input)"
  by (induction n arbitrary: st input) simp_all

lemma md5_update_ok:
  assumes "md5_absorbed msg c" "length d < 2 ^ 32" "8 * length (msg @ d) < 2 ^ 64"
  shows "md5_absorbed (msg @ d) (MD5Update c d)"
proof -
  define t where "t = tail_of 64 msg"
  note a = assms(1) [unfolded md5_absorbed_def, folded t_def]
  have r: "length t = length msg mod 64" "length t < 64" using length_tail_of [of 64 msg] by (simp_all add: t_def)
  have idx: "unat (drop_bit 3 (fst (md5_count c)) AND 0x3f) = length t" using md5_index [of "md5_count c"] a r by simp
  have count: "md5_bits (md5_add_count (md5_count c) (length d)) = 8 * length (msg @ d)"
    using md5_add_count_ok [of "md5_count c" "length d"] a assms(2,3) by simp
  have run: "run_blocks MD5Transform MD5_H0 64 (msg @ d) =
      foldl MD5Transform (run_blocks MD5Transform MD5_H0 64 msg) (elements (length (t @ d) div 64) 64 (t @ d))"
    "tail_of 64 (msg @ d) = tail_of 64 (t @ d)"
    unfolding t_def by (rule run_blocks_append; simp)+
  show ?thesis
  proof (cases "64 - length t \<le> length d")
    case True
    define n where "n = (length d - (64 - length t)) div 64"
    define block where "block = t @ take (64 - length t) d"
    define rest where "rest = drop (64 - length t + 64 * n) d"
    have block: "MD5_memcpy (length t) (take (64 - length t) d) (md5_buffer c) = block" "length block = 64"
      using a True r by (simp_all add: MD5_memcpy_def block_def)
    have td: "t @ d = block @ drop (64 - length t) d" by (simp add: block_def)
    have len: "length (t @ d) div 64 = Suc n"
    proof -
      have "length (t @ d) = (length d - (64 - length t)) + 64" using True r by simp
      then show ?thesis by (simp add: n_def)
    qed
    have els: "elements (length (t @ d) div 64) 64 (t @ d) = block # elements n 64 (drop (64 - length t) d)"
      unfolding len by (simp add: td block(2))
    have tail: "tail_of 64 (t @ d) = rest"
      unfolding tail_of_def len unfolding td using block(2) by (simp add: rest_def add.commute)
    have "length rest < 64" using length_tail_of [of 64 "t @ d"] tail by simp
    then have buf: "take (length rest) (MD5_memcpy 0 rest block) = rest" "length (MD5_memcpy 0 rest block) = 64"
      using block(2) by (simp_all add: MD5_memcpy_def)
    have "MD5Update c d = c\<lparr>md5_count := md5_add_count (md5_count c) (length d),
        md5_state := foldl MD5Transform (MD5Transform (md5_state c) block) (elements n 64 (drop (64 - length t) d)),
        md5_buffer := MD5_memcpy 0 rest block\<rparr>"
      using True by (simp add: MD5Update_def idx block(1) n_def [symmetric] rest_def [symmetric] md5_blocks_foldl Let_def)
    then show ?thesis using a count buf els tail run unfolding md5_absorbed_def by simp
  next
    case False
    then have short: "length (t @ d) < 64" by simp
    then have "run_blocks MD5Transform MD5_H0 64 (msg @ d) = run_blocks MD5Transform MD5_H0 64 msg" "tail_of 64 (msg @ d) = t @ d"
      using run run_blocks_short(2) [OF short] by simp_all
    moreover have "MD5Update c d = c\<lparr>md5_count := md5_add_count (md5_count c) (length d), md5_buffer := MD5_memcpy (length t) d (md5_buffer c)\<rparr>"
      using False by (simp add: MD5Update_def idx Let_def)
    moreover have "take (length (t @ d)) (MD5_memcpy (length t) d (md5_buffer c)) = t @ d" "length (MD5_memcpy (length t) d (md5_buffer c)) = 64"
      using a short by (simp_all add: MD5_memcpy_def)
    ultimately show ?thesis using a count unfolding md5_absorbed_def by simp
  qed
qed

lemma md5_final_ok:
  assumes "md5_absorbed msg c" "8 * length msg + 1024 < 2 ^ 64"
  shows "fst (MD5Final c) = md5_digest msg"
proof -
  define r where "r = length msg mod 64"
  define padLen where "padLen = (if r < 56 then 56 - r else 120 - r)"
  have r: "r < 64" by (simp add: r_def)
  have bits: "md5_bits (md5_count c) = 8 * length msg" using assms(1) by (simp add: md5_absorbed_def)
  then have idx: "unat (drop_bit 3 (fst (md5_count c)) AND 0x3f) = r" unfolding r_def by (rule md5_index)
  define lb where "lb = md5_Encode [fst (md5_count c), snd (md5_count c)]"
  have lb: "lb = le_encode 8 (8 * length msg)"
  proof -
    have "unat (fst (md5_count c)) < 2 ^ 32" using unsigned_less [of "fst (md5_count c)"] by simp
    then have "8 * length msg mod 256 ^ 4 = unat (fst (md5_count c))" "8 * length msg div 256 ^ 4 = unat (snd (md5_count c))"
      unfolding bits [symmetric] md5_bits_def by simp_all
    moreover have "le_encode 8 (8 * length msg) = le_encode 4 (8 * length msg mod 256 ^ 4) @ le_encode 4 (8 * length msg div 256 ^ 4)"
      unfolding le_encode_mod le_encode_add [symmetric] by simp
    ultimately show ?thesis by (simp add: lb_def md5_Encode_def)
  qed
  have pad: "take padLen MD5_PADDING = 0x80 # replicate (pad_zeros 64 8 (length msg)) 0"
  proof -
    have "pad_zeros 64 8 (length msg) = padLen - 1" "0 < padLen" "padLen \<le> 64"
      using pad_zeros_cases [of 8 64 "length msg"] r by (auto simp: padLen_def r_def)
    then show ?thesis by (cases padLen) (simp_all add: MD5_PADDING_def)
  qed
  have padLen: "length (take padLen MD5_PADDING) \<le> 64" by (simp add: MD5_PADDING_def)
  have c1: "md5_absorbed (msg @ take padLen MD5_PADDING) (MD5Update c (take padLen MD5_PADDING))"
    using padLen assms(2) by (intro md5_update_ok [OF assms(1)]) simp_all
  have "md5_absorbed ((msg @ take padLen MD5_PADDING) @ lb) (MD5Update (MD5Update c (take padLen MD5_PADDING)) lb)"
    using padLen assms(2) by (intro md5_update_ok [OF c1]) (simp_all add: lb)
  then have "md5_state (MD5Update (MD5Update c (take padLen MD5_PADDING)) lb) =
      run_blocks MD5Transform MD5_H0 64 (hash_pad 64 (le_encode 8 (8 * length msg)) msg)"
    by (simp add: md5_absorbed_def pad lb hash_pad_def)
  then show ?thesis
    by (simp add: MD5Final_def md5_digest_def idx lb_def [symmetric] padLen_def [symmetric] Let_def)
qed

lemma md5_init_ok: "length (md5_buffer c) = 64 \<Longrightarrow> md5_absorbed [] (MD5Init c)"
  by (simp add: md5_absorbed_def MD5Init_def run_blocks_def tail_of_def MD5_H0_def md5_bits_def)

section \<open>The common interface\<close>

definition hash_digest :: "hash_type_id \<Rightarrow> bytes \<Rightarrow> bytes" where
  "hash_digest id' msg =
     (case id' of
        HASH_TYPE_MD5 \<Rightarrow> md5_digest msg
      | HASH_TYPE_SHA1 \<Rightarrow> take 20 (sha_digest SHA1_compress SHA1_H0 64 8 msg)
      | HASH_TYPE_SHA224 \<Rightarrow> take 28 (sha_digest SHA256_compress SHA224_H0 64 8 msg)
      | HASH_TYPE_SHA256 \<Rightarrow> take 32 (sha_digest SHA256_compress SHA256_H0 64 8 msg)
      | HASH_TYPE_SHA384 \<Rightarrow> take 48 (sha_digest SHA512_compress SHA384_H0 128 16 msg)
      | HASH_TYPE_SHA512 \<Rightarrow> take 64 (sha_digest SHA512_compress SHA512_H0 128 16 msg))"

text \<open>One call of the update function by a client that does not look at its status.\<close>

definition hash_feed :: "('c \<Rightarrow> bytes \<Rightarrow> (int \<times> 'c) cres) \<Rightarrow> 'c cres \<Rightarrow> bytes \<Rightarrow> 'c cres" where
  "hash_feed update p bs = cbind p (\<lambda>c. cbind (update c bs) (\<lambda>(_, c'). Ok c'))"

text \<open>What the clients rely on: a context holds the message that was fed to it, and finishing it gives its digest.\<close>

locale hash_stream =
  fixes absorbed :: "bytes \<Rightarrow> 'c \<Rightarrow> bool"
    and update :: "'c \<Rightarrow> bytes \<Rightarrow> (int \<times> 'c) cres"
    and finish :: "'c \<Rightarrow> nat \<Rightarrow> (bytes \<times> 'c) cres"
    and digest :: "bytes \<Rightarrow> bytes"
  assumes update_absorbed:
      "absorbed m c \<Longrightarrow> length d < 2 ^ 32 \<Longrightarrow> length (m @ d) < 2 ^ 60 \<Longrightarrow> \<exists>c'. update c d = Ok (0, c') \<and> absorbed (m @ d) c'"
    and finish_digest: "absorbed m c \<Longrightarrow> length m < 2 ^ 60 \<Longrightarrow> \<exists>c'. finish c n = Ok (take n (digest m), c')"
begin

lemma foldl_feed:
  "absorbed m c \<Longrightarrow> \<forall>d\<in>set ds. length d < 2 ^ 32 \<Longrightarrow> length (m @ concat ds) < 2 ^ 60 \<Longrightarrow>
    \<exists>c'. foldl (hash_feed update) (Ok c) ds = Ok c' \<and> absorbed (m @ concat ds) c'"
proof (induction ds arbitrary: m c)
  case Nil
  then show ?case by simp
next
  case (Cons d ds)
  obtain c1 where c1: "update c d = Ok (0, c1)" "absorbed (m @ d) c1"
    using update_absorbed [OF Cons.prems(1), of d] Cons.prems(2,3) by auto
  then show ?case using Cons.IH [OF c1(2)] Cons.prems(2,3) by (simp add: hash_feed_def)
qed

lemma fed_digest:
  assumes "absorbed [] c" "\<forall>d\<in>set ds. length d < 2 ^ 32" "length (concat ds) < 2 ^ 60"
  shows "\<exists>c1 c2. foldl (hash_feed update) (Ok c) ds = Ok c1 \<and> finish c1 n = Ok (take n (digest (concat ds)), c2)"
  using foldl_feed [OF assms(1,2)] finish_digest [of "concat ds"] assms(3) by fastforce

end

text \<open>Which context has absorbed what.\<close>

definition hash_absorbed :: "hash_type_id \<Rightarrow> bytes \<Rightarrow> hash_context_t \<Rightarrow> bool" where
  "hash_absorbed id' msg ctx =
     (case (id', ctx) of
        (HASH_TYPE_MD5, CTX_MD5 c) \<Rightarrow> md5_absorbed msg c
      | (HASH_TYPE_SHA1, CTX_SHA1 c) \<Rightarrow> sha_absorbed 64 SHA1_compress SHA1_H0 msg c
      | (HASH_TYPE_SHA224, CTX_SHA224 c) \<Rightarrow> sha_absorbed 64 SHA256_compress SHA224_H0 msg c
      | (HASH_TYPE_SHA256, CTX_SHA256 c) \<Rightarrow> sha_absorbed 64 SHA256_compress SHA256_H0 msg c
      | (HASH_TYPE_SHA384, CTX_SHA384 c) \<Rightarrow> sha_absorbed 128 SHA512_compress SHA384_H0 msg c
      | (HASH_TYPE_SHA512, CTX_SHA512 c) \<Rightarrow> sha_absorbed 128 SHA512_compress SHA512_H0 msg c
      | _ \<Rightarrow> False)"

lemmas hash_functions =
  SHA1Input_def SHA224Input_def SHA256Input_def SHA384Input_def SHA512Input_def SHA1Result_def SHA224Result_def SHA256Result_def
  SHA384Result_def SHA512Result_def SHA224_256ResultN_def SHA384_512ResultN_def

lemmas block_sizes = SHA1_Message_Block_Size_def SHA256_Message_Block_Size_def SHA512_Message_Block_Size_def

lemma hash_update_eqs:
  assumes "length d < 2 ^ 32"
  shows "hash_context_update (CTX_MD5 m) d = Ok (0, CTX_MD5 (MD5Update m d))"
    "hash_context_update (CTX_SHA1 c) d = sha_update CTX_SHA1 (sha_input 64 SHA1_compress d c)"
    "hash_context_update (CTX_SHA224 c) d = sha_update CTX_SHA224 (sha_input 64 SHA256_compress d c)"
    "hash_context_update (CTX_SHA256 c) d = sha_update CTX_SHA256 (sha_input 64 SHA256_compress d c)"
    "hash_context_update (CTX_SHA384 l) d = sha_update CTX_SHA384 (sha_input 128 SHA512_compress d l)"
    "hash_context_update (CTX_SHA512 l) d = sha_update CTX_SHA512 (sha_input 128 SHA512_compress d l)"
  using assms by (simp_all add: hash_context_update_def hash_functions block_sizes)

lemma hash_finish_eqs:
  "hash_context_finish (CTX_MD5 m) n = Ok (take n (fst (MD5Final m)), CTX_MD5 (snd (MD5Final m)))"
  "hash_context_finish (CTX_SHA1 c) n = sha_finish n CTX_SHA1 (sha_result 64 8 SHA1_compress 20 c)"
  "hash_context_finish (CTX_SHA224 c) n = sha_finish n CTX_SHA224 (sha_result 64 8 SHA256_compress 28 c)"
  "hash_context_finish (CTX_SHA256 c) n = sha_finish n CTX_SHA256 (sha_result 64 8 SHA256_compress 32 c)"
  "hash_context_finish (CTX_SHA384 l) n = sha_finish n CTX_SHA384 (sha_result 128 16 SHA512_compress 48 l)"
  "hash_context_finish (CTX_SHA512 l) n = sha_finish n CTX_SHA512 (sha_result 128 16 SHA512_compress 64 l)"
  by (simp_all add: hash_context_finish_def hash_functions block_sizes case_prod_beta)

lemma sha_update_lift: "\<exists>c'. r = Ok (shaSuccess, c') \<and> P c' \<Longrightarrow> \<exists>c'. sha_update W r = Ok (0, W c') \<and> P c'"
  by (auto simp: sha_update_def sha_status_def)

lemma sha_finish_lift: "\<exists>c'. r = Ok (shaSuccess, x, c') \<Longrightarrow> \<exists>c'. sha_finish n W r = Ok (take n x, c')"
  by (auto simp: sha_finish_def)

lemma hash_absorbed_cases:
  assumes "hash_absorbed id' m ctx"
  obtains (MD5) c where "id' = HASH_TYPE_MD5" "ctx = CTX_MD5 c" "md5_absorbed m c"
  | (SHA1) c where "id' = HASH_TYPE_SHA1" "ctx = CTX_SHA1 c" "sha_absorbed 64 SHA1_compress SHA1_H0 m c"
  | (SHA224) c where "id' = HASH_TYPE_SHA224" "ctx = CTX_SHA224 c" "sha_absorbed 64 SHA256_compress SHA224_H0 m c"
  | (SHA256) c where "id' = HASH_TYPE_SHA256" "ctx = CTX_SHA256 c" "sha_absorbed 64 SHA256_compress SHA256_H0 m c"
  | (SHA384) c where "id' = HASH_TYPE_SHA384" "ctx = CTX_SHA384 c" "sha_absorbed 128 SHA512_compress SHA384_H0 m c"
  | (SHA512) c where "id' = HASH_TYPE_SHA512" "ctx = CTX_SHA512 c" "sha_absorbed 128 SHA512_compress SHA512_H0 m c"
  using assms by (simp add: hash_absorbed_def split: hash_type_id.splits hash_context_t.splits)

lemma hash_update_ok:
  assumes "hash_absorbed id' m c" "length d < 2 ^ 32" "length (m @ d) < 2 ^ 60"
  shows "\<exists>c'. hash_context_update c d = Ok (0, c') \<and> hash_absorbed id' (m @ d) c'"
proof -
  have small: "8 * length (m @ d) < 2 ^ (2 * LENGTH(32))" "8 * length (m @ d) < 2 ^ (2 * LENGTH(64))" "8 * length (m @ d) < 2 ^ 64"
    using assms(3) by simp_all
  note up = sha1.input_ok [of _ m _ d, OF _ small(1), unfolded block_sizes] sha256.input_ok [of _ m _ d, OF _ small(1), unfolded block_sizes]
    sha512.input_ok [of _ m _ d, OF _ small(2), unfolded block_sizes]
  from assms(1) show ?thesis
  proof (cases rule: hash_absorbed_cases)
    case (MD5 c)
    then show ?thesis using md5_update_ok [OF MD5(3) assms(2) small(3)] by (simp add: hash_update_eqs(1) [OF assms(2)] hash_absorbed_def)
  next
    case (SHA1 c)
    then show ?thesis
      using sha_update_lift [OF up(1) [OF SHA1(3)], of CTX_SHA1] by (auto simp: hash_update_eqs [OF assms(2)] hash_absorbed_def)
  next
    case (SHA224 c)
    then show ?thesis
      using sha_update_lift [OF up(2) [OF SHA224(3)], of CTX_SHA224] by (auto simp: hash_update_eqs [OF assms(2)] hash_absorbed_def)
  next
    case (SHA256 c)
    then show ?thesis
      using sha_update_lift [OF up(2) [OF SHA256(3)], of CTX_SHA256] by (auto simp: hash_update_eqs [OF assms(2)] hash_absorbed_def)
  next
    case (SHA384 c)
    then show ?thesis
      using sha_update_lift [OF up(3) [OF SHA384(3)], of CTX_SHA384] by (auto simp: hash_update_eqs [OF assms(2)] hash_absorbed_def)
  next
    case (SHA512 c)
    then show ?thesis
      using sha_update_lift [OF up(3) [OF SHA512(3)], of CTX_SHA512] by (auto simp: hash_update_eqs [OF assms(2)] hash_absorbed_def)
  qed
qed

lemma hash_finish_ok:
  assumes "hash_absorbed id' m c" "length m < 2 ^ 60"
  shows "\<exists>c'. hash_context_finish c n = Ok (take n (hash_digest id' m), c')"
proof -
  note res = sha1.result_ok [unfolded block_sizes] sha256.result_ok [unfolded block_sizes] sha512.result_ok [unfolded block_sizes]
  from assms(1) show ?thesis
  proof (cases rule: hash_absorbed_cases)
    case (MD5 c)
    then show ?thesis using md5_final_ok [OF MD5(3)] assms(2) by (simp add: hash_finish_eqs hash_digest_def)
  next
    case (SHA1 c)
    then show ?thesis using sha_finish_lift [OF res(1) [OF SHA1(3)]] by (simp add: hash_finish_eqs hash_digest_def)
  next
    case (SHA224 c)
    then show ?thesis using sha_finish_lift [OF res(2) [OF SHA224(3)]] by (simp add: hash_finish_eqs hash_digest_def)
  next
    case (SHA256 c)
    then show ?thesis using sha_finish_lift [OF res(2) [OF SHA256(3)]] by (simp add: hash_finish_eqs hash_digest_def)
  next
    case (SHA384 c)
    then show ?thesis using sha_finish_lift [OF res(3) [OF SHA384(3)]] by (simp add: hash_finish_eqs hash_digest_def)
  next
    case (SHA512 c)
    then show ?thesis using sha_finish_lift [OF res(3) [OF SHA512(3)]] by (simp add: hash_finish_eqs hash_digest_def)
  qed
qed

interpretation hash: hash_stream "hash_absorbed id'" hash_context_update hash_context_finish "hash_digest id'" for id'
  by unfold_locales (simp_all add: hash_update_ok hash_finish_ok)

lemma hash_init_ok: "hash_absorbed id' [] (hash_context_init id')"
  using sha1.reset_ok [of "zero_sha_context 5 64" SHA1_H0] sha256.reset_ok [of "zero_sha_context 8 64"]
    sha512.reset_ok [of "zero_sha_context 8 128"]
  by (cases id')
     (simp_all add: hash_absorbed_def hash_context_init_def md5_init_ok zero_sha_context_def block_sizes SHA1Reset_def SHA224Reset_def
       SHA256Reset_def SHA384Reset_def SHA512Reset_def)

text \<open>C5: every hash function computes its specification however the message is cut: after feeding buffers of less than 4 GiB, in
  total less than \<open>2 ^ 60\<close> bytes, the digest is that of their concatenation, padded with a one bit, zeros and its length and
  compressed block by block.\<close>

theorem hash_context_digest:
  assumes "\<forall>d\<in>set ds. length d < 2 ^ 32" "length (concat ds) < 2 ^ 60"
  shows "\<exists>c1 c2. foldl (hash_feed hash_context_update) (Ok (hash_context_init id')) ds = Ok c1 \<and>
    hash_context_finish c1 n = Ok (take n (hash_digest id' (concat ds)), c2)"
  by (rule hash.fed_digest [OF hash_init_ok assms])

theorem hash_context_digest_witness:
  "\<exists>c1 c2. foldl (hash_feed hash_context_update) (Ok (hash_context_init HASH_TYPE_SHA1)) [[97], [98, 99]] = Ok c1 \<and>
    hash_context_finish c1 20 = Ok (take 20 (hash_digest HASH_TYPE_SHA1 [97, 98, 99]), c2)"
  using hash_context_digest [of "[[97], [98, 99]]" HASH_TYPE_SHA1 20] by simp

end
