(* ===== verification/Bootimg.thy ===== *)
theory Bootimg
  imports Files Strings Structure Hash
begin

text \<open>
  The android boot.img editor (android/android\_bootimg.c): detection by the SHA-1 over the files of the image, the listings,
  taking an image apart and putting one together. The header is a packed structure that is written through offsets, so it is
  the memory it lies in. The JSON library, the files that the names stand for, and the memory that \<open>dd\<close> allocates are
  parameters; what goes to the error output is left out.
\<close>

section \<open>The header\<close>

definition ANDR_BOOT_MAGIC :: bytes where "ANDR_BOOT_MAGIC = bytes_of_string ''ANDROID!''"
definition ANDR_BOOT_NAME_SIZE :: nat where "ANDR_BOOT_NAME_SIZE = 16"
definition ANDR_BOOT_ARGS_SIZE :: nat where "ANDR_BOOT_ARGS_SIZE = 512"
definition ANDR_BOOT_EXTRA_ARGS_SIZE :: nat where "ANDR_BOOT_EXTRA_ARGS_SIZE = 1024"

text \<open>The members of \<open>struct andr_img_hdr\<close> with their sizes; it is packed.\<close>

definition andr_img_hdr :: "(string \<times> nat) list" where
  "andr_img_hdr =
     [(''magic'', 8), (''kernel_size'', 4), (''kernel_addr'', 4), (''ramdisk_size'', 4), (''ramdisk_addr'', 4),
      (''second_size'', 4), (''second_addr'', 4), (''tags_addr'', 4), (''page_size'', 4), (''header_version'', 4),
      (''os_version'', 4), (''name'', ANDR_BOOT_NAME_SIZE), (''cmdline'', ANDR_BOOT_ARGS_SIZE), (''id'', 32),
      (''extra_cmdline'', ANDR_BOOT_EXTRA_ARGS_SIZE), (''recovery_dtbo_size'', 4), (''recovery_dtbo_offset'', 8),
      (''header_size'', 4), (''dtb_size'', 4), (''dtb_addr'', 8)]"

fun member_at :: "nat \<Rightarrow> (string \<times> nat) list \<Rightarrow> string \<Rightarrow> nat \<times> nat" where
  "member_at off [] name = (off, 0)"
| "member_at off ((n, sz) # ms) name = (if n = name then (off, sz) else member_at (off + sz) ms name)"

definition hdr_off :: "string \<Rightarrow> nat" where "hdr_off name = fst (member_at 0 andr_img_hdr name)"
definition hdr_sz :: "string \<Rightarrow> nat" where "hdr_sz name = snd (member_at 0 andr_img_hdr name)"

definition sizeof_hdr :: nat where "sizeof_hdr = sum_list (map snd andr_img_hdr)"

definition hdr_u32 :: "string \<Rightarrow> bytes \<Rightarrow> u32" where "hdr_u32 name h = get_le (hdr_off name) 4 h"
definition hdr_u64 :: "string \<Rightarrow> bytes \<Rightarrow> u64" where "hdr_u64 name h = get_le (hdr_off name) 8 h"

text \<open>Bytes stored at an offset.\<close>

definition store_at :: "nat \<Rightarrow> bytes \<Rightarrow> bytes \<Rightarrow> bytes" where
  "store_at off bs h = take off h @ bs @ drop (off + length bs) h"

definition andr_item :: "string \<Rightarrow> item_print \<Rightarrow> u32 \<Rightarrow> 'j structure_item" where
  "andr_item name pr flags =
     \<lparr>item_name = name, item_offset = hdr_off name, item_size = hdr_sz name, item_print = pr, item_save_json = None,
      item_load_json = None, item_flags = flags\<rparr>"

definition structure_andr_hdr :: "'j structure_item list" where
  "structure_andr_hdr =
     [andr_item ''kernel_addr'' Print_xunsigned 0, andr_item ''kernel_size'' Print_xunsigned STRUCTURE_FLAG_NOT_SAVE,
      andr_item ''ramdisk_addr'' Print_xunsigned 0, andr_item ''ramdisk_size'' Print_xunsigned STRUCTURE_FLAG_NOT_SAVE,
      andr_item ''second_addr'' Print_xunsigned 0, andr_item ''second_size'' Print_xunsigned STRUCTURE_FLAG_NOT_SAVE,
      andr_item ''dtb_addr'' Print_xunsigned 0, andr_item ''dtb_size'' Print_xunsigned STRUCTURE_FLAG_NOT_SAVE,
      andr_item ''recovery_dtbo_offset'' Print_xunsigned 0,
      andr_item ''recovery_dtbo_size'' Print_xunsigned STRUCTURE_FLAG_NOT_SAVE,
      andr_item ''tags_addr'' Print_xunsigned 0, andr_item ''page_size'' Print_unsigned 0,
      andr_item ''header_version'' Print_xunsigned 0, andr_item ''header_size'' Print_xunsigned 0,
      andr_item ''os_version'' Print_xunsigned 0, andr_item ''name'' Print_string 0, andr_item ''cmdline'' Print_string 0,
      andr_item ''extra_cmdline'' Print_string 0, andr_item ''id'' Print_x8_array STRUCTURE_FLAG_NOT_SAVE]"

definition fix_andr_hdr_structure :: "u32 \<Rightarrow> 'j structure_item list \<Rightarrow> 'j structure_item list" where
  "fix_andr_hdr_structure hdr_version items =
     (let drop_from = (\<lambda>drop_offset. map (\<lambda>st. if item_offset st < drop_offset then st
                 else st\<lparr>item_flags := item_flags st OR STRUCTURE_FLAG_NOT_SAVE\<rparr>) items)
      in if hdr_version = 0 then drop_from (hdr_off ''recovery_dtbo_size'')
         else if hdr_version = 1 then drop_from (hdr_off ''dtb_size'')
         else items)"

record abootimg_editor_private_data =
  boot_head :: bytes
  boot_total_size :: nat

text \<open>\<open>aligned_length\<close> of two 32 bit numbers.\<close>

definition aligned_length32 :: "u32 \<Rightarrow> u32 \<Rightarrow> u32" where
  "aligned_length32 len align = (len + align - 1) div align * align"

definition good_page_size :: "u32 \<Rightarrow> bool" where
  "good_page_size n \<longleftrightarrow> n \<in> {2048, 4096, 8192, 16384}"

section \<open>Detection\<close>

text \<open>The scanner that \<open>dd\<close> calls; the context is that of the calls so far, whose status is not looked at.\<close>

definition abootimg_update_sha1sum :: "hash_context_t cres bufscan" where
  "abootimg_update_sha1sum buf p = (buf, cbind p (\<lambda>ctx. cbind (hash_context_update ctx buf) (\<lambda>(_, ctx'). Ok ctx')))"

fun abootimg_hash_files ::
    "(nat \<Rightarrow> u8) option \<Rightarrow> int \<Rightarrow> u32 \<Rightarrow> u32 list \<Rightarrow> u32 \<Rightarrow> hash_context_t cres \<Rightarrow> sys \<Rightarrow> u32 \<times> hash_context_t cres \<times> sys" where
  "abootimg_hash_files garbage fd page [] offset hash s = (offset, hash, s)"
| "abootimg_hash_files garbage fd page (sz # sizes) offset hash s =
     (let (hash1, s1) =
            (if sz > 0
             then snd (dd garbage fd (-1) (int (unat offset)) 0 (unat sz) (Some abootimg_update_sha1sum) hash s)
             else (hash, s));
          hash2 = snd (abootimg_update_sha1sum (le32 sz) hash1)
      in abootimg_hash_files garbage fd page sizes (offset + aligned_length32 sz page) hash2 s1)"

definition abootimg_detect ::
    "(nat \<Rightarrow> u8) option \<Rightarrow> abootimg_editor_private_data \<Rightarrow> int \<Rightarrow> sys
      \<Rightarrow> (int \<times> abootimg_editor_private_data \<times> sys) cres" where
  "abootimg_detect garbage p fd s =
     (let (ret, data, s1) = sys_read fd sizeof_hdr s;
          h = data @ drop (length data) (boot_head p); p1 = p\<lparr>boot_head := h\<rparr>;
          version = hdr_u32 ''header_version'' h; page = hdr_u32 ''page_size'' h
      in if ret < 0 then Ok (ret, p, s1)
         else if take 8 h \<noteq> ANDR_BOOT_MAGIC then Ok (-1, p1, s1)
         else if version > 2 then Ok (-1, p1, s1)
         else if \<not> good_page_size page then Ok (-1, p1, s1)
         else
           let sizes = [hdr_u32 ''kernel_size'' h, hdr_u32 ''ramdisk_size'' h, hdr_u32 ''second_size'' h,
                        hdr_u32 ''recovery_dtbo_size'' h, hdr_u32 ''dtb_size'' h];
               (offset, hash, s2) =
                 abootimg_hash_files garbage fd page (take (3 + unat version) sizes) page
                   (Ok (hash_context_init HASH_TYPE_SHA1)) s1
           in cbind hash
             (\<lambda>ctx. cbind (hash_context_finish ctx 128)
               (\<lambda>(sha1sum, _).
                 if take (length sha1sum) (drop (hdr_off ''id'') h) \<noteq> sha1sum then Ok (-1, p1, s2)
                 else Ok (0, p1\<lparr>boot_total_size := unat offset\<rparr>, s2))))"

section \<open>Listings\<close>

text \<open>The pieces that are appended one after the other to a buffer of \<open>bufsz\<close> bytes.\<close>

fun append_pieces :: "nat \<Rightarrow> string list \<Rightarrow> string cres" where
  "append_pieces bufsz [] = Ok []"
| "append_pieces bufsz (txt # txts) =
     cbind (snprintf_continue bufsz txt)
       (\<lambda>(s, bufsz', _). cbind (append_pieces bufsz' txts) (\<lambda>rest. Ok (s @ rest)))"

definition fmt_08x :: "u32 \<Rightarrow> string" where
  "fmt_08x w = pad_zero 8 (hex_string (unat w))"

definition abootimg_summary :: "abootimg_editor_private_data \<Rightarrow> nat \<Rightarrow> string cres" where
  "abootimg_summary p bufsz =
     append_pieces bufsz (''ID: '' # map (\<lambda>i. fmt_08x (get_le (hdr_off ''id'' + 4 * i) 4 (boot_head p))) [0..<8])"

definition abootimg_total_size :: "abootimg_editor_private_data \<Rightarrow> int" where
  "abootimg_total_size p = int (boot_total_size p)"

text \<open>\<open>%s\<close> of a member: it is looked at up to the first zero, also behind the member.\<close>

definition hdr_text :: "string \<Rightarrow> bytes \<Rightarrow> string cres" where
  "hdr_text name h =
     (if (0 :: u8) \<in> set (drop (hdr_off name) h) then Ok (string_of_bytes (drop (hdr_off name) h)) else Oob)"

definition abootimg_list :: "structure_endian \<Rightarrow> abootimg_editor_private_data \<Rightarrow> sys \<Rightarrow> (int \<times> string) cres" where
  "abootimg_list fe p s =
     (let h = boot_head p;
          x = (\<lambda>n. ''0x'' @ fmt_08x (hdr_u32 n h));
          x64 = (\<lambda>n. ''0x'' @ pad_zero 8 (hex_string (unat (hdr_u64 n h))));
          version = hdr_u32 ''header_version'' h
      in cbind (hdr_text ''name'' h) (\<lambda>name. cbind (hdr_text ''cmdline'' h) (\<lambda>cmdline.
         cbind (hdr_text ''extra_cmdline'' h) (\<lambda>extra_cmdline.
           Ok (0,
             (if get_verbose_level s > 1
              then structure_print fe ''%-30s'' h (structure_andr_hdr :: unit structure_item list) @ [newline] else [])
             @ ''kernel:           '' @ x ''kernel_addr'' @ '' '' @ x ''kernel_size'' @ [newline]
             @ ''ramdisk:          '' @ x ''ramdisk_addr'' @ '' '' @ x ''ramdisk_size'' @ [newline]
             @ ''second:           '' @ x ''second_addr'' @ '' '' @ x ''second_size'' @ [newline]
             @ ''tags:             '' @ x ''tags_addr'' @ [newline]
             @ ''pagesize:         '' @ fmt_d (hdr_u32 ''page_size'' h) @ [newline]
             @ ''header_version:   '' @ fmt_d version @ [newline]
             @ ''os_version:       '' @ x ''os_version'' @ [newline]
             @ ''name:             '' @ name @ [newline]
             @ ''cmdline:          '' @ cmdline @ [newline]
             @ ''extra_cmdline:    '' @ extra_cmdline @ [newline]
             @ ''id:               ''
             @ concat (map (\<lambda>b. fmt_02x (unat b)) (take 32 (drop (hdr_off ''id'') h))) @ [newline]
             @ (if version > 0
                then ''recovery_dtbo:    '' @ x64 ''recovery_dtbo_offset'' @ '' '' @ x ''recovery_dtbo_size'' @ [newline]
                  @ ''header_size:      '' @ fmt_d (hdr_u32 ''header_size'' h) @ [newline] else [])
             @ (if version > 1
                then ''dtb:              '' @ x64 ''dtb_addr'' @ '' '' @ x ''dtb_size'' @ [newline] else []))))))"

section \<open>Taking an image apart\<close>

definition ABOOTIMG_KERNEL :: string where "ABOOTIMG_KERNEL = ''kernel.bin''"
definition ABOOTIMG_RAMDISK :: string where "ABOOTIMG_RAMDISK = ''ramdisk.bin''"
definition ABOOTIMG_SECOND :: string where "ABOOTIMG_SECOND = ''second.bin''"
definition ABOOTIMG_DTB :: string where "ABOOTIMG_DTB = ''dtb.bin''"
definition ABOOTIMG_RECOVERY_DTBO :: string where "ABOOTIMG_RECOVERY_DTBO = ''recovery_dtbo.bin''"

record abootimg_file =
  min_version :: u32
  bf_name :: string
  hdr_size_offset :: nat

text \<open>The table, in front of the entry without a name.\<close>

definition abootimg_files :: "abootimg_file list" where
  "abootimg_files =
     [\<lparr>min_version = 0, bf_name = ABOOTIMG_KERNEL, hdr_size_offset = hdr_off ''kernel_size''\<rparr>,
      \<lparr>min_version = 0, bf_name = ABOOTIMG_RAMDISK, hdr_size_offset = hdr_off ''ramdisk_size''\<rparr>,
      \<lparr>min_version = 0, bf_name = ABOOTIMG_SECOND, hdr_size_offset = hdr_off ''second_size''\<rparr>,
      \<lparr>min_version = 1, bf_name = ABOOTIMG_RECOVERY_DTBO, hdr_size_offset = hdr_off ''recovery_dtbo_size''\<rparr>,
      \<lparr>min_version = 2, bf_name = ABOOTIMG_DTB, hdr_size_offset = hdr_off ''dtb_size''\<rparr>]"

text \<open>\<open>inode_of\<close> is the inode that a path names, which exists or can be created.\<close>

definition abootimg_unpack_save_file ::
    "(nat \<Rightarrow> u8) option \<Rightarrow> (string \<Rightarrow> nat option) \<Rightarrow> int \<Rightarrow> string \<Rightarrow> string \<Rightarrow> u64 \<Rightarrow> u32 \<Rightarrow> sys \<Rightarrow> int \<times> sys" where
  "abootimg_unpack_save_file garbage inode_of fdimg outdir name img_offset sz s =
     (if sz \<noteq> 0 then
        let (fd_child, s1) = fileopen_trunc (inode_of (path_in outdir name)) s
        in if fd_child < 0 then (fd_child, s1)
           else case dd garbage fdimg fd_child (sint img_offset) 0 (unat sz) None () s1 of
               (n, _, s2) \<Rightarrow>
                 let s3 = sys_close fd_child s2 in if n \<noteq> unat sz then (-1, s3) else (0, s3)
      else (0, s))"

text \<open>The status and the names of the files that were saved.\<close>

fun abootimg_unpack_files ::
    "(nat \<Rightarrow> u8) option \<Rightarrow> (string \<Rightarrow> nat option) \<Rightarrow> int \<Rightarrow> string \<Rightarrow> bytes \<Rightarrow> abootimg_file list \<Rightarrow> u64 \<Rightarrow> string list \<Rightarrow> sys
      \<Rightarrow> int \<times> string list \<times> sys" where
  "abootimg_unpack_files garbage inode_of fd outdir h [] offset filelists s = (0, filelists, s)"
| "abootimg_unpack_files garbage inode_of fd outdir h (f # fs) offset filelists s =
     (let filesz = get_le (hdr_size_offset f) 4 h
      in if min_version f > hdr_u32 ''header_version'' h then (0, filelists, s)
         else if filesz = 0 then abootimg_unpack_files garbage inode_of fd outdir h fs offset filelists s
         else case abootimg_unpack_save_file garbage inode_of fd outdir (bf_name f) offset filesz s of
             (ret, s1) \<Rightarrow>
               if ret < 0 then (ret, filelists, s1)
               else abootimg_unpack_files garbage inode_of fd outdir h fs
                      (offset + ucast (aligned_length32 filesz (hdr_u32 ''page_size'' h))) (filelists @ [bf_name f]) s1)"

text \<open>The status, and the object that is saved under a name.\<close>

definition abootimg_unpack ::
    "'j cjson \<Rightarrow> structure_endian \<Rightarrow> (nat \<Rightarrow> u8) option \<Rightarrow> (string \<Rightarrow> nat option) \<Rightarrow> abootimg_editor_private_data \<Rightarrow> int
      \<Rightarrow> string \<Rightarrow> sys \<Rightarrow> int \<times> ('j \<times> string) option \<times> sys" where
  "abootimg_unpack J fe garbage inode_of p fd outdir s =
     (let h = boot_head p
      in case cJSON_CreateObject J of
           None \<Rightarrow> (-1, None, s)
         | Some root \<Rightarrow>
             (case structure_save_json J fe root h (fix_andr_hdr_structure (hdr_u32 ''header_version'' h) structure_andr_hdr) of
                (ret, root1) \<Rightarrow>
                  if ret < 0 then (-1, None, s)
                  else case abootimg_unpack_files garbage inode_of fd outdir h abootimg_files
                              (ucast (hdr_u32 ''page_size'' h)) [] s of
                      (ret, filelists, s1) \<Rightarrow>
                        if ret < 0 then (ret, None, s1)
                        else case cJSON_AddStringsToObject J root1 ''files'' filelists of
                            None \<Rightarrow> (-1, None, s1)
                          | Some root2 \<Rightarrow> (0, Some (root2, path_in outdir ''abootimg.json''), s1)))"

section \<open>Putting an image together\<close>

text \<open>Comparing with an element that is no string reads through a null pointer.\<close>

fun json_string_array_search :: "'j cjson \<Rightarrow> 'j list \<Rightarrow> string \<Rightarrow> int cres" where
  "json_string_array_search J [] s = Ok (-1)"
| "json_string_array_search J (json # rest) s =
     (case cJSON_GetStringValue J json of
        None \<Rightarrow> Oob
      | Some v \<Rightarrow> if s = v then Ok 0 else json_string_array_search J rest s)"

text \<open>
  The loop over the table: the header, the offset behind the files so far, the padding behind the last one, and the hash. A
  file that cannot be opened ends it.
\<close>

fun abootimg_pack_files ::
    "'j cjson \<Rightarrow> (nat \<Rightarrow> u8) option \<Rightarrow> (string \<Rightarrow> nat option) \<Rightarrow> 'j list \<Rightarrow> string \<Rightarrow> int \<Rightarrow> abootimg_file list \<Rightarrow> bytes \<Rightarrow> nat \<Rightarrow> nat
      \<Rightarrow> hash_context_t cres \<Rightarrow> sys \<Rightarrow> (int \<times> bytes \<times> nat \<times> nat \<times> hash_context_t cres \<times> sys) cres" where
  "abootimg_pack_files J garbage inode_of json_files dir fd_outimg [] h offset padsz hash s =
     Ok (0, h, offset, padsz, hash, s)"
| "abootimg_pack_files J garbage inode_of json_files dir fd_outimg (afile # afiles) h offset padsz hash s =
     (if min_version afile > hdr_u32 ''header_version'' h then Ok (0, h, offset, padsz, hash, s)
      else cbind (json_string_array_search J json_files (bf_name afile))
        (\<lambda>found.
           if found < 0 then
             abootimg_pack_files J garbage inode_of json_files dir fd_outimg afiles
               (store_at (hdr_size_offset afile) (le32 0) h) offset padsz (snd (abootimg_update_sha1sum (le32 0) hash)) s
           else
             let (fd, s1) = fileopen (inode_of (path_in dir (bf_name afile))) s
             in if fd < 0 then Ok (fd, h, offset, padsz, hash, s1)
                else
                  let (n, s2) = filelength fd s1; w = (word_of_int n :: u32); len = sint w
                  in if len < 0 then Ok (len, h, offset, padsz, hash, s2)
                     else case dd garbage fd fd_outimg 0 (int offset) (nat len) (Some abootimg_update_sha1sum) hash s2 of
                         (_, hash1, s3) \<Rightarrow>
                           let tmp = offset + nat len;
                               offset' = offset + unat (aligned_length32 w (hdr_u32 ''page_size'' h))
                           in abootimg_pack_files J garbage inode_of json_files dir fd_outimg afiles
                                (store_at (hdr_size_offset afile) (le32 w) h) offset' (offset' - tmp)
                                (snd (abootimg_update_sha1sum (le32 w) hash1)) (sys_close fd s3)))"

definition abootimg_do_pack ::
    "'j cjson \<Rightarrow> (nat \<Rightarrow> u8) option \<Rightarrow> (string \<Rightarrow> nat option) \<Rightarrow> bytes \<Rightarrow> 'j list \<Rightarrow> string \<Rightarrow> int \<Rightarrow> sys
      \<Rightarrow> (int \<times> bytes \<times> sys) cres" where
  "abootimg_do_pack J garbage inode_of h json_files dir fd_outimg s =
     cbind (abootimg_pack_files J garbage inode_of json_files dir fd_outimg abootimg_files h
              (unat (hdr_u32 ''page_size'' h)) 0 (Ok (hash_context_init HASH_TYPE_SHA1)) s)
       (\<lambda>(ret, h1, offset, padsz, hash, s1).
          if ret < 0 then Ok (ret, h1, s1)
          else
            let s2 = (if padsz \<noteq> 0
                      then snd (sys_write fd_outimg [0] (snd (lseek_set fd_outimg (int offset - 1) s1))) else s1)
            in cbind hash
              (\<lambda>ctx. cbind (hash_context_finish ctx 128)
                (\<lambda>(sha1sum, _).
                  let h2 = store_at 0 ANDR_BOOT_MAGIC (store_at (hdr_off ''id'') sha1sum h1);
                      s3 = snd (lseek_set fd_outimg 0 s2);
                      s4 = snd (sys_write fd_outimg h2 s3)
                  in Ok (0, h2, s4))))"

definition andr_hdr_erase_from :: "bytes \<Rightarrow> nat \<Rightarrow> bytes" where
  "andr_hdr_erase_from h offset =
     (if offset < sizeof_hdr then take offset h @ replicate (sizeof_hdr - offset) 0 else h)"

text \<open>\<open>root\<close> is what \<open>json_from_file\<close> returned.\<close>

definition abootimg_pack ::
    "'j cjson \<Rightarrow> structure_endian \<Rightarrow> (nat \<Rightarrow> u8) option \<Rightarrow> (string \<Rightarrow> nat option) \<Rightarrow> 'j option \<Rightarrow> abootimg_editor_private_data
      \<Rightarrow> string \<Rightarrow> int \<Rightarrow> sys \<Rightarrow> (int \<times> abootimg_editor_private_data \<times> sys) cres" where
  "abootimg_pack J fe garbage inode_of json p dir fd_outimg s =
     (case json of
        None \<Rightarrow> Ok (-1, p, s)
      | Some root \<Rightarrow>
          (case cJSON_GetObjectItem J root ''files'' of
             None \<Rightarrow> Ok (-1, p, s)
           | Some json_files \<Rightarrow>
               if \<not> cJSON_IsArray J json_files then Ok (-1, p, s)
               else cbind (structure_load_json J fe root (boot_head p)
                             (fix_andr_hdr_structure (hdr_u32 ''header_version'' (boot_head p)) structure_andr_hdr))
                 (\<lambda>(ret, h).
                    let p1 = p\<lparr>boot_head := h\<rparr>; version = hdr_u32 ''header_version'' h
                    in if ret < 0 then Ok (ret, p1, s)
                       else if \<not> good_page_size (hdr_u32 ''page_size'' h) then Ok (-1, p1, s)
                       else if version > 2 then Ok (-1, p1, s)
                       else
                         let h1 = (if version = 0 then andr_hdr_erase_from h (hdr_off ''recovery_dtbo_size'')
                                   else if version = 1 then andr_hdr_erase_from h (hdr_off ''dtb_size'')
                                   else h);
                             p2 = p\<lparr>boot_head := h1\<rparr>; items = cJSON_ArrayItems J json_files
                         in cbind (json_string_array_search J items ABOOTIMG_RECOVERY_DTBO)
                           (\<lambda>dtbo. cbind (if dtbo = 0 then Ok (-1) else json_string_array_search J items ABOOTIMG_DTB)
                             (\<lambda>dtb.
                                if dtbo = 0 \<and> hdr_u32 ''header_version'' h1 < 1 then Ok (-1, p2, s)
                                else if dtbo \<noteq> 0 \<and> dtb = 0 \<and> hdr_u32 ''header_version'' h1 < 2 then Ok (-1, p2, s)
                                else cbind (abootimg_do_pack J garbage inode_of h1 items dir fd_outimg s)
                                  (\<lambda>(ret, h2, s'). Ok (ret, p\<lparr>boot_head := h2\<rparr>, s'))))))) "

end
