(* ===== verification/TransferLaws.thy ===== *)
theory TransferLaws
  imports FileLaws
begin

text \<open>
  What the packers and unpackers share: a transfer whose scanner looks at every byte of the source while the bytes are
  written to a target or nowhere, and the files that are opened and closed around it.
\<close>

section \<open>Transfers with a scanner\<close>

definition put_to :: "nat option \<Rightarrow> bytes \<Rightarrow> sys \<Rightarrow> sys" where
  "put_to tgt bs s = (case tgt of None \<Rightarrow> s | Some e \<Rightarrow> put e bs s)"

lemma put_to_simps [simp]:
  "put_to None bs s = s" "put_to (Some e) bs s = put e bs s"
  by (simp_all add: put_to_def)

text \<open>
  \<open>I m p\<close> tells that the state \<open>p\<close> of the scanner has seen the bytes \<open>m\<close>. The source is another file than the target, and
  has all the bytes.
\<close>

definition feeds :: "(bytes \<Rightarrow> 'p \<Rightarrow> bool) \<Rightarrow> (bytes \<Rightarrow> 'p \<Rightarrow> 'p) \<Rightarrow> nat \<Rightarrow> bool" where
  "feeds I f L \<longleftrightarrow> (\<forall>m d p. I m p \<longrightarrow> length d \<le> dd_max_bufsz \<longrightarrow> length (m @ d) \<le> L \<longrightarrow> I (m @ d) (f d p))"

lemma dd_loop_feeds:
  assumes step: "feeds I f L"
    and src: "0 \<le> fdsrc"
    and tgt: "(case tgt of None \<Rightarrow> fddst < 0 | Some e \<Rightarrow> 0 \<le> fddst)"
  shows "sys_ok s \<Longrightarrow> ofd_of s fdsrc = Some d \<Longrightarrow> dd_max_bufsz \<le> max_io s \<Longrightarrow> sz \<le> length (remaining s d) \<Longrightarrow>
    (\<forall>e. tgt = Some e \<longrightarrow> ofd_of s fddst = Some e \<and> inode (open_files s ! d) \<noteq> inode (open_files s ! e)) \<Longrightarrow>
    I m p \<Longrightarrow> length m + sz \<le> L \<Longrightarrow>
    \<exists>p'. dd_loop fdsrc fddst sz (Some (\<lambda>bs p. (bs, f bs p))) p buf n s
        = (n + sz, p', put_to tgt (take sz (remaining s d)) (advance d sz s)) \<and> I (m @ take sz (remaining s d)) p'"
proof (induction sz arbitrary: s n buf p m rule: less_induct)
  case (less sz)
  have d: "d < length (open_files s)" using less.prems by (simp add: sys_ok_ofd)
  have e: "e < length (open_files s) \<and> e \<noteq> d" if "tgt = Some e" for e
    using less.prems(1,5) that by (auto simp: sys_ok_ofd)
  show ?case
  proof (cases "sz = 0")
    case True
    have "put_to tgt [] (advance d 0 s) = s"
      using e d less.prems(1) by (cases tgt) simp_all
    then show ?thesis
      using True less.prems(6) d dd_loop_end [OF src less.prems(2) d disjI1 [OF True], of fddst "Some (\<lambda>bs p. (bs, f bs p))" p buf n]
      by (intro exI [of _ p]) simp
  next
    case False
    define b where "b = (if sz < dd_max_bufsz then sz else dd_max_bufsz)"
    define data where "data = take b (remaining s d)"
    have b: "0 < b" "b \<le> sz" "b \<le> max_io s" "b \<le> dd_max_bufsz"
      using False less.prems(3) by (simp_all add: b_def dd_max_bufsz_def)
    have len: "length data = b" using b less.prems(4) by (simp add: data_def)
    define s1 where "s1 = advance d b s"
    define s2 where "s2 = put_to tgt data s1"
    have rd: "sys_read fdsrc b s = (int b, data, s1)"
      using sys_read_advance [OF less.prems(2), of b] b len by (simp add: Let_def data_def [symmetric] s1_def min_absorb1)
    have seen: "map (buf_store buf data) [0..<b] = data" for buf
      using map_buf_store [of buf data] len by simp
    have wr: "0 \<le> fddst \<and> sys_write fddst data s1 = (int b, s2)" if "tgt = Some e" for e
      using sys_write_put [of s1 fddst e data] less.prems(5) that len b tgt by (simp add: s1_def s2_def)
    have step1: "dd_loop fdsrc fddst sz (Some (\<lambda>bs p. (bs, f bs p))) p buf n s =
        dd_loop fdsrc fddst (sz - b) (Some (\<lambda>bs p. (bs, f bs p))) (f data p) (buf_store (buf_store buf data) data) (n + b) s2"
      using False b src rd seen wr tgt
      by (subst dd_loop.simps) (cases tgt; simp add: b_def [symmetric] s2_def)
    have s2: "sys_ok s2" "ofd_of s2 fdsrc = Some d" "max_io s2 = max_io s" "inode (open_files s2 ! d) = inode (open_files s ! d)"
      using less.prems(1,2) d e by (cases tgt; simp add: s2_def s1_def put_def)+
    have s2e: "ofd_of s2 fddst = Some e \<and> inode (open_files s2 ! d) \<noteq> inode (open_files s2 ! e)" if "tgt = Some e" for e
      using less.prems(1,5) that d e [OF that] by (simp add: s2_def s1_def put_def)
    have rem: "remaining s2 d = drop b (remaining s d)"
      using d e less.prems(1,5) by (cases tgt) (simp_all add: s2_def s1_def remaining_advance remaining_put)
    have I2: "I (m @ data) (f data p)"
      using step less.prems(6,7) len b(2,4) unfolding feeds_def by (metis length_append add_le_cancel_left order_trans)
    have left: "sz - b < sz" "sz - b \<le> length (remaining s2 d)" "length (m @ data) + (sz - b) \<le> L"
      using rem b(1,2) len less.prems(4,7) by simp_all
    have ns: "n + b + (sz - b) = n + sz" using b(2) by simp
    have big: "dd_max_bufsz \<le> max_io s2" using s2(3) less.prems(3) by simp
    have tg: "\<forall>e. tgt = Some e \<longrightarrow> ofd_of s2 fddst = Some e \<and> inode (open_files s2 ! d) \<noteq> inode (open_files s2 ! e)"
      using s2e by blast
    obtain p' where p': "dd_loop fdsrc fddst (sz - b) (Some (\<lambda>bs p. (bs, f bs p))) (f data p)
          (buf_store (buf_store buf data) data) (n + b) s2 =
          (n + sz, p', put_to tgt (take (sz - b) (remaining s2 d)) (advance d (sz - b) s2))"
        "I ((m @ data) @ take (sz - b) (remaining s2 d)) p'"
      using less.IH [OF left(1) s2(1,2) big left(2) tg I2 left(3)] ns by metis
    have split: "take sz (remaining s d) = data @ take (sz - b) (remaining s2 d)"
      unfolding rem data_def using b(2) by (metis le_add_diff_inverse take_add)
    have "put_to tgt (take (sz - b) (remaining s2 d)) (advance d (sz - b) s2)
        = put_to tgt (data @ take (sz - b) (remaining s2 d)) (advance d sz s)"
    proof (cases tgt)
      case None
      then show ?thesis using b d by (simp add: s2_def s1_def advance_advance)
    next
      case (Some e')
      have e': "e' < length (open_files s)" "e' \<noteq> d" using e [OF Some] by simp_all
      have "advance d (sz - b) (put e' data s1) = put e' data (advance d (sz - b) s1)"
        using advance_put [of d e' data "sz - b" s1] e' by simp
      then show ?thesis
        using Some b d e' less.prems(1) by (simp add: s2_def s1_def advance_advance put_put)
    qed
    then show ?thesis unfolding step1 split using p' b(2) by auto
  qed
qed

text \<open>The source is the file of \<open>out_state\<close> and there is no target.\<close>

lemma dd_feeds_reading:
  assumes step: "feeds I f L"
    and s: "out_state s fd e c q" "off + n \<le> length c" "I m p" "length m + n \<le> L"
  shows "\<exists>p' s'. dd (Some buf) fd (-1) (int off) offt_dst n (Some (\<lambda>bs p. (bs, f bs p))) p s = (n, p', s') \<and>
    I (m @ take n (drop off c)) p' \<and> out_state s' fd e c (off + n)"
proof -
  have o: "sys_ok s" "ofd_of s fd = Some e" "0x200000 \<le> max_io s" "content s e = c" "0 \<le> fd" "e < length (open_files s)"
    and fs: "filestart fd s = 0"
    using s(1) by (auto simp: out_state_def ofd_of_nonneg sys_ok_ofd no_virtual_file filestart_plain)
  define s1 where "s1 = set_position e off s"
  have s1: "sys_ok s1" "ofd_of s1 fd = Some e" "dd_max_bufsz \<le> max_io s1" "remaining s1 e = drop off c"
    using o by (simp_all add: s1_def remaining_def dd_max_bufsz_def)
  have "dd (Some buf) fd (-1) (int off) offt_dst n (Some (\<lambda>bs p. (bs, f bs p))) p s
      = dd_loop fd (-1) n (Some (\<lambda>bs p. (bs, f bs p))) p buf 0 s1"
    using o fs by (simp add: dd_def dd64_def fileseek_def lseek_set_def s1_def)
  moreover have "n \<le> length c - off" using s(2) by simp
  moreover from this obtain p' where "dd_loop fd (-1) n (Some (\<lambda>bs p. (bs, f bs p))) p buf 0 s1 = (0 + n, p', advance e n s1)"
      "I (m @ take n (remaining s1 e)) p'"
    using dd_loop_feeds [where I = I and f = f and L = L and fdsrc = fd and tgt = None and fddst = "-1" and m = m and p = p and
        buf = buf and n = 0 and sz = n, OF step o(5) _ s1(1-3)] s s1(4) by auto
  moreover have "out_state (advance e n s1) fd e c (off + n)"
    using s(1) o(6) by (simp add: out_state_def s1_def)
  ultimately show ?thesis using s1(4) by auto
qed

lemma out_state_read_max:
  assumes "out_state s fd e c p" "n \<le> max_io s"
  shows "\<exists>s1. sys_read fd n s = (int (length (take n (drop p c))), take n (drop p c), s1) \<and>
    out_state s1 fd e c (p + length (take n (drop p c))) \<and> max_io s1 = max_io s"
  using assms sys_read_eq [of s fd e n]
  by (auto simp: out_state_def sys_ok_ofd remaining_def min_def Let_def sys_read_def content_set_position)

lemma out_state_read:
  assumes "out_state s fd e c p" "n \<le> 0x200000"
  shows "\<exists>s1. sys_read fd n s = (int (length (take n (drop p c))), take n (drop p c), s1) \<and>
    out_state s1 fd e c (p + length (take n (drop p c))) \<and> max_io s1 = max_io s"
  using out_state_read_max [OF assms(1), of n] assms by (auto simp: out_state_def)

lemma out_state_fileseek:
  assumes "out_state s fd e c p" "0 \<le> q"
  shows "out_state (snd (fileseek fd q s)) fd e c (nat q)" "max_io (snd (fileseek fd q s)) = max_io s"
proof -
  have "fileseek fd q s = lseek_set fd q s"
    using assms(1) by (simp add: fileseek_def out_state_def filestart_plain no_virtual_file)
  then show "out_state (snd (fileseek fd q s)) fd e c (nat q)" "max_io (snd (fileseek fd q s)) = max_io s"
    using out_state_seek [OF assms] assms by (auto simp: out_state_def lseek_set_def)
qed

section \<open>A file that is written while others are read\<close>

text \<open>The file is \<open>ino\<close>; \<open>others\<close> are all files, with this one emptied.\<close>

definition writing :: "sys \<Rightarrow> int \<Rightarrow> nat \<Rightarrow> nat \<Rightarrow> bytes list \<Rightarrow> bytes \<Rightarrow> nat \<Rightarrow> bool" where
  "writing s fd e ino others c p \<longleftrightarrow>
     out_state s fd e c p \<and> inode (open_files s ! e) = ino \<and> (inodes s)[ino := []] = others"

text \<open>A descriptor of another file.\<close>

definition reading :: "sys \<Rightarrow> int \<Rightarrow> nat \<Rightarrow> nat \<Rightarrow> nat \<Rightarrow> bytes list \<Rightarrow> bool" where
  "reading s fd d e i others \<longleftrightarrow>
     ofd_of s fd = Some d \<and> d \<noteq> e \<and> d < length (open_files s) \<and> inode (open_files s ! d) = i \<and> content s d = others ! i"

lemma writing_frame:
  "writing s fd e ino others c p \<Longrightarrow> d \<noteq> e \<Longrightarrow> writing (set_position d q s) fd e ino others c p"
  by (simp add: writing_def out_state_def)

lemma writing_seek: "writing s fd e ino others c p \<Longrightarrow> 0 \<le> q \<Longrightarrow> writing (snd (lseek_set fd q s)) fd e ino others c (nat q)"
  by (auto simp: writing_def out_state_def lseek_set_def sys_ok_ofd)

lemma writing_write:
  assumes "writing s fd e ino others c p" "length bs \<le> 0x200000"
  shows "writing (snd (sys_write fd bs s)) fd e ino others (overlay c p bs) (p + length bs)"
  using assms out_state_write [of s fd e c p bs] sys_write_put [of s fd e bs]
  by (auto simp: writing_def out_state_def put_def set_content_def sys_ok_ofd)

lemma writing_open:
  assumes w: "writing s fd e ino others c p" and i: "i < length others" "i \<noteq> ino" and op: "fileopen (Some i) s = (cfd, s1)"
  shows "writing s1 fd e ino others c p" "0 \<le> cfd" "cfd \<noteq> fd" "\<exists>d. reading s1 cfd d e i others"
    "\<exists>d. reading s1 cfd d e i others \<and> position (open_files s1 ! d) = 0"
proof -
  let ?d = "length (open_files s)" let ?s = "s\<lparr>open_files := open_files s @ [\<lparr>inode = i, position = 0\<rparr>]\<rparr>"
  have a: "alloc_fd ?d ?s = (cfd, s1)" using op by (simp add: fileopen_def sys_open_def)
  note fresh = alloc_fd_fresh [OF a]
  have e: "e < ?d" and o: "ofd_of s fd = Some e" and ok: "sys_ok s" and oth: "others = (inodes s)[ino := []]"
    using w by (auto simp: writing_def out_state_def sys_ok_ofd)
  have same: "ofd_of ?s = ofd_of s" by (rule ext) (simp add: ofd_of_def)
  show "0 \<le> cfd" by (rule fresh(3))
  show ne: "cfd \<noteq> fd" using fresh(1) o same by auto
  have "sys_ok ?s" using ok i oth by (auto simp: sys_ok_def nth_append less_Suc_eq)
  from alloc_fd_ok [OF this _ a] have ok1: "sys_ok s1" by simp
  show "writing s1 fd e ino others c p"
    using w ok1 fresh(4) [of fd] ne same e
    by (auto simp: writing_def out_state_def content_def fresh(5,6,7,8) nth_append)
  have "reading s1 cfd ?d e i others \<and> position (open_files s1 ! ?d) = 0"
    using fresh(2) e i oth by (simp add: reading_def content_def fresh(5,6))
  then show "\<exists>d. reading s1 cfd d e i others" "\<exists>d. reading s1 cfd d e i others \<and> position (open_files s1 ! d) = 0"
    by blast+
qed

lemma writing_close: "writing s fd e ino others c p \<Longrightarrow> cfd \<noteq> fd \<Longrightarrow> writing (sys_close cfd s) fd e ino others c p"
proof -
  assume a: "writing s fd e ino others c p" "cfd \<noteq> fd"
  have "sys_ok (sys_close cfd s)"
    using a(1) set_update_subset_insert [of "fds s" "nat cfd" None]
    by (auto simp: writing_def out_state_def sys_ok_def sys_close_def)
  with a show ?thesis
    using ofd_of_close [of fd cfd s] by (auto simp: writing_def out_state_def content_def sys_close_def)
qed

lemma reading_length:
  assumes "writing s fd e ino others c p" "reading s cfd d e i others"
  shows "\<exists>s1. filelength cfd s = (int (length (others ! i)), s1) \<and> writing s1 fd e ino others c p \<and> reading s1 cfd d e i others"
proof -
  have "virtual_file_get cfd s = None" using assms(1) by (auto simp: writing_def out_state_def no_virtual_file)
  then show ?thesis
    using assms by (auto simp: filelength_def reading_def lseek_end_eq lseek_set_def writing_frame)
qed

lemma dd_feeds_writing:
  assumes step: "feeds I f L"
    and w: "writing s fd e ino others c q" and r: "reading s cfd d e i others" "i \<noteq> ino"
    and I: "I m p" "length m + length (others ! i) \<le> L"
  shows "\<exists>p' s'. dd (Some buf) cfd fd 0 (int off) (length (others ! i)) (Some (\<lambda>bs p. (bs, f bs p))) p s
      = (length (others ! i), p', s') \<and> I (m @ others ! i) p' \<and>
      writing s' fd e ino others (overlay c off (others ! i)) (off + length (others ! i))"
proof -
  let ?x = "others ! i"
  have o: "sys_ok s" "ofd_of s fd = Some e" "0x200000 \<le> max_io s" "content s e = c" "0 \<le> fd" "e < length (open_files s)"
    and fs: "filestart fd s = 0" "filestart cfd s = 0" "inode (open_files s ! e) = ino"
    using w by (auto simp: writing_def out_state_def ofd_of_nonneg sys_ok_ofd no_virtual_file filestart_plain)
  have d: "ofd_of s cfd = Some d" "d \<noteq> e" "d < length (open_files s)" "inode (open_files s ! d) = i" "content s d = ?x" "0 \<le> cfd"
    using r(1) by (auto simp: reading_def ofd_of_nonneg)
  define s1 where "s1 = set_position e off (set_position d 0 s)"
  have s1: "sys_ok s1" "ofd_of s1 cfd = Some d" "dd_max_bufsz \<le> max_io s1" "remaining s1 d = ?x" "ofd_of s1 fd = Some e"
      "inode (open_files s1 ! d) \<noteq> inode (open_files s1 ! e)" "e < length (open_files s1)"
    using o d r(2) fs(3) by (simp_all add: s1_def remaining_def dd_max_bufsz_def)
  have fs1: "filestart fd (set_position d 0 s) = 0" using filestart_gd [of "set_position d 0 s" s fd] fs(1) by simp
  have "dd (Some buf) cfd fd 0 (int off) (length ?x) (Some (\<lambda>bs p. (bs, f bs p))) p s
      = dd_loop cfd fd (length ?x) (Some (\<lambda>bs p. (bs, f bs p))) p buf 0 s1"
    using o d fs fs1 by (simp add: dd_def dd64_def fileseek_def lseek_set_def s1_def Let_def)
  moreover obtain p' where "dd_loop cfd fd (length ?x) (Some (\<lambda>bs p. (bs, f bs p))) p buf 0 s1
        = (0 + length ?x, p', put_to (Some e) (take (length ?x) (remaining s1 d)) (advance d (length ?x) s1))"
      "I (m @ take (length ?x) (remaining s1 d)) p'"
    using dd_loop_feeds [where I = I and f = f and L = L and fdsrc = cfd and tgt = "Some e" and fddst = fd and m = m and
        p = p and buf = buf and n = 0 and sz = "length ?x", OF step d(6) _ s1(1-3)] o(5) s1(4-6) I by auto
  moreover have "writing (put e ?x (advance d (length ?x) s1)) fd e ino others (overlay c off ?x) (off + length ?x)"
    using w o(6) d(2,3) by (simp add: writing_def out_state_def s1_def put_content) (simp add: put_def set_content_def)
  ultimately show ?thesis using s1(4) by auto
qed

lemma dd_copies_writing:
  assumes w: "writing s fd e ino others c q" and r: "reading s cfd d e i others" "i \<noteq> ino"
  shows "\<exists>s'. dd (Some buf) cfd fd 0 (int off) (length (others ! i)) None p s = (length (others ! i), p, s') \<and>
    writing s' fd e ino others (overlay c off (others ! i)) (off + length (others ! i))"
proof -
  have o: "sys_ok s" "ofd_of s fd = Some e" "0 \<le> fd" "e < length (open_files s)"
    and fs: "filestart fd s = 0" "filestart cfd s = 0" "inode (open_files s ! e) = ino"
    using w by (auto simp: writing_def out_state_def ofd_of_nonneg sys_ok_ofd no_virtual_file filestart_plain)
  have d: "ofd_of s cfd = Some d" "d \<noteq> e" "d < length (open_files s)" "inode (open_files s ! d) = i" "content s d = others ! i" "0 \<le> cfd"
    using r(1) by (auto simp: reading_def ofd_of_nonneg)
  obtain q' where "dd64 (Some buf) cfd fd 0 (int off) (length (others ! i)) None p s =
      (length (others ! i), p, put e (others ! i) (set_position d q' (set_position e off s)))"
    using dd64_copy_put [where fdsrc = cfd and fddst = fd and s = s and d = d and e = e and offt_src = 0 and offt_dst = "int off" and
        sz = "length (others ! i)" and data = "others ! i" and buf = buf and p = p] o d fs r(2) by auto
  moreover have "writing (put e (others ! i) (set_position d q' (set_position e off s))) fd e ino others
      (overlay c off (others ! i)) (off + length (others ! i))"
    using w o(4) d(2,3) by (simp add: writing_def out_state_def put_content) (simp add: put_def set_content_def)
  ultimately show ?thesis by (auto simp: dd_def)
qed

section \<open>What lies where\<close>

text \<open>The bytes are in the file, in front of a limit.\<close>

definition holds :: "(nat \<times> bytes) list \<Rightarrow> bytes \<Rightarrow> nat \<Rightarrow> bool" where
  "holds laid c lim \<longleftrightarrow> (\<forall>(st, x)\<in>set laid. x \<noteq> [] \<longrightarrow> take (length x) (drop st c) = x \<and> st + length x \<le> lim)"

lemma holds_Nil [simp]: "holds [] c lim" by (simp add: holds_def)

lemma holds_append [simp]: "holds (a @ b) c lim \<longleftrightarrow> holds a c lim \<and> holds b c lim"
  by (auto simp: holds_def)

lemma overlay_below: "st + n \<le> p \<Longrightarrow> st + n \<le> length c \<Longrightarrow> take n (drop st (overlay c p bs)) = take n (drop st c)"
proof -
  assume a: "st + n \<le> p" "st + n \<le> length c"
  have "take (st + n) (overlay c p bs) = take (st + n) c" using a by (auto simp: overlay_def min_def)
  then have "drop st (take (st + n) (overlay c p bs)) = drop st (take (st + n) c)" by simp
  then show ?thesis by (simp add: take_drop add.commute)
qed

lemma overlay_at: "take (length bs) (drop p (overlay c p bs)) = bs"
  by (cases "length c < p") (auto simp: overlay_def)

lemma overlay_above: "p + length bs \<le> st \<Longrightarrow> st < length c \<Longrightarrow> take n (drop st (overlay c p bs)) = take n (drop st c)"
  by (auto simp: overlay_def)

lemma held_bounds: "take (length x) (drop st c) = x \<Longrightarrow> x \<noteq> [] \<Longrightarrow> st + length x \<le> length c"
  by (metis add.commute add_leD2 drop_all le_diff_conv2 length_drop length_take linorder_not_le min.cobounded1 nat_le_linear take_Nil min.absorb_iff2)

lemma holds_overlay: "holds laid c lim \<Longrightarrow> lim \<le> p \<Longrightarrow> lim \<le> lim' \<Longrightarrow> holds laid (overlay c p bs) lim'"
  unfolding holds_def
proof (clarify, goal_cases)
  case (1 st x)
  then have x: "take (length x) (drop st c) = x" "st + length x \<le> lim" by auto
  then show ?case using held_bounds [OF x(1) 1(5)] overlay_below [of st "length x" p c bs] 1 by simp
qed

lemma holds_overlay_low:
  "holds laid c lim \<Longrightarrow> \<forall>(st, x)\<in>set laid. p + length bs \<le> st \<Longrightarrow> holds laid (overlay c p bs) lim"
  unfolding holds_def
proof (clarify, goal_cases)
  case (1 st x)
  then have x: "take (length x) (drop st c) = x" "st + length x \<le> lim" "p + length bs \<le> st" by auto
  have "0 < length x" using 1(4) by simp
  then have "st < length c" using held_bounds [OF x(1) 1(4)] by linarith
  then show ?case using x overlay_above [OF x(3)] by simp
qed

lemma holds_placed: "holds laid c lim \<Longrightarrow> lim \<le> off \<Longrightarrow> holds (laid @ [(off, x)]) (overlay c off x) (off + length x)"
  using holds_overlay [of laid c lim off "off + length x" x] overlay_at [of x off c] by (simp add: holds_def)

end
