(* ===== verification/BootimgLaws.thy ===== *)
theory BootimgLaws
  imports Bootimg TransferLaws HashLaws
begin

text \<open>
  The android boot.img editor: the image that is put together from files is detected, with the hash over its files, its
  size, and every file at its place.
\<close>

section \<open>The header\<close>

lemma hdr_offs [simp]:
  "hdr_off ''magic'' = 0" "hdr_off ''kernel_size'' = 8" "hdr_off ''ramdisk_size'' = 16" "hdr_off ''second_size'' = 24"
  "hdr_off ''page_size'' = 36" "hdr_off ''header_version'' = 40" "hdr_off ''id'' = 576"
  "hdr_off ''recovery_dtbo_size'' = 1632" "hdr_off ''dtb_size'' = 1648"
  by (simp_all add: hdr_off_def andr_img_hdr_def ANDR_BOOT_NAME_SIZE_def ANDR_BOOT_ARGS_SIZE_def ANDR_BOOT_EXTRA_ARGS_SIZE_def)

lemma sizeof_hdr_eq: "sizeof_hdr = 1660"
  by (simp add: sizeof_hdr_def andr_img_hdr_def ANDR_BOOT_NAME_SIZE_def ANDR_BOOT_ARGS_SIZE_def ANDR_BOOT_EXTRA_ARGS_SIZE_def)

lemma length_magic [simp]: "length ANDR_BOOT_MAGIC = 8"
  by (simp add: ANDR_BOOT_MAGIC_def bytes_of_string_def)

lemma length_store_at: "off + length bs \<le> length h \<Longrightarrow> length (store_at off bs h) = length h"
  by (simp add: store_at_def)

lemma store_at_same: "off + length bs \<le> length h \<Longrightarrow> take (length bs) (drop off (store_at off bs h)) = bs"
  by (simp add: store_at_def)

lemma store_at_other:
  assumes "off + length bs \<le> length h" "o' + k \<le> off \<or> off + length bs \<le> o'"
  shows "take k (drop o' (store_at off bs h)) = take k (drop o' h)"
proof (cases "o' + k \<le> off")
  case True
  have "take k (drop o' (store_at off bs h)) = drop o' (take (o' + k) (store_at off bs h))" by (simp add: take_drop add.commute)
  also have "take (o' + k) (store_at off bs h) = take (o' + k) h" using True assms(1) by (simp add: store_at_def min_def)
  finally show ?thesis by (simp add: take_drop add.commute)
next
  case False
  with assms show ?thesis by (simp add: store_at_def)
qed

lemma aligned_length32_nat:
  assumes "good_page_size ps" "unat w < 2 ^ 31"
  shows "unat (aligned_length32 w ps) = (unat w + unat ps - 1) div unat ps * unat ps"
proof -
  have ps: "0 < unat ps" "unat ps \<le> 16384" using assms(1) by (auto simp: good_page_size_def)
  have "unat (w + ps - 1) = unat w + unat ps - 1"
  proof -
    have "unat (w + ps) = unat w + unat ps" using ps assms(2) by (simp add: unat_add_lem [THEN iffD1])
    moreover have "1 \<le> w + ps" using calculation ps by (simp add: word_le_nat_alt)
    ultimately show ?thesis by (simp add: unat_sub)
  qed
  then have d: "unat ((w + ps - 1) div ps) = (unat w + unat ps - 1) div unat ps" by (simp add: unat_div)
  have "(unat w + unat ps - 1) div unat ps * unat ps \<le> unat w + unat ps - 1" by (rule div_times_less_eq_dividend)
  moreover have "unat w + unat ps - 1 < 2 ^ 32" using ps assms(2) by simp
  ultimately have "(unat w + unat ps - 1) div unat ps * unat ps < 2 ^ 32" by (rule le_less_trans)
  then show ?thesis by (simp add: aligned_length32_def unat_mult_lem [THEN iffD1] d)
qed

section \<open>The places of the files\<close>

definition align_up :: "nat \<Rightarrow> nat \<Rightarrow> nat" where
  "align_up n p = (n + p - 1) div p * p"

lemma align_up_ge: "0 < p \<Longrightarrow> n \<le> align_up n p"
proof -
  assume p: "0 < p"
  have "n + p - 1 = (n + p - 1) div p * p + (n + p - 1) mod p" by simp
  moreover have "(n + p - 1) mod p < p" using p by simp
  ultimately show ?thesis unfolding align_up_def using p by linarith
qed

fun layout :: "nat \<Rightarrow> nat \<Rightarrow> bytes list \<Rightarrow> (nat \<times> bytes) list" where
  "layout p off [] = []"
| "layout p off (x # xs) = (off, x) # layout p (off + align_up (length x) p) xs"

fun layout_end :: "nat \<Rightarrow> nat \<Rightarrow> bytes list \<Rightarrow> nat" where
  "layout_end p off [] = off"
| "layout_end p off (x # xs) = layout_end p (off + align_up (length x) p) xs"

lemma layout_end_ge: "off \<le> layout_end p off xs"
proof (induction xs arbitrary: off)
  case (Cons x xs)
  show ?case using Cons.IH [of "off + align_up (length x) p"] by simp
qed simp

lemma layout_starts: "(st, x) \<in> set (layout p off xs) \<Longrightarrow> off \<le> st"
  by (induction xs arbitrary: off) (auto, fastforce)

section \<open>Hashing\<close>

definition sha1_fed :: "bytes \<Rightarrow> hash_context_t cres \<Rightarrow> bool" where
  "sha1_fed m p \<longleftrightarrow> (\<exists>c. p = Ok c \<and> hash_absorbed HASH_TYPE_SHA1 m c)"

abbreviation sha1_step :: "bytes \<Rightarrow> hash_context_t cres \<Rightarrow> hash_context_t cres" where
  "sha1_step d p \<equiv> snd (abootimg_update_sha1sum d p)"

lemma scanner_eq: "abootimg_update_sha1sum = (\<lambda>bs p. (bs, sha1_step bs p))"
  by (simp add: abootimg_update_sha1sum_def fun_eq_iff)

lemma sha1_fed_step:
  assumes "sha1_fed m p" "length d < 2 ^ 32" "length (m @ d) < 2 ^ 60"
  shows "sha1_fed (m @ d) (sha1_step d p)"
proof -
  obtain c where c: "p = Ok c" "hash_absorbed HASH_TYPE_SHA1 m c" using assms(1) by (auto simp: sha1_fed_def)
  then show ?thesis
    using hash_update_ok [OF c(2) assms(2,3)] by (auto simp: sha1_fed_def abootimg_update_sha1sum_def)
qed

lemma sha1_feeds: "feeds sha1_fed sha1_step (2 ^ 60 - 1)"
  unfolding feeds_def by (auto intro!: sha1_fed_step simp: dd_max_bufsz_def)

definition size_le :: "bytes \<Rightarrow> bytes" where "size_le x = le32 (word_of_nat (length x))"

definition boot_stream :: "bytes list \<Rightarrow> bytes" where
  "boot_stream xs = concat (map (\<lambda>x. x @ size_le x) xs)"

lemma length_size_le [simp]: "length (size_le x) = 4" by (simp add: size_le_def)

lemma boot_stream_simps [simp]: "boot_stream [] = []" "boot_stream (x # xs) = x @ size_le x @ boot_stream xs"
  by (simp_all add: boot_stream_def)

section \<open>Detection\<close>

lemma abootimg_hash_files_ok:
  assumes ps: "good_page_size page"
  shows "out_state s fd e c q \<Longrightarrow> sha1_fed m hash \<Longrightarrow> holds (layout (unat page) (unat off) xs) c lim \<Longrightarrow>
    \<forall>x\<in>set xs. length x < 2 ^ 31 \<Longrightarrow> layout_end (unat page) (unat off) xs < 2 ^ 32 \<Longrightarrow>
    length m + length (boot_stream xs) < 2 ^ 60 \<Longrightarrow>
    \<exists>off' hash' s' q'. abootimg_hash_files (Some buf) fd page (map (\<lambda>x. word_of_nat (length x)) xs) off hash s = (off', hash', s') \<and>
      unat off' = layout_end (unat page) (unat off) xs \<and> sha1_fed (m @ boot_stream xs) hash' \<and> out_state s' fd e c q'"
proof (induction xs arbitrary: s q m hash off)
  case Nil
  then show ?case by auto
next
  case (Cons x xs)
  let ?w = "word_of_nat (length x) :: u32"
  have lx: "length x < 2 ^ 31" using Cons.prems(4) by simp
  then have w: "unat ?w = length x" by (simp add: unsigned_of_nat take_bit_nat_eq_self)
  have big: "length x < 2 ^ 32" "length (m @ x) < 2 ^ 60" "length ((m @ x) @ size_le x) < 2 ^ 60" "length m + length x \<le> 2 ^ 60 - 1"
    using Cons.prems(6) lx by simp_all
  obtain hash1 s1 q1 where 1: "(if ?w > 0 then snd (dd (Some buf) fd (-1) (int (unat off)) 0 (unat ?w) (Some abootimg_update_sha1sum) hash s)
        else (hash, s)) = (hash1, s1)" "sha1_fed (m @ x) hash1" "out_state s1 fd e c q1"
  proof (cases "x = []")
    case True
    then show ?thesis using that [of hash s q] Cons.prems(1,2) by simp
  next
    case False
    have held: "take (length x) (drop (unat off) c) = x" using Cons.prems(3) False by (simp add: holds_def)
    have "?w > 0" using False w by (simp add: word_less_nat_alt)
    moreover obtain hash1 s1 where "dd (Some buf) fd (-1) (int (unat off)) 0 (length x) (Some abootimg_update_sha1sum) hash s
        = (length x, hash1, s1)" "sha1_fed (m @ x) hash1" "out_state s1 fd e c (unat off + length x)"
      using dd_feeds_reading [OF sha1_feeds Cons.prems(1) held_bounds [OF held False] Cons.prems(2) big(4), of buf 0]
      unfolding scanner_eq [symmetric] held by blast
    ultimately show ?thesis using that w by simp
  qed
  have sz: "sha1_fed (m @ x @ size_le x) (sha1_step (le32 ?w) hash1)"
    using sha1_fed_step [OF 1(2), of "size_le x"] big(3) by (simp add: size_le_def)
  have al: "unat (aligned_length32 ?w page) = align_up (length x) (unat page)"
    using aligned_length32_nat [OF ps, of ?w] lx w by (simp add: align_up_def)
  have "unat off + align_up (length x) (unat page) < 2 ^ 32"
    using layout_end_ge [of "unat off + align_up (length x) (unat page)" "unat page" xs] Cons.prems(5) by simp
  then have off: "unat (off + aligned_length32 ?w page) = unat off + align_up (length x) (unat page)"
    by (simp add: unat_add_lem [THEN iffD1] al)
  have "holds (layout (unat page) (unat (off + aligned_length32 ?w page)) xs) c lim"
    using Cons.prems(3) by (simp add: off holds_def)
  from Cons.IH [OF 1(3) sz this] Cons.prems(4-6) 1(1) show ?case by (simp add: off)
qed

section \<open>Packing\<close>

text \<open>
  What the names stand for: a name is listed and its file has these bytes, or it is not listed. The bytes of the entries of
  the table up to the version of the header, nothing for those that are not listed.
\<close>

definition boot_source ::
    "'j cjson \<Rightarrow> (string \<Rightarrow> nat option) \<Rightarrow> 'j list \<Rightarrow> string \<Rightarrow> bytes list \<Rightarrow> nat \<Rightarrow> (string \<Rightarrow> bytes option) \<Rightarrow> string \<Rightarrow> bool" where
  "boot_source J inode_of items dir others ino files name \<longleftrightarrow>
     (case files name of
        None \<Rightarrow> json_string_array_search J items name = Ok (-1)
      | Some x \<Rightarrow> json_string_array_search J items name = Ok 0 \<and> length x < 2 ^ 31 \<and>
          (case inode_of (path_in dir name) of None \<Rightarrow> False | Some i \<Rightarrow> i < length others \<and> i \<noteq> ino \<and> others ! i = x))"

definition used_files :: "u32 \<Rightarrow> abootimg_file list \<Rightarrow> abootimg_file list" where
  "used_files ver afs = takeWhile (\<lambda>a. min_version a \<le> ver) afs"

definition slots :: "u32 \<Rightarrow> (string \<Rightarrow> bytes option) \<Rightarrow> abootimg_file list \<Rightarrow> bytes list" where
  "slots ver files afs = map (\<lambda>a. case files (bf_name a) of None \<Rightarrow> [] | Some x \<Rightarrow> x) (used_files ver afs)"

fun offs_apart :: "nat list \<Rightarrow> bool" where
  "offs_apart [] = True"
| "offs_apart (a # as) = ((a + 4 \<le> 36 \<or> 44 \<le> a) \<and> a + 4 \<le> 1660 \<and> (\<forall>b\<in>set as. a + 4 \<le> b \<or> b + 4 \<le> a) \<and> offs_apart as)"

lemma offs_apart_files: "offs_apart (map hdr_size_offset abootimg_files)"
  by (simp add: abootimg_files_def)

definition same_outside :: "nat list \<Rightarrow> bytes \<Rightarrow> bytes \<Rightarrow> bool" where
  "same_outside offs h h' \<longleftrightarrow>
     length h' = length h \<and> (\<forall>o' k. (\<forall>a\<in>set offs. o' + k \<le> a \<or> a + 4 \<le> o') \<longrightarrow> take k (drop o' h') = take k (drop o' h))"

lemma same_outside_store:
  assumes "length h = 1660" "offs_apart (a # as)" "length bs = 4" "same_outside as (store_at a bs h) h'"
  shows "same_outside (a # as) h h'" "take 4 (drop a h') = bs"
  using assms length_store_at [of a bs h] store_at_other [of a bs h] store_at_same [of a bs h]
  by (auto simp: same_outside_def)

lemma same_outside_fields:
  assumes "same_outside offs h h'" "offs_apart offs"
  shows "hdr_u32 ''page_size'' h' = hdr_u32 ''page_size'' h" "hdr_u32 ''header_version'' h' = hdr_u32 ''header_version'' h"
proof -
  have "\<forall>a\<in>set offs. a + 4 \<le> 36 \<or> 44 \<le> a" using assms(2) by (induction offs) auto
  then have "\<forall>a\<in>set offs. 36 + 4 \<le> a \<or> a + 4 \<le> 36" "\<forall>a\<in>set offs. 40 + 4 \<le> a \<or> a + 4 \<le> 40" by auto
  with assms(1) show "hdr_u32 ''page_size'' h' = hdr_u32 ''page_size'' h" "hdr_u32 ''header_version'' h' = hdr_u32 ''header_version'' h"
    by (simp_all add: same_outside_def hdr_u32_def get_le_def)
qed

text \<open>One listed file: it is opened, measured, copied behind the ones before it while it is hashed, and closed.\<close>

lemma pack_one_file:
  assumes w: "writing s fd e ino others c q" and i: "i < length others" "i \<noteq> ino" "others ! i = x"
    and fed: "sha1_fed m hash" "length m + length x + 4 < 2 ^ 60" and lx: "length x < 2 ^ 31"
    and h: "holds laid c lim" "lim \<le> off"
  obtains cfd s1 s2 hash1 s3 n where "fileopen (Some i) s = (cfd, s1)" "0 \<le> cfd" "filelength cfd s1 = (int (length x), s2)"
    "dd (Some buf) cfd fd 0 (int off) (length x) (Some abootimg_update_sha1sum) hash s2 = (n, hash1, s3)"
    "sha1_fed (m @ x @ size_le x) (sha1_step (size_le x) hash1)"
    "writing (sys_close cfd s3) fd e ino others (overlay c off x) (off + length x)"
    "holds (laid @ [(off, x)]) (overlay c off x) (off + length x)"
proof -
  obtain cfd s1 where o: "fileopen (Some i) s = (cfd, s1)" by (cases "fileopen (Some i) s")
  note op = writing_open [OF w i(1,2) o]
  obtain d where d: "reading s1 cfd d e i others" using op(4) by blast
  obtain s2 where s2: "filelength cfd s1 = (int (length x), s2)" "writing s2 fd e ino others c q" "reading s2 cfd d e i others"
    using reading_length [OF op(1) d] i(3) by auto
  have "length m + length (others ! i) \<le> 2 ^ 60 - 1" using fed(2) i(3) by simp
  then obtain hash1 s3 where s3: "dd (Some buf) cfd fd 0 (int off) (length x) (Some abootimg_update_sha1sum) hash s2 = (length x, hash1, s3)"
      "sha1_fed (m @ x) hash1" "writing s3 fd e ino others (overlay c off x) (off + length x)"
    using dd_feeds_writing [OF sha1_feeds s2(2,3) i(2) fed(1), of buf off] i(3) unfolding scanner_eq [symmetric] by auto
  have "sha1_fed (m @ x @ size_le x) (sha1_step (size_le x) hash1)"
    using sha1_fed_step [OF s3(2), of "size_le x"] fed(2) by simp
  moreover have "holds (laid @ [(off, x)]) (overlay c off x) (off + length x)" by (rule holds_placed [OF h])
  ultimately show ?thesis
    using that [OF o op(2) s2(1) s3(1)] writing_close [OF s3(3) op(3)] by simp
qed

lemma abootimg_pack_files_ok:
  assumes ps: "good_page_size page"
  shows "writing s fd e ino others c q \<Longrightarrow> sha1_fed m hash \<Longrightarrow> length h = 1660 \<Longrightarrow> offs_apart (map hdr_size_offset afs) \<Longrightarrow>
    hdr_u32 ''page_size'' h = page \<Longrightarrow> hdr_u32 ''header_version'' h = ver \<Longrightarrow>
    \<forall>a\<in>set (used_files ver afs). boot_source J inode_of items dir others ino files (bf_name a) \<Longrightarrow>
    length m + length (boot_stream (slots ver files afs)) < 2 ^ 60 \<Longrightarrow> holds laid c (off - pad) \<Longrightarrow> pad \<le> off \<Longrightarrow>
    \<exists>h' pad' hash' s' q' c'. abootimg_pack_files J (Some buf) inode_of items dir fd afs h off pad hash s
        = Ok (0, h', layout_end (unat page) off (slots ver files afs), pad', hash', s') \<and>
      pad' \<le> layout_end (unat page) off (slots ver files afs) \<and>
      same_outside (map hdr_size_offset afs) h h' \<and>
      map (\<lambda>a. take 4 (drop (hdr_size_offset a) h')) (used_files ver afs) = map size_le (slots ver files afs) \<and>
      sha1_fed (m @ boot_stream (slots ver files afs)) hash' \<and> writing s' fd e ino others c' q' \<and>
      holds (laid @ layout (unat page) off (slots ver files afs)) c' (layout_end (unat page) off (slots ver files afs) - pad')"
proof (induction afs arbitrary: s c q m hash h laid off pad)
  case Nil
  then show ?case by (auto simp: slots_def used_files_def same_outside_def)
next
  case (Cons a afs)
  show ?case
  proof (cases "min_version a > ver")
    case True
    then have "used_files ver (a # afs) = []" by (simp add: used_files_def not_le)
    then show ?thesis using True Cons.prems by (auto simp: slots_def same_outside_def)
  next
    case False
    then have used: "used_files ver (a # afs) = a # used_files ver afs" by (simp add: used_files_def not_less)
    define x where "x = (case files (bf_name a) of None \<Rightarrow> [] | Some x \<Rightarrow> x)"
    define h1 where "h1 = store_at (hdr_size_offset a) (size_le x) h"
    define off1 where "off1 = off + align_up (length x) (unat page)"
    have sl: "slots ver files (a # afs) = x # slots ver files afs" by (simp add: slots_def used x_def)
    have src: "boot_source J inode_of items dir others ino files (bf_name a)" using Cons.prems(7) used by simp
    have h1: "same_outside [hdr_size_offset a] h h1" "length h1 = 1660"
      using same_outside_store(1) [of h "hdr_size_offset a" "[]" "size_le x" h1] Cons.prems(3,4) length_store_at [of "hdr_size_offset a" "size_le x" h]
      by (auto simp: h1_def same_outside_def)
    have f1: "hdr_u32 ''page_size'' h1 = page" "hdr_u32 ''header_version'' h1 = ver"
      using same_outside_fields [OF h1(1)] Cons.prems(4-6) by simp_all
    have len: "length m + length x + 4 < 2 ^ 60" using Cons.prems(8) by (simp add: sl)
    have ps0: "0 < unat page" using ps by (auto simp: good_page_size_def)
    obtain pad1 hash1 s1 q1 c1 where 1: "abootimg_pack_files J (Some buf) inode_of items dir fd (a # afs) h off pad hash s
          = abootimg_pack_files J (Some buf) inode_of items dir fd afs h1 off1 pad1 hash1 s1"
        "sha1_fed (m @ x @ size_le x) hash1" "writing s1 fd e ino others c1 q1" "holds (laid @ [(off, x)]) c1 (off1 - pad1)" "pad1 \<le> off1"
    proof (cases "files (bf_name a)")
      case None
      then have x: "x = []" "json_string_array_search J items (bf_name a) = Ok (-1)"
        using src by (simp_all add: x_def boot_source_def)
      have "size_le [] = le32 0" by (simp add: size_le_def)
      moreover have "off1 = off" using x ps0 by (simp add: off1_def align_up_def)
      moreover have "sha1_fed (m @ le32 0) (sha1_step (le32 0) hash)"
        using sha1_fed_step [OF Cons.prems(2), of "le32 0"] len by simp
      ultimately show ?thesis
        using that [of pad "sha1_step (le32 0) hash" s c q] x False Cons.prems(1,6,9,10) by (simp add: h1_def holds_def)
    next
      case (Some y)
      then obtain i where x: "x = y" "json_string_array_search J items (bf_name a) = Ok 0" "length x < 2 ^ 31"
          "inode_of (path_in dir (bf_name a)) = Some i" "i < length others" "i \<noteq> ino" "others ! i = x"
        using src by (auto simp: x_def boot_source_def split: option.splits)
      have w: "unat (word_of_nat (length x) :: u32) = length x" "sint (word_of_nat (length x) :: u32) = int (length x)"
        using x(3) int_of_size_small [OF x(3)] by (simp_all add: unsigned_of_nat take_bit_nat_eq_self int_of_size_def)
      have al: "unat (aligned_length32 (word_of_nat (length x)) page) = align_up (length x) (unat page)"
        using aligned_length32_nat [OF ps, of "word_of_nat (length x)"] x(3) w by (simp add: align_up_def)
      have ge: "length x \<le> align_up (length x) (unat page)" by (rule align_up_ge [OF ps0])
      have lim: "off - pad \<le> off" by simp
      obtain cfd s1 s2 hash1 s3 n where
        st: "fileopen (Some i) s = (cfd, s1)" "0 \<le> cfd" "filelength cfd s1 = (int (length x), s2)"
          "dd (Some buf) cfd fd 0 (int off) (length x) (Some abootimg_update_sha1sum) hash s2 = (n, hash1, s3)"
          "sha1_fed (m @ x @ size_le x) (sha1_step (size_le x) hash1)"
          "writing (sys_close cfd s3) fd e ino others (overlay c off x) (off + length x)"
          "holds (laid @ [(off, x)]) (overlay c off x) (off + length x)"
        by (rule pack_one_file [where buf = buf, OF Cons.prems(1) x(5-7) Cons.prems(2) len x(3) Cons.prems(9) lim])
      show ?thesis
        by (rule that [of "off1 - (off + length x)" "sha1_step (size_le x) hash1" "sys_close cfd s3"])
           (use st x(2,4) False Cons.prems(5,6) w al ge in \<open>simp_all add: off1_def h1_def size_le_def Let_def\<close>)
    qed
    have rest: "length (m @ x @ size_le x) + length (boot_stream (slots ver files afs)) < 2 ^ 60"
      using Cons.prems(8) by (simp add: sl)
    have "\<forall>a\<in>set (used_files ver afs). boot_source J inode_of items dir others ino files (bf_name a)"
      using Cons.prems(7) used by simp
    from Cons.IH [OF 1(3,2) h1(2) _ f1 this rest 1(4,5)] Cons.prems(4) obtain h' pad' hash' s' q' c' where
      2: "abootimg_pack_files J (Some buf) inode_of items dir fd afs h1 off1 pad1 hash1 s1
          = Ok (0, h', layout_end (unat page) off1 (slots ver files afs), pad', hash', s')"
        "pad' \<le> layout_end (unat page) off1 (slots ver files afs)" "same_outside (map hdr_size_offset afs) h1 h'"
        "map (\<lambda>a. take 4 (drop (hdr_size_offset a) h')) (used_files ver afs) = map size_le (slots ver files afs)"
        "sha1_fed ((m @ x @ size_le x) @ boot_stream (slots ver files afs)) hash'" "writing s' fd e ino others c' q'"
        "holds ((laid @ [(off, x)]) @ layout (unat page) off1 (slots ver files afs)) c' (layout_end (unat page) off1 (slots ver files afs) - pad')"
      by auto
    have so: "same_outside (hdr_size_offset a # map hdr_size_offset afs) h h'" "take 4 (drop (hdr_size_offset a) h') = size_le x"
      using same_outside_store [of h "hdr_size_offset a" "map hdr_size_offset afs" "size_le x" h'] Cons.prems(3,4) 2(3) by (simp_all add: h1_def)
    show ?thesis
      unfolding 1(1) sl used
      by (rule exI [of _ h'], rule exI [of _ pad'], rule exI [of _ hash'], rule exI [of _ s'], rule exI [of _ q'], rule exI [of _ c'])
        (use 2 so in \<open>simp add: off1_def\<close>)
  qed
qed

section \<open>The image\<close>

lemma store_le_le: "size_le x = take 4 (drop a h) \<Longrightarrow> get_le a 4 h = (word_of_nat (length x) :: u32)"
proof -
  assume "size_le x = take 4 (drop a h)"
  then have "get_le a 4 h = (word_of_nat (le_decode (size_le x)) :: u32)" by (simp add: get_le_def)
  then show ?thesis by (simp add: size_le_def le_fields_decode)
qed

lemma sizes_read:
  "map (\<lambda>a. take 4 (drop (hdr_size_offset a) h)) as = map size_le xs \<Longrightarrow>
    map (\<lambda>a. get_le (hdr_size_offset a) 4 h) as = map (\<lambda>x. word_of_nat (length x) :: u32) xs"
  by (induction as arbitrary: xs) (auto simp: Cons_eq_map_conv intro!: store_le_le)

lemma ver_cases: "(ver :: u32) \<le> 2 \<Longrightarrow> ver = 0 \<or> ver = 1 \<or> ver = 2"
proof -
  assume "ver \<le> 2"
  then have "unat ver \<le> 2" by (simp add: word_le_nat_alt)
  then have "unat ver = 0 \<or> unat ver = 1 \<or> unat ver = 2" by auto
  then show ?thesis by (auto simp: word_unat_eq_iff)
qed

text \<open>The sizes that are hashed are those of the table.\<close>

lemma used_sizes:
  assumes "ver \<le> 2"
  shows "take (3 + unat ver) [hdr_u32 ''kernel_size'' h, hdr_u32 ''ramdisk_size'' h, hdr_u32 ''second_size'' h,
      hdr_u32 ''recovery_dtbo_size'' h, hdr_u32 ''dtb_size'' h] = map (\<lambda>a. get_le (hdr_size_offset a) 4 h) (used_files ver abootimg_files)"
  using ver_cases [OF assms] by (auto simp: used_files_def abootimg_files_def hdr_u32_def word_le_nat_alt)

lemma length_slots: "length (slots ver files abootimg_files) \<le> 5"
  using length_takeWhile_le [of "\<lambda>a. min_version a \<le> ver" abootimg_files]
  by (simp add: slots_def used_files_def abootimg_files_def)

lemma slots_small:
  "\<forall>a\<in>set (used_files ver afs). boot_source J inode_of items dir others ino files (bf_name a) \<Longrightarrow>
    \<forall>x\<in>set (slots ver files afs). length x < 2 ^ 31"
  by (fastforce simp: slots_def boot_source_def split: option.splits)

lemma length_stream: "\<forall>x\<in>set xs. length x < 2 ^ 31 \<Longrightarrow> length (boot_stream xs) \<le> length xs * (2 ^ 31 + 4)"
  by (induction xs) auto

text \<open>C2: an image that is put together from the listed files is detected. Packing succeeds; every file lies unchanged at its
  place, the first behind a page and each of the others behind the pages of the one before it; the detector accepts the output,
  reads back the header that was written, and reports the end of the last page as the size.\<close>

theorem abootimg_pack_detect:
  assumes "writing s fd e ino others c q" "length h = sizeof_hdr" "good_page_size (hdr_u32 ''page_size'' h)"
    and "hdr_u32 ''header_version'' h \<le> 2"
    and "\<forall>a\<in>set (used_files (hdr_u32 ''header_version'' h) abootimg_files). boot_source J inode_of items dir others ino files (bf_name a)"
    and "layout_end (unat (hdr_u32 ''page_size'' h)) (unat (hdr_u32 ''page_size'' h)) (slots (hdr_u32 ''header_version'' h) files abootimg_files) < 2 ^ 32"
    and "length (boot_head p) = sizeof_hdr"
  shows "\<exists>h' c' s' s''. abootimg_do_pack J (Some buf) inode_of h items dir fd s = Ok (0, h', s') \<and>
    content s' e = c' \<and> take sizeof_hdr c' = h' \<and>
    (\<forall>(st, x)\<in>set (layout (unat (hdr_u32 ''page_size'' h)) (unat (hdr_u32 ''page_size'' h)) (slots (hdr_u32 ''header_version'' h) files abootimg_files)).
       x \<noteq> [] \<longrightarrow> take (length x) (drop st c') = x) \<and>
    abootimg_detect (Some buf2) p fd (snd (lseek_set fd 0 s')) =
      Ok (0, p\<lparr>boot_head := h', boot_total_size :=
        layout_end (unat (hdr_u32 ''page_size'' h)) (unat (hdr_u32 ''page_size'' h)) (slots (hdr_u32 ''header_version'' h) files abootimg_files)\<rparr>, s'')"
proof -
  define page where "page = hdr_u32 ''page_size'' h"
  define ver where "ver = hdr_u32 ''header_version'' h"
  define xs where "xs = slots ver files abootimg_files"
  define lend where "lend = layout_end (unat page) (unat page) xs"
  note folds = page_def [symmetric] ver_def [symmetric] xs_def [symmetric] lend_def [symmetric]
  have ps: "good_page_size page" and ver: "ver \<le> 2" and lend: "lend < 2 ^ 32"
    and len: "length h = 1660" and src: "\<forall>a\<in>set (used_files ver abootimg_files). boot_source J inode_of items dir others ino files (bf_name a)"
    using assms by (simp_all add: folds sizeof_hdr_eq)
  have small: "\<forall>x\<in>set xs. length x < 2 ^ 31" unfolding xs_def by (rule slots_small [OF src])
  have "length (boot_stream xs) \<le> 5 * (2 ^ 31 + 4)"
    using length_stream [OF small] length_slots [of ver files] unfolding xs_def
    by (meson le_trans mult_le_mono1)
  then have stream: "length (boot_stream xs) < 2 ^ 60" by simp
  have fed0: "sha1_fed [] (Ok (hash_context_init HASH_TYPE_SHA1))" by (simp add: sha1_fed_def hash_init_ok)
  obtain h1 pad hash s1 q1 c1 where 1: "abootimg_pack_files J (Some buf) inode_of items dir fd abootimg_files h (unat page) 0
        (Ok (hash_context_init HASH_TYPE_SHA1)) s = Ok (0, h1, lend, pad, hash, s1)" "pad \<le> lend"
      "same_outside (map hdr_size_offset abootimg_files) h h1"
      "map (\<lambda>a. take 4 (drop (hdr_size_offset a) h1)) (used_files ver abootimg_files) = map size_le xs"
      "sha1_fed (boot_stream xs) hash" "writing s1 fd e ino others c1 q1" "holds (layout (unat page) (unat page) xs) c1 (lend - pad)"
    using abootimg_pack_files_ok [where buf = buf and pad = 0 and laid = "[]" and off = "unat page", OF ps assms(1) fed0 len offs_apart_files page_def [symmetric] ver_def [symmetric] src] stream
    by (auto simp: folds)
  obtain ctx where ctx: "hash = Ok ctx" "hash_absorbed HASH_TYPE_SHA1 (boot_stream xs) ctx" using 1(5) by (auto simp: sha1_fed_def)
  define dgst where "dgst = take 128 (hash_digest HASH_TYPE_SHA1 (boot_stream xs))"
  obtain ctx' where fin: "hash_context_finish ctx 128 = Ok (dgst, ctx')"
    using hash_finish_ok [OF ctx(2) stream, of 128] by (auto simp: dgst_def)
  have dl: "length dgst \<le> 20" by (simp add: dgst_def hash_digest_def)
  define h2 where "h2 = store_at 0 ANDR_BOOT_MAGIC (store_at 576 dgst h1)"
  define s2 where "s2 = (if pad \<noteq> 0 then snd (sys_write fd [0] (snd (lseek_set fd (int lend - 1) s1))) else s1)"
  have st: "\<forall>(st, x)\<in>set (layout (unat page) (unat page) xs). 0 + length h2 \<le> st" if "length h2 = 1660"
    using layout_starts [of _ _ "unat page" "unat page" xs] ps that by (fastforce simp: good_page_size_def)
  have lens: "length h1 = 1660" "length (store_at 576 dgst h1) = 1660" "length h2 = 1660"
    using 1(3) len dl by (simp_all add: same_outside_def length_store_at h2_def)
  have keep: "take k (drop o' h2) = take k (drop o' h1)" if "8 \<le> o'" "o' + k \<le> 576 \<or> 596 \<le> o'" for o' k
  proof -
    have "take k (drop o' h2) = take k (drop o' (store_at 576 dgst h1))"
      using that lens by (simp add: h2_def store_at_other)
    also have "\<dots> = take k (drop o' h1)" using that lens dl by (intro store_at_other) auto
    finally show ?thesis .
  qed
  have fields: "hdr_u32 ''page_size'' h2 = page" "hdr_u32 ''header_version'' h2 = ver"
    using same_outside_fields [OF 1(3) offs_apart_files] by (simp_all add: hdr_u32_def get_le_def keep page_def ver_def)
  have magic: "take 8 h2 = ANDR_BOOT_MAGIC"
    using store_at_same [of 0 ANDR_BOOT_MAGIC "store_at 576 dgst h1"] lens by (simp add: h2_def)
  have id: "take (length dgst) (drop 576 h2) = dgst"
    using store_at_same [of 576 dgst h1] lens dl by (simp add: h2_def store_at_other)
  have offs: "a \<in> set (used_files ver abootimg_files) \<Longrightarrow> 8 \<le> hdr_size_offset a \<and> (hdr_size_offset a + 4 \<le> 576 \<or> 596 \<le> hdr_size_offset a)" for a
    using set_takeWhileD [of a "\<lambda>a. min_version a \<le> ver" abootimg_files] by (auto simp: used_files_def abootimg_files_def)
  have "map (\<lambda>a. take 4 (drop (hdr_size_offset a) h2)) (used_files ver abootimg_files) = map size_le xs"
    unfolding 1(4) [symmetric] using offs by (intro map_cong) (simp_all add: keep)
  then have sizes: "map (\<lambda>a. get_le (hdr_size_offset a) 4 h2) (used_files ver abootimg_files) = map (\<lambda>x. word_of_nat (length x) :: u32) xs"
    by (rule sizes_read)
  obtain c2 q2 where 2: "writing s2 fd e ino others c2 q2" "holds (layout (unat page) (unat page) xs) c2 lend"
  proof (cases "pad = 0")
    case True
    then show ?thesis using that 1(6,7) by (simp add: s2_def)
  next
    case False
    have "writing s2 fd e ino others (overlay c1 (nat (int lend - 1)) [0]) (nat (int lend - 1) + 1)"
      using writing_write [OF writing_seek [OF 1(6), of "int lend - 1"], of "[0]"] False 1(2) by (simp add: s2_def)
    moreover have "holds (layout (unat page) (unat page) xs) (overlay c1 (nat (int lend - 1)) [0]) lend"
      using holds_overlay [OF 1(7)] False 1(2) by auto
    ultimately show ?thesis using that by blast
  qed
  define s4 where "s4 = snd (sys_write fd h2 (snd (lseek_set fd 0 s2)))"
  define c4 where "c4 = overlay c2 0 h2"
  have 4: "writing s4 fd e ino others c4 1660"
    using writing_write [OF writing_seek [OF 2(1), of 0], of h2] lens by (simp add: s4_def c4_def)
  have h4: "holds (layout (unat page) (unat page) xs) c4 lend"
    unfolding c4_def by (rule holds_overlay_low [OF 2(2) st [OF lens(3)]])
  have t4: "take 1660 c4 = h2" using overlay_at [of h2 0 c2] lens by (simp add: c4_def)
  have pack: "abootimg_do_pack J (Some buf) inode_of h items dir fd s = Ok (0, h2, s4)"
    using 1(1) fin by (simp add: abootimg_do_pack_def folds ctx s2_def h2_def s4_def Let_def)
  have o4: "out_state (snd (lseek_set fd 0 s4)) fd e c4 0"
    using out_state_seek [of s4 fd e c4 1660 0] 4 by (simp add: writing_def)
  obtain s5 where 5: "sys_read fd 1660 (snd (lseek_set fd 0 s4)) = (1660, h2, s5)" "out_state s5 fd e c4 1660"
    using out_state_read [OF o4, of 1660] t4 lens by auto
  obtain off' hash' s6 q6 where 6: "abootimg_hash_files (Some buf2) fd page (map (\<lambda>x. word_of_nat (length x)) xs) page
        (Ok (hash_context_init HASH_TYPE_SHA1)) s5 = (off', hash', s6)" "unat off' = lend" "sha1_fed (boot_stream xs) hash'"
    using abootimg_hash_files_ok [where buf = buf2, OF ps 5(2) fed0 h4 small] stream lend by (auto simp: folds)
  obtain ctx2 where ctx2: "hash' = Ok ctx2" "hash_absorbed HASH_TYPE_SHA1 (boot_stream xs) ctx2" using 6(3) by (auto simp: sha1_fed_def)
  obtain ctx3 where fin2: "hash_context_finish ctx2 128 = Ok (dgst, ctx3)"
    using hash_finish_ok [OF ctx2(2) stream, of 128] by (auto simp: dgst_def)
  have "abootimg_detect (Some buf2) p fd (snd (lseek_set fd 0 s4)) = Ok (0, p\<lparr>boot_head := h2, boot_total_size := lend\<rparr>, s6)"
    using assms(7) 5(1) lens magic fields ver ps 6(1,2) ctx2(1) fin2 id used_sizes [OF ver, of h2] sizes
    by (simp add: abootimg_detect_def sizeof_hdr_eq Let_def)
  moreover have "content s4 e = c4" using 4 by (simp add: writing_def out_state_def)
  moreover have "\<forall>(st, x)\<in>set (layout (unat page) (unat page) xs). x \<noteq> [] \<longrightarrow> take (length x) (drop st c4) = x"
    using h4 by (auto simp: holds_def)
  ultimately show ?thesis unfolding folds using pack t4 by (auto simp: sizeof_hdr_eq)
qed

text \<open>One file named kernel.bin of three bytes, and no others.\<close>

definition boot_demo_cjson :: "string cjson" where
  "boot_demo_cjson =
     \<lparr>cJSON_GetObjectItem = (\<lambda>j n. None), cJSON_IsString = (\<lambda>j. True), cJSON_IsNumber = (\<lambda>j. False), cJSON_IsArray = (\<lambda>j. False),
      cJSON_GetStringValue = Some, cJSON_GetNumberValue = (\<lambda>j. 0), cJSON_ArrayItems = (\<lambda>j. []),
      cJSON_AddStringToObject = (\<lambda>j n v. None), cJSON_SetItemString = (\<lambda>j n v. j),
      cJSON_AddStringsToObject = (\<lambda>j n vs. None), cJSON_CreateObject = None, cJSON_AddItemsToObject = (\<lambda>j n vs. None)\<rparr>"

definition boot_demo_hdr :: bytes where
  "boot_demo_hdr = store_at 36 (le32 2048) (replicate sizeof_hdr 0)"

theorem abootimg_pack_detect_witness:
  "\<exists>h' c' s' s''. abootimg_do_pack boot_demo_cjson (Some (\<lambda>_. 0))
      (\<lambda>n. if n = ''d/kernel.bin'' then Some 1 else None) boot_demo_hdr [ABOOTIMG_KERNEL] ''d'' 0
      ((one_file_sys [])\<lparr>inodes := [[], [1, 2, 3]]\<rparr>) = Ok (0, h', s') \<and>
    content s' 0 = c' \<and> take (length [1, 2, 3 :: u8]) (drop 2048 c') = [1, 2, 3] \<and>
    abootimg_detect (Some (\<lambda>_. 0)) \<lparr>boot_head = replicate sizeof_hdr 0, boot_total_size = 0\<rparr> 0 (snd (lseek_set 0 0 s')) =
      Ok (0, \<lparr>boot_head = h', boot_total_size = 4096\<rparr>, s'')"
proof -
  let ?s = "(one_file_sys [])\<lparr>inodes := [[], [1, 2, 3]]\<rparr>"
  let ?files = "\<lambda>n. if n = ABOOTIMG_KERNEL then Some [1, 2, 3 :: u8] else None"
  have w: "writing ?s 0 0 0 [[], [1, 2, 3]] [] 0"
    by (simp add: writing_def out_state_def sys_ok_def one_file_sys_def ofd_of_def content_def demo_gd_def list_all_iff)
  define z :: bytes where "z = replicate sizeof_hdr 0"
  have z: "length z = 1660" "take 4 (drop 40 z) = le32 0"
  proof -
    have "min 4 (sizeof_hdr - 40) = 4" by (simp add: sizeof_hdr_eq)
    then have "take 4 (drop 40 z) = replicate 4 0" unfolding z_def drop_replicate take_replicate by (rule arg_cong)
    moreover have "(4 :: nat) = Suc (Suc (Suc (Suc 0)))" by simp
    then have "le32 0 = replicate 4 0" by (simp only: le32_def) simp
    ultimately show "take 4 (drop 40 z) = le32 0" by (rule trans [OF _ sym])
  qed (simp only: z_def length_replicate sizeof_hdr_eq)
  have hdr: "boot_demo_hdr = store_at 36 (le32 2048) z" by (simp add: boot_demo_hdr_def z_def)
  have len: "length boot_demo_hdr = sizeof_hdr" by (simp add: hdr length_store_at z sizeof_hdr_eq)
  have page: "hdr_u32 ''page_size'' boot_demo_hdr = 2048"
    using store_at_same [of 36 "le32 2048" z] z by (simp add: hdr_u32_def get_le_def hdr le_fields_decode)
  have "take 4 (drop 40 boot_demo_hdr) = le32 0" using store_at_other [of 36 "le32 2048" z 40 4] z by (simp add: hdr)
  then have ver: "hdr_u32 ''header_version'' boot_demo_hdr = 0" by (simp add: hdr_u32_def get_le_def le_fields_decode)
  have good: "good_page_size (hdr_u32 ''page_size'' boot_demo_hdr)" by (simp add: page good_page_size_def)
  have used: "used_files 0 abootimg_files = take 3 abootimg_files" by (simp add: used_files_def abootimg_files_def)
  have src: "\<forall>a\<in>set (used_files 0 abootimg_files). boot_source boot_demo_cjson (\<lambda>n. if n = ''d/kernel.bin'' then Some 1 else None)
      [ABOOTIMG_KERNEL] ''d'' [[], [1, 2, 3]] 0 ?files (bf_name a)"
    by (simp add: used abootimg_files_def boot_source_def boot_demo_cjson_def path_in_def snprintf_s_def ABOOTIMG_KERNEL_def
        ABOOTIMG_RAMDISK_def ABOOTIMG_SECOND_def)
  have sl: "slots 0 ?files abootimg_files = [[1, 2, 3], [], []]"
    by (simp add: slots_def used_files_def abootimg_files_def ABOOTIMG_KERNEL_def ABOOTIMG_RAMDISK_def ABOOTIMG_SECOND_def)
  have lay: "layout_end 2048 2048 [[1, 2, 3], [], []] = 4096" by (simp add: align_up_def)
  show ?thesis
    using abootimg_pack_detect [where files = ?files and J = boot_demo_cjson and dir = "''d''" and items = "[ABOOTIMG_KERNEL]" and
        inode_of = "\<lambda>n. if n = ''d/kernel.bin'' then Some 1 else None" and buf = "\<lambda>_. 0" and ?buf2.0 = "\<lambda>_. 0" and
        p = "\<lparr>boot_head = replicate sizeof_hdr 0, boot_total_size = 0\<rparr>", OF w len good] src
    by (auto simp: page ver sl lay simp del: layout_end.simps)
qed

end
