(* ===== verification/Fdt.thy ===== *)
theory Fdt
  imports Files Strings Structure Crc
begin

text \<open>
  The device tree editor and the FIT editor on top of it (fdt/fdt.c, fdt/fdt\_export.h): reading a flattened tree, looking up
  and changing its nodes, printing it as source text, overlays, and taking a FIT image apart. A node is a value with the list
  of its children, and a pointer to a node is the path of indices that leads to it from the root. What is printed is the
  returned text. An access outside the blob or a property is \<open>Oob\<close>. Allocating a node succeeds; what goes to the error output
  is left out.
\<close>

section \<open>Names and flattened structures\<close>

definition FDT_SYMBOLS_NAME :: string where "FDT_SYMBOLS_NAME = ''__symbols__''"
definition FDT_SYMBOLS_FIXUP :: string where "FDT_SYMBOLS_FIXUP = ''__fixups__''"
definition FDT_SYMBOLS_LOCAL_FIXUPS :: string where "FDT_SYMBOLS_LOCAL_FIXUPS = ''__local_fixups__''"
definition FDT_SYMBOLS_OVERLAY :: string where "FDT_SYMBOLS_OVERLAY = ''__overlay__''"
definition FDT_ALIASES_NAME :: string where "FDT_ALIASES_NAME = ''aliases''"

definition FDT_DTBO_EXTERN_PHANDLE_MAGIC :: u32 where "FDT_DTBO_EXTERN_PHANDLE_MAGIC = 0xdeadb"
definition FDT_DTBO_EXTERN_PHANDLE_START :: u32 where
  "FDT_DTBO_EXTERN_PHANDLE_START = push_bit 12 FDT_DTBO_EXTERN_PHANDLE_MAGIC"

definition phandle_is_dtbo_extern :: "u32 \<Rightarrow> bool" where
  "phandle_is_dtbo_extern phandle \<longleftrightarrow> drop_bit 12 phandle = FDT_DTBO_EXTERN_PHANDLE_MAGIC"

definition FDT_EDITOR_MAX_DTB_SIZE :: u32 where "FDT_EDITOR_MAX_DTB_SIZE = 64 * 2 ^ 20"
definition FDT_MAGIC :: u32 where "FDT_MAGIC = 0xd00dfeed"
definition FDT_BEGIN_NODE :: u32 where "FDT_BEGIN_NODE = 1"
definition FDT_END_NODE :: u32 where "FDT_END_NODE = 2"
definition FDT_PROP :: u32 where "FDT_PROP = 3"
definition FDT_NOP :: u32 where "FDT_NOP = 4"
definition FDT_END :: u32 where "FDT_END = 9"
definition FDT_MAX_DEPTH :: nat where "FDT_MAX_DEPTH = 32"

text \<open>A big endian number in bytes that are there, and one that may be behind the end.\<close>

definition get_be32 :: "nat \<Rightarrow> bytes \<Rightarrow> u32" where
  "get_be32 off b = word_of_nat (be_decode (take 4 (drop off b)))"

definition be32_at :: "bytes \<Rightarrow> nat \<Rightarrow> u32 cres" where
  "be32_at b off = (if off + 4 \<le> length b then Ok (get_be32 off b) else Oob)"

definition c_string_at :: "bytes \<Rightarrow> nat \<Rightarrow> string cres" where
  "c_string_at b off = (if (0 :: u8) \<in> set (drop off b) then Ok (string_of_bytes (drop off b)) else Oob)"

text \<open>The offsets in \<open>struct fdt_header\<close>, all of whose members are 32 bit numbers.\<close>

definition fdt_header :: "string list" where
  "fdt_header = [''magic'', ''totalsize'', ''off_dt_struct'', ''off_dt_strings'', ''off_mem_rsvmap'', ''version'',
     ''last_comp_version'', ''boot_cpuid_phys'', ''size_dt_strings'', ''size_dt_struct'']"

definition hdr_member :: "string \<Rightarrow> nat" where
  "hdr_member name = 4 * length (takeWhile (\<lambda>n. n \<noteq> name) fdt_header)"

definition structure_fdt_header :: "'j structure_item list" where
  "structure_fdt_header =
     map (\<lambda>n. \<lparr>item_name = n, item_offset = hdr_member n, item_size = 4, item_print = Print_be_xunsigned,
            item_save_json = None, item_load_json = None, item_flags = 0\<rparr>) (List.tl fdt_header)"

definition aligned4 :: "nat \<Rightarrow> nat" where
  "aligned4 n = (n + 3) div 4 * 4"

section \<open>The tree\<close>

datatype device_node =
  Device_Node (node_name: string) (node_label: string) (is_node: bool) (node_data: bytes) (node_child: "device_node list")

primrec set_label :: "string \<Rightarrow> device_node \<Rightarrow> device_node" where
  "set_label l (Device_Node nm lb isn d cs) = Device_Node nm l isn d cs"

primrec set_data :: "bytes \<Rightarrow> device_node \<Rightarrow> device_node" where
  "set_data b (Device_Node nm lb isn d cs) = Device_Node nm lb isn b cs"

primrec set_child :: "device_node list \<Rightarrow> device_node \<Rightarrow> device_node" where
  "set_child c (Device_Node nm lb isn d cs) = Device_Node nm lb isn d c"

definition new_device_node :: "string \<Rightarrow> bytes \<Rightarrow> device_node" where
  "new_device_node name data = Device_Node (snprintf_s 64 name) [] False data []"

definition add_child :: "device_node \<Rightarrow> device_node \<Rightarrow> device_node" where
  "add_child c n = set_child (node_child n @ [c]) n"

text \<open>The node at a path of indices, and the tree with that node changed, or removed.\<close>

fun node_at :: "device_node \<Rightarrow> nat list \<Rightarrow> device_node" where
  "node_at n [] = n"
| "node_at n (i # is) = node_at (node_child n ! i) is"

fun update_at :: "(device_node \<Rightarrow> device_node) \<Rightarrow> device_node \<Rightarrow> nat list \<Rightarrow> device_node" where
  "update_at f n [] = f n"
| "update_at f n (i # is) = set_child ((node_child n)[i := update_at f (node_child n ! i) is]) n"

definition device_node_delete :: "device_node \<Rightarrow> nat list \<Rightarrow> device_node" where
  "device_node_delete root a =
     update_at (\<lambda>n. set_child (take (last a) (node_child n) @ drop (last a + 1) (node_child n)) n) root (butlast a)"

section \<open>Looking up\<close>

definition device_node_find_byname :: "device_node \<Rightarrow> string \<Rightarrow> nat option" where
  "device_node_find_byname root name =
     (let i = length (takeWhile (\<lambda>n. node_name n \<noteq> name) (node_child root))
      in if i < length (node_child root) then Some i else None)"

definition device_node_read_u32 :: "device_node \<Rightarrow> u32 option" where
  "device_node_read_u32 n = (if length (node_data n) \<noteq> 4 then None else Some (get_be32 0 (node_data n)))"

definition device_node_match_phandle :: "device_node \<Rightarrow> u32 \<Rightarrow> bool" where
  "device_node_match_phandle n phandle \<longleftrightarrow>
     list_ex (\<lambda>p. node_name p = ''phandle'' \<and> device_node_read_u32 p = Some phandle) (node_child n)"

text \<open>The search among the children from the i-th on.\<close>

fun search_phandle_from :: "nat \<Rightarrow> device_node list \<Rightarrow> u32 \<Rightarrow> nat list option" where
  "search_phandle_from i [] phandle = None"
| "search_phandle_from i (Device_Node nm lb isn d cs # ns) phandle =
     (if device_node_match_phandle (Device_Node nm lb isn d cs) phandle then Some [i]
      else case (if cs = [] then None else search_phandle_from 0 cs phandle) of
          Some a \<Rightarrow> Some (i # a)
        | None \<Rightarrow> search_phandle_from (i + 1) ns phandle)"

definition device_node_search_phandle :: "device_node \<Rightarrow> u32 \<Rightarrow> nat list option" where
  "device_node_search_phandle root phandle = search_phandle_from 0 (node_child root) phandle"

text \<open>The components that \<open>argv_buffer_split_with_delim\<close> stores into a vector of \<open>FDT_MAX_DEPTH\<close> elements.\<close>

definition path_argv :: "string \<Rightarrow> string list" where
  "path_argv path = argv_split_loop (FDT_MAX_DEPTH - 1) ''/'' path"

fun find_byargv :: "device_node \<Rightarrow> string list \<Rightarrow> nat list option" where
  "find_byargv root [] = Some []"
| "find_byargv root (name # argv) =
     (case device_node_find_byname root name of
        None \<Rightarrow> None
      | Some i \<Rightarrow> map_option (\<lambda>a. i # a) (find_byargv (node_child root ! i) argv))"

definition device_node_find_bypath :: "device_node \<Rightarrow> string \<Rightarrow> nat list option" where
  "device_node_find_bypath root path = find_byargv root (path_argv path)"

definition device_node_read_u32_prop :: "device_node \<Rightarrow> string \<Rightarrow> u32 option" where
  "device_node_read_u32_prop n propname =
     (case device_node_find_byname n propname of
        None \<Rightarrow> None
      | Some i \<Rightarrow> if is_node (node_child n ! i) then None else device_node_read_u32 (node_child n ! i))"

definition device_node_delete_bypath :: "device_node \<Rightarrow> string \<Rightarrow> int \<times> device_node" where
  "device_node_delete_bypath root path =
     (case device_node_find_bypath root path of None \<Rightarrow> (-1, root) | Some a \<Rightarrow> (0, device_node_delete root a))"

section \<open>Reading a tree\<close>

record fdt_editor_private_data =
  dtb :: bytes
  totalsize :: u32
  fdt_root :: "device_node option"
  keep_symbols :: bool
  keep_aliases :: bool
  keep_phandle :: bool
  keep_fixups :: bool
  is_dtbo :: bool
  dtbo_extern :: "device_node option"

text \<open>Following the root pointer while it is NULL is a fault.\<close>

definition with_root :: "fdt_editor_private_data \<Rightarrow> (device_node \<Rightarrow> 'a cres) \<Rightarrow> 'a cres" where
  "with_root p f = (case fdt_root p of None \<Rightarrow> Oob | Some r \<Rightarrow> f r)"

text \<open>The text of a property, cut to a buffer.\<close>

definition prop_text :: "nat \<Rightarrow> device_node \<Rightarrow> string" where
  "prop_text bufsz n = snprintf_s bufsz (string_of_bytes (node_data n))"

definition fdt_load_symbols :: "device_node \<Rightarrow> device_node" where
  "fdt_load_symbols root =
     (case device_node_find_byname root FDT_SYMBOLS_NAME of
        None \<Rightarrow> root
      | Some i \<Rightarrow>
          foldl (\<lambda>r sym.
              case device_node_find_bypath r (prop_text 256 sym) of
                None \<Rightarrow> r
              | Some a \<Rightarrow> update_at (set_label (snprintf_s 64 (node_name sym))) r a)
            root (node_child (node_child root ! i)))"

text \<open>The nodes that are open, innermost first, closed into one tree.\<close>

fun close_all :: "device_node list \<Rightarrow> device_node option" where
  "close_all [] = None"
| "close_all [n] = Some n"
| "close_all (n # m # ns) = close_all (add_child n m # ns)"

text \<open>The last tree: the one that is open, or the one that was closed last.\<close>

definition last_tree :: "device_node list \<Rightarrow> device_node option \<Rightarrow> device_node option" where
  "last_tree stack closed = (if stack = [] then closed else close_all stack)"

text \<open>
  One property: the length of its data with the padding, and the node. Its name is cut to the node; a length that is negative
  copies far behind the blob.
\<close>

definition fdt_read_prop :: "bytes \<Rightarrow> nat \<Rightarrow> (nat \<times> device_node) cres" where
  "fdt_read_prop blob off =
     cbind (be32_at blob (off + 4)) (\<lambda>len. cbind (be32_at blob (off + 8)) (\<lambda>nameoff.
       cbind (be32_at blob (hdr_member ''off_dt_strings'')) (\<lambda>strings.
         cbind (c_string_at blob (unat nameoff + unat strings)) (\<lambda>name.
           if sint len < 0 \<or> off + 12 + unat len > length blob then Oob
           else Ok (aligned4 (unat len), new_device_node name (take (unat len) (drop (off + 12) blob)))))))"

function fdt_unflatten_loop ::
    "bytes \<Rightarrow> nat \<Rightarrow> device_node list \<Rightarrow> device_node option \<Rightarrow> (int \<times> device_node option) cres" where
  "fdt_unflatten_loop blob off stack closed =
     (if off + 4 > length blob then Oob
      else
        let tag = get_be32 off blob
        in if tag = FDT_END then Ok (0, last_tree stack closed)
           else if tag = FDT_BEGIN_NODE then
             (case c_string_at blob (off + 4) of
                Ok name \<Rightarrow>
                  if length stack + 1 \<ge> FDT_MAX_DEPTH then Ok (-1, last_tree stack closed)
                  else
                    let n = new_device_node (if name = [] then ''/'' else name) [];
                        n' = Device_Node (node_name n) [] True [] []
                    in fdt_unflatten_loop blob (off + 4 + aligned4 (length name + 1)) (n' # stack) closed
              | Oob \<Rightarrow> Oob
              | NoFuel \<Rightarrow> NoFuel)
           else if tag = FDT_NOP then fdt_unflatten_loop blob (off + 4) stack closed
           else if tag = FDT_PROP then
             (case fdt_read_prop blob off of
                Ok (datasz, prop) \<Rightarrow>
                  fdt_unflatten_loop blob (off + 12 + datasz)
                    (case stack of [] \<Rightarrow> [] | n # ns \<Rightarrow> add_child prop n # ns) closed
              | Oob \<Rightarrow> Oob
              | NoFuel \<Rightarrow> NoFuel)
           else if tag = FDT_END_NODE then
             (case stack of
                [] \<Rightarrow> Ok (-1, last_tree stack closed)
              | [n] \<Rightarrow> fdt_unflatten_loop blob (off + 4) [] (Some n)
              | n # m # ns \<Rightarrow> fdt_unflatten_loop blob (off + 4) (add_child n m # ns) closed)
           else Ok (-1, last_tree stack closed))"
  by pat_completeness auto

termination
  by (relation "measure (\<lambda>(blob, off, stack, closed). length blob - off)") auto

declare fdt_unflatten_loop.simps [simp del]

definition fdt_unflatten :: "fdt_editor_private_data \<Rightarrow> (int \<times> fdt_editor_private_data) cres" where
  "fdt_unflatten p =
     cbind (be32_at (dtb p) (hdr_member ''off_dt_struct''))
       (\<lambda>off. cbind (fdt_unflatten_loop (dtb p) (unat off) [] (fdt_root p))
         (\<lambda>(ret, tree).
            if ret < 0 then Ok (ret, p\<lparr>fdt_root := tree\<rparr>)
            else case tree of
                None \<Rightarrow> Oob
              | Some root \<Rightarrow> Ok (0, p\<lparr>fdt_root := Some (fdt_load_symbols root)\<rparr>)))"

text \<open>\<open>old\<close> is what the 40 bytes on the stack are, \<open>mem\<close> what \<open>malloc\<close> returned; a short read leaves the rest as it was.\<close>

definition fdt_detect ::
    "bytes \<Rightarrow> bytes option \<Rightarrow> fdt_editor_private_data \<Rightarrow> int \<Rightarrow> sys \<Rightarrow> (int \<times> fdt_editor_private_data \<times> sys) cres" where
  "fdt_detect old mem p fd s =
     (let (ret, data, s1) = sys_read fd 40 s;
          hdr = take 40 (data @ drop (length data) old);
          size = get_be32 (hdr_member ''totalsize'') hdr; p1 = p\<lparr>totalsize := size\<rparr>
      in if ret < 0 then Ok (ret, p, s1)
         else if get_be32 (hdr_member ''magic'') hdr \<noteq> FDT_MAGIC then Ok (-1, p, s1)
         else if size = 0 then Ok (-1, p1, s1)
         else if size > FDT_EDITOR_MAX_DTB_SIZE then Ok (-1, p1, s1)
         else if get_be32 (hdr_member ''off_dt_strings'') hdr > FDT_EDITOR_MAX_DTB_SIZE then Ok (-1, p1, s1)
         else if get_be32 (hdr_member ''off_dt_struct'') hdr > FDT_EDITOR_MAX_DTB_SIZE then Ok (-1, p1, s1)
         else if get_be32 (hdr_member ''off_mem_rsvmap'') hdr > FDT_EDITOR_MAX_DTB_SIZE then Ok (-1, p1, s1)
         else case mem of
             None \<Rightarrow> Ok (-1, p1, s1)
           | Some garbage \<Rightarrow>
               let s2 = snd (fileseek fd 0 s1);
                   (ret2, blob, s3) = sys_read fd (unat size) s2;
                   p2 = p1\<lparr>dtb := take (unat size) (blob @ drop (length blob) garbage)\<rparr>
               in if ret2 < 0 then Ok (ret2, p1\<lparr>dtb := take (unat size) garbage\<rparr>, s3)
                  else cbind (fdt_unflatten p2) (\<lambda>(ret3, p3). Ok (ret3, p3, s3)))"

definition fit_detect ::
    "bytes \<Rightarrow> bytes option \<Rightarrow> fdt_editor_private_data \<Rightarrow> bool \<Rightarrow> int \<Rightarrow> sys \<Rightarrow> (int \<times> fdt_editor_private_data \<times> sys) cres" where
  "fit_detect old mem p force_type fd s = (if \<not> force_type then Ok (-1, p, s) else fdt_detect old mem p fd s)"

definition fdt_get_total_size :: "fdt_editor_private_data \<Rightarrow> int" where
  "fdt_get_total_size p = int (unat (totalsize p))"

section \<open>Printing a property\<close>

text \<open>A print function returns 0 and the text, or -1 when the property is not of its kind, and prints nothing then.\<close>

definition fdt_prop_print_multi_strings :: "bytes \<Rightarrow> int \<times> string" where
  "fdt_prop_print_multi_strings ms =
     (let sz = length ms
      in if hd ms = 0 \<or> last ms \<noteq> 0 then (-1, [])
         else if list_ex (\<lambda>i. if ms ! i = 0 then i \<noteq> sz - 1 \<and> ms ! (i + 1) = 0 else \<not> isprint (ms ! i)) [0..<sz] then (-1, [])
         else (0, '' = '' @ [quote]
                @ concat (map (\<lambda>i. if ms ! i = 0 then quote # (if i = sz - 1 then '';'' else '', '' @ [quote])
                                   else [char_of (unat (ms ! i))]) [0..<sz])))"

text \<open>\<open>strncmp(s, prefix, ...) == 0\<close>, which does not look behind a zero; the data end may come before both.\<close>

definition has_prefix :: "bytes \<Rightarrow> bytes \<Rightarrow> bool cres" where
  "has_prefix pre data =
     (if length data < length pre \<and> data = take (length data) pre then Oob else Ok (take (length pre) data = pre))"

definition fdt_prop_print_simple_value :: "bool \<Rightarrow> bytes \<Rightarrow> (int \<times> string) cres" where
  "fdt_prop_print_simple_value incbin data =
     (if data = [] then Ok (0, '';'')
      else cbind (if incbin then has_prefix (bytes_of_string ''/incbin/'') data else Ok False)
        (\<lambda>inc. if inc \<and> last data = 0 then Ok (0, '' = '' @ string_of_bytes data @ '';'')
               else Ok (fdt_prop_print_multi_strings data)))"

definition fdt_prop_number_array_detect_base :: "u32 list \<Rightarrow> nat" where
  "fdt_prop_number_array_detect_base arrays =
     (let base10 = length (filter (\<lambda>n. n \<le> 10 \<or> n mod 10 = 0) arrays); base16 = length arrays - base10
      in if base16 > base10 then 16 else 10)"

definition fdt_prop_print_number_autobase :: "u32 \<Rightarrow> nat \<Rightarrow> string" where
  "fdt_prop_print_number_autobase n base =
     (if base = 10 \<or> base \<noteq> 16 \<and> (n \<le> 10 \<or> n mod 10 = 0) then fmt_d n
      else if n > 0xffffff then fmt_0x 8 (unat n)
      else if n > 0xffff then fmt_0x 6 (unat n)
      else if n > 0xfff then fmt_0x 4 (unat n)
      else if n > 0xff then fmt_0x 3 (unat n)
      else if n > 0xf then fmt_0x 2 (unat n)
      else fmt_0x 0 (unat n))"

definition cells_of :: "bytes \<Rightarrow> u32 list" where
  "cells_of data = map (get_be32 0) (elements (length data div 4) 4 data)"

definition striped_note :: "nat \<Rightarrow> bool \<Rightarrow> string" where
  "striped_note sz striped = (if striped then ''... (total = '' @ dec_string sz @ '')'' else [])"

definition fdt_prop_print_simple_number :: "bytes \<Rightarrow> int \<times> string" where
  "fdt_prop_print_simple_number data =
     (let sz = length data
      in if sz mod 4 = 0 then
           let maxsz = min 32 (sz div 4); ns = take maxsz (cells_of data); base = fdt_prop_number_array_detect_base ns
           in (0, '' = <''
                 @ concat (map (\<lambda>i. fdt_prop_print_number_autobase (ns ! i) base @ (if i \<noteq> maxsz - 1 then '' '' else [])) [0..<maxsz])
                 @ striped_note sz (sz div 4 > 32) @ ''>;'')
         else
           let maxsz = min 32 sz
           in (0, '' = [''
                 @ concat (map (\<lambda>i. fmt_0x 2 (unat (data ! i)) @ (if i \<noteq> sz - 1 then '' '' else [])) [0..<maxsz])
                 @ striped_note sz (sz > 32) @ ''];''))"

definition string_arrays_index :: "string list \<Rightarrow> string \<Rightarrow> int" where
  "string_arrays_index arrays s =
     (let i = length (takeWhile (\<lambda>a. a \<noteq> s) arrays) in if i < length arrays then int i else -1)"

definition fdt_u32_prop_lists :: "string list" where
  "fdt_u32_prop_lists =
     [''#address-cells'', ''#clock-cells'', ''#cooling-cells'', ''#dma-cells'', ''#gpio-cells'', ''#interrupt-cells'',
      ''#phy-cells'', ''#pwm-cells'', ''#reset-cells'', ''#size-cells'']"

definition fdt_prop_print_u32_number :: "string \<Rightarrow> bytes \<Rightarrow> int \<times> string" where
  "fdt_prop_print_u32_number propname data =
     (if length data \<noteq> 4 then (-1, [])
      else if string_arrays_index fdt_u32_prop_lists propname < 0 then (-1, [])
      else (0, '' = <'' @ fmt_d (get_be32 0 data) @ ''>;''))"

definition fdt_prop_print_reg :: "string \<Rightarrow> bytes \<Rightarrow> int \<times> string" where
  "fdt_prop_print_reg propname data =
     (if propname \<noteq> ''reg'' \<or> length data mod 4 \<noteq> 0 then (-1, [])
      else
        let ns = cells_of data
        in (0, '' = <''
              @ concat (map (\<lambda>i. fdt_prop_print_number_autobase (ns ! i) (if ns ! i \<le> 10 then 10 else 16)
                               @ (if i \<noteq> length ns - 1 then '' '' else [])) [0..<length ns])
              @ ''>;''))"

section \<open>References to other nodes\<close>

definition device_node_read_cells :: "device_node \<Rightarrow> string \<Rightarrow> u32 option" where
  "device_node_read_cells n cell_name =
     Option.bind (device_node_find_byname n cell_name) (\<lambda>i. device_node_read_u32 (node_child n ! i))"

text \<open>The cells in front of the next reference; the cell is read before the end of the property is looked at.\<close>

fun count_cells :: "bytes \<Rightarrow> u32 cres" where
  "count_cells (a # b # c # d # rest) =
     (if phandle_is_dtbo_extern (get_be32 0 [a, b, c, d]) then Ok 0 else cbind (count_cells rest) (\<lambda>n. Ok (n + 1)))"
| "count_cells _ = Oob"

text \<open>
  One reference at the start of \<open>bs\<close>: the status, its text, and the bytes behind it and its cells. \<open>cell_size * 4\<close> has 32
  bits, so a huge number of cells leaves the property.
\<close>

definition print_reference ::
    "fdt_editor_private_data \<Rightarrow> string option \<Rightarrow> device_node \<Rightarrow> u32 \<Rightarrow> bytes \<Rightarrow> (int \<times> string \<times> bytes) cres" where
  "print_reference p cell_name target cell_size0 bs =
     (if node_label target = [] then Ok (-1, [], bs)
      else
        let cells = (if \<not> is_dtbo p then (case cell_name of None \<Rightarrow> Some cell_size0 | Some c \<Rightarrow> device_node_read_cells target c)
                     else Some cell_size0)
        in case cells of
             None \<Rightarrow> Ok (-1, [], bs)
           | Some cell_size \<Rightarrow>
               if unat (cell_size * 4) > length bs then Ok (-1, [], bs)
               else if 4 * unat cell_size > length bs then Oob
               else Ok (0, ''<&'' @ node_label target
                 @ concat (map (\<lambda>e. let n = get_be32 0 e in if n = 0xffffffff then '' (~0)'' else '' '' @ dec_string (unat n))
                     (elements (unat cell_size) 4 bs)),
                   drop (4 * unat cell_size) bs))"

definition phandles_step ::
    "fdt_editor_private_data \<Rightarrow> string option \<Rightarrow> u32 \<Rightarrow> bytes \<Rightarrow> (int \<times> string \<times> bytes) cres" where
  "phandles_step p cell_name fix_cell_size data =
     (let phandle = get_be32 0 data; bs = drop 4 data
      in if phandle = 0 then Ok (0, ''<0'', bs)
         else with_root p (\<lambda>root.
           case device_node_search_phandle root phandle of
             Some a \<Rightarrow> print_reference p cell_name (node_at root a) fix_cell_size bs
           | None \<Rightarrow>
               (case (if is_dtbo p then dtbo_extern p else None) of
                  None \<Rightarrow> Ok (-1, [], bs)
                | Some ext \<Rightarrow>
                    (case device_node_search_phandle ext phandle of
                       None \<Rightarrow> Ok (-1, [], bs)
                     | Some a \<Rightarrow>
                         if fix_cell_size \<noteq> 0 then print_reference p cell_name (node_at ext a) fix_cell_size bs
                         else cbind (count_cells bs) (\<lambda>n. print_reference p cell_name (node_at ext a) n bs)))))"

lemma print_reference_rest: "print_reference p cn t c bs = Ok (ret, txt, rest) \<Longrightarrow> length rest \<le> length bs"
  by (auto simp: print_reference_def Let_def split: if_splits option.splits)

lemma phandles_step_rest:
  "phandles_step p cn fix data = Ok (ret, txt, rest) \<Longrightarrow> 4 \<le> length data \<Longrightarrow> length rest < length data"
  by (auto simp: phandles_step_def with_root_def Let_def cbind_eq_Ok split: if_splits option.splits dest!: print_reference_rest)

text \<open>The loop over the references; without \<open>check_only\<close> it prints them.\<close>

function phandles_loop ::
    "fdt_editor_private_data \<Rightarrow> string option \<Rightarrow> u32 \<Rightarrow> bool \<Rightarrow> bytes \<Rightarrow> (int \<times> string) cres" where
  "phandles_loop p cell_name fix_cell_size check_only data =
     (if length data < 4 then Ok (0, [])
      else case phandles_step p cell_name fix_cell_size data of
          Ok (ret, txt, rest) \<Rightarrow>
            if ret < 0 then Ok (ret, [])
            else cbind (phandles_loop p cell_name fix_cell_size check_only rest)
              (\<lambda>(ret', txt').
                 Ok (ret', if check_only then txt' else txt @ ''>'' @ (if rest \<noteq> [] then '', '' else []) @ txt'))
        | Oob \<Rightarrow> Oob
        | NoFuel \<Rightarrow> NoFuel)"
  by pat_completeness auto

termination
  by (relation "measure (\<lambda>(p, cell_name, fix_cell_size, check_only, data). length data)")
     (auto intro: phandles_step_rest)

declare phandles_loop.simps [simp del]

definition fdt_do_print_phandles ::
    "fdt_editor_private_data \<Rightarrow> string option \<Rightarrow> u32 \<Rightarrow> bytes \<Rightarrow> (int \<times> string) cres" where
  "fdt_do_print_phandles p cell_name fix_cell_size data =
     (if length data < 4 then Ok (-1, [])
      else cbind (phandles_loop p cell_name fix_cell_size True data)
        (\<lambda>(ret, _).
           if ret < 0 then Ok (ret, [])
           else cbind (phandles_loop p cell_name fix_cell_size False data)
             (\<lambda>(ret', txt). if ret' < 0 then Ok (ret', '' = '' @ txt) else Ok (0, '' = '' @ txt @ '';''))))"

definition fdt_prop_print_phandles ::
    "fdt_editor_private_data \<Rightarrow> string \<Rightarrow> string option \<Rightarrow> u32 \<Rightarrow> string \<Rightarrow> bytes \<Rightarrow> (int \<times> string) cres" where
  "fdt_prop_print_phandles p type_name cell_name fix_cell_size propname data =
     (if type_name \<noteq> propname then Ok (-1, []) else fdt_do_print_phandles p cell_name fix_cell_size data)"

definition string_ending_in :: "string \<Rightarrow> string \<Rightarrow> bool" where
  "string_ending_in s match \<longleftrightarrow> length s > length match \<and> drop (length s - length match) s = match"

definition fdt_prop_print_gpios :: "fdt_editor_private_data \<Rightarrow> string \<Rightarrow> bytes \<Rightarrow> (int \<times> string) cres" where
  "fdt_prop_print_gpios p propname data =
     (if propname = ''gpio'' \<or> propname = ''gpios'' \<or> string_ending_in propname ''-gpio'' \<or> string_ending_in propname ''-gpios''
      then fdt_do_print_phandles p (Some ''#gpio-cells'') 0 data
      else Ok (-1, []))"

definition fdt_prop_print_pinctrl :: "fdt_editor_private_data \<Rightarrow> string \<Rightarrow> bytes \<Rightarrow> (int \<times> string) cres" where
  "fdt_prop_print_pinctrl p propname data =
     (if take 8 propname \<noteq> ''pinctrl-'' then Ok (-1, [])
      else if snd (strtol 10 (drop 8 propname)) \<noteq> [] then Ok (-1, [])
      else fdt_do_print_phandles p None 0 data)"

definition fdt_prop_print_supply :: "fdt_editor_private_data \<Rightarrow> string \<Rightarrow> bytes \<Rightarrow> (int \<times> string) cres" where
  "fdt_prop_print_supply p propname data =
     (if \<not> string_ending_in propname ''-supply'' then Ok (-1, []) else fdt_do_print_phandles p None 0 data)"

text \<open>The first of the functions that prints the property.\<close>

fun first_print :: "(unit \<Rightarrow> (int \<times> string) cres) list \<Rightarrow> (int \<times> string) cres" where
  "first_print [] = Ok (-1, [])"
| "first_print (f # fs) =
     cbind (f ()) (\<lambda>(ret, txt). if ret = 0 then Ok (ret, txt) else cbind (first_print fs) (\<lambda>(ret', txt'). Ok (ret', txt @ txt')))"

definition phandles_with_cell :: "(string \<times> string) list" where
  "phandles_with_cell =
     [(''clocks'', ''#clock-cells''), (''dmas'', ''#dma-cells''), (''resets'', ''#reset-cells''), (''phys'', ''#phy-cells''),
      (''pwms'', ''#pwm-cells''), (''thermal-sensors'', ''#thermal-sensor-cells''), (''cooling-device'', ''#cooling-cells''),
      (''interconnects'', ''#interconnect-cells''), (''power-domains'', ''#power-domain-cells'')]"

definition fdt_prop_print_phandle_with_cells :: "fdt_editor_private_data \<Rightarrow> string \<Rightarrow> bytes \<Rightarrow> (int \<times> string) cres" where
  "fdt_prop_print_phandle_with_cells p propname data =
     first_print (map (\<lambda>(name, cell) _. fdt_prop_print_phandles p name (Some cell) 0 propname data) phandles_with_cell)"

definition fdt_prop_print_phandle_fix_cells :: "fdt_editor_private_data \<Rightarrow> string \<Rightarrow> bytes \<Rightarrow> (int \<times> string) cres" where
  "fdt_prop_print_phandle_fix_cells p propname data =
     first_print (map (\<lambda>(name, n) _. fdt_prop_print_phandles p name None n propname data) [(''allwinner,sram'', 1)])"

definition phandles_nocells :: "string list" where
  "phandles_nocells =
     [''phy'', ''allwinner,pipelines'', ''interrupt-parent'', ''trip'', ''remote-endpoint'', ''interrupt-affinity'',
      ''operating-points-v2'', ''syscon'', ''cpu-idle-states'']"

definition fdt_prop_print_phandle_nocells :: "fdt_editor_private_data \<Rightarrow> string \<Rightarrow> bytes \<Rightarrow> (int \<times> string) cres" where
  "fdt_prop_print_phandle_nocells p propname data =
     (if string_arrays_index phandles_nocells propname < 0 then Ok (-1, []) else fdt_do_print_phandles p None 0 data)"

section \<open>Printing the tree\<close>

definition indent :: "nat \<Rightarrow> string" where
  "indent depth = replicate (depth * 4) (CHR '' '')"

text \<open>\<open>v\<close> is the verbose level, \<open>incbin\<close> the feature that the FIT editor turns on.\<close>

definition fdt_list_node_prop ::
    "int \<Rightarrow> bool \<Rightarrow> fdt_editor_private_data \<Rightarrow> device_node \<Rightarrow> nat \<Rightarrow> (int \<times> string) cres" where
  "fdt_list_node_prop v incbin p n depth =
     (let name = node_name n; data = node_data n
      in if name = ''phandle'' \<and> \<not> keep_phandle p then Ok (0, [])
         else cbind (first_print
             ([\<lambda>_. fdt_prop_print_simple_value incbin data,
               \<lambda>_. Ok (fdt_prop_print_u32_number name data),
               \<lambda>_. Ok (fdt_prop_print_reg name data)]
              @ (if v = 0
                 then [\<lambda>_. fdt_prop_print_phandle_nocells p name data, \<lambda>_. fdt_prop_print_gpios p name data,
                       \<lambda>_. fdt_prop_print_pinctrl p name data, \<lambda>_. fdt_prop_print_supply p name data,
                       \<lambda>_. fdt_prop_print_phandle_with_cells p name data, \<lambda>_. fdt_prop_print_phandle_fix_cells p name data]
                 else [])
              @ [\<lambda>_. Ok (fdt_prop_print_simple_number data)]))
           (\<lambda>(ret, txt). Ok (ret, indent depth @ name @ txt @ [newline])))"

text \<open>One alias: the label of the node it names, or the property as it is.\<close>

definition fdt_list_alias ::
    "int \<Rightarrow> bool \<Rightarrow> fdt_editor_private_data \<Rightarrow> device_node \<Rightarrow> nat \<Rightarrow> string cres" where
  "fdt_list_alias v incbin p n depth =
     with_root p (\<lambda>root.
       case device_node_find_bypath root (prop_text 256 n) of
         None \<Rightarrow> cbind (fdt_list_node_prop v incbin p n depth) (\<lambda>(_, txt). Ok txt)
       | Some a \<Rightarrow>
           let target = node_at root a
           in if node_label target = [] then cbind (fdt_list_node_prop v incbin p n depth) (\<lambda>(_, txt). Ok txt)
              else Ok (indent depth @ node_name n @ '' = &'' @ node_label target @ '';'' @ [newline]))"

definition fdt_list_alias_nodes ::
    "int \<Rightarrow> bool \<Rightarrow> fdt_editor_private_data \<Rightarrow> device_node list \<Rightarrow> nat \<Rightarrow> (int \<times> string) cres" where
  "fdt_list_alias_nodes v incbin p aliases depth =
     cbind (cmap (\<lambda>n. fdt_list_alias v incbin p n depth) aliases) (\<lambda>txts. Ok (0, concat txts))"

definition fdt_print_node_begin :: "string \<Rightarrow> string \<Rightarrow> nat \<Rightarrow> string" where
  "fdt_print_node_begin name label depth =
     [newline] @ indent depth @ (if label \<noteq> [] then label @ '': '' else []) @ name @ '' {'' @ [newline]"

definition fdt_print_reference_node_begin :: "device_node \<Rightarrow> nat \<Rightarrow> string" where
  "fdt_print_reference_node_begin n depth = [newline] @ indent depth @ ''&'' @ node_label n @ '' {'' @ [newline]"

definition fdt_print_node_end :: "nat \<Rightarrow> string" where
  "fdt_print_node_end depth = indent depth @ ''};'' @ [newline]"

definition fixup_nodes :: "string list" where
  "fixup_nodes = [FDT_SYMBOLS_FIXUP, FDT_SYMBOLS_LOCAL_FIXUPS]"

definition is_fragment :: "string \<Rightarrow> bool" where
  "is_fragment name \<longleftrightarrow> take 9 name = ''fragment@''"

definition hidden_node :: "fdt_editor_private_data \<Rightarrow> string \<Rightarrow> bool" where
  "hidden_node p name \<longleftrightarrow>
     \<not> keep_fixups p \<and> string_arrays_index fixup_nodes name \<ge> 0 \<or> is_dtbo p \<and> is_fragment name
       \<or> name = FDT_SYMBOLS_NAME \<and> \<not> keep_symbols p"

text \<open>Whether the aliases are shown as references: the tree has symbols.\<close>

definition aliases_by_label :: "fdt_editor_private_data \<Rightarrow> string \<Rightarrow> bool cres" where
  "aliases_by_label p name =
     (if name = FDT_ALIASES_NAME \<and> \<not> keep_symbols p
      then with_root p (\<lambda>root. Ok (device_node_find_byname root FDT_SYMBOLS_NAME \<noteq> None)) else Ok False)"

fun fdt_list_node :: "int \<Rightarrow> bool \<Rightarrow> fdt_editor_private_data \<Rightarrow> nat \<Rightarrow> device_node \<Rightarrow> (int \<times> string) cres"
  and fdt_list_childs :: "int \<Rightarrow> bool \<Rightarrow> fdt_editor_private_data \<Rightarrow> nat \<Rightarrow> int \<Rightarrow> device_node list \<Rightarrow> (int \<times> string) cres" where
  "fdt_list_node v incbin p depth (Device_Node nm lb isn d cs) =
     (if hidden_node p nm then Ok (0, [])
      else if \<not> isn \<and> cs = [] then fdt_list_node_prop v incbin p (Device_Node nm lb isn d cs) depth
      else cbind (aliases_by_label p nm)
        (\<lambda>by_label. cbind (if by_label then fdt_list_alias_nodes v incbin p cs (depth + 1)
                       else fdt_list_childs v incbin p (depth + 1) 0 cs)
          (\<lambda>(ret, txt).
             if \<not> by_label \<and> ret < 0 then Ok (ret, fdt_print_node_begin nm lb depth @ txt)
             else Ok (ret, fdt_print_node_begin nm lb depth @ txt @ fdt_print_node_end depth))))"
| "fdt_list_childs v incbin p depth ret [] = Ok (ret, [])"
| "fdt_list_childs v incbin p depth ret (dev # devs) =
     cbind (fdt_list_node v incbin p depth dev)
       (\<lambda>(r, txt).
          if r < 0 then Ok (r, txt)
          else cbind (fdt_list_childs v incbin p depth r devs) (\<lambda>(r', txt'). Ok (r', txt @ txt')))"

text \<open>One fragment of an overlay; the tree of external nodes is there.\<close>

definition fdt_list_fragment_node :: "int \<Rightarrow> fdt_editor_private_data \<Rightarrow> device_node \<Rightarrow> (int \<times> string) cres" where
  "fdt_list_fragment_node v p fragment =
     (case device_node_read_u32_prop fragment ''target'' of
        None \<Rightarrow> Ok (-1, [])
      | Some phandle \<Rightarrow>
          (case dtbo_extern p of
             None \<Rightarrow> Oob
           | Some ext \<Rightarrow>
               (case device_node_search_phandle ext phandle of
                  None \<Rightarrow> Ok (-1, [])
                | Some a \<Rightarrow>
                    (case device_node_find_byname fragment FDT_SYMBOLS_OVERLAY of
                       None \<Rightarrow> Ok (-1, [])
                     | Some i \<Rightarrow>
                         let overlay = node_child fragment ! i
                         in if \<not> is_node overlay then Ok (-1, [])
                            else cbind (fdt_list_childs v False p 1 0 (node_child overlay))
                              (\<lambda>(ret, txt).
                                 Ok (ret, fdt_print_reference_node_begin (node_at ext a) 0 @ txt @ fdt_print_node_end 0))))))"

fun fdt_list_fragments :: "int \<Rightarrow> fdt_editor_private_data \<Rightarrow> device_node list \<Rightarrow> (int \<times> string) cres" where
  "fdt_list_fragments v p [] = Ok (0, [])"
| "fdt_list_fragments v p (n # ns) =
     (if is_node n \<and> is_fragment (node_name n) then
        cbind (fdt_list_fragment_node v p n)
          (\<lambda>(ret, txt).
             if ret < 0 then Ok (ret, txt)
             else cbind (fdt_list_fragments v p ns) (\<lambda>(ret', txt'). Ok (ret', txt @ txt')))
      else fdt_list_fragments v p ns)"

text \<open>The table of reserved memory; an entry of size 0 ends it.\<close>

definition be64_at :: "bytes \<Rightarrow> nat \<Rightarrow> nat cres" where
  "be64_at b off = (if off + 8 \<le> length b then Ok (be_decode (take 8 (drop off b))) else Oob)"

function fdt_show_memreserve_from :: "bytes \<Rightarrow> nat \<Rightarrow> string cres" where
  "fdt_show_memreserve_from blob off =
     (case be64_at blob (off + 8) of
        Ok sz \<Rightarrow>
          if sz = 0 then Ok []
          else cbind (fdt_show_memreserve_from blob (off + 16))
            (\<lambda>txt. Ok (''/memreserve/ '' @ fmt_0x 16 (be_decode (take 8 (drop off blob))) @ '' '' @ fmt_0x 0 sz @ '';''
                       @ [newline] @ txt))
      | Oob \<Rightarrow> Oob
      | NoFuel \<Rightarrow> NoFuel)"
  by pat_completeness auto

termination
  by (relation "measure (\<lambda>(blob, off). length blob - off)") (auto simp: be64_at_def split: if_splits)

declare fdt_show_memreserve_from.simps [simp del]

definition fdt_show_memreserve :: "fdt_editor_private_data \<Rightarrow> string cres" where
  "fdt_show_memreserve p =
     cbind (be32_at (dtb p) (hdr_member ''off_mem_rsvmap'')) (\<lambda>off. fdt_show_memreserve_from (dtb p) (unat off))"

definition fdt_summary :: "fdt_editor_private_data \<Rightarrow> nat \<Rightarrow> libcrc32 list \<Rightarrow> libcrc32 list \<times> string" where
  "fdt_summary p bufsz algos =
     (let (algos', crc) = crc32 algos 0 (dtb p)
      in (algos', snprintf_s bufsz (''CRC32: '' @ fmt_0x 8 (unat crc) @ ''('' @ fmt_d (totalsize p) @ '')'')))"

section \<open>Overlays\<close>

text \<open>The start of the next string in a property of which \<open>n\<close> bytes are looked at.\<close>

definition next_string :: "bytes \<Rightarrow> nat \<Rightarrow> nat \<Rightarrow> nat option" where
  "next_string buf n i =
     (let j = i + length (takeWhile (\<lambda>b. b \<noteq> 0) (drop i (take n buf)))
      in if j + 1 < n then Some (j + 1) else None)"

text \<open>One reference \<open>/path:property:offset\<close> is given the phandle; what cannot be resolved is left alone.\<close>

definition fdt_apply_fixup :: "device_node \<Rightarrow> bytes \<Rightarrow> string \<Rightarrow> device_node cres" where
  "fdt_apply_fixup root phandle s =
     cbind (argv_buffer_split_with_delim (Some (snprintf_s 256 s)) (Some '':'') 8)
       (\<lambda>(argc, argv).
          Ok (if argc \<noteq> 3 then root
              else case device_node_find_bypath root (argv ! 0) of
                  None \<Rightarrow> root
                | Some a \<Rightarrow>
                    if \<not> is_node (node_at root a) then root
                    else case device_node_find_byname (node_at root a) (argv ! 1) of
                        None \<Rightarrow> root
                      | Some i \<Rightarrow>
                          let (data_index, endp) = strtol 10 (argv ! 2); data = node_data (node_at root (a @ [i]))
                          in if endp \<noteq> [] then root
                             else if data_index < 0 \<or> data_index mod 4 \<noteq> 0 \<or> nat data_index + 4 > length data then root
                             else update_at (set_data (take (nat data_index) data @ phandle @ drop (nat data_index + 4) data))
                                    root (a @ [i])))"

text \<open>
  The strings of the property at \<open>prop_addr\<close>, of which \<open>n\<close> bytes are looked at; it may itself be changed.
\<close>

function fdt_apply_fixups_from :: "bytes \<Rightarrow> nat list \<Rightarrow> nat \<Rightarrow> nat \<Rightarrow> device_node \<Rightarrow> device_node cres" where
  "fdt_apply_fixups_from phandle prop_addr n i root =
     (case c_string_at (node_data (node_at root prop_addr)) i of
        Ok s \<Rightarrow>
          (case fdt_apply_fixup root phandle s of
             Ok root' \<Rightarrow>
               (case next_string (node_data (node_at root' prop_addr)) n i of
                  None \<Rightarrow> Ok root'
                | Some j \<Rightarrow> fdt_apply_fixups_from phandle prop_addr n j root')
           | Oob \<Rightarrow> Oob
           | NoFuel \<Rightarrow> NoFuel)
      | Oob \<Rightarrow> Oob
      | NoFuel \<Rightarrow> NoFuel)"
  by pat_completeness auto

termination
  by (relation "measure (\<lambda>(phandle, prop_addr, n, i, root). n - i)") (auto simp: next_string_def Let_def split: if_splits)

declare fdt_apply_fixups_from.simps [simp del]

definition fdt_apply_fixups :: "bytes \<Rightarrow> nat list \<Rightarrow> device_node \<Rightarrow> device_node cres" where
  "fdt_apply_fixups phandle prop_addr root =
     fdt_apply_fixups_from phandle prop_addr (length (node_data (node_at root prop_addr))) 0 root"

text \<open>The external node of one label, with its phandle.\<close>

definition extern_node :: "string \<Rightarrow> u32 \<Rightarrow> device_node" where
  "extern_node name phandle =
     add_child (new_device_node ''phandle'' (be_encode 4 (unat phandle))) (set_label (snprintf_s 64 name) (new_device_node name []))"

fun prepare_externs_from :: "nat \<Rightarrow> nat list \<Rightarrow> u32 \<Rightarrow> device_node \<Rightarrow> device_node \<Rightarrow> (device_node \<times> device_node) cres" where
  "prepare_externs_from fixups [] phandle ext root = Ok (ext, root)"
| "prepare_externs_from fixups (k # ks) phandle ext root =
     (let name = node_name (node_at root [fixups, k])
      in cbind (fdt_apply_fixups (be_encode 4 (unat phandle)) [fixups, k] root)
        (\<lambda>root'. prepare_externs_from fixups ks (phandle + 1) (add_child (extern_node name phandle) ext) root'))"

definition fdt_prepare_dtbo_externs :: "fdt_editor_private_data \<Rightarrow> fdt_editor_private_data cres" where
  "fdt_prepare_dtbo_externs p =
     with_root p (\<lambda>root.
       case device_node_find_byname root FDT_SYMBOLS_FIXUP of
         None \<Rightarrow> Ok p
       | Some i \<Rightarrow>
           if \<not> is_node (node_child root ! i) then Ok p
           else cbind (prepare_externs_from i [0..<length (node_child (node_child root ! i))] FDT_DTBO_EXTERN_PHANDLE_START
                         (new_device_node ''/'' []) root)
             (\<lambda>(ext, root'). Ok (p\<lparr>dtbo_extern := Some ext, is_dtbo := True, fdt_root := Some root'\<rparr>)))"

section \<open>Listing\<close>

definition fdt_list ::
    "structure_endian \<Rightarrow> fdt_editor_private_data \<Rightarrow> string list \<Rightarrow> sys \<Rightarrow> (int \<times> string \<times> fdt_editor_private_data) cres" where
  "fdt_list fe p0 argv s =
     (let v = get_verbose_level s
      in cbind (if v > 0
                then Ok (p0\<lparr>keep_symbols := True, keep_aliases := True, keep_phandle := True, keep_fixups := True\<rparr>)
                else fdt_prepare_dtbo_externs p0)
        (\<lambda>p. cbind (if argv = [] then cbind (fdt_show_memreserve p)
                          (\<lambda>txt. Ok (''/dts-v1/;'' @ [newline] @ (if is_dtbo p then ''/plugin/;'' @ [newline] else []) @ txt))
                    else Ok [])
          (\<lambda>head_txt. with_root p (\<lambda>root.
             let pre = (if v > 0 then structure_print fe ''%-20s'' (dtb p) (structure_fdt_header :: unit structure_item list) else [])
                       @ head_txt
             in case device_node_find_bypath root (if argv = [] then ''/'' else hd argv) of
                  None \<Rightarrow> Ok (-1, pre, p)
                | Some a \<Rightarrow>
                    cbind (fdt_list_node v False p 0 (node_at root a))
                      (\<lambda>(ret, txt).
                         if ret < 0 then Ok (ret, pre @ txt, p)
                         else if is_dtbo p then
                           cbind (fdt_list_fragments v p (node_child root))
                             (\<lambda>(ret', txt'). Ok (ret', pre @ txt @ txt', p))
                         else Ok (ret, pre @ txt, p))))))"

section \<open>FIT images\<close>

text \<open>The size and the position of an image, or none of them when one of its properties is missing or not a number.\<close>

definition image_window :: "device_node \<Rightarrow> (nat \<times> u32 \<times> nat \<times> u32) option" where
  "image_window img =
     Option.bind (device_node_find_byname img ''data-size'') (\<lambda>i.
       Option.bind (device_node_read_u32 (node_child img ! i)) (\<lambda>data_size.
         Option.bind (device_node_find_byname img ''data-position'') (\<lambda>j.
           Option.bind (device_node_read_u32 (node_child img ! j)) (\<lambda>data_pos. Some (i, data_size, j, data_pos)))))"

text \<open>The node of an image without the place of its data and its hash, and the property that includes the file instead.\<close>

definition stripped_image :: "nat \<Rightarrow> nat \<Rightarrow> device_node \<Rightarrow> device_node" where
  "stripped_image i j img =
     snd (device_node_delete_bypath (device_node_delete (device_node_delete img [i]) [if i < j then j - 1 else j]) ''hash/value'')"

definition incbin_node :: "device_node \<Rightarrow> device_node" where
  "incbin_node img =
     (let txt = snprintf_s 1024 (''/incbin/('' @ [quote] @ ''./'' @ node_name img @ ''.bin'' @ [quote] @ '')'')
      in new_device_node ''data'' (bytes_of_string txt @ [0]))"

text \<open>The images from the k-th on. The file that is written is not closed; when it cannot be opened, the descriptor of the
  image is returned.\<close>

fun fit_unpack_images ::
    "(nat \<Rightarrow> u8) option \<Rightarrow> (string \<Rightarrow> nat option) \<Rightarrow> int \<Rightarrow> string \<Rightarrow> device_node list \<Rightarrow> device_node list \<Rightarrow> sys
      \<Rightarrow> int option \<times> device_node list \<times> sys" where
  "fit_unpack_images garbage inode_of fd outdir done_images [] s = (None, done_images, s)"
| "fit_unpack_images garbage inode_of fd outdir done_images (img # images) s =
     (case image_window img of
        None \<Rightarrow> (Some (-1), done_images @ img # images, s)
      | Some (i, data_size, j, data_pos) \<Rightarrow>
          let image1 = stripped_image i j img;
              (fd_image, s1) = fileopen (inode_of (snprintf_s 1024 (outdir @ ''/'' @ node_name img @ ''.bin''))) s
          in if fd_image < 0 then (Some fd, done_images @ image1 # images, s1)
             else fit_unpack_images garbage inode_of fd outdir
                    (done_images @ [set_child (incbin_node img # node_child image1) image1]) images
                    (snd (snd (dd garbage fd fd_image (int (unat data_pos)) 0 (unat data_size) None () s1))))"

text \<open>The status, the text that is written to image.its, and the changed tree. \<open>its\<close> tells whether that file can be opened.\<close>

definition fit_unpack ::
    "(nat \<Rightarrow> u8) option \<Rightarrow> (string \<Rightarrow> nat option) \<Rightarrow> bool \<Rightarrow> fdt_editor_private_data \<Rightarrow> int \<Rightarrow> string \<Rightarrow> sys
      \<Rightarrow> (int \<times> string option \<times> fdt_editor_private_data \<times> sys) cres" where
  "fit_unpack garbage inode_of its p fd outdir s =
     with_root p (\<lambda>root.
       if device_node_find_bypath root ''/images'' = None then Ok (-1, None, p, s)
       else
         let root1 = snd (device_node_delete_bypath root ''/timestamp'');
             a = the (device_node_find_bypath root1 ''/images'');
             (err, images, s1) = fit_unpack_images garbage inode_of fd outdir [] (node_child (node_at root1 a)) s;
             root2 = update_at (set_child images) root1 a; p2 = p\<lparr>fdt_root := Some root2\<rparr>
         in case err of
              Some ret \<Rightarrow> Ok (ret, None, p2, s1)
            | None \<Rightarrow>
                if \<not> its then Ok (-1, None, p2, s1)
                else cbind (fdt_list_node (get_verbose_level s1) True p2 0 root2)
                  (\<lambda>(_, txt). Ok (0, Some (''/dts-v1/;'' @ [newline] @ txt), p2, s1)))"

text \<open>The sum of position and size has 32 bits.\<close>

fun fit_images_end :: "int \<Rightarrow> device_node list \<Rightarrow> int" where
  "fit_images_end maxsz [] = maxsz"
| "fit_images_end maxsz (img # images) =
     (case image_window img of
        None \<Rightarrow> -1
      | Some (i, data_size, j, data_pos) \<Rightarrow> fit_images_end (max maxsz (int (unat (data_pos + data_size)))) images)"

definition fit_get_total_size :: "fdt_editor_private_data \<Rightarrow> int cres" where
  "fit_get_total_size p =
     with_root p (\<lambda>root.
       case device_node_find_bypath root ''/images'' of
         None \<Rightarrow> Ok (-1)
       | Some a \<Rightarrow> Ok (fit_images_end (int (unat (totalsize p))) (node_child (node_at root a))))"

end
