(* ===== verification/FdtLaws.thy ===== *)
theory FdtLaws
  imports Fdt StringLaws TransferLaws
begin

text \<open>
  Device trees: a flattened tree is read back, the lookups find the first node in document order, symbols become labels, and
  properties that are lists of strings are printed as such.
\<close>

section \<open>Flattening\<close>

text \<open>A reference for the format: the structure block of a node, with the offsets of the names of properties.\<close>

definition pad4 :: "bytes \<Rightarrow> bytes" where
  "pad4 b = b @ replicate (aligned4 (length b) - length b) 0"

definition c_bytes :: "string \<Rightarrow> bytes" where "c_bytes s = bytes_of_string s @ [0]"

fun flat_node :: "(string \<Rightarrow> nat) \<Rightarrow> device_node \<Rightarrow> bytes" where
  "flat_node nof (Device_Node nm lb isn d cs) =
     (if isn then be_encode 4 1 @ pad4 (c_bytes (if nm = ''/'' then [] else nm)) @ concat (map (flat_node nof) cs) @ be_encode 4 2
      else be_encode 4 3 @ be_encode 4 (length d) @ be_encode 4 (nof nm) @ pad4 d)"

text \<open>
  What the format can hold: nodes have a name and no data, properties have no children, no labels yet, names fit the nodes,
  and there are at most \<open>k\<close> levels of nodes.
\<close>

definition good_name :: "string \<Rightarrow> bool" where
  "good_name nm \<longleftrightarrow> nul \<notin> set nm \<and> length nm \<le> 63"

fun tree_ok :: "nat \<Rightarrow> device_node \<Rightarrow> bool" where
  "tree_ok k (Device_Node nm lb isn d cs) =
     (lb = [] \<and> good_name nm \<and>
      (if isn then 0 < k \<and> d = [] \<and> nm \<noteq> [] \<and> (\<forall>c\<in>set cs. tree_ok (k - 1) c) else cs = [] \<and> length d < 2 ^ 31))"

fun prop_names :: "device_node \<Rightarrow> string list" where
  "prop_names (Device_Node nm lb isn d cs) = (if isn then concat (map prop_names cs) else [nm])"

lemma aligned4_ge: "n \<le> aligned4 n"
  unfolding aligned4_def by presburger

lemma length_pad4 [simp]: "length (pad4 b) = aligned4 (length b)"
  using aligned4_ge [of "length b"] by (simp add: pad4_def)

lemma length_c_bytes [simp]: "length (c_bytes s) = length s + 1"
  by (simp add: c_bytes_def bytes_of_string_def)

lemma string_of_bytes_append: "(0 :: u8) \<in> set b \<Longrightarrow> string_of_bytes (b @ r) = string_of_bytes b"
  by (simp add: string_of_bytes_def takeWhile_append1)

lemma string_of_c_bytes: "nul \<notin> set s \<Longrightarrow> string_of_bytes (c_bytes s @ r) = s"
  using string_of_bytes_of_string [of s] string_of_bytes_append [of "c_bytes s" r] by (simp add: c_bytes_def)

lemma be32_drop:
  assumes "drop off blob = be_encode 4 n @ r" "n < 2 ^ 32"
  shows "get_be32 off blob = word_of_nat n" "off + 4 \<le> length blob" "drop (off + 4) blob = r" "be32_at blob off = Ok (word_of_nat n)"
proof -
  have "length (drop off blob) = 4 + length r" by (simp add: assms(1))
  then show len: "off + 4 \<le> length blob" by simp
  show "get_be32 off blob = word_of_nat n" using assms by (simp add: get_be32_def be_decode_encode)
  then show "be32_at blob off = Ok (word_of_nat n)" using len by (simp add: be32_at_def)
  show "drop (off + 4) blob = r" using arg_cong [OF assms(1), of "drop 4"] by (simp add: add.commute)
qed

lemma c_string_drop:
  assumes "drop off blob = c_bytes s @ r" "nul \<notin> set s"
  shows "c_string_at blob off = Ok s"
  using assms string_of_c_bytes [of s r] by (simp add: c_string_at_def c_bytes_def)

lemma drop_more: "drop off blob = x @ r \<Longrightarrow> drop (off + length x) blob = r"
  by (metis add.commute append_eq_conv_conj drop_drop)

text \<open>Where the strings of a blob are, and that it has the name of every property at its offset.\<close>

definition names_at :: "bytes \<Rightarrow> (string \<Rightarrow> nat) \<Rightarrow> string set \<Rightarrow> bool" where
  "names_at blob nof nms \<longleftrightarrow>
     (\<exists>st. be32_at blob 12 = Ok st \<and> (\<forall>nm\<in>nms. nof nm < 2 ^ 32 \<and> c_string_at blob (nof nm + unat st) = Ok nm))"

lemma hdr_member_vals [simp]:
  "hdr_member ''magic'' = 0" "hdr_member ''totalsize'' = 4" "hdr_member ''off_dt_struct'' = 8" "hdr_member ''off_dt_strings'' = 12"
  "hdr_member ''off_mem_rsvmap'' = 16"
  by (simp_all add: hdr_member_def fdt_header_def)

lemma child_add_child [simp]: "node_child (add_child c n) = node_child n @ [c]"
  by (cases n) (simp add: add_child_def)

lemma unflatten_prop:
  assumes "drop off blob = flat_node nof (Device_Node nm lb False d cs) @ r" "tree_ok k (Device_Node nm lb False d cs)"
    and "names_at blob nof nms" "nm \<in> nms"
  shows "fdt_unflatten_loop blob off (p # ps) closed =
    fdt_unflatten_loop blob (off + length (flat_node nof (Device_Node nm lb False d cs))) (add_child (Device_Node nm lb False d cs) p # ps) closed"
proof -
  obtain st where st: "be32_at blob 12 = Ok st" "nof nm < 2 ^ 32" "c_string_at blob (nof nm + unat st) = Ok nm"
    using assms(3,4) by (auto simp: names_at_def)
  have ok: "lb = []" "good_name nm" "cs = []" "length d < 2 ^ 31" using assms(2) by simp_all
  have 1: "drop off blob = be_encode 4 3 @ be_encode 4 (length d) @ be_encode 4 (nof nm) @ pad4 d @ r"
    using assms(1) by simp
  note b1 = be32_drop [OF 1]
  note b2 = be32_drop [OF b1(3)] 
  note b3 = be32_drop [OF b2(3)]
  have len: "length d < 2 ^ 32" using ok(4) by simp
  have offs: "off + 4 + 4 = off + 8" "off + 8 + 4 = off + 12" by simp_all
  have d: "drop (off + 12) blob = pad4 d @ r" using b3(3) st(2) len offs by simp
  have room: "off + 12 + length d \<le> length blob"
    using arg_cong [OF d, of length] aligned4_ge [of "length d"] b3(2) len st(2) offs by simp
  have data: "take (length d) (drop (off + 12) blob) = d" by (simp add: d pad4_def)
  have w: "unat (word_of_nat (length d) :: u32) = length d" "\<not> sint (word_of_nat (length d) :: u32) < 0"
    using ok(4) int_of_size_small [OF ok(4)] by (simp_all add: unsigned_of_nat take_bit_nat_eq_self int_of_size_def)
  have wn: "unat (word_of_nat (nof nm) :: u32) = nof nm" using st(2) by (simp add: unsigned_of_nat take_bit_nat_eq_self)
  have name: "snprintf_s 64 nm = nm" using ok(2) by (simp add: snprintf_s_def good_name_def)
  have "fdt_read_prop blob off = Ok (aligned4 (length d), Device_Node nm [] False d [])"
    using b2(4) b3(4) st len w wn room data name offs by (simp add: fdt_read_prop_def new_device_node_def)
  then have "fdt_unflatten_loop blob off (p # ps) closed =
      fdt_unflatten_loop blob (off + 12 + aligned4 (length d)) (add_child (Device_Node nm [] False d []) p # ps) closed"
    using b1(1,2) by (subst fdt_unflatten_loop.simps)
      (simp add: FDT_END_def FDT_BEGIN_NODE_def FDT_NOP_def FDT_PROP_def)
  moreover have "off + length (flat_node nof (Device_Node nm lb False d cs)) = off + 12 + aligned4 (length d)" by simp
  ultimately show ?thesis using ok by (simp only:)
qed

text \<open>The start and the end of a node.\<close>

lemma unflatten_begin:
  assumes "drop off blob = be_encode 4 1 @ pad4 (c_bytes (if nm = ''/'' then [] else nm)) @ r" "good_name nm" "nm \<noteq> []"
    and "length stack < 31"
  shows "fdt_unflatten_loop blob off stack closed =
    fdt_unflatten_loop blob (off + 4 + aligned4 (length (if nm = ''/'' then [] else nm) + 1)) (Device_Node nm [] True [] [] # stack) closed"
    "drop (off + 4 + aligned4 (length (if nm = ''/'' then [] else nm) + 1)) blob = r"
proof -
  let ?nm = "if nm = ''/'' then [] else nm"
  note b1 = be32_drop [OF assms(1)]
  have d: "drop (off + 4) blob = c_bytes ?nm @ (replicate (aligned4 (length ?nm + 1) - (length ?nm + 1)) 0 @ r)"
    using b1(3) by (simp add: pad4_def)
  have nul: "nul \<notin> set ?nm" using assms(2) by (simp add: good_name_def)
  note s = c_string_drop [OF d nul]
  have nm: "node_name (new_device_node (if ?nm = [] then ''/'' else ?nm) []) = nm"
    using assms(2,3) by (simp add: new_device_node_def snprintf_s_def good_name_def)
  show "fdt_unflatten_loop blob off stack closed =
    fdt_unflatten_loop blob (off + 4 + aligned4 (length ?nm + 1)) (Device_Node nm [] True [] [] # stack) closed"
    using b1(1,2) s assms(4) nm
    by (subst fdt_unflatten_loop.simps) (simp add: FDT_END_def FDT_BEGIN_NODE_def FDT_MAX_DEPTH_def Let_def)
  show "drop (off + 4 + aligned4 (length ?nm + 1)) blob = r"
    using drop_more [of "off + 4" blob "pad4 (c_bytes ?nm)" r] b1(3) by simp
qed

lemma unflatten_end:
  assumes "drop off blob = be_encode 4 2 @ r"
  shows "fdt_unflatten_loop blob off [n] closed = fdt_unflatten_loop blob (off + 4) [] (Some n)"
    "fdt_unflatten_loop blob off (n # m # ns) closed = fdt_unflatten_loop blob (off + 4) (add_child n m # ns) closed"
    "drop (off + 4) blob = r"
proof -
  note b = be32_drop [OF assms, simplified]
  show "fdt_unflatten_loop blob off [n] closed = fdt_unflatten_loop blob (off + 4) [] (Some n)"
    using b(1,2) by (subst fdt_unflatten_loop.simps) (simp add: FDT_END_def FDT_BEGIN_NODE_def FDT_NOP_def FDT_PROP_def FDT_END_NODE_def)
  show "fdt_unflatten_loop blob off (n # m # ns) closed = fdt_unflatten_loop blob (off + 4) (add_child n m # ns) closed"
    using b(1,2) by (subst fdt_unflatten_loop.simps) (simp add: FDT_END_def FDT_BEGIN_NODE_def FDT_NOP_def FDT_PROP_def FDT_END_NODE_def)
  show "drop (off + 4) blob = r" by (rule b(3))
qed


text \<open>Nodes that are read one after the other become the last children of the node that is open.\<close>

definition add_childs :: "device_node list \<Rightarrow> device_node \<Rightarrow> device_node" where
  "add_childs cs n = foldl (\<lambda>m c. add_child c m) n cs"

lemma add_childs_eq: "add_childs cs (Device_Node nm lb isn d cs0) = Device_Node nm lb isn d (cs0 @ cs)"
  by (induction cs arbitrary: cs0) (simp_all add: add_childs_def add_child_def)

lemma unflatten_list:
  assumes "\<And>c off p r. c \<in> set cs \<Longrightarrow> drop off blob = flat c @ r \<Longrightarrow>
      fdt_unflatten_loop blob off (p # ps) closed = fdt_unflatten_loop blob (off + length (flat c)) (add_child c p # ps) closed"
    and "drop off blob = concat (map flat cs) @ r"
  shows "fdt_unflatten_loop blob off (p # ps) closed =
    fdt_unflatten_loop blob (off + length (concat (map flat cs))) (add_childs cs p # ps) closed"
  using assms
proof (induction cs arbitrary: off p)
  case Nil
  then show ?case by (simp add: add_childs_def)
next
  case (Cons c cs)
  have d: "drop off blob = flat c @ (concat (map flat cs) @ r)" using Cons.prems(2) by simp
  have "fdt_unflatten_loop blob off (p # ps) closed = fdt_unflatten_loop blob (off + length (flat c)) (add_child c p # ps) closed"
    using Cons.prems(1) [OF _ d] by simp
  also have "\<dots> = fdt_unflatten_loop blob (off + length (flat c) + length (concat (map flat cs))) (add_childs cs (add_child c p) # ps) closed"
    using Cons.IH [OF _ drop_more [OF d]] Cons.prems(1) by simp
  finally show ?case by (simp add: add_childs_def add.assoc)
qed

lemma unflatten_node:
  "tree_ok k n \<Longrightarrow> length ps + 1 + k \<le> 31 \<Longrightarrow> names_at blob nof nms \<Longrightarrow> set (prop_names n) \<subseteq> nms \<Longrightarrow>
    drop off blob = flat_node nof n @ r \<Longrightarrow>
    fdt_unflatten_loop blob off (p # ps) closed = fdt_unflatten_loop blob (off + length (flat_node nof n)) (add_child n p # ps) closed"
proof (induction n arbitrary: k off p ps r)
  case (Device_Node nm lb isn d cs)
  show ?case
  proof (cases isn)
    case False
    then show ?thesis using Device_Node.prems unflatten_prop [of off blob nof nm lb d cs r k nms p ps closed] by simp
  next
    case True
    let ?nm = "if nm = ''/'' then [] else nm" and ?m = "Device_Node nm [] True [] []"
    have ok: "lb = []" "good_name nm" "nm \<noteq> []" "d = []" "0 < k" "\<forall>c\<in>set cs. tree_ok (k - 1) c"
      using Device_Node.prems(1) True by simp_all
    have d: "drop off blob = be_encode 4 1 @ pad4 (c_bytes ?nm) @ concat (map (flat_node nof) cs) @ be_encode 4 2 @ r"
      using Device_Node.prems(5) True by simp
    let ?o1 = "off + 4 + aligned4 (length ?nm + 1)"
    note beg1 = unflatten_begin(1) [OF d ok(2,3), where stack = "p # ps" and closed = closed]
    have room: "length (p # ps) < 31" using Device_Node.prems(2) ok(5) by simp
    note beg2 = unflatten_begin(2) [OF d ok(2,3) room]
    have kid: "fdt_unflatten_loop blob off (q # p # ps) closed = fdt_unflatten_loop blob (off + length (flat_node nof c)) (add_child c q # p # ps) closed"
      if "c \<in> set cs" "drop off blob = flat_node nof c @ r" for c off q r
    proof (rule Device_Node.IH [OF that(1) _ _ Device_Node.prems(3) _ that(2)])
      show "tree_ok (k - 1) c" using ok(6) that(1) by simp
      show "length (p # ps) + 1 + (k - 1) \<le> 31" using Device_Node.prems(2) ok(5) by simp
      show "set (prop_names c) \<subseteq> nms" using Device_Node.prems(4) True that(1) by auto
    qed
    have kids: "fdt_unflatten_loop blob ?o1 (?m # p # ps) closed =
        fdt_unflatten_loop blob (?o1 + length (concat (map (flat_node nof) cs))) (add_childs cs ?m # p # ps) closed"
      by (rule unflatten_list [OF kid beg2])
    note fin = unflatten_end(2) [OF drop_more [OF beg2], where n = "add_childs cs ?m" and m = p and ns = ps and closed = closed]
    have len: "?o1 + length (concat (map (flat_node nof) cs)) + 4 = off + length (flat_node nof (Device_Node nm lb isn d cs))"
      using True by simp
    show ?thesis
      using beg1 [OF room] kids fin unfolding len by (simp add: add_childs_eq ok True)
  qed
qed

text \<open>The root, and the end of the structure block behind it.\<close>

lemma unflatten_root:
  assumes "drop off blob = flat_node nof root @ be_encode 4 9 @ r" "is_node root" "tree_ok 31 root"
    and "names_at blob nof (set (prop_names root))"
  shows "fdt_unflatten_loop blob off [] closed = Ok (0, Some root)"
proof -
  obtain nm lb isn d cs where root: "root = Device_Node nm lb isn d cs" by (cases root)
  let ?nm = "if nm = ''/'' then [] else nm" and ?m = "Device_Node nm [] True [] []"
  have ok: "isn" "lb = []" "good_name nm" "nm \<noteq> []" "d = []" "\<forall>c\<in>set cs. tree_ok 30 c" using assms(2,3) root by simp_all
  have d: "drop off blob = be_encode 4 1 @ pad4 (c_bytes ?nm) @ concat (map (flat_node nof) cs) @ be_encode 4 2 @ be_encode 4 9 @ r"
    using assms(1) ok(1) root by simp
  let ?o1 = "off + 4 + aligned4 (length ?nm + 1)"
  have room: "length ([] :: device_node list) < 31" by simp
  note beg1 = unflatten_begin(1) [OF d ok(3,4) room, where closed = closed]
  note beg2 = unflatten_begin(2) [OF d ok(3,4) room]
  have kid: "fdt_unflatten_loop blob off [q] closed = fdt_unflatten_loop blob (off + length (flat_node nof c)) [add_child c q] closed"
    if "c \<in> set cs" "drop off blob = flat_node nof c @ r" for c off q r
    by (rule unflatten_node [OF _ _ assms(4) _ that(2), of 30]) (use ok that(1) root in auto)
  have kids: "fdt_unflatten_loop blob ?o1 [?m] closed =
      fdt_unflatten_loop blob (?o1 + length (concat (map (flat_node nof) cs))) [add_childs cs ?m] closed"
    by (rule unflatten_list [OF kid beg2])
  note fin1 = unflatten_end(1) [OF drop_more [OF beg2], where n = "add_childs cs ?m" and closed = closed]
  note fin2 = unflatten_end(3) [OF drop_more [OF beg2]]
  have "fdt_unflatten_loop blob (?o1 + length (concat (map (flat_node nof) cs)) + 4) [] (Some root) = Ok (0, Some root)"
    using be32_drop(1,2) [OF fin2] by (subst fdt_unflatten_loop.simps) (simp add: FDT_END_def last_tree_def)
  then show ?thesis
    unfolding beg1 kids fin1 using ok by (simp add: add_childs_eq root)
qed

section \<open>A blob in a file\<close>

text \<open>The strings block, and the whole blob: header, an empty table of reserved memory, structure and strings.\<close>

definition strings_block :: "string list \<Rightarrow> bytes" where
  "strings_block ns = concat (map c_bytes ns)"

definition name_off :: "string list \<Rightarrow> string \<Rightarrow> nat" where
  "name_off ns nm = length (strings_block (takeWhile (\<lambda>n. n \<noteq> nm) ns))"

definition flat_struct :: "device_node \<Rightarrow> bytes" where
  "flat_struct root = flat_node (name_off (remdups (prop_names root))) root @ be_encode 4 9"

definition flat_strings :: "device_node \<Rightarrow> bytes" where
  "flat_strings root = strings_block (remdups (prop_names root))"

definition fdt_image :: "device_node \<Rightarrow> bytes" where
  "fdt_image root =
     (let st = 56 + length (flat_struct root)
      in be_encode 4 0xd00dfeed @ be_encode 4 (st + length (flat_strings root)) @ be_encode 4 56 @ be_encode 4 st @ be_encode 4 40
         @ be_encode 4 17 @ be_encode 4 16 @ be_encode 4 0 @ be_encode 4 (length (flat_strings root))
         @ be_encode 4 (length (flat_struct root)) @ replicate 16 0 @ flat_struct root @ flat_strings root)"

lemma length_fdt_image: "length (fdt_image root) = 56 + length (flat_struct root) + length (flat_strings root)"
  by (simp add: fdt_image_def Let_def)

lemma strings_block_at:
  assumes "nm \<in> set ns"
  obtains r where "drop (name_off ns nm) (strings_block ns) = c_bytes nm @ r"
proof -
  let ?P = "\<lambda>n. n \<noteq> nm"
  obtain rest where r: "dropWhile ?P ns = nm # rest"
    using assms by (metis (mono_tags, lifting) dropWhile_eq_Nil_conv hd_dropWhile list.collapse)
  have "strings_block ns = strings_block (takeWhile ?P ns) @ strings_block (dropWhile ?P ns)"
    by (simp add: strings_block_def flip: concat_append map_append)
  then show ?thesis using that [of "strings_block rest"] by (simp add: name_off_def r strings_block_def)
qed

lemma prop_names_good: "tree_ok k n \<Longrightarrow> nm \<in> set (prop_names n) \<Longrightarrow> good_name nm"
proof (induction n arbitrary: k)
  case (Device_Node nm' lb isn d cs)
  then show ?case by (cases isn) auto
qed

lemma fdt_image_drops:
  fixes root
  defines "st \<equiv> 56 + length (flat_struct root)"
  shows "drop 0 (fdt_image root) = be_encode 4 0xd00dfeed @ drop 4 (fdt_image root)"
    "drop 4 (fdt_image root) = be_encode 4 (length (fdt_image root)) @ drop 8 (fdt_image root)"
    "drop 8 (fdt_image root) = be_encode 4 56 @ drop 12 (fdt_image root)"
    "drop 12 (fdt_image root) = be_encode 4 st @ drop 16 (fdt_image root)"
    "drop 16 (fdt_image root) = be_encode 4 40 @ drop 20 (fdt_image root)"
    "drop 56 (fdt_image root) = flat_struct root @ flat_strings root"
    "drop st (fdt_image root) = flat_strings root"
  by (simp_all add: fdt_image_def Let_def st_def length_fdt_image add.assoc)

lemma image_names:
  assumes "tree_ok k root" "length (fdt_image root) < 2 ^ 32"
  shows "names_at (fdt_image root) (name_off (remdups (prop_names root))) (set (prop_names root))"
proof -
  let ?ns = "remdups (prop_names root)" and ?st = "56 + length (flat_struct root)"
  have st: "?st < 2 ^ 32" using assms(2) by (simp add: length_fdt_image)
  have st': "be32_at (fdt_image root) 12 = Ok (word_of_nat ?st)" by (rule be32_drop(4) [OF fdt_image_drops(4) st])
  have u: "unat (word_of_nat ?st :: u32) = ?st" using st by (simp add: unsigned_of_nat take_bit_nat_eq_self del: of_nat_add)
  have "name_off ?ns nm < 2 ^ 32 \<and> c_string_at (fdt_image root) (name_off ?ns nm + ?st) = Ok nm" if nm: "nm \<in> set (prop_names root)" for nm
  proof -
    obtain r where r: "drop (name_off ?ns nm) (strings_block ?ns) = c_bytes nm @ r" using strings_block_at [of nm ?ns] nm by auto
    have "drop (name_off ?ns nm + ?st) (fdt_image root) = c_bytes nm @ r"
      using r fdt_image_drops(7) [of root] by (simp add: flat_strings_def flip: drop_drop)
    moreover have "nul \<notin> set nm" using prop_names_good [OF assms(1) nm] by (simp add: good_name_def)
    moreover have "name_off ?ns nm < length (flat_strings root)"
      using arg_cong [OF r, of length] by (simp add: flat_strings_def)
    ultimately show ?thesis using c_string_drop assms(2) by (simp add: length_fdt_image)
  qed
  then show ?thesis using st' u by (auto simp: names_at_def)
qed

text \<open>Detection reads the header and then the whole blob; only the position of the file changes.\<close>

lemma fdt_detect_image:
  assumes "is_node root" "tree_ok 31 root" "length (fdt_image root) \<le> 64 * 2 ^ 20"
    and "ofd_of s fd = Some d" "d < length (open_files s)" "content s d = fdt_image root" "position (open_files s ! d) = 0"
    and "filestart fd s = 0" "length (fdt_image root) \<le> max_io s" "fdt_root p = None"
  shows "fdt_detect old (Some garbage) p fd s =
    Ok (0, p\<lparr>totalsize := word_of_nat (length (fdt_image root)), dtb := fdt_image root, fdt_root := Some (fdt_load_symbols root)\<rparr>,
        set_position d (length (fdt_image root)) s)"
proof -
  let ?img = "fdt_image root" and ?st = "56 + length (flat_struct root)"
  have small: "length ?img < 2 ^ 32" "?st < 2 ^ 32" "?st \<le> 64 * 2 ^ 20" using assms(3) by (simp_all add: length_fdt_image)
  note dr = fdt_image_drops [of root]
  have words: "get_be32 0 ?img = FDT_MAGIC" "get_be32 4 ?img = word_of_nat (length ?img)" "get_be32 8 ?img = 56"
      "get_be32 12 ?img = word_of_nat ?st" "get_be32 16 ?img = 40"
    using be32_drop(1) [OF dr(1)] be32_drop(1) [OF dr(2)] be32_drop(1) [OF dr(3)] be32_drop(1) [OF dr(4)] be32_drop(1) [OF dr(5)] small
    by (simp_all add: FDT_MAGIC_def)
  have hdr: "get_be32 k (take 40 ?img) = get_be32 k ?img" if "k + 4 \<le> 40" for k
    using that by (simp add: get_be32_def drop_take min_def)
  have u: "unat (word_of_nat n :: u32) = n" if "n < 2 ^ 32" for n using that by (simp add: unsigned_of_nat take_bit_nat_eq_self)
  have max: "unat FDT_EDITOR_MAX_DTB_SIZE = 64 * 2 ^ 20" by (simp add: FDT_EDITOR_MAX_DTB_SIZE_def)
  have le: "\<not> FDT_EDITOR_MAX_DTB_SIZE < (word_of_nat n :: u32)" if "n \<le> 64 * 2 ^ 20" for n
    using that u [of n] max by (simp add: word_less_nat_alt del: of_nat_add)
  have pos: "(word_of_nat (length ?img) :: u32) \<noteq> 0" using u [OF small(1)] length_fdt_image [of root] by (metis add_is_0 unat_0 zero_neq_numeral)
  have long: "56 \<le> length ?img" by (simp add: length_fdt_image)
  have s1: "sys_read fd 40 s = (40, take 40 ?img, set_position d 40 s)"
    using assms(4,6,7,9) long by (simp add: sys_read_def min_def)
  have fs: "filestart fd (set_position d 40 s) = 0" using filestart_gd [of "set_position d 40 s" s fd] assms(8) by simp
  have s2: "snd (fileseek fd 0 (set_position d 40 s)) = set_position d 0 s"
    using assms(4,5) fs by (simp add: fileseek_def lseek_set_def)
  have s3: "sys_read fd (length ?img) (set_position d 0 s) = (int (length ?img), ?img, set_position d (length ?img) s)"
    using assms(4-6,9) by (simp add: sys_read_def min_def)
  have loop: "fdt_unflatten_loop ?img 56 [] None = Ok (0, Some root)"
    using unflatten_root [of 56 ?img "name_off (remdups (prop_names root))" root "flat_strings root" None] assms(1,2)
      image_names [OF assms(2) small(1)] dr(6) by (simp add: flat_struct_def)
  have "be32_at ?img 8 = Ok 56" using be32_drop(4) [OF dr(3)] by simp
  then have unf: "fdt_unflatten (p\<lparr>totalsize := word_of_nat (length ?img), dtb := ?img\<rparr>) =
      Ok (0, p\<lparr>totalsize := word_of_nat (length ?img), dtb := ?img, fdt_root := Some (fdt_load_symbols root)\<rparr>)"
    using loop assms(10) by (simp add: fdt_unflatten_def)
  show ?thesis
    using s1 s2 s3 words hdr le [OF assms(3)] le [OF small(3)] le [of 40] le [of 56] pos u [OF small(1)] unf length_fdt_image [of root]
    by (simp add: fdt_detect_def Let_def)
qed

text \<open>C3: a device tree is read back: detecting a file that holds a flattened tree returns the tree, with every node, every
  property with its name and its data, in order, and with the symbols of the tree as labels. The tree may have 31 levels of
  nodes; names have at most 63 characters, the blob at most 64 MiB.\<close>

theorem fdt_detect_flat:
  assumes "is_node root" "tree_ok 31 root" "length (fdt_image root) \<le> 64 * 2 ^ 20"
    and "out_state s fd e (fdt_image root) 0" "length (fdt_image root) \<le> max_io s" "fdt_root p = None"
  shows "\<exists>s'. fdt_detect old (Some garbage) p fd s =
    Ok (0, p\<lparr>totalsize := word_of_nat (length (fdt_image root)), dtb := fdt_image root, fdt_root := Some (fdt_load_symbols root)\<rparr>, s')"
proof -
  have o: "ofd_of s fd = Some e" "e < length (open_files s)" "content s e = fdt_image root" "position (open_files s ! e) = 0" "filestart fd s = 0"
    using assms(4) by (auto simp: out_state_def sys_ok_ofd no_virtual_file filestart_plain)
  show ?thesis using fdt_detect_image [OF assms(1-3) o assms(5,6)] by blast
qed

section \<open>Phandles\<close>

text \<open>The descendants of a list of nodes in document order, with their paths; the first one has the index \<open>i\<close>.\<close>

fun descendants :: "nat \<Rightarrow> device_node list \<Rightarrow> (nat list \<times> device_node) list" where
  "descendants i [] = []"
| "descendants i (Device_Node nm lb isn d cs # ns) =
     ([i], Device_Node nm lb isn d cs) # map (\<lambda>(a, n). (i # a, n)) (descendants 0 cs) @ descendants (i + 1) ns"

lemma find_append: "find P (xs @ ys) = (case find P xs of None \<Rightarrow> find P ys | Some x \<Rightarrow> Some x)"
  by (induction xs) auto

lemma find_map: "find P (map f xs) = map_option f (find (P \<circ> f) xs)"
  by (induction xs) auto

lemma search_phandle_find:
  "search_phandle_from i ns ph = map_option fst (find (\<lambda>(a, n). device_node_match_phandle n ph) (descendants i ns))"
proof (induction i ns ph rule: search_phandle_from.induct)
  case (1 i ph)
  then show ?case by simp
next
  case (2 i nm lb isn d cs ns ph)
  have kids: "(if cs = [] then None else search_phandle_from 0 cs ph)
      = map_option fst (find (\<lambda>(a, n). device_node_match_phandle n ph) (descendants 0 cs))"
    if "\<not> device_node_match_phandle (Device_Node nm lb isn d cs) ph"
    using 2(1) [OF that] by simp
  have comp: "(\<lambda>(a, n). device_node_match_phandle n ph) \<circ> (\<lambda>(a, n). (i # a, n)) = (\<lambda>(a, n). device_node_match_phandle n ph)"
    by (simp add: fun_eq_iff)
  show ?case
  proof (cases "device_node_match_phandle (Device_Node nm lb isn d cs) ph")
    case True
    then show ?thesis by simp
  next
    case False
    then show ?thesis
      using 2(2) [OF False] kids [OF False]
      by (auto simp: find_append find_map comp split: option.splits)
  qed
qed

lemma descendants_at: "(a, n) \<in> set (descendants i ns) \<Longrightarrow> \<exists>j b. a = (i + j) # b \<and> j < length ns \<and> node_at (ns ! j) b = n"
proof (induction i ns arbitrary: a n rule: descendants.induct)
  case (1 i)
  then show ?case by simp
next
  case (2 i nm lb isn d cs ns)
  from 2(3) consider "a = [i]" "n = Device_Node nm lb isn d cs"
    | b where "a = i # b" "(b, n) \<in> set (descendants 0 cs)" | "(a, n) \<in> set (descendants (i + 1) ns)" by auto
  then show ?case
  proof cases
    case 1
    then show ?thesis by (intro exI [of _ 0]) simp
  next
    case 2
    with "2.IH"(1) obtain j c where "b = (0 + j) # c" "j < length cs" "node_at (cs ! j) c = n" by blast
    then show ?thesis using 2 by (intro exI [of _ 0] exI [of _ b]) simp
  next
    case 3
    with "2.IH"(2) obtain j c where "a = (i + 1 + j) # c" "j < length ns" "node_at (ns ! j) c = n" by blast
    then show ?thesis by (intro exI [of _ "Suc j"] exI [of _ c]) simp
  qed
qed

text \<open>C22: \<open>device_node_search_phandle\<close> finds the first node in document order below the root that has the phandle, and nothing
  exactly when none has: the path it returns leads to that node.\<close>

theorem search_phandle_first:
  "(case find (\<lambda>(a, n). device_node_match_phandle n ph) (descendants 0 (node_child root)) of
      None \<Rightarrow> device_node_search_phandle root ph = None
    | Some (a, n) \<Rightarrow> device_node_search_phandle root ph = Some a \<and> node_at root a = n \<and> device_node_match_phandle n ph)"
proof (cases "find (\<lambda>(a, n). device_node_match_phandle n ph) (descendants 0 (node_child root))")
  case None
  then show ?thesis by (simp add: device_node_search_phandle_def search_phandle_find)
next
  case (Some q)
  obtain a n where q: "q = (a, n)" by (cases q)
  have "device_node_match_phandle n ph" "(a, n) \<in> set (descendants 0 (node_child root))"
    using Some q by (auto simp: find_Some_iff) (metis nth_mem)
  moreover from this(2) have "node_at root a = n" using descendants_at by fastforce
  ultimately show ?thesis using Some q by (simp add: device_node_search_phandle_def search_phandle_find)
qed

section \<open>Lists of strings\<close>

definition printable :: "string \<Rightarrow> bool" where
  "printable s \<longleftrightarrow> s \<noteq> [] \<and> (\<forall>c\<in>set s. 32 \<le> (of_char c :: nat) \<and> (of_char c :: nat) \<le> 126)"

definition quoted_list :: "string list \<Rightarrow> string" where
  "quoted_list ss = concat (map (\<lambda>s. quote # s @ [quote] @ '', '') (butlast ss)) @ quote # last ss @ [quote]"

lemma byte_of_char: "unat (word_of_nat (of_char c) :: u8) = of_char c"
proof -
  have "(of_char c :: nat) < 256" by simp
  then show ?thesis by (simp add: unsigned_of_nat take_bit_nat_eq_self)
qed

text \<open>The printing loop, from the left.\<close>

fun print_strings :: "bytes \<Rightarrow> string" where
  "print_strings [] = []"
| "print_strings (b # bs) =
     (if b = 0 then quote # (if bs = [] then '';'' else '', '' @ [quote]) else [char_of (unat b)]) @ print_strings bs"

lemma print_strings_eq:
  "concat (map (\<lambda>i. if ms ! i = 0 then quote # (if i = length ms - 1 then '';'' else '', '' @ [quote])
      else [char_of (unat (ms ! i))]) [0..<length ms]) = print_strings ms"
proof (induction ms)
  case Nil
  then show ?case by simp
next
  case (Cons b bs)
  have "concat (map (\<lambda>i. if (b # bs) ! i = 0 then quote # (if i = length (b # bs) - 1 then '';'' else '', '' @ [quote])
        else [char_of (unat ((b # bs) ! i))]) (map Suc [0..<length bs])) = print_strings bs"
    unfolding Cons.IH [symmetric] map_map by (rule arg_cong [of _ _ concat], rule map_cong) auto
  moreover have "[0..<length (b # bs)] = 0 # map Suc [0..<length bs]" by (simp add: upt_conv_Cons map_Suc_upt del: upt_Suc)
  moreover have "(if (b # bs) ! 0 = 0 then quote # (if 0 = length (b # bs) - 1 then '';'' else '', '' @ [quote])
      else [char_of (unat ((b # bs) ! 0))]) @ print_strings bs = print_strings (b # bs)" by (cases bs) simp_all
  ultimately show ?case by (simp only: list.map concat.simps)
qed

lemma print_strings_word: "printable s \<or> s = [] \<Longrightarrow> print_strings (bytes_of_string s @ bs) = s @ print_strings bs"
proof (induction s)
  case Nil
  then show ?case by (simp add: bytes_of_string_def)
next
  case (Cons c s)
  have c: "(of_char c :: nat) \<noteq> 0" "printable s \<or> s = []" using Cons.prems by (auto simp: printable_def)
  have "(word_of_nat (of_char c) :: u8) \<noteq> 0" using byte_of_char [of c] c(1) by (metis unat_0)
  then show ?case using Cons.IH [OF c(2)] byte_of_char [of c] by (simp add: bytes_of_string_def)
qed

lemma print_strings_list:
  "ss \<noteq> [] \<Longrightarrow> \<forall>s\<in>set ss. printable s \<Longrightarrow> quote # print_strings (concat (map c_bytes ss)) = quoted_list ss @ '';''"
proof (induction ss)
  case Nil
  then show ?case by simp
next
  case (Cons s ss)
  have w: "print_strings (c_bytes s @ bs) = s @ quote # (if bs = [] then '';'' else '', '' @ [quote]) @ print_strings bs" for bs
    using Cons.prems(2) print_strings_word [of s "0 # bs"] by (simp add: c_bytes_def)
  show ?case
  proof (cases ss)
    case Nil
    then show ?thesis using w [of "[]"] by (simp add: quoted_list_def)
  next
    case (Cons t ts)
    then have "concat (map c_bytes ss) \<noteq> []" by (simp add: c_bytes_def)
    then show ?thesis using w [of "concat (map c_bytes ss)"] Cons.IH Cons.prems(2) Cons by (simp add: quoted_list_def)
  qed
qed

lemma c_bytes_nth_0: "i < length s \<Longrightarrow> printable s \<Longrightarrow> c_bytes s ! i \<noteq> 0 \<and> isprint (c_bytes s ! i)"
proof -
  assume i: "i < length s" "printable s"
  have n: "c_bytes s ! i = word_of_nat (of_char (s ! i))" using i(1) by (simp add: c_bytes_def bytes_of_string_def nth_append)
  have r: "32 \<le> (of_char (s ! i) :: nat)" "(of_char (s ! i) :: nat) \<le> 126" using i by (auto simp: printable_def)
  have u: "unat (c_bytes s ! i) = of_char (s ! i)" by (simp only: n byte_of_char)
  then have "c_bytes s ! i \<noteq> 0" using r by (metis unat_0 le_zero_eq zero_neq_numeral)
  then show ?thesis using u r by (simp add: isprint_def)
qed

text \<open>No byte is rejected.\<close>

lemma strings_accepted:
  "\<forall>s\<in>set ss. printable s \<Longrightarrow> i < length (concat (map c_bytes ss)) \<Longrightarrow>
    (if concat (map c_bytes ss) ! i = 0 then i + 1 < length (concat (map c_bytes ss)) \<longrightarrow> concat (map c_bytes ss) ! (i + 1) \<noteq> 0
     else isprint (concat (map c_bytes ss) ! i))"
proof (induction ss arbitrary: i)
  case Nil
  then show ?case by simp
next
  case (Cons s ss)
  let ?r = "concat (map c_bytes ss)" and ?k = "length s + 1"
  have s: "printable s" using Cons.prems(1) by simp
  have first: "?r \<noteq> [] \<Longrightarrow> ?r ! 0 \<noteq> 0"
    using Cons.prems(1) c_bytes_nth_0 [of 0 "hd ss"] by (cases ss) (auto simp: nth_append printable_def)
  show ?case
  proof (cases "i < length s")
    case True
    then show ?thesis using c_bytes_nth_0 [OF True s] by (simp add: nth_append)
  next
    case False
    show ?thesis
    proof (cases "i = length s")
      case True
      then have "(c_bytes s @ ?r) ! i = 0" by (simp add: c_bytes_def bytes_of_string_def nth_append)
      moreover have "(c_bytes s @ ?r) ! (i + 1) = ?r ! 0" using True by (simp add: nth_append)
      ultimately show ?thesis using first True by auto
    next
      case False
      with \<open>\<not> i < length s\<close> have i: "?k \<le> i" by simp
      then have "(c_bytes s @ ?r) ! i = ?r ! (i - ?k)" "(c_bytes s @ ?r) ! (i + 1) = ?r ! (i + 1 - ?k)" "i + 1 - ?k = i - ?k + 1"
        by (simp_all add: nth_append)
      moreover have b: "i - ?k < length ?r" "i + 1 < length (c_bytes s @ ?r) \<longleftrightarrow> i - ?k + 1 < length ?r"
        using Cons.prems(2) i by auto
      moreover have "if ?r ! (i - ?k) = 0 then i - ?k + 1 < length ?r \<longrightarrow> ?r ! (i - ?k + 1) \<noteq> 0 else isprint (?r ! (i - ?k))"
        using Cons.IH [OF _ b(1)] Cons.prems(1) by simp
      ultimately show ?thesis by (simp only: list.map concat.simps)
    qed
  qed
qed

text \<open>A property that is a list of texts is printed as these texts in quotes: each of them with at least one character,
  all of them printable, ended by a zero byte.\<close>

theorem multi_strings_quoted:
  assumes "ss \<noteq> []" "\<forall>s\<in>set ss. printable s"
  shows "fdt_prop_print_multi_strings (concat (map c_bytes ss)) = (0, '' = '' @ quoted_list ss @ '';'')"
proof -
  let ?ms = "concat (map c_bytes ss)"
  obtain s r where ss: "ss = s # r" using assms(1) by (cases ss) auto
  have s: "s \<noteq> []" "printable s" using assms(2) ss by (auto simp: printable_def)
  have ms: "?ms \<noteq> []" using ss by (simp add: c_bytes_def)
  have "c_bytes s \<noteq> []" by (simp add: c_bytes_def)
  then have "hd ?ms = c_bytes s ! 0" using ss hd_conv_nth [of "c_bytes s"] by simp
  then have hd: "hd ?ms \<noteq> 0" using c_bytes_nth_0 [of 0 s] s by simp
  have lst: "last ?ms = 0"
    using assms(1) by (induction ss) (auto simp: c_bytes_def)
  have acc: "\<not> list_ex (\<lambda>i. if ?ms ! i = 0 then i \<noteq> length ?ms - 1 \<and> ?ms ! (i + 1) = 0 else \<not> isprint (?ms ! i)) [0..<length ?ms]"
  proof -
    have "\<not> (if ?ms ! i = 0 then i \<noteq> length ?ms - 1 \<and> ?ms ! (i + 1) = 0 else \<not> isprint (?ms ! i))" if i: "i < length ?ms" for i
    proof -
      have "i \<noteq> length ?ms - 1 \<Longrightarrow> i + 1 < length ?ms" using i by linarith
      then show ?thesis using strings_accepted [OF assms(2) i] by (auto split: if_splits)
    qed
    then show ?thesis by (simp add: list_ex_iff del: split_paired_Ex)
  qed
  show ?thesis
    using hd lst acc print_strings_list [OF assms] by (simp add: fdt_prop_print_multi_strings_def Let_def print_strings_eq)
qed

theorem multi_strings_quoted_witness:
  "fdt_prop_print_multi_strings (concat (map c_bytes [''okay'', ''disabled''])) = (0, '' = '' @ quoted_list [''okay'', ''disabled''] @ '';'')"
  by (rule multi_strings_quoted) (simp_all add: printable_def)

section \<open>Paths\<close>

text \<open>The components of a path are what \<open>argv_buffer_split_with_delim\<close> returns: the first 31 tokens.\<close>

lemma path_argv_tokens: "path_argv path = take 31 (tokens ''/'' path)"
  by (simp add: path_argv_def FDT_MAX_DEPTH_def argv_split_loop_tokens)

lemma path_argv_split:
  "argv_buffer_split_with_delim (Some path) (Some ''/'') FDT_MAX_DEPTH = Ok (int (length (path_argv path)), path_argv path)"
  by (simp add: argv_split_tokens path_argv_tokens FDT_MAX_DEPTH_def Let_def)

section \<open>Symbols\<close>

fun valid_addr :: "device_node \<Rightarrow> nat list \<Rightarrow> bool" where
  "valid_addr n [] = True"
| "valid_addr n (i # is) = (i < length (node_child n) \<and> valid_addr (node_child n ! i) is)"

lemma set_label_simps [simp]:
  "node_name (set_label l n) = node_name n" "node_child (set_label l n) = node_child n" "node_label (set_label l n) = l"
  by (cases n; simp)+

lemma set_child_simps [simp]:
  "node_name (set_child cs n) = node_name n" "node_child (set_child cs n) = cs" "node_label (set_child cs n) = node_label n"
  by (cases n; simp)+

lemma update_label_name [simp]: "node_name (update_at (set_label l) r a) = node_name r"
  by (cases a) simp_all

lemma nth_update_any: "xs[i := x] ! j = (if i = j \<and> i < length xs then x else xs ! j)"
  by (cases "i < length xs") (auto simp: nth_list_update list_update_beyond)

lemma length_takeWhile_names:
  "map node_name cs = map node_name ds \<Longrightarrow>
    length (takeWhile (\<lambda>n. node_name n \<noteq> nm) cs) = length (takeWhile (\<lambda>n. node_name n \<noteq> nm) ds)"
proof (induction cs arbitrary: ds)
  case Nil
  then show ?case by simp
next
  case (Cons c cs)
  then show ?case by (cases ds) auto
qed

lemma find_byname_names:
  "map node_name (node_child r) = map node_name (node_child r') \<Longrightarrow> device_node_find_byname r nm = device_node_find_byname r' nm"
  using length_takeWhile_names [of "node_child r" "node_child r'" nm] map_eq_imp_length_eq [of node_name "node_child r" node_name "node_child r'"]
  by (simp add: device_node_find_byname_def)

lemma update_label_names: "map node_name (node_child (update_at (set_label l) r a)) = map node_name (node_child r)"
proof (cases a)
  case (Cons i b)
  show ?thesis unfolding Cons
    by (rule nth_equalityI) (auto simp: nth_update_any)
qed simp

text \<open>Labels do not matter for finding nodes.\<close>

lemma find_byargv_label: "find_byargv (update_at (set_label l) r a) argv = find_byargv r argv"
proof (induction argv arbitrary: r a)
  case Nil
  then show ?case by simp
next
  case (Cons nm argv)
  have "find_byargv (node_child (update_at (set_label l) r a) ! i) argv = find_byargv (node_child r ! i) argv"
    if "i < length (node_child r)" for i
    using that Cons.IH by (cases a) (auto simp: nth_update_any)
  moreover have "i < length (node_child r)" if "device_node_find_byname r nm = Some i" for i
    using that by (auto simp: device_node_find_byname_def Let_def split: if_splits)
  ultimately show ?case
    using find_byname_names [OF update_label_names, of l r a nm] by (simp split: option.split)
qed

lemma find_byargv_valid: "find_byargv r argv = Some a \<Longrightarrow> valid_addr r a"
proof (induction argv arbitrary: r a)
  case Nil
  then show ?case by simp
next
  case (Cons nm argv)
  then show ?case by (auto simp: device_node_find_byname_def Let_def split: option.splits if_splits)
qed

lemma update_label_valid [simp]: "valid_addr (update_at (set_label l) r a) b = valid_addr r b"
proof (induction a arbitrary: r b)
  case Nil
  then show ?case by (cases b) simp_all
next
  case (Cons i a)
  then show ?case by (cases b) (auto simp: nth_update_any)
qed

lemma update_label_label:
  "valid_addr r a \<Longrightarrow> valid_addr r b \<Longrightarrow>
    node_label (node_at (update_at (set_label l) r a) b) = (if a = b then l else node_label (node_at r b))"
proof (induction a arbitrary: r b)
  case Nil
  then show ?case by (cases b) simp_all
next
  case (Cons i a)
  then show ?case by (cases b) (auto simp: nth_update_any)
qed

definition symbols :: "device_node \<Rightarrow> device_node list" where
  "symbols root = (case device_node_find_byname root FDT_SYMBOLS_NAME of None \<Rightarrow> [] | Some i \<Rightarrow> node_child (node_child root ! i))"

definition apply_symbol :: "device_node \<Rightarrow> device_node \<Rightarrow> device_node" where
  "apply_symbol r sy =
     (case device_node_find_bypath r (prop_text 256 sy) of
        None \<Rightarrow> r
      | Some a \<Rightarrow> update_at (set_label (snprintf_s 64 (node_name sy))) r a)"

lemma load_symbols_fold: "fdt_load_symbols root = foldl apply_symbol root (symbols root)"
proof -
  have "apply_symbol = (\<lambda>r sy. case device_node_find_bypath r (prop_text 256 sy) of None \<Rightarrow> r
      | Some a \<Rightarrow> update_at (set_label (snprintf_s 64 (node_name sy))) r a)"
    by (simp add: apply_symbol_def fun_eq_iff)
  then show ?thesis by (simp add: fdt_load_symbols_def symbols_def split: option.split)
qed

lemma apply_symbol_find [simp]: "device_node_find_bypath (apply_symbol r sy) path = device_node_find_bypath r path"
  by (simp add: apply_symbol_def device_node_find_bypath_def find_byargv_label split: option.split)

lemma fold_symbols_find [simp]: "device_node_find_bypath (foldl apply_symbol r syms) path = device_node_find_bypath r path"
  by (induction syms arbitrary: r) simp_all

lemma fold_symbols_valid [simp]: "valid_addr (foldl apply_symbol r syms) b = valid_addr r b"
proof (induction syms arbitrary: r)
  case (Cons sy syms)
  have "valid_addr (apply_symbol r sy) b = valid_addr r b" by (simp add: apply_symbol_def split: option.split)
  then show ?case using Cons.IH by simp
qed simp

text \<open>C23: the symbols of a tree become the labels of the nodes they name. A node gets the name, cut to 63 characters, of the last
  symbol whose text is its path, and keeps its label when there is none; no lookup by path changes.\<close>

theorem load_symbols_labels:
  assumes "valid_addr root b"
  shows "node_label (node_at (fdt_load_symbols root) b) =
      (case find (\<lambda>sy. device_node_find_bypath root (prop_text 256 sy) = Some b) (rev (symbols root)) of
         None \<Rightarrow> node_label (node_at root b)
       | Some sy \<Rightarrow> take 63 (node_name sy)) \<and>
    device_node_find_bypath (fdt_load_symbols root) path = device_node_find_bypath root path"
proof -
  have "node_label (node_at (foldl apply_symbol root syms) b) =
      (case find (\<lambda>sy. device_node_find_bypath root (prop_text 256 sy) = Some b) (rev syms) of
         None \<Rightarrow> node_label (node_at root b)
       | Some sy \<Rightarrow> take 63 (node_name sy))" for syms
  proof (induction syms rule: rev_induct)
    case Nil
    then show ?case by simp
  next
    case (snoc sy syms)
    let ?r = "foldl apply_symbol root syms"
    show ?case
    proof (cases "device_node_find_bypath root (prop_text 256 sy)")
      case None
      then have "apply_symbol ?r sy = ?r" by (simp add: apply_symbol_def [of ?r sy])
      then show ?thesis using snoc None by simp
    next
      case (Some a)
      then have "apply_symbol ?r sy = update_at (set_label (take 63 (node_name sy))) ?r a"
        by (simp add: apply_symbol_def [of ?r sy] snprintf_s_def)
      moreover have "valid_addr ?r a" using find_byargv_valid [of root _ a] Some by (simp add: device_node_find_bypath_def)
      ultimately show ?thesis using snoc Some assms update_label_label [of ?r a b] by simp
    qed
  qed
  then show ?thesis by (simp add: load_symbols_fold)
qed

section \<open>Overlays\<close>

text \<open>
  How long a reference is, from its cells: a zero stands for itself; a node of the tree takes the fixed number of cells; an external
  node does so too, or all cells in front of the next external reference when the number is not fixed. A node without a label and
  missing cells end the list.
\<close>

definition plain_cells :: "u32 list \<Rightarrow> nat" where
  "plain_cells cells = length (takeWhile (\<lambda>c. \<not> phandle_is_dtbo_extern c) cells)"

definition reference_cells :: "device_node \<Rightarrow> device_node \<Rightarrow> u32 \<Rightarrow> u32 \<Rightarrow> u32 list \<Rightarrow> nat option" where
  "reference_cells root ext fix_size phandle cells =
     (let sized = (\<lambda>node k. if node_label node = [] \<or> length cells < k then None else Some k)
      in if phandle = 0 then Some 0
         else case device_node_search_phandle root phandle of
             Some a \<Rightarrow> sized (node_at root a) (unat fix_size)
           | None \<Rightarrow>
               (case device_node_search_phandle ext phandle of
                  None \<Rightarrow> None
                | Some a \<Rightarrow> sized (node_at ext a) (if fix_size \<noteq> 0 then unat fix_size else plain_cells cells)))"

text \<open>An external reference of open length with no other one behind it.\<close>

definition open_ended :: "device_node \<Rightarrow> device_node \<Rightarrow> u32 \<Rightarrow> u32 \<Rightarrow> u32 list \<Rightarrow> bool" where
  "open_ended root ext fix_size phandle cells \<longleftrightarrow> fix_size = 0 \<and> phandle \<noteq> 0 \<and> device_node_search_phandle root phandle = None \<and>
     device_node_search_phandle ext phandle \<noteq> None \<and> (\<forall>c\<in>set cells. \<not> phandle_is_dtbo_extern c)"

fun reads_behind :: "device_node \<Rightarrow> device_node \<Rightarrow> u32 \<Rightarrow> u32 list \<Rightarrow> bool" where
  "reads_behind root ext fix_size [] = False"
| "reads_behind root ext fix_size (phandle # cells) =
     (open_ended root ext fix_size phandle cells \<or>
      (case reference_cells root ext fix_size phandle cells of
         None \<Rightarrow> False | Some k \<Rightarrow> reads_behind root ext fix_size (drop k cells)))"

lemma cells_of_simps:
  "length bs < 4 \<Longrightarrow> cells_of bs = []"
  "4 \<le> length bs \<Longrightarrow> cells_of bs = get_be32 0 bs # cells_of (drop 4 bs)"
proof -
  show "4 \<le> length bs \<Longrightarrow> cells_of bs = get_be32 0 bs # cells_of (drop 4 bs)"
    using le_div_geq [of 4 "length bs"] by (simp add: cells_of_def get_be32_def)
qed (simp add: cells_of_def)

lemma length_cells_of [simp]: "length (cells_of bs) = length bs div 4"
  by (simp add: cells_of_def)

lemma cells_of_drop: "cells_of (drop (4 * k) bs) = drop k (cells_of bs)"
proof (induction k arbitrary: bs)
  case (Suc k)
  show ?case
  proof (cases "4 \<le> length bs")
    case True
    then show ?thesis using Suc [of "drop 4 bs"] cells_of_simps(2) [OF True] by (simp add: add.commute)
  qed (simp add: cells_of_simps(1))
qed simp

lemma count_cells_eq:
  "count_cells bs =
    (if \<exists>c\<in>set (cells_of bs). phandle_is_dtbo_extern c then Ok (word_of_nat (plain_cells (cells_of bs))) else Oob)"
proof (induction bs rule: count_cells.induct)
  case (1 a b c d rest)
  have "cells_of (a # b # c # d # rest) = get_be32 0 [a, b, c, d] # cells_of rest"
    using cells_of_simps(2) [of "a # b # c # d # rest"] by (simp add: get_be32_def)
  then show ?case using 1 by (simp add: plain_cells_def add.commute)
qed (simp_all add: cells_of_simps(1))

lemma print_reference_eq:
  assumes "is_dtbo p" "4 * unat c < 2 ^ 32"
  shows "\<exists>txt. print_reference p cn node c bs =
    (if node_label node = [] \<or> length (cells_of bs) < unat c then Ok (-1, [], bs) else Ok (0, txt, drop (4 * unat c) bs))"
proof -
  have "unat (c * 4) = 4 * unat c"
    using assms(2) unat_mult_lem [of c 4] by (simp add: mult.commute)
  then show ?thesis using assms(1) by (auto simp: print_reference_def less_eq_div_iff_mult_less_eq not_less [symmetric])
qed

text \<open>One reference against this.\<close>

lemma phandles_step_cases:
  assumes p: "is_dtbo p" "fdt_root p = Some root" "dtbo_extern p = Some ext"
    and small: "4 * unat fix_size < 2 ^ 32" "length data < 2 ^ 32" and d: "4 \<le> length data" "cells_of data = phandle # cells"
  shows "if open_ended root ext fix_size phandle cells then phandles_step p cn fix_size data = Oob
    else case reference_cells root ext fix_size phandle cells of
        None \<Rightarrow> \<exists>txt rest. phandles_step p cn fix_size data = Ok (-1, txt, rest)
      | Some k \<Rightarrow> \<exists>txt. phandles_step p cn fix_size data = Ok (0, txt, drop (4 * k) (drop 4 data))"
proof -
  let ?bs = "drop 4 data"
  have ph: "get_be32 0 data = phandle" and cs: "cells = cells_of ?bs" using cells_of_simps(2) [OF d(1)] d(2) by simp_all
  note pr = print_reference_eq [OF p(1)]
  show ?thesis
  proof (cases "phandle = 0")
    case True
    then show ?thesis using ph by (simp add: open_ended_def reference_cells_def phandles_step_def)
  next
    case ne: False
    show ?thesis
    proof (cases "device_node_search_phandle root phandle")
      case (Some a)
      then show ?thesis using pr [OF small(1), of cn "node_at root a" ?bs] ne ph cs p(2)
        by (auto simp: open_ended_def reference_cells_def phandles_step_def with_root_def Let_def)
    next
      case None
      show ?thesis
      proof (cases "device_node_search_phandle ext phandle")
        case (Some a)
        show ?thesis
        proof (cases "fix_size = 0")
          case False
          then show ?thesis using pr [OF small(1), of cn "node_at ext a" ?bs] ne ph cs p None Some
            by (auto simp: open_ended_def reference_cells_def phandles_step_def with_root_def Let_def)
        next
          case True
          define n where "n = plain_cells cells"
          have "n \<le> length cells" by (simp add: n_def plain_cells_def length_takeWhile_le)
          then have "4 * n < 2 ^ 32" using small(2) cs by simp
          then have n: "unat (word_of_nat n :: u32) = n" "4 * unat (word_of_nat n :: u32) < 2 ^ 32"
            by (simp_all add: unsigned_of_nat take_bit_nat_eq_self)
          show ?thesis using pr [OF n(2), of cn "node_at ext a" ?bs] n(1) ne ph cs p None Some True n_def
            by (auto simp: open_ended_def reference_cells_def phandles_step_def with_root_def Let_def count_cells_eq)
        qed
      next
        case no: None
        then show ?thesis using ne ph p None
          by (simp add: open_ended_def reference_cells_def phandles_step_def with_root_def Let_def)
      qed
    qed
  qed
qed

lemma phandles_loop_Oob:
  assumes p: "is_dtbo p" "fdt_root p = Some root" "dtbo_extern p = Some ext" and small: "4 * unat fix_size < 2 ^ 32"
  shows "length data < 2 ^ 32 \<Longrightarrow> phandles_loop p cn fix_size check_only data = Oob \<longleftrightarrow> reads_behind root ext fix_size (cells_of data)"
proof (induction data rule: measure_induct_rule [of length])
  case (less data)
  show ?case
  proof (cases "length data < 4")
    case True
    then show ?thesis by (simp add: phandles_loop.simps cells_of_simps(1))
  next
    case False
    then have d: "4 \<le> length data" by simp
    define phandle cells where "phandle = get_be32 0 data" and "cells = cells_of (drop 4 data)"
    have c: "cells_of data = phandle # cells" using cells_of_simps(2) [OF d] by (simp add: phandle_def cells_def)
    note st = phandles_step_cases [OF p small less.prems d c, of cn]
    show ?thesis
    proof (cases "open_ended root ext fix_size phandle cells")
      case True
      then show ?thesis using st d c by (simp add: phandles_loop.simps [of p cn fix_size check_only data])
    next
      case no: False
      show ?thesis
      proof (cases "reference_cells root ext fix_size phandle cells")
        case None
        then obtain tx rest where "phandles_step p cn fix_size data = Ok (-1, tx, rest)" using st no by auto
        then show ?thesis using no None d c by (simp add: phandles_loop.simps [of p cn fix_size check_only data])
      next
        case (Some k)
        let ?rest = "drop (4 * k) (drop 4 data)"
        obtain tx where step: "phandles_step p cn fix_size data = Ok (0, tx, ?rest)" using st no Some by auto
        have ih: "phandles_loop p cn fix_size check_only ?rest = Oob \<longleftrightarrow> reads_behind root ext fix_size (cells_of ?rest)"
          using d less.prems by (intro less.IH) simp_all
        have cb: "cbind r (\<lambda>(ret', txt'). Ok (ret', g txt')) = Oob \<longleftrightarrow> r = Oob" for r :: "(int \<times> string) cres" and g :: "string \<Rightarrow> string"
          by (cases r) auto
        have "phandles_loop p cn fix_size check_only data = Oob \<longleftrightarrow> phandles_loop p cn fix_size check_only ?rest = Oob"
          using d step by (subst phandles_loop.simps) (simp add: cb)
        moreover have "cells_of ?rest = drop k cells" by (simp only: cells_of_drop cells_def)
        ultimately show ?thesis using ih no Some c by simp
      qed
    qed
  qed
qed

text \<open>C36: exactly when listing an overlay reads behind the end of a property of references: the references are taken off its start
  one by one, and the walk comes to a node that is not in the tree but among the external ones, the number of its cells
  is not fixed, and none of the cells behind it has the mark of an external node. The walk ends before that at a reference that
  is not found, has no label or lacks cells; a property with a fixed number of cells is never left.\<close>

theorem overlay_reads_outside:
  assumes "is_dtbo p" "fdt_root p = Some root" "dtbo_extern p = Some ext" "4 * unat fix_size < 2 ^ 32" "length data < 2 ^ 32"
  shows "fdt_do_print_phandles p cell_name fix_size data = Oob \<longleftrightarrow> reads_behind root ext fix_size (cells_of data)"
proof (cases "length data < 4")
  case True
  then show ?thesis by (simp add: fdt_do_print_phandles_def cells_of_simps(1))
next
  case False
  note l = phandles_loop_Oob [OF assms(1-5), of cell_name]
  show ?thesis
  proof (cases "phandles_loop p cell_name fix_size True data")
    case (Ok r)
    then have nr: "\<not> reads_behind root ext fix_size (cells_of data)" using l [of True] by simp
    then have no: "phandles_loop p cell_name fix_size False data \<noteq> Oob" using l [of False] by simp
    then have "fdt_do_print_phandles p cell_name fix_size data \<noteq> Oob"
      using False Ok by (cases "phandles_loop p cell_name fix_size False data") (auto simp: fdt_do_print_phandles_def split: prod.splits)
    then show ?thesis using nr by simp
  qed (use False l [of True] in \<open>simp_all add: fdt_do_print_phandles_def\<close>)
qed

section \<open>Witnesses\<close>

lemma nul_char: "nul = CHR 0x00"
  by (simp add: nul_def char_of_def)

definition demo_tree :: device_node where
  "demo_tree =
     Device_Node ''/'' [] True []
       [Device_Node ''model'' [] False [116, 0] [],
        Device_Node ''cpus'' [] True [] [Device_Node ''phandle'' [] False [0, 0, 0, 7] []],
        Device_Node ''__symbols__'' [] True [] [Device_Node ''cpu'' [] False [47, 99, 112, 117, 115, 0] []]]"

theorem fdt_detect_flat_witness:
  "\<exists>s'. fdt_detect [] (Some []) \<lparr>dtb = [], totalsize = 0, fdt_root = None, keep_symbols = False, keep_aliases = False,
      keep_phandle = False, keep_fixups = False, is_dtbo = False, dtbo_extern = None\<rparr> 0 (one_file_sys (fdt_image demo_tree)) =
    Ok (0, \<lparr>dtb = fdt_image demo_tree, totalsize = word_of_nat (length (fdt_image demo_tree)),
      fdt_root = Some (fdt_load_symbols demo_tree), keep_symbols = False, keep_aliases = False,
      keep_phandle = False, keep_fixups = False, is_dtbo = False, dtbo_extern = None\<rparr>, s')"
proof -
  have len: "length (fdt_image demo_tree) \<le> 1000"
    by (simp add: length_fdt_image flat_struct_def flat_strings_def strings_block_def demo_tree_def aligned4_def)
  have ok: "is_node demo_tree" "tree_ok 31 demo_tree"
    by (simp_all add: demo_tree_def good_name_def nul_char)
  let ?p = "\<lparr>dtb = [], totalsize = 0, fdt_root = None, keep_symbols = False, keep_aliases = False,
      keep_phandle = False, keep_fixups = False, is_dtbo = False, dtbo_extern = None\<rparr>"
  have io: "length (fdt_image demo_tree) \<le> max_io (one_file_sys (fdt_image demo_tree))"
    using len by (simp add: one_file_sys_def)
  have "length (fdt_image demo_tree) \<le> 64 * 2 ^ 20" using len by simp
  from fdt_detect_flat [OF ok this one_file_sys_ok io, of ?p "[]" "[]"] show ?thesis by simp
qed

theorem load_symbols_labels_witness:
  "node_label (node_at (fdt_load_symbols demo_tree) [1]) = ''cpu''"
proof -
  have v: "valid_addr demo_tree [1]" by (simp add: demo_tree_def)
  let ?sy = "Device_Node ''cpu'' [] False [47, 99, 112, 117, 115, 0] []"
  have syms: "symbols demo_tree = [?sy]"
    by (simp add: demo_tree_def symbols_def device_node_find_byname_def FDT_SYMBOLS_NAME_def)
  have "prop_text 256 ?sy = ''/cpus''" by (simp add: prop_text_def string_of_bytes_def snprintf_s_def char_of_def bit_0)
  moreover have "tokens ''/'' ''/cpus'' = [''cpus'']" by (simp add: tokens_def)
  ultimately have "device_node_find_bypath demo_tree (prop_text 256 ?sy) = Some [1]"
    by (simp add: device_node_find_bypath_def path_argv_tokens demo_tree_def device_node_find_byname_def)
  then show ?thesis using load_symbols_labels [OF v, of "''/''"] by (simp add: syms)
qed

definition demo_ext :: device_node where
  "demo_ext = add_child (extern_node ''pio'' 5) (new_device_node ''/'' [])"

definition demo_overlay :: fdt_editor_private_data where
  "demo_overlay = \<lparr>dtb = [], totalsize = 0, fdt_root = Some (Device_Node ''/'' [] True [] []), keep_symbols = False,
     keep_aliases = False, keep_phandle = False, keep_fixups = False, is_dtbo = True, dtbo_extern = Some demo_ext\<rparr>"

text \<open>A zero, then an external reference with two cells; with the fixed size of one cell the same property is not left.\<close>

theorem overlay_reads_outside_witness:
  "fdt_do_print_phandles demo_overlay (Some ''#clock-cells'') 0 [0, 0, 0, 0, 0, 0, 0, 5, 0, 0, 0, 6, 0, 0, 0, 2] = Oob \<and>
   fdt_do_print_phandles demo_overlay None 1 [0, 0, 0, 0, 0, 0, 0, 5, 0, 0, 0, 6] \<noteq> Oob"
proof -
  have "be_decode (be_encode 4 5) = 5" by (rule be_decode_encode) simp
  then have m: "device_node_read_u32 (new_device_node ''phandle'' (be_encode 4 5)) = Some 5"
    by (simp add: device_node_read_u32_def new_device_node_def get_be32_def)
  have e: "device_node_search_phandle demo_ext 5 = Some [0]"
    using m by (simp add: device_node_search_phandle_def extern_node_def new_device_node_def add_child_def snprintf_s_def
        device_node_match_phandle_def demo_ext_def)
  have r: "device_node_search_phandle (Device_Node ''/'' [] True [] []) n = None" for n
    by (simp add: device_node_search_phandle_def)
  have c: "cells_of [0, 0, 0, 0, 0, 0, 0, 5, 0, 0, 0, 6, 0, 0, 0, 2] = [0, 5, 6, 2]" "cells_of [0, 0, 0, 0, 0, 0, 0, 5, 0, 0, 0, 6] = [0, 5, 6]"
    by (simp_all add: cells_of_simps get_be32_def be_decode_def)
  have x: "\<not> phandle_is_dtbo_extern 6" "\<not> phandle_is_dtbo_extern 2"
    by (simp_all add: phandle_is_dtbo_extern_def FDT_DTBO_EXTERN_PHANDLE_MAGIC_def)
  have p: "is_dtbo demo_overlay" "fdt_root demo_overlay = Some (Device_Node ''/'' [] True [] [])" "dtbo_extern demo_overlay = Some demo_ext"
    by (simp_all add: demo_overlay_def)
  have 0: "reads_behind (Device_Node ''/'' [] True [] []) demo_ext 0 [0, 5, 6, 2]"
    using e r x by (simp add: reference_cells_def open_ended_def)
  have 1: "\<not> reads_behind (Device_Node ''/'' [] True [] []) demo_ext 1 [0, 5, 6]"
    using e r by (simp add: reference_cells_def open_ended_def Let_def)
  show ?thesis
    using 0 1 overlay_reads_outside [OF p, of 0 "[0, 0, 0, 0, 0, 0, 0, 5, 0, 0, 0, 6, 0, 0, 0, 2]" "Some ''#clock-cells''"]
      overlay_reads_outside [OF p, of 1 "[0, 0, 0, 0, 0, 0, 0, 5, 0, 0, 0, 6]" None]
    by (simp add: c)
qed

end
