(* ===== verification/Dtimg.thy ===== *)
theory Dtimg
  imports Fdt Exini
begin

text \<open>
  The editor of android's device tree table images (android/dtimg.c): detection, the listings, the value that most of the
  entries share, taking an image apart into device trees and a configuration, and putting one together from them. All numbers of
  the image are big endian; the records hold them as numbers, and the two packed structures are their encodings. What
  \<open>malloc\<close> and the stack hold, the files behind the names, and whether \<open>calloc\<close> succeeds are parameters.
\<close>

section \<open>The table\<close>

definition DT_TABLE_MAGIC :: u32 where "DT_TABLE_MAGIC = 0xd7b7ab1e"
definition DT_TABLE_DEFAULT_PAGE_SIZE :: u32 where "DT_TABLE_DEFAULT_PAGE_SIZE = 2048"
definition DT_TABLE_DEFAULT_VERSION :: u32 where "DT_TABLE_DEFAULT_VERSION = 0"

definition dt_table_magic :: bytes where
  "dt_table_magic = map (\<lambda>k. ucast (drop_bit k DT_TABLE_MAGIC AND 0xff)) [24, 16, 8, 0]"

record dt_table_header =
  dt_magic :: u32
  dt_total_size :: u32
  dt_header_size :: u32
  dt_entry_size :: u32
  dt_entry_count :: u32
  dt_entries_offset :: u32
  dt_page_size :: u32
  dt_version :: u32

record dt_table_entry =
  dt_size :: u32
  dt_offset :: u32
  dt_id :: u32
  dt_rev :: u32
  dt_custom :: "u32 list"

text \<open>\<open>sizeof\<close> of both structures.\<close>

definition sizeof_dt_table :: u32 where "sizeof_dt_table = 32"

definition be32 :: "u32 \<Rightarrow> bytes" where
  "be32 w = be_encode 4 (unat w)"

definition dt_header_bytes :: "dt_table_header \<Rightarrow> bytes" where
  "dt_header_bytes h =
     concat (map be32 [dt_magic h, dt_total_size h, dt_header_size h, dt_entry_size h, dt_entry_count h,
       dt_entries_offset h, dt_page_size h, dt_version h])"

definition dt_header_of :: "bytes \<Rightarrow> dt_table_header" where
  "dt_header_of b =
     \<lparr>dt_magic = get_be32 0 b, dt_total_size = get_be32 4 b, dt_header_size = get_be32 8 b, dt_entry_size = get_be32 12 b,
      dt_entry_count = get_be32 16 b, dt_entries_offset = get_be32 20 b, dt_page_size = get_be32 24 b,
      dt_version = get_be32 28 b\<rparr>"

definition dt_entry_bytes :: "dt_table_entry \<Rightarrow> bytes" where
  "dt_entry_bytes e = concat (map be32 ([dt_size e, dt_offset e, dt_id e, dt_rev e] @ dt_custom e))"

definition dt_entry_of :: "bytes \<Rightarrow> dt_table_entry" where
  "dt_entry_of b =
     \<lparr>dt_size = get_be32 0 b, dt_offset = get_be32 4 b, dt_id = get_be32 8 b, dt_rev = get_be32 12 b,
      dt_custom = [get_be32 16 b, get_be32 20 b, get_be32 24 b, get_be32 28 b]\<rparr>"

definition dt_item :: "string \<Rightarrow> nat \<Rightarrow> nat \<Rightarrow> item_print \<Rightarrow> unit structure_item" where
  "dt_item name off sz pr =
     \<lparr>item_name = name, item_offset = off, item_size = sz, item_print = pr, item_save_json = None, item_load_json = None,
      item_flags = 0\<rparr>"

definition st_dt_table_header :: "unit structure_item list" where
  "st_dt_table_header =
     [dt_item ''magic'' 0 4 Print_be_xunsigned, dt_item ''total_size'' 4 4 Print_be_unsigned,
      dt_item ''header_size'' 8 4 Print_be_unsigned, dt_item ''dt_entry_size'' 12 4 Print_be_unsigned,
      dt_item ''dt_entry_count'' 16 4 Print_be_unsigned, dt_item ''dt_entries_offset'' 20 4 Print_be_unsigned,
      dt_item ''page_size'' 24 4 Print_be_unsigned, dt_item ''version'' 28 4 Print_be_unsigned]"

definition st_dt_table_entry :: "structure_endian \<Rightarrow> unit structure_item list" where
  "st_dt_table_entry fe =
     [dt_item ''dt_size'' 0 4 Print_be_unsigned, dt_item ''dt_offset'' 4 4 Print_be_unsigned,
      dt_item ''id'' 8 4 Print_be_xunsigned, dt_item ''rev'' 12 4 Print_be_xunsigned,
      dt_item ''custom'' 16 16 (Print_other (\<lambda>fmt name b. print_x32_array_le fe fmt name False b))]"

text \<open>\<open>entries\<close> is None while there is no memory for them.\<close>

record dtimg_private_data =
  dt_header :: dt_table_header
  dt_entries :: "dt_table_entry list option"

definition dt_entries_size :: "dt_table_header \<Rightarrow> u32" where
  "dt_entries_size h = dt_entry_count h * dt_entry_size h"

text \<open>Following the pointer to the entries, and one entry.\<close>

definition dt_entry_at :: "dtimg_private_data \<Rightarrow> nat \<Rightarrow> dt_table_entry cres" where
  "dt_entry_at p i =
     (case dt_entries p of None \<Rightarrow> Oob | Some es \<Rightarrow> if i < length es then Ok (es ! i) else Oob)"

section \<open>Detection\<close>

definition dtimg_sections_ok :: "dt_table_header \<Rightarrow> bool" where
  "dtimg_sections_ok h \<longleftrightarrow>
     dt_magic h = DT_TABLE_MAGIC \<and> dt_header_size h = sizeof_dt_table \<and> dt_entry_size h = sizeof_dt_table \<and>
     dt_page_size h = DT_TABLE_DEFAULT_PAGE_SIZE \<and> dt_version h = DT_TABLE_DEFAULT_VERSION"

text \<open>
  \<open>mem\<close> tells whether \<open>calloc\<close> succeeds, which takes the product of its arguments without wrapping; the number of bytes that
  are read is a product of 32 bits, and what is not read stays zero.
\<close>

definition dtimg_detect :: "bool \<Rightarrow> dtimg_private_data \<Rightarrow> int \<Rightarrow> sys \<Rightarrow> int \<times> dtimg_private_data \<times> sys" where
  "dtimg_detect mem p fd s =
     (let (ret, data, s1) = fileread fd 32 s;
          h = dt_header_of (data @ drop (length data) (dt_header_bytes (dt_header p))); p1 = p\<lparr>dt_header := h\<rparr>
      in if ret < 0 then (ret, p1, s1)
         else if \<not> dtimg_sections_ok h then (-1, p1, s1)
         else if dt_entries_offset h < sizeof_dt_table then (-1, p1, s1)
         else if \<not> mem then (-1, p1\<lparr>dt_entries := None\<rparr>, s1)
         else
           let s2 = snd (fileseek fd (int (unat (dt_entries_offset h))) s1);
               (ret2, tab, s3) = fileread fd (unat (dt_entries_size h)) s2;
               n = unat (dt_entry_count h); zeros = replicate (n * unat (dt_entry_size h) - length tab) 0
           in if ret2 < 0 then (ret2, p1\<lparr>dt_entries := None\<rparr>, s3)
              else (0, p1\<lparr>dt_entries := Some (map dt_entry_of (elements n 32 (tab @ zeros)))\<rparr>, s3))"

definition dtimg_total_size :: "dtimg_private_data \<Rightarrow> int" where
  "dtimg_total_size p = int (unat (dt_total_size (dt_header p)))"

section \<open>Listings\<close>

definition dtimg_summary :: "dtimg_private_data \<Rightarrow> nat \<Rightarrow> libcrc32 list \<Rightarrow> (libcrc32 list \<times> string) cres" where
  "dtimg_summary p bufsz algos =
     (let h = dt_header p; (algos1, c1) = crc32 algos 0 (dt_header_bytes h)
      in case dt_entries p of
           None \<Rightarrow> Oob
         | Some es \<Rightarrow>
             let tab = concat (map dt_entry_bytes es)
             in if length tab < unat (dt_entries_size h) then Oob
                else
                  let (algos2, c2) = crc32 algos1 c1 (take (unat (dt_entries_size h)) tab)
                  in Ok (algos2, snprintf_s bufsz
                       (''CRC32: '' @ fmt_0x 8 (unat c2) @ '' contains '' @ fmt_d (dt_entry_count h) @ '' fdt'')))"

definition dtimg_list_entry_verbose :: "structure_endian \<Rightarrow> nat \<Rightarrow> dt_table_entry \<Rightarrow> string" where
  "dtimg_list_entry_verbose fe i e =
     [newline] @ ''DT entry '' @ fmt_d (word_of_nat i) @ '':'' @ [newline]
     @ structure_print fe ''    %-26s: '' (dt_entry_bytes e) (st_dt_table_entry fe)"

definition dtimg_list_entry :: "nat \<Rightarrow> dt_table_entry \<Rightarrow> string" where
  "dtimg_list_entry i e =
     (let x = (\<lambda>w :: u32. ''0x'' @ pad_zero 8 (hex_string (unat w)))
      in ''['' @ pad_zero 2 (fmt_d (word_of_nat i)) @ '']: '' @ x (dt_id e) @ '' '' @ x (dt_rev e) @ '' ''
         @ x (dt_custom e ! 0) @ '' '' @ x (dt_custom e ! 1) @ '' '' @ pad_zero 8 (hex_string (unat (dt_custom e ! 2))) @ '' ''
         @ x (dt_custom e ! 3) @ '' '' @ fmt_d (dt_size e) @ [newline])"

definition dtimg_list :: "structure_endian \<Rightarrow> dtimg_private_data \<Rightarrow> sys \<Rightarrow> (int \<times> string) cres" where
  "dtimg_list fe p s =
     (let h = dt_header p; is = [0..<unat (dt_entry_count h)]
      in if get_verbose_level s > 0 then
           cbind (cmap (\<lambda>i. cbind (dt_entry_at p i) (\<lambda>e. Ok (dtimg_list_entry_verbose fe i e))) is)
             (\<lambda>ts. Ok (0, structure_print fe ''%-30s: '' (dt_header_bytes h) st_dt_table_header @ concat ts))
         else
           cbind (cmap (\<lambda>i. cbind (dt_entry_at p i) (\<lambda>e. Ok (dtimg_list_entry i e))) is)
             (\<lambda>ts. Ok (0, pad_right 5 ''idx'' @ '' '' @ pad_right 10 ''id'' @ '' '' @ pad_right 10 ''rev'' @ '' ''
                @ pad_right 40 ''custom'' @ ''  size'' @ [newline] @ concat ts)))"

section \<open>The value that most entries share\<close>

text \<open>The loop that collects the values: it stores each of them at the same index, and stops at a zero.\<close>

fun default_custom_collect :: "nat \<Rightarrow> u32 list \<Rightarrow> dt_table_entry list \<Rightarrow> u32 list option cres" where
  "default_custom_collect which custom [] = Ok (Some custom)"
| "default_custom_collect which custom (e # es) =
     (if which < length custom then
        if dt_custom e ! which = 0 then Ok None
        else default_custom_collect which (custom[which := dt_custom e ! which]) es
      else Oob)"

text \<open>The loop that counts how often the i-th value comes again; \<open>max_count\<close> is never changed.\<close>

function default_custom_count :: "u32 list \<Rightarrow> nat \<Rightarrow> nat \<Rightarrow> nat \<Rightarrow> nat \<Rightarrow> u32 \<Rightarrow> u32 cres" where
  "default_custom_count custom i j count max_count mx =
     (if j < count then
        if i < length custom \<and> j < length custom then
          if custom ! i = custom ! j then
            default_custom_count custom i (j + 1) (count + 1) max_count (if count + 1 > max_count then custom ! i else mx)
          else default_custom_count custom i (j + 1) count max_count mx
        else Oob
      else Ok mx)"
  by pat_completeness auto
termination by (relation "measure (\<lambda>(custom, i, j, count, max_count, mx). length custom - j)") auto

declare default_custom_count.simps [simp del]

fun default_custom_max :: "u32 list \<Rightarrow> nat list \<Rightarrow> u32 \<Rightarrow> u32 cres" where
  "default_custom_max custom [] mx = Ok mx"
| "default_custom_max custom (i # is) mx =
     cbind (default_custom_count custom i (i + 1) 1 0 mx) (default_custom_max custom is)"

definition dtimg_get_default_custom :: "bool \<Rightarrow> dtimg_private_data \<Rightarrow> int \<Rightarrow> u32 cres" where
  "dtimg_get_default_custom mem p which_custom =
     (if which_custom < 0 \<or> which_custom \<ge> 4 then Ok 0
      else if \<not> mem then Ok 0
      else
        let n = unat (dt_entry_count (dt_header p))
        in cbind (cmap (dt_entry_at p) [0..<n])
          (\<lambda>es. cbind (default_custom_collect (nat which_custom) (replicate n 0) es)
            (\<lambda>r. case r of
                 None \<Rightarrow> Ok 0
               | Some custom \<Rightarrow>
                   if custom = [] then Oob else default_custom_max custom [0..<n] (custom ! 0))))"

section \<open>Taking an image apart\<close>

text \<open>The two nodes at the top of a tree, zero when one is missing or is no number.\<close>

definition dtimg_dtbo_get_global :: "fdt_editor_private_data \<Rightarrow> (u32 \<times> u32) cres" where
  "dtimg_dtbo_get_global fdt =
     with_root fdt (\<lambda>root.
       let get = (\<lambda>name. case device_node_find_byname root name of
               None \<Rightarrow> 0
             | Some i \<Rightarrow> (case device_node_read_u32 (node_child root ! i) of None \<Rightarrow> 0 | Some w \<Rightarrow> w))
       in Ok (get ''board_id'', get ''board_rev''))"

definition dtimg_unpack_entry_section :: "u32 \<Rightarrow> string \<Rightarrow> u32 \<Rightarrow> string" where
  "dtimg_unpack_entry_section v name def =
     (if v \<noteq> def then ''  '' @ name @ ''=0x'' @ hex_string (unat v) @ [newline] else [])"

definition custom_name :: "nat \<Rightarrow> string" where
  "custom_name i = ''custom'' @ dec_string i"

definition dtimg_unpack_customs :: "bool \<Rightarrow> dtimg_private_data \<Rightarrow> (nat \<Rightarrow> u32 \<Rightarrow> string) \<Rightarrow> string cres" where
  "dtimg_unpack_customs mem p line =
     cbind (cmap (\<lambda>k. cbind (dtimg_get_default_custom mem p (int k)) (\<lambda>def. Ok (line k def))) [0..<4])
       (\<lambda>ls. Ok (concat ls))"

text \<open>What the memory holds that is not initialised: the buffer of \<open>dd\<close>, the stack and the blob of each detection, and the
  last character of the buffer for a path.\<close>

record dtimg_memory =
  dd_mem :: "(nat \<Rightarrow> u8) option"
  fdt_stack :: "nat \<Rightarrow> bytes"
  fdt_blob :: "nat \<Rightarrow> bytes option"
  path_last :: char
  custom_mem :: bool

definition empty_fdt :: fdt_editor_private_data where
  "empty_fdt = \<lparr>dtb = [], totalsize = 0, fdt_root = None, keep_symbols = False, keep_aliases = False, keep_phandle = False,
     keep_fixups = False, is_dtbo = False, dtbo_extern = None\<rparr>"

text \<open>The loop over the entries from the i-th on: the status, and the text that is written to the configuration.\<close>

function dtimg_unpack_entries ::
    "dtimg_memory \<Rightarrow> (string \<Rightarrow> nat option) \<Rightarrow> dtimg_private_data \<Rightarrow> int \<Rightarrow> string \<Rightarrow> nat \<Rightarrow> string \<Rightarrow> sys
      \<Rightarrow> (int \<times> string \<times> sys) cres" where
  "dtimg_unpack_entries M inode_of p fd outdir i txt s =
     (if i < unat (dt_entry_count (dt_header p)) then
        cbind (dt_entry_at p i) (\<lambda>e.
        cbind (virtual_file_dup fd (int (unat (dt_offset e))) s) (\<lambda>(vfd, s1).
          if vfd = 0 then Ok (vfd, txt, s1)
          else
        cbind (fdt_detect (fdt_stack M i) (fdt_blob M i) empty_fdt vfd s1) (\<lambda>(ret, fdt, s2).
          if ret < 0 then Ok (ret, txt, snd (virtual_file_close vfd s2))
          else
        cbind (dtimg_dtbo_get_global fdt) (\<lambda>(board_id, board_rev).
        cbind (dtimg_unpack_customs (custom_mem M) p
                 (\<lambda>k def. dtimg_unpack_entry_section (dt_custom e ! k) (custom_name k) def)) (\<lambda>customs.
          let board = ''board'' @ fmt_d (word_of_nat (i + 1)) @ ''.dtbo'';
              txt1 = txt @ [newline] @ board @ [newline] @ dtimg_unpack_entry_section (dt_id e) ''id'' board_id
                @ dtimg_unpack_entry_section (dt_rev e) ''rev'' board_rev @ customs;
              s3 = snd (virtual_file_close vfd s2);
              (fd_dtbo, s4) = fileopen_trunc (inode_of (path_in outdir board)) s3
          in if fd_dtbo < 0 then Ok (fd_dtbo, txt1, s4)
             else case dd (dd_mem M) fd fd_dtbo (int (unat (dt_offset e))) 0 (unat (dt_size e)) None () s4 of
                 (_, _, s5) \<Rightarrow> dtimg_unpack_entries M inode_of p fd outdir (i + 1) txt1 (sys_close fd_dtbo s5))))))
      else Ok (0, txt, s))"
  by pat_completeness auto
termination
  by (relation "measure (\<lambda>(M, inode_of, p, fd, outdir, i, txt, s). unat (dt_entry_count (dt_header p)) - i)") auto

declare dtimg_unpack_entries.simps [simp del]

text \<open>The status and what the configuration holds, when it can be created.\<close>

definition dtimg_unpack ::
    "dtimg_memory \<Rightarrow> (string \<Rightarrow> nat option) \<Rightarrow> dtimg_private_data \<Rightarrow> int \<Rightarrow> string \<Rightarrow> sys \<Rightarrow> (int \<times> string option \<times> sys) cres" where
  "dtimg_unpack M inode_of p fd outdir s =
     (if inode_of (path_in outdir ''dtboimg.cfg'') = None then Ok (-1, None, s)
      else
        cbind (dtimg_unpack_customs (custom_mem M) p
                 (\<lambda>k def. if def \<noteq> 0 then ''  '' @ custom_name k @ ''=0x'' @ hex_string (unat def) @ [newline] else []))
          (\<lambda>customs.
             let txt = ''# global options'' @ [newline] @ ''  id=/:board_id'' @ [newline] @ ''  rev=/:board_rev'' @ [newline]
                   @ customs @ [newline] @ ''# entries''
             in cbind (dtimg_unpack_entries M inode_of p fd outdir 0 txt s) (\<lambda>(ret, txt', s'). Ok (ret, Some txt', s'))))"

section \<open>Putting an image together\<close>

text \<open>A number of the section, or of the global options.\<close>

definition dtimg_entry_read_ulong :: "exini_section \<Rightarrow> exini_section \<Rightarrow> string \<Rightarrow> u64 \<times> int" where
  "dtimg_entry_read_ulong global_option sec key =
     (let (n, err) = exini_section_read_ulong sec key 0
      in if err = 0 then (n, err) else exini_section_read_ulong global_option key n)"

text \<open>
  The value of the node that an option names. \<open>strncpy\<close> does not end a path of 127 characters: the buffer then ends with
  what its last character was.
\<close>

definition dtimg_init_entry_from_dt ::
    "char \<Rightarrow> device_node \<Rightarrow> exini_section \<Rightarrow> exini_section \<Rightarrow> string \<Rightarrow> u32 \<Rightarrow> (int \<times> u32) cres" where
  "dtimg_init_entry_from_dt tail root global_option sec key number =
     (let lookup = (\<lambda>fdtpath.
            if length fdtpath \<ge> 127 \<and> tail \<noteq> nul then Oob
            else cbind (string_replace_in_buffer (length fdtpath + 1) (take 127 fdtpath) 128 '':'' '''') (\<lambda>(_, path).
              case device_node_find_bypath root path of
                None \<Rightarrow> Ok (0, number)
              | Some a \<Rightarrow>
                  (case device_node_read_u32 (node_at root a) of
                     None \<Rightarrow> Ok (-1, number)
                   | Some n \<Rightarrow> Ok (0, n))))
      in case exini_section_read_string sec key None True of
           (Some fdtpath, _) \<Rightarrow> lookup fdtpath
         | (None, _) \<Rightarrow>
             (case exini_section_read_string global_option key None True of
                (fdtpath, err) \<Rightarrow>
                  if err = EXINI_ERR_BAD_TYPE then Ok (- err, number)
                  else (case fdtpath of None \<Rightarrow> Ok (0, number) | Some path \<Rightarrow> lookup path)))"

definition dtimg_init_number ::
    "char \<Rightarrow> device_node \<Rightarrow> exini_section \<Rightarrow> exini_section \<Rightarrow> string \<Rightarrow> u32 \<Rightarrow> (int \<times> u32) cres" where
  "dtimg_init_number tail root global_option sec key number =
     (case dtimg_entry_read_ulong global_option sec key of
        (n, err) \<Rightarrow>
          if err = 0 then Ok (0, ucast n)
          else if err = EXINI_ERR_BAD_TYPE then dtimg_init_entry_from_dt tail root global_option sec key number
          else Ok (0, number))"

fun dtimg_init_customs :: "exini_section \<Rightarrow> exini_section \<Rightarrow> nat list \<Rightarrow> dt_table_entry \<Rightarrow> int \<times> dt_table_entry" where
  "dtimg_init_customs global_option sec [] e = (0, e)"
| "dtimg_init_customs global_option sec (i # is) e =
     (case dtimg_entry_read_ulong global_option sec (custom_name i) of
        (n, err) \<Rightarrow>
          if err = EXINI_ERR_BAD_TYPE then (- err, e)
          else dtimg_init_customs global_option sec is (e\<lparr>dt_custom := (dt_custom e)[i := ucast n]\<rparr>))"

text \<open>What \<open>dtimg_init_entry\<close> does once the tree is read; a tree without a root faults where it is looked into.\<close>

definition dtimg_fill_entry ::
    "char \<Rightarrow> fdt_editor_private_data \<Rightarrow> exini_section \<Rightarrow> exini_section \<Rightarrow> dt_table_entry \<Rightarrow> (int \<times> dt_table_entry) cres" where
  "dtimg_fill_entry tail fdt global_option sec e =
     with_root fdt (\<lambda>root.
       cbind (dtimg_init_number tail root global_option sec ''id'' (dt_id e)) (\<lambda>(ret, n).
         if ret < 0 then Ok (ret, e)
         else let e1 = e\<lparr>dt_id := n\<rparr>
         in cbind (dtimg_init_number tail root global_option sec ''rev'' (dt_rev e1)) (\<lambda>(ret, n).
              if ret < 0 then Ok (ret, e1)
              else Ok (dtimg_init_customs global_option sec [0..<4] (e1\<lparr>dt_rev := n\<rparr>)))))"

definition dtimg_init_entry ::
    "dtimg_memory \<Rightarrow> nat \<Rightarrow> int \<Rightarrow> dt_table_entry \<Rightarrow> exini_section \<Rightarrow> exini_section \<Rightarrow> sys
      \<Rightarrow> (int \<times> dt_table_entry \<times> sys) cres" where
  "dtimg_init_entry M i fd_dtb e global_option sec s =
     cbind (fdt_detect (fdt_stack M i) (fdt_blob M i) empty_fdt fd_dtb s) (\<lambda>(ret, fdt, s1).
       if ret < 0 then Ok (ret, e, s1)
       else cbind (dtimg_fill_entry (path_last M) fdt global_option sec e) (\<lambda>(ret, e'). Ok (ret, e', s1)))"

text \<open>
  The loop over the sections: the status, the entries and the end of the data. An entry has the place that the number of
  its section gives.
\<close>

fun dtimg_pack_sections ::
    "dtimg_memory \<Rightarrow> (string \<Rightarrow> nat option) \<Rightarrow> string \<Rightarrow> int \<Rightarrow> exini_section \<Rightarrow> exini_section list \<Rightarrow> dt_table_entry list
      \<Rightarrow> u32 \<Rightarrow> int \<Rightarrow> sys \<Rightarrow> (int \<times> dt_table_entry list \<times> u32 \<times> sys) cres" where
  "dtimg_pack_sections M inode_of dir fd_outimg global_option [] es data_offset ret s = Ok (ret, es, data_offset, s)"
| "dtimg_pack_sections M inode_of dir fd_outimg global_option (sec # secs) es data_offset ret s =
     (let k = global_index sec - 1
      in if section_name sec = ''__global_option''
         then dtimg_pack_sections M inode_of dir fd_outimg global_option secs es data_offset ret s
         else if global_index sec = 0 \<or> length es \<le> k then Oob
         else
           let e1 = (es ! k)\<lparr>dt_offset := data_offset\<rparr>;
               (fd_dtb, s1) = fileopen (inode_of (path_in dir (section_name sec))) s
           in if fd_dtb < 0 then Ok (fd_dtb, es[k := e1], data_offset, s1)
              else cbind (dtimg_init_entry M k fd_dtb e1 global_option sec s1) (\<lambda>(ret, e2, s2).
                if ret < 0 then Ok (ret, es[k := e2], data_offset, sys_close fd_dtb s2)
                else
                  let (len, s3) = filelength fd_dtb s2; n = (word_of_int len :: u32);
                      (_, _, s4) = dd (dd_mem M) fd_dtb fd_outimg 0 (int (unat data_offset)) (unat n) None () s3
                  in dtimg_pack_sections M inode_of dir fd_outimg global_option secs (es[k := e2\<lparr>dt_size := n\<rparr>])
                       (data_offset + n) ret (sys_close fd_dtb s4)))"

definition empty_entry :: dt_table_entry where
  "empty_entry = \<lparr>dt_size = 0, dt_offset = 0, dt_id = 0, dt_rev = 0, dt_custom = [0, 0, 0, 0]\<rparr>"

definition new_dt_header :: "u32 \<Rightarrow> dt_table_header" where
  "new_dt_header n =
     \<lparr>dt_magic = DT_TABLE_MAGIC, dt_total_size = 0, dt_header_size = sizeof_dt_table, dt_entry_size = sizeof_dt_table,
      dt_entry_count = n, dt_entries_offset = sizeof_dt_table, dt_page_size = DT_TABLE_DEFAULT_PAGE_SIZE,
      dt_version = DT_TABLE_DEFAULT_VERSION\<rparr>"

definition dtbocfg :: "unit exini" where
  "dtbocfg = \<lparr>sections = [], enable_unknown_data = True, prop_handler = None, total_sections = 0, private_data = (), quirks = 0\<rparr>"

text \<open>\<open>cfg\<close> is the text of dtboimg.cfg when it can be opened; the number of sections counts the global options.\<close>

definition dtimg_pack ::
    "dtimg_memory \<Rightarrow> bool \<Rightarrow> bool \<Rightarrow> (string \<Rightarrow> nat option) \<Rightarrow> string option \<Rightarrow> dtimg_private_data \<Rightarrow> string \<Rightarrow> int \<Rightarrow> sys
      \<Rightarrow> (int \<times> dtimg_private_data \<times> sys) cres" where
  "dtimg_pack M ini_mem mem inode_of cfg p dir fd_outimg s =
     (case cfg of
        None \<Rightarrow> Ok (-1, p, s)
      | Some txt \<Rightarrow>
          let (ret, ini) = exini_load ini_mem dtbocfg txt EXINI_QUIRK_DTBOCFG
          in if ret < 0 then Ok (ret, p, s)
             else case exini_find_section ini ''__global_option'' of
                 None \<Rightarrow> Ok (-1, p, s)
               | Some g \<Rightarrow>
                   if \<not> mem then Ok (-1, p\<lparr>dt_entries := None\<rparr>, s)
                   else
                     let n = total_sections ini - 1;
                         h = (new_dt_header (word_of_nat n))\<lparr>dt_total_size := dt_total_size (dt_header p)\<rparr>;
                         data_offset = dt_header_size h + dt_entries_size h
                     in cbind (dtimg_pack_sections M inode_of dir fd_outimg (sections ini ! g) (sections ini)
                                 (replicate n empty_entry) data_offset ret s)
                       (\<lambda>(ret, es, data_end, s1).
                          let h' = h\<lparr>dt_total_size := data_end\<rparr>;
                              s2 = snd (fileseek fd_outimg 0 s1);
                              s3 = snd (sys_write fd_outimg (dt_header_bytes h') s2);
                              s4 = snd (sys_write fd_outimg (take (unat (dt_entries_size h')) (concat (map dt_entry_bytes es))) s3)
                          in Ok (ret, p\<lparr>dt_header := h', dt_entries := Some es\<rparr>, s4)))"

end
