(* ===== verification/DtimgLaws.thy ===== *)
theory DtimgLaws
  imports Dtimg FdtLaws TransferLaws ExiniLaws
begin

text \<open>
  Device tree table images: what the search for a common value really computes, and an image that is put together from trees
  and a configuration is detected again, with every tree at the place of its entry.
\<close>

section \<open>The common value\<close>

lemma default_custom_max_same: "default_custom_max custom is mx = Ok mx"
  by (induction "is") (simp_all add: default_custom_count.simps)

lemma default_custom_collect_eq:
  "which < length custom \<Longrightarrow> default_custom_collect which custom es =
    Ok (if \<exists>e\<in>set es. dt_custom e ! which = 0 then None
        else Some (if es = [] then custom else custom[which := dt_custom (last es) ! which]))"
  by (induction es arbitrary: custom) auto

lemma entries_all:
  assumes "dt_entries p = Some es" "length es = unat (dt_entry_count (dt_header p))"
  shows "cmap (dt_entry_at p) [0..<unat (dt_entry_count (dt_header p))] = Ok es"
  using cmap_Ok [of "[0..<length es]" "dt_entry_at p" "\<lambda>i. es ! i"] map_nth [of es] assms by (simp add: dt_entry_at_def)

text \<open>C35: \<open>dtimg_get_default_custom\<close> does not find the value that comes most often. With an index behind the number of
  entries it stores behind the end of its array; with a zero among the values it returns zero; else it returns the value of the
  last entry for the first column and zero for every other column.\<close>

theorem dtimg_default_custom:
  assumes "dt_entries p = Some es" "length es = unat (dt_entry_count (dt_header p))" "w < 4"
  shows "dtimg_get_default_custom True p (int w) =
    (if length es \<le> w then Oob
     else if (\<exists>e\<in>set es. dt_custom e ! w = 0) \<or> w \<noteq> 0 then Ok 0
     else Ok (dt_custom (last es) ! 0))"
proof (cases "length es \<le> w")
  case True
  have "default_custom_collect w (replicate (length es) 0) es = Oob" if "es \<noteq> []"
    using that True by (cases es) simp_all
  then show ?thesis
    using True assms(3) entries_all [OF assms(1,2)] by (cases "es = []") (simp_all add: dtimg_get_default_custom_def assms(2) [symmetric])
next
  case False
  then have ne: "es \<noteq> []" by auto
  have "(replicate (length es) 0)[w := v] ! 0 = (if w = 0 then v else 0)" for v :: u32
    using False ne by (cases w) simp_all
  then show ?thesis
    using False assms(3) entries_all [OF assms(1,2)] default_custom_collect_eq [of w "replicate (length es) 0" es] ne
    by (auto simp: dtimg_get_default_custom_def assms(2) [symmetric] default_custom_max_same Let_def)
qed

theorem dtimg_default_custom_witness:
  "dtimg_get_default_custom True \<lparr>dt_header = new_dt_header 3, dt_entries = Some (map (\<lambda>c. empty_entry\<lparr>dt_custom := [c, 9, 9, 9]\<rparr>) [5, 5, 7])\<rparr> (int 0) = Ok 7 \<and>
   dtimg_get_default_custom True \<lparr>dt_header = new_dt_header 3, dt_entries = Some (map (\<lambda>c. empty_entry\<lparr>dt_custom := [c, 9, 9, 9]\<rparr>) [5, 5, 7])\<rparr> (int 1) = Ok 0 \<and>
   dtimg_get_default_custom True \<lparr>dt_header = new_dt_header 3, dt_entries = Some (map (\<lambda>c. empty_entry\<lparr>dt_custom := [c, 9, 9, 9]\<rparr>) [5, 5, 7])\<rparr> (int 3) = Oob"
proof -
  let ?es = "map (\<lambda>c. empty_entry\<lparr>dt_custom := [c, 9, 9, 9]\<rparr>) [5, 5, 7]"
  let ?p = "\<lparr>dt_header = new_dt_header 3, dt_entries = Some ?es\<rparr>"
  have p: "dt_entries ?p = Some ?es" "length ?es = unat (dt_entry_count (dt_header ?p))" by (simp_all add: new_dt_header_def)
  show ?thesis
    using dtimg_default_custom [OF p, of 0] dtimg_default_custom [OF p, of 1] dtimg_default_custom [OF p, of 3] by simp
qed

section \<open>The encodings\<close>

lemma length_be32 [simp]: "length (be32 w) = 4" by (simp add: be32_def)

lemma get_be32_be32: "get_be32 0 (be32 w @ r) = w"
  using unat_less_2p [of w] by (simp add: get_be32_def be32_def be_decode_encode)

lemma get_be32_drop: "get_be32 off b = get_be32 0 (drop off b)"
  by (simp add: get_be32_def)

lemma length_dt_header_bytes [simp]: "length (dt_header_bytes h) = 32"
  by (simp add: dt_header_bytes_def)

lemma dt_header_of_bytes: "dt_header_of (dt_header_bytes h @ r) = h"
  unfolding dt_header_of_def dt_header_bytes_def
  by (simp add: get_be32_be32 get_be32_drop [of 4] get_be32_drop [of 8] get_be32_drop [of 12] get_be32_drop [of 16]
      get_be32_drop [of 20] get_be32_drop [of 24] get_be32_drop [of 28])

lemma custom_four: "length c = 4 \<Longrightarrow> \<exists>a b d e. c = [a, b, d, e]"
  by (auto simp: length_Suc_conv eval_nat_numeral)

lemma dt_entry_of_bytes:
  assumes "length (dt_custom e) = 4"
  shows "dt_entry_of (dt_entry_bytes e) = e" "length (dt_entry_bytes e) = 32"
proof -
  obtain a b c d where c: "dt_custom e = [a, b, c, d]" using custom_four [OF assms] by blast
  have one: "get_be32 0 (be32 d) = d" using get_be32_be32 [of d "[]"] by simp
  show "dt_entry_of (dt_entry_bytes e) = e"
    unfolding dt_entry_of_def dt_entry_bytes_def c
    by (cases e) (use c in \<open>simp add: get_be32_be32 one get_be32_drop [of 4] get_be32_drop [of 8] get_be32_drop [of 12] get_be32_drop [of 16]
        get_be32_drop [of 20] get_be32_drop [of 24] get_be32_drop [of 28]\<close>)
  show "length (dt_entry_bytes e) = 32" by (simp add: dt_entry_bytes_def c)
qed

lemma dt_entries_decode:
  "\<forall>e\<in>set es. length (dt_custom e) = 4 \<Longrightarrow>
    map dt_entry_of (elements (length es) 32 (concat (map dt_entry_bytes es))) = es \<and> length (concat (map dt_entry_bytes es)) = 32 * length es"
  by (induction es) (simp_all add: dt_entry_of_bytes)

section \<open>One section\<close>

lemma init_customs_frame:
  "dtimg_init_customs g sec is (e\<lparr>dt_offset := off\<rparr>) =
    (case dtimg_init_customs g sec is e of (ret, e') \<Rightarrow> (ret, e'\<lparr>dt_offset := off\<rparr>))"
proof (induction "is" arbitrary: e)
  case (Cons i "is")
  obtain n err where "dtimg_entry_read_ulong g sec (custom_name i) = (n, err)" by (cases "dtimg_entry_read_ulong g sec (custom_name i)")
  moreover have sw: "e\<lparr>dt_offset := off, dt_custom := c\<rparr> = e\<lparr>dt_custom := c, dt_offset := off\<rparr>" for c by (cases e) simp
  ultimately show ?case using Cons.IH [of "e\<lparr>dt_custom := (dt_custom e)[i := ucast n]\<rparr>"] by (simp add: sw)
qed simp

lemma init_customs_length:
  "dtimg_init_customs g sec is e = (ret, e') \<Longrightarrow> length (dt_custom e') = length (dt_custom e)"
  by (induction "is" arbitrary: e) (fastforce split: prod.splits if_splits)+

text \<open>The place of an entry is not looked at when its numbers are filled in.\<close>

lemma fill_entry_frame:
  assumes "dtimg_fill_entry tail fdt g sec e = Ok (ret, e')"
  shows "dtimg_fill_entry tail fdt g sec (e\<lparr>dt_offset := off\<rparr>) = Ok (ret, e'\<lparr>dt_offset := off\<rparr>)"
    "length (dt_custom e') = length (dt_custom e)"
proof -
  have swap: "e\<lparr>dt_offset := off, dt_id := a\<rparr> = e\<lparr>dt_id := a, dt_offset := off\<rparr>"
    "e\<lparr>dt_id := a, dt_offset := off, dt_rev := b\<rparr> = e\<lparr>dt_id := a, dt_rev := b, dt_offset := off\<rparr>" for a b by (cases e; simp)+
  obtain root where root: "fdt_root fdt = Some root" using assms by (auto simp: dtimg_fill_entry_def with_root_def split: option.splits)
  obtain r1 a where 1: "dtimg_init_number tail root g sec ''id'' (dt_id e) = Ok (r1, a)"
    using assms by (auto simp: dtimg_fill_entry_def with_root_def root cbind_eq_Ok)
  show "dtimg_fill_entry tail fdt g sec (e\<lparr>dt_offset := off\<rparr>) = Ok (ret, e'\<lparr>dt_offset := off\<rparr>)"
  proof (cases "r1 < 0")
    case True
    then show ?thesis using assms 1 root by (auto simp: dtimg_fill_entry_def with_root_def)
  next
    case False
    then obtain r2 b where 2: "dtimg_init_number tail root g sec ''rev'' (dt_rev e) = Ok (r2, b)"
      using assms by (auto simp: dtimg_fill_entry_def with_root_def root cbind_eq_Ok 1 Let_def)
    then show ?thesis using assms 1 False root init_customs_frame [where e = "e\<lparr>dt_id := a, dt_rev := b\<rparr>" and off = off]
      by (cases "r2 < 0") (auto simp: dtimg_fill_entry_def with_root_def swap simp del: upt_Suc)
  qed
  show "length (dt_custom e') = length (dt_custom e)"
    using assms unfolding dtimg_fill_entry_def with_root_def Let_def
    by (auto simp: cbind_eq_Ok split: option.splits if_splits prod.splits dest!: init_customs_length)
qed

text \<open>
  A section whose file is a flattened tree, and the entry that its options give.
\<close>

definition tree_data :: "device_node \<Rightarrow> fdt_editor_private_data" where
  "tree_data root = empty_fdt\<lparr>totalsize := word_of_nat (length (fdt_image root)), dtb := fdt_image root,
     fdt_root := Some (fdt_load_symbols root)\<rparr>"

definition dt_source ::
    "char \<Rightarrow> (string \<Rightarrow> nat option) \<Rightarrow> string \<Rightarrow> bytes list \<Rightarrow> nat \<Rightarrow> exini_section \<Rightarrow> exini_section \<times> device_node \<times> dt_table_entry \<Rightarrow> bool" where
  "dt_source tail inode_of dir others ino g item \<longleftrightarrow>
     (case item of (sec, root, e) \<Rightarrow>
        section_name sec \<noteq> ''__global_option'' \<and>
        (\<exists>i. inode_of (path_in dir (section_name sec)) = Some i \<and> i < length others \<and> i \<noteq> ino \<and> others ! i = fdt_image root) \<and>
        is_node root \<and> tree_ok 31 root \<and> length (fdt_image root) \<le> 0x200000 \<and>
        dtimg_fill_entry tail (tree_data root) g sec empty_entry = Ok (0, e))"

text \<open>The images of the trees and the entries, the first of which is for the given place.\<close>

fun dt_layout :: "nat \<Rightarrow> (exini_section \<times> device_node \<times> dt_table_entry) list \<Rightarrow> (nat \<times> bytes) list" where
  "dt_layout off [] = []"
| "dt_layout off ((sec, root, e) # items) = (off, fdt_image root) # dt_layout (off + length (fdt_image root)) items"

fun dt_placed :: "nat \<Rightarrow> (exini_section \<times> device_node \<times> dt_table_entry) list \<Rightarrow> dt_table_entry list" where
  "dt_placed off [] = []"
| "dt_placed off ((sec, root, e) # items) =
     e\<lparr>dt_offset := word_of_nat off, dt_size := word_of_nat (length (fdt_image root))\<rparr>
       # dt_placed (off + length (fdt_image root)) items"

fun dt_end :: "nat \<Rightarrow> (exini_section \<times> device_node \<times> dt_table_entry) list \<Rightarrow> nat" where
  "dt_end off [] = off"
| "dt_end off ((sec, root, e) # items) = dt_end (off + length (fdt_image root)) items"

lemma dt_end_ge: "off \<le> dt_end off items"
  by (induction off items rule: dt_end.induct) simp_all

lemma length_dt_placed [simp]: "length (dt_placed off items) = length items"
  by (induction off items rule: dt_end.induct) simp_all

lemma dt_layout_starts: "(st, x) \<in> set (dt_layout off items) \<Longrightarrow> off \<le> st"
  by (induction off items rule: dt_end.induct) auto

lemma dt_placed_custom:
  "\<forall>item\<in>set items. dt_source tail inode_of dir others ino g item \<Longrightarrow> \<forall>e\<in>set (dt_placed off items). length (dt_custom e) = 4"
  by (induction off items rule: dt_placed.induct) (auto simp: dt_source_def empty_entry_def dest!: fill_entry_frame(2))

text \<open>One round: the file is opened, read as a tree, measured, copied and closed.\<close>

lemma dtimg_one_section:
  assumes w: "writing s fd e ino others c q" and src: "dt_source (path_last M) inode_of dir others ino g (sec, root, ent)"
    and mem: "fdt_blob M k \<noteq> None" "dd_mem M = Some buf" and h: "holds laid c off" and off: "off < 2 ^ 32"
  obtains s' q' where
    "\<forall>secs es ret. k < length es \<longrightarrow> global_index sec = k + 1 \<longrightarrow> es ! k = empty_entry \<longrightarrow>
      dtimg_pack_sections M inode_of dir fd g (sec # secs) es (word_of_nat off) ret s =
      dtimg_pack_sections M inode_of dir fd g secs
        (es[k := ent\<lparr>dt_offset := word_of_nat off, dt_size := word_of_nat (length (fdt_image root))\<rparr>])
        (word_of_nat (off + length (fdt_image root))) 0 s'"
    "writing s' fd e ino others (overlay c off (fdt_image root)) q'"
    "holds (laid @ [(off, fdt_image root)]) (overlay c off (fdt_image root)) (off + length (fdt_image root))"
proof -
  let ?x = "fdt_image root"
  have name: "section_name sec \<noteq> ''__global_option''" and root: "is_node root" "tree_ok 31 root" and len: "length ?x \<le> 0x200000"
    and fill: "dtimg_fill_entry (path_last M) (tree_data root) g sec empty_entry = Ok (0, ent)"
    using src by (auto simp: dt_source_def)
  obtain i where i: "inode_of (path_in dir (section_name sec)) = Some i" "i < length others" "i \<noteq> ino" "others ! i = ?x"
    using src by (auto simp: dt_source_def)
  obtain garbage where g: "fdt_blob M k = Some garbage" using mem(1) by blast
  obtain cfd s1 where o: "fileopen (Some i) s = (cfd, s1)" by (cases "fileopen (Some i) s")
  note op = writing_open [OF w i(2,3) o]
  obtain d where d: "reading s1 cfd d e i others" "position (open_files s1 ! d) = 0" using op(5) by blast
  have r: "ofd_of s1 cfd = Some d" "d < length (open_files s1)" "content s1 d = ?x" "d \<noteq> e"
    using d(1) i(4) by (auto simp: reading_def)
  have fs: "filestart cfd s1 = 0" and io: "length ?x \<le> max_io s1"
    using op(1) len by (auto simp: writing_def out_state_def no_virtual_file filestart_plain)
  define s2 where "s2 = set_position d (length ?x) s1"
  have det: "fdt_detect (fdt_stack M k) (fdt_blob M k) empty_fdt cfd s1 = Ok (0, tree_data root, s2)"
    using fdt_detect_image [OF root _ r(1-3) d(2) fs io, where p = empty_fdt] len by (simp add: g tree_data_def s2_def empty_fdt_def)
  have w2: "writing s2 fd e ino others c q" unfolding s2_def by (rule writing_frame [OF op(1) r(4)])
  have r2: "reading s2 cfd d e i others" using d(1) by (simp add: reading_def s2_def)
  obtain s3 where s3: "filelength cfd s2 = (int (length ?x), s3)" "writing s3 fd e ino others c q" "reading s3 cfd d e i others"
    using reading_length [OF w2 r2] i(4) by auto
  obtain s4 where s4: "dd (dd_mem M) cfd fd 0 (int off) (length ?x) None () s3 = (length ?x, (), s4)"
      "writing s4 fd e ino others (overlay c off ?x) (off + length ?x)"
    using dd_copies_writing [OF s3(2,3) i(3), of buf off "()"] i(4) mem(2) by auto
  have u: "unat (word_of_nat (length ?x) :: u32) = length ?x" "unat (word_of_nat off :: u32) = off"
    using len off by (simp_all add: unsigned_of_nat take_bit_nat_eq_self)
  have step: "dtimg_pack_sections M inode_of dir fd g (sec # secs) es (word_of_nat off) ret s =
      dtimg_pack_sections M inode_of dir fd g secs
        (es[k := ent\<lparr>dt_offset := word_of_nat off, dt_size := word_of_nat (length ?x)\<rparr>])
        (word_of_nat (off + length ?x)) 0 (sys_close cfd s4)"
    if "k < length es" "global_index sec = k + 1" "es ! k = empty_entry" for secs es ret
    using that name i(1) o op(2) det fill_entry_frame(1) [OF fill, of "word_of_nat off"] s3(1) s4(1) u
    by (simp add: Let_def dtimg_init_entry_def)
  show ?thesis
    by (rule that [OF _ writing_close [OF s4(2) op(3)] holds_placed [OF h order_refl]]) (use step in blast)
qed

lemma dtimg_pack_sections_ok:
  assumes "dd_mem M = Some buf" "\<forall>k. fdt_blob M k \<noteq> None"
  shows "writing s fd e ino others c q \<Longrightarrow> \<forall>item\<in>set items. dt_source (path_last M) inode_of dir others ino g item \<Longrightarrow>
    map (\<lambda>x. global_index (fst x)) items = [length prev + 1..<length prev + length items + 1] \<Longrightarrow>
    dt_end off items < 2 ^ 32 \<Longrightarrow> holds laid c off \<Longrightarrow>
    \<exists>s' c' q'. dtimg_pack_sections M inode_of dir fd g (map fst items) (prev @ replicate (length items) empty_entry) (word_of_nat off) 0 s
        = Ok (0, prev @ dt_placed off items, word_of_nat (dt_end off items), s') \<and>
      writing s' fd e ino others c' q' \<and> holds (laid @ dt_layout off items) c' (dt_end off items)"
proof (induction items arbitrary: s c q prev off laid)
  case Nil
  then show ?case by auto
next
  case (Cons item items)
  obtain sec root ent where item: "item = (sec, root, ent)" by (cases item)
  let ?x = "fdt_image root" and ?k = "length prev"
  have src: "dt_source (path_last M) inode_of dir others ino g (sec, root, ent)" using Cons.prems(2) item by simp
  have lim: "off < 2 ^ 32" using Cons.prems(4) item dt_end_ge [of "off + length ?x" items] by simp
  have idx: "global_index sec = ?k + 1"
    "map (\<lambda>x. global_index (fst x)) items = [?k + 1 + 1..<?k + 1 + length items + 1]"
    using Cons.prems(3) item upt_conv_Cons [of "?k + 1" "?k + length (item # items) + 1"] by (simp_all del: upt_Suc)
  let ?e = "ent\<lparr>dt_offset := word_of_nat off, dt_size := word_of_nat (length ?x)\<rparr>"
  have mem: "fdt_blob M ?k \<noteq> None" using assms(2) by simp
  obtain s1 q1 where one: "\<forall>secs es ret. ?k < length es \<longrightarrow> global_index sec = ?k + 1 \<longrightarrow> es ! ?k = empty_entry \<longrightarrow>
        dtimg_pack_sections M inode_of dir fd g (sec # secs) es (word_of_nat off) ret s =
        dtimg_pack_sections M inode_of dir fd g secs (es[?k := ?e]) (word_of_nat (off + length ?x)) 0 s1"
      "writing s1 fd e ino others (overlay c off ?x) q1" "holds (laid @ [(off, ?x)]) (overlay c off ?x) (off + length ?x)"
    using dtimg_one_section [OF Cons.prems(1) src mem assms(1) Cons.prems(5) lim] by blast
  have 1: "dtimg_pack_sections M inode_of dir fd g (sec # map fst items) (prev @ empty_entry # replicate (length items) empty_entry) (word_of_nat off) 0 s =
      dtimg_pack_sections M inode_of dir fd g (map fst items)
        ((prev @ empty_entry # replicate (length items) empty_entry)[?k := ?e]) (word_of_nat (off + length ?x)) 0 s1"
    using one(1) idx(1) by simp
  have srcs: "\<forall>item\<in>set items. dt_source (path_last M) inode_of dir others ino g item" using Cons.prems(2) by simp
  have idx2: "map (\<lambda>x. global_index (fst x)) items = [length (prev @ [?e]) + 1..<length (prev @ [?e]) + length items + 1]"
    unfolding idx(2) by simp
  have lim2: "dt_end (off + length ?x) items < 2 ^ 32" using Cons.prems(4) item by simp
  obtain s' c' q' where 2: "dtimg_pack_sections M inode_of dir fd g (map fst items) ((prev @ [?e]) @ replicate (length items) empty_entry)
        (word_of_nat (off + length ?x)) 0 s1
        = Ok (0, (prev @ [?e]) @ dt_placed (off + length ?x) items, word_of_nat (dt_end (off + length ?x) items), s')"
      "writing s' fd e ino others c' q'" "holds ((laid @ [(off, ?x)]) @ dt_layout (off + length ?x) items) c' (dt_end (off + length ?x) items)"
    using Cons.IH [OF one(2) srcs idx2 lim2 one(3)] by blast
  show ?case using 1 2 item by auto
qed

section \<open>The image\<close>

lemma holds_takes: "holds laid c lim \<Longrightarrow> (st, x) \<in> set laid \<Longrightarrow> take (length x) (drop st c) = x"
  by (cases "x = []") (auto simp: holds_def)

text \<open>Header and entries are written in front of everything else.\<close>

lemma table_written:
  assumes "length h = 32"
  shows "take 32 (overlay (overlay c 0 h) 32 t) = h" "take (length t) (drop 32 (overlay (overlay c 0 h) 32 t)) = t"
proof -
  have "take 32 (drop 0 (overlay (overlay c 0 h) 32 t)) = take 32 (drop 0 (overlay c 0 h))"
    using length_overlay [of h c 0] assms by (intro overlay_below; cases h) auto
  then show "take 32 (overlay (overlay c 0 h) 32 t) = h" using overlay_at [of h 0 c] assms by simp
  show "take (length t) (drop 32 (overlay (overlay c 0 h) 32 t)) = t" by (rule overlay_at)
qed

text \<open>Detecting a file that starts with a table.\<close>

lemma dtimg_detect_table:
  assumes o: "out_state s fd e c 0" and c: "take 32 c = dt_header_bytes h" "take (32 * length es) (drop 32 c) = concat (map dt_entry_bytes es)"
    and h: "dtimg_sections_ok h" "dt_entries_offset h = 32" "dt_entry_count h = word_of_nat (length es)"
    and es: "\<forall>x\<in>set es. length (dt_custom x) = 4" "length es \<le> 65536"
  shows "\<exists>s'. dtimg_detect True p fd s = (0, p\<lparr>dt_header := h, dt_entries := Some es\<rparr>, s')"
proof -
  let ?tab = "concat (map dt_entry_bytes es)" and ?n = "length es"
  have s: "sys_ok s" "ofd_of s fd = Some e" "content s e = c" "position (open_files s ! e) = 0" "e < length (open_files s)"
    using o by (auto simp: out_state_def sys_ok_ofd)
  have fs: "filestart fd (set_position e 32 s) = 0"
    using o filestart_gd [of "set_position e 32 s" s fd] by (simp add: out_state_def no_virtual_file filestart_plain)
  have len: "length (take 32 c) = 32" by (simp add: c(1))
  have tab: "length ?tab = 32 * ?n" "map dt_entry_of (elements ?n 32 ?tab) = es" using dt_entries_decode [OF es(1)] by simp_all
  have u: "unat (word_of_nat ?n :: u32) = ?n" "dt_entry_size h = 32" using es(2) h(1)
    by (simp_all add: unsigned_of_nat take_bit_nat_eq_self dtimg_sections_ok_def sizeof_dt_table_def)
  have sz: "unat (dt_entries_size h) = 32 * ?n"
    using es(2) u by (simp add: dt_entries_size_def h(3) unat_word_ariths unat_mult_lem mult.commute)
  have r1: "fileread fd 32 s = (0, dt_header_bytes h, set_position e 32 s)"
    using fileread_loop_eq [OF s(1,2), of "[]" 32] s(3,4) c(1) len by (simp add: fileread_def remaining_def)
  have r2: "fileread fd (32 * ?n) (set_position e 32 s) = (0, ?tab, set_position e (32 + 32 * ?n) s)"
    using fileread_loop_eq [where s = "set_position e 32 s" and fd = fd and d = e and acc = "[]" and sz = "32 * ?n"] s c(2) tab(1)
    by (simp add: fileread_def remaining_def)
  have seek: "snd (fileseek fd 32 (set_position e 32 s)) = set_position e 32 s"
    using fs s by (simp add: fileseek_def lseek_set_def)
  show ?thesis
    using r1 r2 seek h u sz tab dt_header_of_bytes [of h "[]"]
    by (simp add: dtimg_detect_def Let_def sizeof_dt_table_def)
qed

text \<open>C4: an image that is put together is detected. Each section of the configuration names a flattened device tree; packing
  succeeds, lays the trees one behind the other after the table, and gives every entry the place, the size and the numbers of
  its tree; the detector accepts the output and reads back the very table that was written.\<close>

theorem dtimg_pack_detect:
  assumes "writing s fd e ino others c q" "exini_load ini_mem dtbocfg cfg EXINI_QUIRK_DTBOCFG = (0, ini)"
    and "sections ini = g # map fst items" "section_name g = ''__global_option''" "total_sections ini = length items + 1"
    and "map (\<lambda>x. global_index (fst x)) items = [1..<length items + 1]"
    and "\<forall>item\<in>set items. dt_source (path_last M) inode_of dir others ino g item"
    and "dd_mem M = Some buf" "\<forall>k. fdt_blob M k \<noteq> None" "length items \<le> 65536" "dt_end (32 + 32 * length items) items < 2 ^ 32"
  shows "\<exists>p' s' s''. dtimg_pack M ini_mem True inode_of (Some cfg) p dir fd s = Ok (0, p', s') \<and>
    dt_entries p' = Some (dt_placed (32 + 32 * length items) items) \<and>
    dt_total_size (dt_header p') = word_of_nat (dt_end (32 + 32 * length items) items) \<and>
    (\<forall>(st, x)\<in>set (dt_layout (32 + 32 * length items) items). take (length x) (drop st (content s' e)) = x) \<and>
    dtimg_detect True p0 fd (snd (lseek_set fd 0 s')) = (0, p', s'')"
proof -
  let ?n = "length items" and ?off = "32 + 32 * length items"
  let ?es = "dt_placed ?off items"
  define h where "h = (new_dt_header (word_of_nat ?n))\<lparr>dt_total_size := word_of_nat (dt_end ?off items)\<rparr>"
  obtain s1 c1 q1 where 1: "dtimg_pack_sections M inode_of dir fd g (map fst items) (replicate ?n empty_entry) (word_of_nat ?off) 0 s
        = Ok (0, ?es, word_of_nat (dt_end ?off items), s1)"
      "writing s1 fd e ino others c1 q1" "holds (dt_layout ?off items) c1 (dt_end ?off items)"
    using dtimg_pack_sections_ok [where laid = "[]" and prev = "[]", OF assms(8,9,1,7) _ assms(11)] assms(6) by auto
  define tab where "tab = concat (map dt_entry_bytes ?es)"
  have cust: "\<forall>x\<in>set ?es. length (dt_custom x) = 4" by (rule dt_placed_custom [OF assms(7)])
  have tl: "length tab = 32 * ?n" using dt_entries_decode [OF cust] by (simp add: tab_def)
  have un: "unat (word_of_nat ?n :: u32) = ?n" using assms(10) by (simp add: unsigned_of_nat take_bit_nat_eq_self)
  have sz: "unat (dt_entries_size h) = 32 * ?n" "dt_entries_size h = word_of_nat (32 * ?n)"
    using assms(10) un by (simp_all add: dt_entries_size_def h_def new_dt_header_def sizeof_dt_table_def unat_word_ariths mult.commute)
  define s2 where "s2 = snd (fileseek fd 0 s1)"
  have s2: "writing s2 fd e ino others c1 0"
    using 1(2) writing_seek [OF 1(2), of 0] by (simp add: s2_def fileseek_def writing_def out_state_def no_virtual_file filestart_plain)
  define s3 where "s3 = snd (sys_write fd (dt_header_bytes h) s2)"
  have s3: "writing s3 fd e ino others (overlay c1 0 (dt_header_bytes h)) 32"
    using writing_write [OF s2, of "dt_header_bytes h"] by (simp add: s3_def)
  define s4 where "s4 = snd (sys_write fd tab s3)"
  define c4 where "c4 = overlay (overlay c1 0 (dt_header_bytes h)) 32 tab"
  have s4: "writing s4 fd e ino others c4 (32 + length tab)"
    using writing_write [OF s3, of tab] tl assms(10) by (simp add: s4_def c4_def)
  have low: "\<forall>(st, x)\<in>set (dt_layout ?off items). 32 + length tab \<le> st"
    using dt_layout_starts [of _ _ ?off items] tl by fastforce
  have h4: "holds (dt_layout ?off items) c4 (dt_end ?off items)"
    unfolding c4_def using low 1(3) by (intro holds_overlay_low) (auto simp: case_prod_beta)
  have find: "exini_find_section ini ''__global_option'' = Some 0" using assms(3,4) by (simp add: exini_find_section_def)
  have comm: "(word_of_nat ?n :: u32) * 32 = 32 * word_of_nat ?n" by (rule mult.commute)
  have pack: "dtimg_pack M ini_mem True inode_of (Some cfg) p dir fd s = Ok (0, p\<lparr>dt_header := h, dt_entries := Some ?es\<rparr>, s4)"
    using 1(1) assms(2-5) find sz tl
    by (simp add: dtimg_pack_def Let_def h_def s2_def s3_def s4_def tab_def new_dt_header_def sizeof_dt_table_def dt_entries_size_def comm)
  have o4: "out_state (snd (lseek_set fd 0 s4)) fd e c4 0"
    using out_state_seek [of s4 fd e c4 _ 0] s4 by (auto simp: writing_def)
  have c4: "take 32 c4 = dt_header_bytes h" "take (32 * length ?es) (drop 32 c4) = concat (map dt_entry_bytes ?es)"
    using table_written [where h = "dt_header_bytes h" and c = c1 and t = tab] tl by (simp_all add: c4_def tab_def)
  have hok: "dtimg_sections_ok h" "dt_entries_offset h = 32" "dt_entry_count h = word_of_nat (length ?es)"
    by (simp_all add: h_def new_dt_header_def dtimg_sections_ok_def sizeof_dt_table_def)
  obtain s5 where "dtimg_detect True p0 fd (snd (lseek_set fd 0 s4)) = (0, p0\<lparr>dt_header := h, dt_entries := Some ?es\<rparr>, s5)"
    using dtimg_detect_table [OF o4 c4 hok cust, of p0] assms(10) by auto
  moreover have "p0\<lparr>dt_header := h, dt_entries := Some ?es\<rparr> = p\<lparr>dt_header := h, dt_entries := Some ?es\<rparr>" by simp
  moreover have "content s4 e = c4" using s4 by (simp add: writing_def out_state_def)
  ultimately show ?thesis
    using pack holds_takes [OF h4] by (auto simp: h_def)
qed

text \<open>A configuration with one section and no options.\<close>

definition demo_section :: "string \<Rightarrow> nat \<Rightarrow> exini_section" where
  "demo_section name i = \<lparr>global_index = i, properties = [], n_properties = 0, section_name = name\<rparr>"

definition demo_cfg :: "unit exini" where
  "demo_cfg = dtbocfg\<lparr>sections := [demo_section ''__global_option'' 0, demo_section ''a.dtbo'' 1], total_sections := 2,
     quirks := EXINI_QUIRK_DTBOCFG\<rparr>"

lemma demo_cfg_load: "exini_load True dtbocfg (''a.dtbo'' @ [newline]) EXINI_QUIRK_DTBOCFG = (0, demo_cfg)"
proof -
  define ini :: "unit exini" where "ini = dtbocfg\<lparr>sections := [demo_section ''__global_option'' 0], total_sections := 1, quirks := EXINI_QUIRK_DTBOCFG\<rparr>"
  have q: "exini_has_quirks ini EXINI_QUIRK_DTBOCFG" by (simp add: exini_has_quirks_def ini_def EXINI_QUIRK_DTBOCFG_def)
  have sp: "string_skip_head_space (''a.dtbo'' @ [newline]) = ''a.dtbo'' @ [newline]"
    by (simp add: string_skip_head_space_eq isspace_def)
  have nl: "isspace newline" by (simp add: newline_def isspace_def char_of_def bit_0)
  have "string_remove_eol_space (''a.dtbo'' @ [newline]) = ''a.dtbo''"
    using nl by (subst string_remove_eol_space_snoc) (simp add: isspace_def eol_space_last)
  then have rm: "remove_eol_comment ini (string_skip_head_space (''a.dtbo'' @ [newline])) = ''a.dtbo''"
    unfolding sp by (simp add: remove_eol_comment_def q)
  have new: "exini_new_section True ini (Some ''a.dtbo'') cur = (1, demo_cfg, Some 1)" for cur
    by (simp add: exini_new_section_def exini_alloc_section_def ini_def demo_cfg_def demo_section_def snprintf_s_def)
  have line: "exini_load_line True ini (Some 0) (''a.dtbo'' @ [newline]) = (0, demo_cfg, Some 1)"
    unfolding exini_load_line_def Let_def rm by (simp add: q exini_handle_dtbocfg_section_def count_char_none new)
  have g: "exini_new_section True (dtbocfg\<lparr>quirks := EXINI_QUIRK_DTBOCFG, sections := [], total_sections := 0\<rparr>) (Some ''__global_option'') None = (1, ini, Some 0)"
    by (simp add: exini_new_section_def exini_alloc_section_def ini_def dtbocfg_def demo_section_def snprintf_s_def)
  have q1: "exini_has_quirks (dtbocfg\<lparr>quirks := EXINI_QUIRK_DTBOCFG, sections := [], total_sections := 0\<rparr>) EXINI_QUIRK_DTBOCFG"
    by (simp add: exini_has_quirks_def EXINI_QUIRK_DTBOCFG_def)
  have f: "exini_find_section ini ''__global_option'' = Some 0" by (simp add: exini_find_section_def ini_def demo_section_def)
  have "newline \<notin> set ''a.dtbo''" "nul \<notin> set ''a.dtbo''" by (simp_all add: newline_def nul_char char_of_def bit_0)
  then have "exini_do_load_lines True ini (Some 0) (''a.dtbo'' @ newline # []) = (0, demo_cfg)"
    using load_lines_step [OF _ _ _ line, of "[]"] load_lines_end [of True demo_cfg "Some 1"] by simp
  then show ?thesis by (simp add: exini_load_def q1 g exini_do_load_def q f)
qed

definition demo_memory :: dtimg_memory where
  "demo_memory = \<lparr>dd_mem = Some (\<lambda>_. 0), fdt_stack = (\<lambda>_. []), fdt_blob = (\<lambda>_. Some []), path_last = nul, custom_mem = True\<rparr>"

theorem dtimg_pack_detect_witness:
  "\<exists>p' s' s''. dtimg_pack demo_memory True True (\<lambda>n. if n = ''d/a.dtbo'' then Some 1 else None) (Some (''a.dtbo'' @ [newline]))
      \<lparr>dt_header = new_dt_header 0, dt_entries = None\<rparr> ''d'' 0 ((one_file_sys [])\<lparr>inodes := [[], fdt_image demo_tree]\<rparr>) = Ok (0, p', s') \<and>
    dt_entries p' = Some [empty_entry\<lparr>dt_offset := 64, dt_size := word_of_nat (length (fdt_image demo_tree))\<rparr>] \<and>
    take (length (fdt_image demo_tree)) (drop 64 (content s' 0)) = fdt_image demo_tree \<and>
    dtimg_detect True \<lparr>dt_header = new_dt_header 0, dt_entries = None\<rparr> 0 (snd (lseek_set 0 0 s')) = (0, p', s'')"
proof -
  let ?s = "(one_file_sys [])\<lparr>inodes := [[], fdt_image demo_tree]\<rparr>" and ?items = "[(demo_section ''a.dtbo'' 1, demo_tree, empty_entry)]"
  let ?p = "\<lparr>dt_header = new_dt_header 0, dt_entries = None\<rparr>" and ?io = "\<lambda>n. if n = ''d/a.dtbo'' then Some (1 :: nat) else None"
  have w: "writing ?s 0 0 0 [[], fdt_image demo_tree] [] 0"
    by (simp add: writing_def out_state_def sys_ok_def one_file_sys_def ofd_of_def content_def demo_gd_def list_all_iff)
  have len: "length (fdt_image demo_tree) \<le> 1000"
    by (simp add: length_fdt_image flat_struct_def flat_strings_def strings_block_def demo_tree_def aligned4_def)
  have ok: "is_node demo_tree" "tree_ok 31 demo_tree" by (simp_all add: demo_tree_def good_name_def nul_char)
  have rd: "dtimg_entry_read_ulong (demo_section a i) (demo_section b j) key = (0, EXINI_ERR_NOT_DEFINED)" for a i b j key
    by (simp add: dtimg_entry_read_ulong_def exini_section_read_ulong_def exini_find_section_property_def demo_section_def EXINI_ERR_NOT_DEFINED_def)
  have customs: "dtimg_init_customs (demo_section a i) (demo_section b j) ks empty_entry = (0, empty_entry)" for a i b j ks
  proof (induction ks)
    case (Cons k ks)
    have "[0, 0, 0, 0 :: u32][k := 0] = [0, 0, 0, 0]"
      by (rule nth_equalityI) (auto simp: nth_list_update nth_Cons split: nat.splits)
    then have "empty_entry\<lparr>dt_custom := (dt_custom empty_entry)[k := 0]\<rparr> = empty_entry" by (simp add: empty_entry_def)
    then show ?case using Cons rd by (simp add: EXINI_ERR_NOT_DEFINED_def EXINI_ERR_BAD_TYPE_def)
  qed simp
  have num: "dtimg_init_number tail root (demo_section a i) (demo_section b j) key n = Ok (0, n)" for tail root a i b j key n
    using rd by (simp add: dtimg_init_number_def EXINI_ERR_NOT_DEFINED_def EXINI_ERR_BAD_TYPE_def)
  have same: "empty_entry\<lparr>dt_id := dt_id empty_entry\<rparr> = empty_entry" "empty_entry\<lparr>dt_rev := dt_rev empty_entry\<rparr> = empty_entry"
    by simp_all
  have fill: "dtimg_fill_entry nul (tree_data demo_tree) (demo_section ''__global_option'' 0) (demo_section ''a.dtbo'' 1) empty_entry = Ok (0, empty_entry)"
    using customs [of "''__global_option''" 0 "''a.dtbo''" 1 "[0..<4]"]
    by (simp add: dtimg_fill_entry_def with_root_def tree_data_def num same del: upt_Suc)
  have src: "\<forall>item\<in>set ?items. dt_source (path_last demo_memory) ?io ''d'' [[], fdt_image demo_tree] 0 (demo_section ''__global_option'' 0) item"
    using fill ok len by (simp add: dt_source_def demo_memory_def demo_section_def path_in_def snprintf_s_def)
  show ?thesis
    using dtimg_pack_detect [where items = ?items and M = demo_memory and inode_of = ?io and dir = "''d''" and p = ?p and ?p0.0 = ?p and
        cfg = "''a.dtbo'' @ [newline]" and ini = demo_cfg and g = "demo_section ''__global_option'' 0", OF w demo_cfg_load] src len
    by (auto simp: demo_cfg_def demo_memory_def demo_section_def)
qed

end
