(* ===== verification/Core.thy ===== *)
theory Core
  imports Files Xopt Structure
begin

text \<open>
  The driver of the program (main.c and the rest of misc.c): registration of the editors, the search for images by their
  magic numbers, the calls of one editor by another, and \<open>main\<close> with its options and actions. An editor is a record of
  functions over its private data; \<open>exit\<close> only returns memory and is left out. Loading plugins is left to a function that gives
  the editors of a path. Left out are what goes to the error output, the version and the list of plugins that are printed,
  directories and names (\<open>mkdir\<close>, \<open>unlink\<close>), and memory that runs out while images are collected. Which byte order
  \<open>structure_print\<close> is forced to is an argument of the editors.
\<close>

section \<open>Editors\<close>

definition IMGEDITOR_FLAG_CONTAIN_MULTI_BIN :: u32 where "IMGEDITOR_FLAG_CONTAIN_MULTI_BIN = push_bit 0 1"
definition IMGEDITOR_FLAG_HIDE_INFO_WHEN_LIST :: u32 where "IMGEDITOR_FLAG_HIDE_INFO_WHEN_LIST = push_bit 1 1"

text \<open>
  An editor with its functions: a missing one is \<open>None\<close>. Those that print give their text. \<open>ed_zero\<close> is private data whose
  bytes are all zero. A detector gets whether the type is forced.
\<close>

record 'p editor = imgeditor +
  ed_data :: 'p
  ed_zero :: 'p
  op_init :: "('p \<Rightarrow> int \<times> 'p) option"
  op_detect :: "('p \<Rightarrow> bool \<Rightarrow> int \<Rightarrow> sys \<Rightarrow> (int \<times> 'p \<times> sys) cres) option"
  op_summary :: "('p \<Rightarrow> int \<Rightarrow> nat \<Rightarrow> sys \<Rightarrow> (int \<times> string \<times> 'p \<times> sys) cres) option"
  op_total_size :: "('p \<Rightarrow> int \<Rightarrow> sys \<Rightarrow> (int \<times> 'p \<times> sys) cres) option"
  op_list :: "('p \<Rightarrow> int \<Rightarrow> string list \<Rightarrow> sys \<Rightarrow> (int \<times> string \<times> 'p \<times> sys) cres) option"
  op_pack :: "('p \<Rightarrow> string \<Rightarrow> int \<Rightarrow> string list \<Rightarrow> sys \<Rightarrow> (int \<times> 'p \<times> sys) cres) option"
  op_unpack :: "('p \<Rightarrow> int \<Rightarrow> string \<Rightarrow> string list \<Rightarrow> sys \<Rightarrow> (int \<times> 'p \<times> sys) cres) option"
  op_unpack2fd :: "('p \<Rightarrow> int \<Rightarrow> int \<Rightarrow> string list \<Rightarrow> sys \<Rightarrow> (int \<times> 'p \<times> sys) cres) option"
  op_main :: "('p \<Rightarrow> string list \<Rightarrow> sys \<Rightarrow> (int \<times> string \<times> 'p \<times> sys) cres) option"
  sm_magic :: bytes
  sm_offset :: nat
  sm_next :: int

text \<open>What surrounds the program: the memory that \<open>dd\<close> allocates, the inodes behind the names, and a temporary file.\<close>

record core_env =
  env_garbage :: "(nat \<Rightarrow> u8) option"
  env_inode :: "string \<Rightarrow> nat option"
  env_tmp_name :: string
  env_tmp :: "nat option"

text \<open>\<open>mem\<close> tells whether the private data can be allocated.\<close>

definition editor_prepare_private_data :: "bool \<Rightarrow> 'p editor \<Rightarrow> int \<times> 'p editor" where
  "editor_prepare_private_data mem ed = (if mem then (0, ed\<lparr>ed_data := ed_zero ed\<rparr>) else (-1, ed))"

definition editor_init :: "'p editor \<Rightarrow> int \<times> 'p editor" where
  "editor_init ed =
     (case op_init ed of None \<Rightarrow> (0, ed) | Some init \<Rightarrow> (case init (ed_data ed) of (ret, p) \<Rightarrow> (ret, ed\<lparr>ed_data := p\<rparr>)))"

definition empty_rw_file :: "core_env \<Rightarrow> sys \<Rightarrow> int \<times> sys" where
  "empty_rw_file E s = fileopen_trunc (env_tmp E) s"

definition imgeditor_unpack2fd_helper ::
    "core_env \<Rightarrow> ('p \<Rightarrow> int \<Rightarrow> string \<Rightarrow> string list \<Rightarrow> sys \<Rightarrow> (int \<times> 'p \<times> sys) cres)
      \<Rightarrow> 'p \<Rightarrow> int \<Rightarrow> int \<Rightarrow> string list \<Rightarrow> sys \<Rightarrow> (int \<times> 'p \<times> sys) cres" where
  "imgeditor_unpack2fd_helper E unpack p fd fd_out args s =
     (let (fd_tmp, s1) = empty_rw_file E s
      in if fd_tmp < 0 then Ok (fd_tmp, p, s1)
         else cbind (unpack p fd (env_tmp_name E) args s1) (\<lambda>(ret, p', s2).
           let s3 = (if ret = 0 then
                       let (len, s') = filelength fd_tmp s2
                       in snd (snd (dd64 (env_garbage E) fd_tmp fd_out 0 0 (nat len) None () s'))
                     else s2)
           in Ok (ret, p', sys_close fd_tmp s3)))"

definition imgeditor_unpack_helper ::
    "core_env \<Rightarrow> ('p \<Rightarrow> int \<Rightarrow> int \<Rightarrow> string list \<Rightarrow> sys \<Rightarrow> (int \<times> 'p \<times> sys) cres)
      \<Rightarrow> 'p \<Rightarrow> int \<Rightarrow> string \<Rightarrow> string list \<Rightarrow> sys \<Rightarrow> (int \<times> 'p \<times> sys) cres" where
  "imgeditor_unpack_helper E unpack2fd p fd fileout args s =
     (let (fd_out, s1) = fileopen_trunc (env_inode E fileout) s
      in if fd_out < 0 then Ok (fd_out, p, s1)
         else cbind (unpack2fd p fd fd_out args s1) (\<lambda>(ret, p', s2). Ok (ret, p', sys_close fd_out s2)))"

text \<open>
  The default of one of the two functions calls the other one, which the editor has itself: the private data it is called
  with is that of the editor.
\<close>

definition with_unpack_defaults :: "core_env \<Rightarrow> 'p editor \<Rightarrow> 'p editor" where
  "with_unpack_defaults E ed =
     (if ie_flags ed AND IMGEDITOR_FLAG_CONTAIN_MULTI_BIN \<noteq> 0 then ed
      else ed\<lparr>op_unpack2fd := (case (op_unpack2fd ed, op_unpack ed) of
                   (None, Some unpack) \<Rightarrow> Some (imgeditor_unpack2fd_helper E unpack) | (u, _) \<Rightarrow> u),
              op_unpack := (case (op_unpack ed, op_unpack2fd ed) of
                   (None, Some unpack2fd) \<Rightarrow> Some (imgeditor_unpack_helper E unpack2fd) | (u, _) \<Rightarrow> u)\<rparr>)"

definition register_imgeditor :: "core_env \<Rightarrow> bool \<Rightarrow> 'p editor \<Rightarrow> 'p editor list \<Rightarrow> 'p editor list" where
  "register_imgeditor E mem ed eds =
     (case editor_prepare_private_data mem ed of
        (ret, ed1) \<Rightarrow>
          if ret \<noteq> 0 then eds
          else (case editor_init (with_unpack_defaults E ed1) of (ret, ed2) \<Rightarrow> if ret = 0 then eds @ [ed2] else eds))"

definition get_imgeditor_byname :: "string \<Rightarrow> 'p editor list \<Rightarrow> nat option" where
  "get_imgeditor_byname name eds =
     (let i = length (takeWhile (\<lambda>ed. ie_name ed \<noteq> name) eds) in if i < length eds then Some i else None)"

definition imgeditor_export_registed :: "'p editor list \<Rightarrow> sys \<Rightarrow> sys" where
  "imgeditor_export_registed eds s = s\<lparr>gd := foldl (\<lambda>g ed. gd_export_imgeditor (imgeditor.truncate ed) g) (gd s) eds\<rparr>"

text \<open>The private data is cleared and initialised again.\<close>

definition editor_reset :: "'p editor \<Rightarrow> 'p editor" where
  "editor_reset ed = snd (editor_init (ed\<lparr>ed_data := ed_zero ed\<rparr>))"

section \<open>Searching\<close>

record img_location =
  il_name :: string
  il_offset :: int
  il_summary :: string

definition BUF4M_SZ :: nat where "BUF4M_SZ = 4 * 2 ^ 20"

text \<open>Conversion to \<open>int\<close>.\<close>

definition to_int :: "int \<Rightarrow> int" where
  "to_int x = sint (word_of_int x :: u32)"

text \<open>\<open>memmem\<close> from a position on.\<close>

definition memmem_from :: "bytes \<Rightarrow> nat \<Rightarrow> bytes \<Rightarrow> nat option" where
  "memmem_from buf from pat = find (\<lambda>i. take (length pat) (drop i buf) = pat) [from..<length buf + 1 - length pat]"

text \<open>The next place of the magic number in the buffer, and where the search goes on.\<close>

definition search_magic :: "int \<Rightarrow> bytes \<Rightarrow> 'p editor \<Rightarrow> nat option \<times> int" where
  "search_magic file_offset buf ed =
     (let b = (if sm_next ed = 0 then 0 else to_int (sm_next ed - file_offset))
      in if b < 0 \<or> b \<ge> to_int (int (length buf)) then (None, sm_next ed)
         else case memmem_from buf (nat b) (sm_magic ed) of
             None \<Rightarrow> (None, file_offset + int (length buf))
           | Some i \<Rightarrow> (Some i, file_offset + int i + 1))"

definition editor_summary :: "'p editor \<Rightarrow> int \<Rightarrow> 'p \<Rightarrow> sys \<Rightarrow> (string \<times> sys) cres" where
  "editor_summary ed vfd p s =
     (case op_summary ed of
        None \<Rightarrow> Ok ([], s)
      | Some summary \<Rightarrow> cbind (summary p vfd 1024 s) (\<lambda>(ret, txt, _, s'). Ok (if ret \<noteq> 0 then [] else txt, s')))"

text \<open>
  The part at \<open>detect_it\<close>: the detector looks at a window of the file. Whatever it leaves in the private data is cleared
  behind it.
\<close>

definition detect_at ::
    "int \<Rightarrow> int \<Rightarrow> 'p editor \<Rightarrow> img_location list \<Rightarrow> sys \<Rightarrow> ('p editor \<times> img_location list \<times> sys) cres" where
  "detect_at fd img_offset ed imgs s =
     (let ed0 = editor_reset ed
      in cbind (virtual_file_dup fd img_offset s) (\<lambda>(vfd, s1).
           if vfd < 0 then Ok (ed0, imgs, s1)
           else case op_detect ed of
               None \<Rightarrow> Oob
             | Some detect \<Rightarrow>
                 cbind (detect (ed_data ed0) False vfd s1) (\<lambda>(ret, p, s2).
                 cbind (if ret = 0
                        then cbind (editor_summary ed vfd p s2) (\<lambda>(txt, s3).
                               Ok (imgs @ [\<lparr>il_name = ie_name ed, il_offset = img_offset, il_summary = txt\<rparr>], s3))
                        else Ok (imgs, s2))
                   (\<lambda>(imgs', s3). Ok (ed0, imgs', snd (virtual_file_close vfd s3))))))"

record search_state =
  ss_ready :: bool
  ss_offset0_searched :: bool
  ss_imgs :: "img_location list"
  ss_log :: string
  ss_sys :: sys

text \<open>One editor in one round.\<close>

definition search_editor ::
    "int \<Rightarrow> int \<Rightarrow> bytes \<Rightarrow> 'p editor \<Rightarrow> search_state \<Rightarrow> ('p editor \<times> search_state) cres" where
  "search_editor fd file_offset buf ed st =
     (if \<not> ss_offset0_searched st \<and> file_offset = 0 \<and> ie_name ed = ''mbr'' then
        cbind (detect_at fd 0 ed (ss_imgs st) (ss_sys st)) (\<lambda>(ed', imgs, s).
          Ok (ed', st\<lparr>ss_offset0_searched := True, ss_imgs := imgs, ss_sys := s\<rparr>))
      else if sm_magic ed = [] then Ok (ed, st)
      else
        case search_magic file_offset buf ed of
          (None, nxt) \<Rightarrow> Ok (ed\<lparr>sm_next := nxt\<rparr>, st)
        | (Some i, nxt) \<Rightarrow>
            let ed1 = ed\<lparr>sm_next := nxt\<rparr>; img_offset = file_offset + int i - int (sm_offset ed);
                log = (if get_verbose_level (ss_sys st) > 2
                       then ''? '' @ pad_right 18 (ie_name ed) @ '' 0x''
                         @ hex_string (unat (word_of_int (file_offset + int i) :: u64)) @ [newline] else []);
                (len, s1) = filelength fd (ss_sys st);
                st1 = st\<lparr>ss_ready := True, ss_log := ss_log st @ log, ss_sys := s1\<rparr>
            in if img_offset + to_int (int (header_size ed)) > len then Ok (ed1, st1)
               else cbind (detect_at fd img_offset ed1 (ss_imgs st) s1) (\<lambda>(ed2, imgs, s2).
                 Ok (ed2, st1\<lparr>ss_imgs := imgs, ss_sys := s2\<rparr>)))"

fun search_round ::
    "int \<Rightarrow> int \<Rightarrow> bytes \<Rightarrow> 'p editor list \<Rightarrow> search_state \<Rightarrow> ('p editor list \<times> search_state) cres" where
  "search_round fd file_offset buf [] st = Ok ([], st)"
| "search_round fd file_offset buf (ed # eds) st =
     cbind (search_editor fd file_offset buf ed st) (\<lambda>(ed', st1).
     cbind (search_round fd file_offset buf eds st1) (\<lambda>(eds', st2). Ok (ed' # eds', st2)))"

text \<open>The rounds, until no magic number is found in one. \<open>None\<close> is a search that does not end.\<close>

partial_function (option) search_rounds ::
    "int \<Rightarrow> int \<Rightarrow> bytes \<Rightarrow> 'p editor list \<Rightarrow> search_state \<Rightarrow> ('p editor list \<times> search_state) cres option" where
  "search_rounds fd file_offset buf eds st =
     (case search_round fd file_offset buf eds (st\<lparr>ss_ready := False\<rparr>) of
        Ok (eds', st') \<Rightarrow> if ss_ready st' then search_rounds fd file_offset buf eds' st' else Some (Ok (eds', st'))
      | Oob \<Rightarrow> Some Oob
      | NoFuel \<Rightarrow> Some NoFuel)"

definition imgeditor_search_buf ::
    "int \<Rightarrow> int \<Rightarrow> bytes \<Rightarrow> 'p editor list \<Rightarrow> sys \<Rightarrow> ('p editor list \<times> img_location list \<times> string \<times> sys) cres option" where
  "imgeditor_search_buf fd file_offset buf eds s =
     map_option (\<lambda>r. cbind r (\<lambda>(eds', st). Ok (eds', ss_imgs st, ss_log st, ss_sys st)))
       (search_rounds fd file_offset buf eds
          \<lparr>ss_ready = False, ss_offset0_searched = False, ss_imgs = [], ss_log = [], ss_sys = s\<rparr>)"

definition fmt_0x08_dec :: "int \<Rightarrow> string" where
  "fmt_0x08_dec n =
     (let w = unat (word_of_int n :: u64) in ''0x'' @ pad_zero 8 (hex_string w) @ ''('' @ dec_string w @ '')'')"

definition print_img_location :: "sys \<Rightarrow> img_location \<Rightarrow> string" where
  "print_img_location s img =
     (let n = il_offset img; sec = (if n < 0 then - ((- n) div 512) else n div 512);
          part = find_registed_partition (word_of_int n) (gd s);
          part_info = (case part of
              (Some dp, ty) \<Rightarrow> '' '' @ pad_right 25 (snprintf_s 64 ((case ty of None \<Rightarrow> ''(null)'' | Some t \<Rightarrow> t) @ ''.'' @ part_name dp))
            | _ \<Rightarrow> [])
      in pad_right 20 (il_name img) @ '' '' @ pad_right 25 (fmt_0x08_dec n) @ '' '' @ pad_right 25 (fmt_0x08_dec sec) @ part_info
         @ (if il_summary img \<noteq> []
            then (if part_info = [] then '' '' @ pad_right 25 '' '' else []) @ '' '' @ il_summary img else [])
         @ [newline])"

text \<open>The offsets of one buffer are less than \<open>2 ^ 31\<close> apart, so that their difference keeps its sign as an \<open>int\<close>.\<close>

definition img_locations_sorted :: "img_location list \<Rightarrow> img_location list" where
  "img_locations_sorted imgs = sort_key il_offset imgs"

partial_function (option) search_foreach_loop ::
    "int \<Rightarrow> int \<Rightarrow> nat \<Rightarrow> string \<Rightarrow> 'p editor list \<Rightarrow> sys \<Rightarrow> (nat \<times> string \<times> 'p editor list \<times> sys) cres option" where
  "search_foreach_loop fd off count txt eds s =
     (let off1 = (if off > 1024 then off - 1024 else off); s1 = snd (lseek_set fd off1 s)
      in case sys_read fd BUF4M_SZ s1 of
           (loaded, buf, s2) \<Rightarrow>
             if loaded \<le> 0 then Some (Ok (count, txt, eds, s2))
             else case imgeditor_search_buf fd off1 buf eds s2 of
                 None \<Rightarrow> None
               | Some r \<Rightarrow>
                   (case r of
                      Ok (eds', imgs, log, s3) \<Rightarrow>
                        let title = (if count = 0 \<and> imgs \<noteq> []
                              then pad_right 20 ''NAME'' @ '' '' @ pad_right 25 ''OFFSET'' @ '' '' @ pad_right 25 ''SECTOR'' @ [newline] else []);
                            txt' = txt @ log @ title @ concat (map (print_img_location s3) (img_locations_sorted imgs));
                            count' = count + length imgs
                        in if loaded = int BUF4M_SZ then search_foreach_loop fd (off1 + loaded) count' txt' eds' s3
                           else Some (Ok (count', txt', eds', s3))
                    | Oob \<Rightarrow> Some Oob
                    | NoFuel \<Rightarrow> Some NoFuel))"

text \<open>\<open>mem\<close> tells whether the buffer can be allocated.\<close>

definition imgeditor_search_foreach ::
    "bool \<Rightarrow> int \<Rightarrow> 'p editor list \<Rightarrow> sys \<Rightarrow> (int \<times> string \<times> 'p editor list \<times> sys) cres option" where
  "imgeditor_search_foreach mem fd eds s =
     (if \<not> mem then Some (Ok (-1, [], eds, s))
      else map_option (\<lambda>r. cbind r (\<lambda>(count, txt, eds', s'). Ok (int count, txt, eds', s')))
             (search_foreach_loop fd (filestart fd s) 0 [] eds s))"

definition imgeditor_search ::
    "bool \<Rightarrow> nat option \<Rightarrow> int \<Rightarrow> 'p editor list \<Rightarrow> sys \<Rightarrow> (int \<times> string \<times> 'p editor list \<times> sys) cres option" where
  "imgeditor_search mem inode_num off eds s =
     (let (fd, s1) = virtual_file_open inode_num off s
      in if fd < 0 then Some (Ok (fd, [], eds, s1))
         else let (len, s2) = filelength fd s1
           in if len \<le> 0 then Some (Ok (-1, [], eds, snd (virtual_file_close fd s2)))
              else map_option (\<lambda>r. cbind r (\<lambda>(count, txt, eds', s3). Ok (if count \<le> 0 then -1 else 0, txt, eds', s3)))
                     (imgeditor_search_foreach mem fd eds s2))"

section \<open>An editor that calls another one\<close>

text \<open>The editor that was exported under a name, as its place among the registered ones.\<close>

definition exported_editor :: "string \<Rightarrow> 'p editor list \<Rightarrow> sys \<Rightarrow> nat option" where
  "exported_editor name eds s =
     (case gd_get_imgeditor name (gd s) of None \<Rightarrow> None | Some e \<Rightarrow> get_imgeditor_byname (ie_name e) eds)"

definition imgeditor_editor_request :: "string \<Rightarrow> 'p editor list \<Rightarrow> sys \<Rightarrow> nat option \<times> 'p editor list" where
  "imgeditor_editor_request name eds s =
     (case exported_editor name eds s of None \<Rightarrow> (None, eds) | Some i \<Rightarrow> (Some i, eds[i := editor_reset (eds ! i)]))"

definition imgeditor_editor_release :: "nat \<Rightarrow> 'p editor list \<Rightarrow> 'p editor list" where
  "imgeditor_editor_release i eds = eds[i := editor_reset (eds ! i)]"

definition imgeditor_editor_detect ::
    "string \<Rightarrow> int \<Rightarrow> 'p editor list \<Rightarrow> sys \<Rightarrow> (int \<times> 'p editor list \<times> sys) cres" where
  "imgeditor_editor_detect name fd eds s =
     (case exported_editor name eds s of
        None \<Rightarrow> Ok (-1, eds, s)
      | Some i \<Rightarrow>
          (case op_detect (eds ! i) of
             None \<Rightarrow> Oob
           | Some detect \<Rightarrow>
               cbind (detect (ed_data (eds ! i)) False fd s) (\<lambda>(ret, _, s'). Ok (ret, imgeditor_editor_release i eds, s'))))"

definition editor_args :: "string \<Rightarrow> string list cres" where
  "editor_args args = cbind (argv_buffer_split_with_delim (Some (snprintf_s 8192 args)) (Some ('' '' @ [CHR 0x09])) 128) (\<lambda>(_, argv). Ok argv)"

definition imgeditor_editor_main ::
    "string \<Rightarrow> string \<Rightarrow> 'p editor list \<Rightarrow> sys \<Rightarrow> (int \<times> string \<times> 'p editor list \<times> sys) cres" where
  "imgeditor_editor_main name args eds s =
     (case imgeditor_editor_request name eds s of
        (None, eds1) \<Rightarrow> Ok (-1, [], eds1, s)
      | (Some i, eds1) \<Rightarrow>
          (case op_main (eds1 ! i) of
             None \<Rightarrow> Ok (-1, [], eds1, s)
           | Some run \<Rightarrow>
               cbind (editor_args args) (\<lambda>argv.
               cbind (run (ed_data (eds1 ! i)) argv s) (\<lambda>(ret, txt, _, s').
                 Ok (ret, txt, imgeditor_editor_release i eds1, s')))))"

definition lseek_cur :: "int \<Rightarrow> sys \<Rightarrow> int" where
  "lseek_cur fd s = (case ofd_of s fd of None \<Rightarrow> -1 | Some d \<Rightarrow> int (position (open_files s ! d)))"

text \<open>\<open>func\<close> selects the function of the editor and gives it its own arguments.\<close>

definition editor_argv_helper ::
    "('p editor \<Rightarrow> ('p \<Rightarrow> string list \<Rightarrow> sys \<Rightarrow> (int \<times> 'p \<times> sys) cres) option) \<Rightarrow> string \<Rightarrow> int \<Rightarrow> string \<Rightarrow> 'p editor list \<Rightarrow> sys
      \<Rightarrow> (int \<times> 'p editor list \<times> sys) cres" where
  "editor_argv_helper func name fd args eds s =
     (case imgeditor_editor_request name eds s of
        (None, eds1) \<Rightarrow> Ok (-1, eds1, s)
      | (Some i, eds1) \<Rightarrow>
          (case func (eds1 ! i) of
             None \<Rightarrow> Ok (-1, eds1, s)
           | Some run \<Rightarrow>
               let cur_offset = lseek_cur fd s
               in case op_detect (eds1 ! i) of
                   None \<Rightarrow> Oob
                 | Some detect \<Rightarrow>
                     cbind (detect (ed_data (eds1 ! i)) True fd s) (\<lambda>(ret, p, s1).
                       if ret < 0 then Ok (ret, imgeditor_editor_release i eds1, s1)
                       else cbind (editor_args args) (\<lambda>argv.
                         cbind (run p argv (snd (lseek_set fd cur_offset s1))) (\<lambda>(ret, _, s2).
                           Ok (ret, imgeditor_editor_release i eds1, s2))))))"

definition imgeditor_editor_unpack ::
    "string \<Rightarrow> int \<Rightarrow> string \<Rightarrow> string \<Rightarrow> 'p editor list \<Rightarrow> sys \<Rightarrow> (int \<times> 'p editor list \<times> sys) cres" where
  "imgeditor_editor_unpack name fd out args eds s =
     editor_argv_helper (\<lambda>ed. map_option (\<lambda>f p argv. f p fd out argv) (op_unpack ed)) name fd args eds s"

definition imgeditor_editor_unpack2fd ::
    "string \<Rightarrow> int \<Rightarrow> int \<Rightarrow> string \<Rightarrow> 'p editor list \<Rightarrow> sys \<Rightarrow> (int \<times> 'p editor list \<times> sys) cres" where
  "imgeditor_editor_unpack2fd name fd fd_out args eds s =
     editor_argv_helper (\<lambda>ed. map_option (\<lambda>f p argv. f p fd fd_out argv) (op_unpack2fd ed)) name fd args eds s"

section \<open>Options\<close>

datatype main_action = ACTION_LIST | ACTION_MAIN | ACTION_UNPACK | ACTION_PACK | ACTION_PEEK | ACTION_LIST_PLUGIN

text \<open>The values of the options; \<open>h\<close>, \<open>v\<close> and \<open>s\<close> are their own characters.\<close>

definition ARG_TYPE :: int where "ARG_TYPE = 0"
definition ARG_VERBOSE :: int where "ARG_VERBOSE = 1"
definition ARG_OFFSET :: int where "ARG_OFFSET = 2"
definition ARG_SECTOR :: int where "ARG_SECTOR = 3"
definition ARG_SECTOR_SIZE :: int where "ARG_SECTOR_SIZE = 4"
definition ARG_PLUGIN :: int where "ARG_PLUGIN = 5"
definition ARG_DISABLE_PLUGIN :: int where "ARG_DISABLE_PLUGIN = 6"
definition ARG_VERSION :: int where "ARG_VERSION = 7"
definition OPT_LIST_PLUGIN :: int where "OPT_LIST_PLUGIN = 8"
definition OPT_UNPACK :: int where "OPT_UNPACK = 10"
definition OPT_PACK :: int where "OPT_PACK = 11"
definition OPT_PEEK :: int where "OPT_PEEK = 12"
definition OPT_SEARCH :: int where "OPT_SEARCH = 115"
definition OPT_HELP :: int where "OPT_HELP = 104"
definition OPT_V :: int where "OPT_V = 118"

definition go :: "string \<Rightarrow> bool \<Rightarrow> int \<Rightarrow> getopt_option" where
  "go name has_arg val = \<lparr>go_name = name, go_has_arg = has_arg, go_val = val\<rparr>"

definition imgeditor_options :: "getopt_option list" where
  "imgeditor_options =
     [go ''type'' True ARG_TYPE, go ''offset'' True ARG_OFFSET, go ''sector'' True ARG_SECTOR,
      go ''sector-size'' True ARG_SECTOR_SIZE, go ''plugin'' True ARG_PLUGIN, go ''disable-plugin'' False ARG_DISABLE_PLUGIN,
      go ''list-plugin'' False OPT_LIST_PLUGIN, go ''unpack'' True OPT_UNPACK, go ''pack'' True OPT_PACK,
      go ''peek'' True OPT_PEEK, go ''search'' False OPT_SEARCH, go ''verbose'' False ARG_VERBOSE, go ''help'' False OPT_HELP,
      go ''version'' False ARG_VERSION]"

record main_opts =
  mo_type :: "string option"
  mo_offset :: u64
  mo_offset_sector :: u64
  mo_sector_size :: u64
  mo_verbose :: int
  mo_plugin_path :: string
  mo_disable_plugin :: bool
  mo_origin_file :: "string option"
  mo_action :: main_action
  mo_search_mode :: bool
  mo_ret :: int

definition main_opts0 :: "string \<Rightarrow> main_opts" where
  "main_opts0 plugin_path =
     \<lparr>mo_type = None, mo_offset = 0, mo_offset_sector = 0, mo_sector_size = 512, mo_verbose = 0, mo_plugin_path = plugin_path,
      mo_disable_plugin = False, mo_origin_file = None, mo_action = ACTION_LIST, mo_search_mode = False, mo_ret = -1\<rparr>"

definition arg_to_ull :: "string \<Rightarrow> u64 option" where
  "arg_to_ull v = (case strict_strtoul v 0 None of (n, err) \<Rightarrow> if err \<noteq> 0 then None else Some n)"

definition arg_to_ul :: "string \<Rightarrow> u64 option" where
  "arg_to_ul v = arg_to_ull v"

text \<open>One option: the options so far, or the status the program leaves with.\<close>

definition main_option :: "opt_event \<Rightarrow> main_opts \<Rightarrow> int + main_opts" where
  "main_option ev o' =
     (let (c, optarg) = ev; arg = (case optarg of None \<Rightarrow> [] | Some a \<Rightarrow> a);
          number = (\<lambda>set. case arg_to_ull arg of None \<Rightarrow> Inl (-1) | Some n \<Rightarrow> Inr ((set n) \<lparr>mo_ret := 0\<rparr>));
          act = (\<lambda>a. Inr (o'\<lparr>mo_origin_file := optarg, mo_action := a\<rparr>))
      in if c = ARG_TYPE then Inr (o'\<lparr>mo_type := optarg\<rparr>)
         else if c = ARG_OFFSET then number (\<lambda>n. o'\<lparr>mo_offset := n\<rparr>)
         else if c = ARG_SECTOR then number (\<lambda>n. o'\<lparr>mo_offset_sector := n\<rparr>)
         else if c = ARG_SECTOR_SIZE then number (\<lambda>n. o'\<lparr>mo_sector_size := n\<rparr>)
         else if c = OPT_V \<or> c = ARG_VERBOSE then Inr (o'\<lparr>mo_verbose := mo_verbose o' + 1\<rparr>)
         else if c = ARG_PLUGIN then Inr (o'\<lparr>mo_plugin_path := arg\<rparr>)
         else if c = ARG_DISABLE_PLUGIN then Inr (o'\<lparr>mo_disable_plugin := True\<rparr>)
         else if c = OPT_PACK then act ACTION_PACK
         else if c = OPT_UNPACK then act ACTION_UNPACK
         else if c = OPT_PEEK then act ACTION_PEEK
         else if c = OPT_SEARCH then Inr (o'\<lparr>mo_search_mode := True\<rparr>)
         else if c = OPT_HELP then Inl 0
         else if c = ARG_VERSION then Inl 0
         else if c = OPT_LIST_PLUGIN then Inr (o'\<lparr>mo_action := ACTION_LIST_PLUGIN\<rparr>)
         else Inl (-1))"

fun main_options :: "opt_event list \<Rightarrow> main_opts \<Rightarrow> int + main_opts" where
  "main_options [] o' = Inr o'"
| "main_options (ev # evs) o' = (case main_option ev o' of Inl r \<Rightarrow> Inl r | Inr o1 \<Rightarrow> main_options evs o1)"

section \<open>Choosing the editor\<close>

definition editor_detect :: "'p editor \<Rightarrow> bool \<Rightarrow> int \<Rightarrow> sys \<Rightarrow> (int \<times> 'p editor \<times> sys) cres" where
  "editor_detect ed force_type fd s =
     (let (filesize, s1) = filelength fd s
      in if filesize < int (header_size ed) then Ok (-1, ed, s1)
         else case op_detect ed of
             None \<Rightarrow> Ok (-1, ed, s1)
           | Some detect \<Rightarrow> cbind (detect (ed_data ed) force_type fd s1) (\<lambda>(ret, p, s2). Ok (ret, ed\<lparr>ed_data := p\<rparr>, s2)))"

text \<open>The first editor that accepts the file, which is wound back in front of each.\<close>

fun detect_first :: "int \<Rightarrow> nat \<Rightarrow> 'p editor list \<Rightarrow> sys \<Rightarrow> (nat option \<times> 'p editor list \<times> sys) cres" where
  "detect_first fd i [] s = Ok (None, [], s)"
| "detect_first fd i (ed # eds) s =
     cbind (editor_detect ed False fd (snd (lseek_set fd (filestart fd s) s))) (\<lambda>(ret, ed', s1).
       if ret = 0 then Ok (Some i, ed' # eds, s1)
       else cbind (detect_first fd (i + 1) eds s1) (\<lambda>(r, eds', s2). Ok (r, ed' # eds', s2)))"

text \<open>What \<open>main\<close> does next: return at once, go to its end with a descriptor, or run the action of an editor.\<close>

datatype 'p main_step = Return int sys | Done int sys | Run nat "'p editor list" int int sys

definition choose_input ::
    "core_env \<Rightarrow> main_opts \<Rightarrow> int \<Rightarrow> string option \<Rightarrow> string option \<Rightarrow> 'p editor list \<Rightarrow> sys \<Rightarrow> 'p main_step cres" where
  "choose_input E o' off origin_file out_file eds s =
     (let (fd, s1) = virtual_file_open (case origin_file of None \<Rightarrow> None | Some f \<Rightarrow> env_inode E f) off s;
          chosen = (\<lambda>i eds1 s2.
            let wind = (\<lambda>s. snd (lseek_set fd (filestart fd s) s))
            in if mo_action o' = ACTION_PEEK then
                 (if out_file = None then Ok (Done fd s2)
                  else case op_total_size (eds1 ! i) of
                      None \<Rightarrow> Ok (Done fd s2)
                    | Some total_size \<Rightarrow>
                        cbind (total_size (ed_data (eds1 ! i)) fd (wind s2)) (\<lambda>(n, p, s3).
                          if n < 0 then Ok (Done fd s3)
                          else Ok (Run i (eds1[i := (eds1 ! i)\<lparr>ed_data := p\<rparr>]) fd n (wind s3))))
               else Ok (Run i eds1 fd 0 (wind s2)))
      in if fd < 0 then Ok (Return fd s1)
         else case mo_type o' of
             Some ty \<Rightarrow>
               (case get_imgeditor_byname ty eds of
                  None \<Rightarrow> Ok (Return (-1) s1)
                | Some i \<Rightarrow>
                    cbind (editor_detect (eds ! i) True fd s1) (\<lambda>(ret, ed', s2).
                      if ret < 0 then Ok (Done fd s2) else chosen i (eds[i := ed']) s2))
           | None \<Rightarrow>
               cbind (detect_first fd 0 eds s1) (\<lambda>(r, eds1, s2).
                 case r of None \<Rightarrow> Ok (Done fd s2) | Some i \<Rightarrow> chosen i eds1 s2))"

text \<open>\<open>ftruncate\<close> to nothing.\<close>

definition sys_truncate :: "int \<Rightarrow> sys \<Rightarrow> sys" where
  "sys_truncate fd s = (case ofd_of s fd of None \<Rightarrow> s | Some d \<Rightarrow> set_content d [] s)"

text \<open>The marker that unpacking leaves; 1024 bytes without a zero are no string.\<close>

definition read_marker :: "core_env \<Rightarrow> string \<Rightarrow> sys \<Rightarrow> (int \<times> string \<times> sys) cres" where
  "read_marker E dir s =
     (let (fd, s1) = sys_open (env_inode E (path_in dir ''.imgeditor'')) s
      in if fd < 0 then Ok (fd, [], s1)
         else case sys_read fd 1024 s1 of
             (_, data, s2) \<Rightarrow>
               if length data = 1024 \<and> (0 :: u8) \<notin> set data then Oob
               else Ok (0, string_of_bytes (data @ [0]), sys_close fd s2))"

definition choose_output ::
    "core_env \<Rightarrow> main_opts \<Rightarrow> string option \<Rightarrow> 'p editor list \<Rightarrow> sys \<Rightarrow> 'p main_step cres" where
  "choose_output E o' out_file eds s =
     (case out_file of
        None \<Rightarrow> Ok (Done (-1) s)
      | Some out \<Rightarrow>
          cbind (case mo_type o' of
                   Some ty \<Rightarrow> Ok (0, ty, s)
                 | None \<Rightarrow> read_marker E (case mo_origin_file o' of None \<Rightarrow> ''(null)'' | Some d \<Rightarrow> d) s)
            (\<lambda>(ret, ty, s1).
               if ret < 0 then Ok (Return ret s1)
               else case get_imgeditor_byname ty eds of
                   None \<Rightarrow> Ok (Return (-1) s1)
                 | Some i \<Rightarrow>
                     let (fd, s2) = virtual_file_open (env_inode E out) 0 s1
                     in if fd < 0 then Ok (Return fd s2) else Ok (Run i eds fd 0 (sys_truncate fd s2))))"

section \<open>Running an action\<close>

definition editor_peek :: "core_env \<Rightarrow> int \<Rightarrow> int \<Rightarrow> string \<Rightarrow> sys \<Rightarrow> int \<times> sys" where
  "editor_peek E fd total_size out_file s =
     (let (fd_out, s1) = fileopen_trunc (env_inode E out_file) s
      in if fd_out < 0 then (fd_out, s1)
         else (0, sys_close fd_out (snd (snd (dd64 (env_garbage E) fd fd_out 0 0 (nat total_size) None () s1)))))"

text \<open>\<open>strncat\<close> is given the size of the buffer and not what is left of it.\<close>

definition write_marker :: "core_env \<Rightarrow> string \<Rightarrow> string \<Rightarrow> sys \<Rightarrow> sys cres" where
  "write_marker E dir name s =
     (if length dir + length ''/.imgeditor'' \<ge> 1024 then Oob
      else let (fd, s1) = fileopen_trunc (env_inode E (dir @ ''/.imgeditor'')) s
        in if fd < 0 then Ok s1 else Ok (sys_close fd (snd (sys_write fd (bytes_of_string name) s1))))"

definition run_unpack ::
    "core_env \<Rightarrow> 'p editor \<Rightarrow> string \<Rightarrow> string option \<Rightarrow> int \<Rightarrow> int \<Rightarrow> string list \<Rightarrow> sys \<Rightarrow> (int \<times> sys) cres" where
  "run_unpack E ed origin_file out_file ret fd args s =
     (let multi = (ie_flags ed AND IMGEDITOR_FLAG_CONTAIN_MULTI_BIN \<noteq> 0);
          run = (\<lambda>tmpbuf. case op_unpack ed of
              None \<Rightarrow> Ok (ret, s)
            | Some unpack \<Rightarrow>
                cbind (unpack (ed_data ed) fd tmpbuf args s) (\<lambda>(ret, _, s1).
                  if ret = 0 \<and> multi then cbind (write_marker E tmpbuf (ie_name ed) s1) (\<lambda>s2. Ok (ret, s2)) else Ok (ret, s1)))
      in if multi then run (snprintf_s 1024 (origin_file @ ''.dump''))
         else case out_file of None \<Rightarrow> Ok (ret, s) | Some out \<Rightarrow> run (snprintf_s 1024 out))"

definition run_action ::
    "core_env \<Rightarrow> main_action \<Rightarrow> 'p editor \<Rightarrow> string option \<Rightarrow> string option \<Rightarrow> int \<Rightarrow> int \<Rightarrow> int \<Rightarrow> string list \<Rightarrow> sys
      \<Rightarrow> (int \<times> string \<times> sys) cres" where
  "run_action E action ed origin_file out_file ret fd peek_size args s =
     (let origin = (case origin_file of None \<Rightarrow> ''(null)'' | Some f \<Rightarrow> f)
      in case action of
           ACTION_MAIN \<Rightarrow>
             (case op_main ed of
                None \<Rightarrow> Ok (ret, [], s)
              | Some run \<Rightarrow> cbind (run (ed_data ed) args s) (\<lambda>(ret, txt, _, s1). Ok (ret, txt, s1)))
         | ACTION_LIST \<Rightarrow>
             (let info = (if ie_flags ed AND IMGEDITOR_FLAG_HIDE_INFO_WHEN_LIST = 0
                    then ie_name ed @ '': '' @ descriptor ed @ [newline] else [])
              in case op_list ed of
                   None \<Rightarrow> Ok (ret, info, s)
                 | Some run \<Rightarrow> cbind (run (ed_data ed) fd args s) (\<lambda>(ret, txt, _, s1). Ok (ret, info @ txt, s1)))
         | ACTION_UNPACK \<Rightarrow> cbind (run_unpack E ed origin out_file ret fd args s) (\<lambda>(ret, s1). Ok (ret, [], s1))
         | ACTION_PACK \<Rightarrow>
             (case op_pack ed of
                None \<Rightarrow> Ok (ret, [], s)
              | Some run \<Rightarrow> cbind (run (ed_data ed) origin fd args s) (\<lambda>(ret, _, s1). Ok (ret, [], s1)))
         | ACTION_PEEK \<Rightarrow>
             (case editor_peek E fd peek_size (case out_file of None \<Rightarrow> [] | Some f \<Rightarrow> f) s of (ret, s1) \<Rightarrow> Ok (ret, [], s1))
         | ACTION_LIST_PLUGIN \<Rightarrow> Ok (ret, [], s))"

definition main_done :: "int \<Rightarrow> sys \<Rightarrow> sys" where
  "main_done fd s =
     (let s1 = (if fd < 0 then s else snd (virtual_file_close fd s))
      in s1\<lparr>gd := free_registed_disk_partitions (gd s1)\<rparr>)"

section \<open>main\<close>

text \<open>
  The arguments behind \<open>--\<close> are those of the editor; \<open>out_file\<close> is the first of the others that is no option. \<open>plugins\<close>
  gives the editors that the plugins of a path bring. The result is the status, the text that was printed, and the files.
\<close>

definition main_argc :: "string list \<Rightarrow> nat" where
  "main_argc argv = length (takeWhile (\<lambda>a. a \<noteq> ''--'') argv)"

definition main_dispatch ::
    "core_env \<Rightarrow> bool \<Rightarrow> string list \<Rightarrow> string option \<Rightarrow> main_opts \<Rightarrow> 'p editor list \<Rightarrow> sys \<Rightarrow> (int \<times> string \<times> sys) cres option" where
  "main_dispatch E mem args out_file o1 eds s =
     (let off = (if mo_offset_sector o1 \<noteq> 0 then mo_offset_sector o1 * mo_sector_size o1 else mo_offset o1)
      in if mo_search_mode o1 then
           map_option (\<lambda>r. cbind r (\<lambda>(ret, txt, _, s2). Ok (ret, txt, main_done (-1) s2)))
             (imgeditor_search mem (case out_file of None \<Rightarrow> None | Some f \<Rightarrow> env_inode E f) (sint off) eds
                (s\<lparr>gd := (gd s)\<lparr>search_mode := 1\<rparr>\<rparr>))
         else
           let s2 = imgeditor_export_registed eds s;
               o2 = (if mo_action o1 = ACTION_LIST
                     then (case (out_file, mo_type o1) of
                             (None, Some _) \<Rightarrow> o1\<lparr>mo_action := ACTION_MAIN\<rparr>
                           | (None, None) \<Rightarrow> o1
                           | (Some f, _) \<Rightarrow> o1\<lparr>mo_origin_file := Some f\<rparr>)
                     else o1);
               step = (if mo_action o2 = ACTION_MAIN then
                         (if args = [] then Ok (Return (-1) s2)
                          else case mo_type o2 of
                              None \<Rightarrow> Oob
                            | Some ty \<Rightarrow>
                                (case get_imgeditor_byname ty eds of
                                   None \<Rightarrow> Ok (Return (-1) s2) | Some i \<Rightarrow> Ok (Run i eds (-1) 0 s2)))
                       else if mo_action o2 = ACTION_PACK then choose_output E o2 out_file eds s2
                       else choose_input E o2 (sint off) (mo_origin_file o2) out_file eds s2)
           in if mo_action o2 = ACTION_LIST \<and> out_file = None \<and> mo_type o2 = None then Some (Ok (-1, [], s2))
              else Some (cbind step (\<lambda>st.
                case st of
                  Return ret s3 \<Rightarrow> Ok (ret, [], s3)
                | Done fd s3 \<Rightarrow> Ok (mo_ret o2, [], main_done fd s3)
                | Run i eds' fd peek_size s3 \<Rightarrow>
                    cbind (run_action E (mo_action o2) (eds' ! i) (mo_origin_file o2) out_file (mo_ret o2) fd peek_size args s3)
                      (\<lambda>(ret, txt, s4). Ok (ret, txt, main_done fd s4)))))"

definition imgeditor_main ::
    "core_env \<Rightarrow> bool \<Rightarrow> string \<Rightarrow> (string \<Rightarrow> 'p editor list) \<Rightarrow> string list \<Rightarrow> 'p editor list \<Rightarrow> sys
      \<Rightarrow> (int \<times> string \<times> sys) cres option" where
  "imgeditor_main E mem plugin_path plugins argv eds0 s0 =
     (let n = main_argc argv; args = drop (n + 1) argv;
          (evs, os, ns) = getopt_args ''hvs'' imgeditor_options (drop 1 (take n argv))
      in case main_options evs (main_opts0 plugin_path) of
           Inl ret \<Rightarrow> Some (Ok (ret, [], s0))
         | Inr o1 \<Rightarrow>
             let s1 = s0\<lparr>gd := (gd s0)\<lparr>verbose_level := verbose_level (gd s0) + mo_verbose o1\<rparr>\<rparr>;
                 eds = (if mo_disable_plugin o1 then eds0
                        else foldl (\<lambda>es ed. register_imgeditor E True ed es) eds0 (plugins (mo_plugin_path o1)));
                 out_file = (case (if n = 0 then drop 1 argv else ns) of [] \<Rightarrow> None | f # _ \<Rightarrow> Some f)
             in if n = 1 then Some (Ok (mo_ret o1, [], s1))
                else if mo_action o1 = ACTION_LIST_PLUGIN then Some (Ok (0, [], s1))
                else main_dispatch E mem args out_file o1 eds s1)"

end
