(* ===== verification/CoreLaws.thy ===== *)
theory CoreLaws
  imports Core TransferLaws
begin

text \<open>
  The search: it offers every place of a magic number in a buffer, one per round, and ends; what it misses; and the windows
  that it opens.
\<close>

section \<open>The places of a magic number\<close>

text \<open>Those that are left for an editor in a buffer, in order.\<close>

definition search_start :: "int \<Rightarrow> 'p editor \<Rightarrow> int" where
  "search_start fo ed = (if sm_next ed = 0 then 0 else to_int (sm_next ed - fo))"

definition hits :: "int \<Rightarrow> bytes \<Rightarrow> 'p editor \<Rightarrow> nat list" where
  "hits fo buf ed =
     (let b = search_start fo ed; m = sm_magic ed
      in if b < 0 \<or> b \<ge> to_int (int (length buf)) then []
         else filter (\<lambda>i. take (length m) (drop i buf) = m) [nat b..<length buf + 1 - length m])"

lemma to_int_small: "- (2 ^ 31) \<le> x \<Longrightarrow> x < 2 ^ 31 \<Longrightarrow> to_int x = x"
  by (simp add: to_int_def signed_of_int signed_take_bit_int_eq_self)

lemma find_filter: "find P xs = (case filter P xs of [] \<Rightarrow> None | x # _ \<Rightarrow> Some x)"
  by (induction xs) auto

lemma filter_upt_Cons:
  assumes "filter P [a..<n] = i # is"
  shows "is = filter P [i + 1..<n]" "a \<le> i" "i < n" "P i"
proof -
  have "i \<in> set (filter P [a..<n])" using assms by simp
  then show i: "a \<le> i" "i < n" "P i" by simp_all
  have "[a..<n] = [a..<i] @ i # [i + 1..<n]" using i upt_add_eq_append [of a i "n - i"] upt_conv_Cons [of i n] by simp
  then have *: "filter P [a..<i] @ i # filter P [i + 1..<n] = i # is" using assms i(3) by simp
  have "filter P [a..<i] = []"
  proof (cases "filter P [a..<i]")
    case (Cons j js)
    then have "j = i" using * by simp
    moreover have "j \<in> set (filter P [a..<i])" using Cons by simp
    ultimately show ?thesis by simp
  qed simp
  then show "is = filter P [i + 1..<n]" using * by simp
qed

lemma search_magic_hits:
  "search_magic fo buf ed =
    (case hits fo buf ed of
       [] \<Rightarrow> (None, if search_start fo ed < 0 \<or> search_start fo ed \<ge> to_int (int (length buf)) then sm_next ed else fo + int (length buf))
     | i # _ \<Rightarrow> (Some i, fo + int i + 1))"
  by (simp add: search_magic_def hits_def search_start_def memmem_from_def find_filter Let_def split: list.splits)

lemma hits_range:
  assumes "i \<in> set (hits fo buf ed)"
  shows "search_start fo ed \<le> int i" "i + length (sm_magic ed) \<le> length buf" "take (length (sm_magic ed)) (drop i buf) = sm_magic ed"
  using assms by (auto simp: hits_def Let_def split: if_splits)

lemma hits_next:
  assumes "hits fo buf ed = i # is" "sm_magic ed \<noteq> []" "0 \<le> fo" "length buf < 2 ^ 31"
  shows "hits fo buf (ed\<lparr>sm_next := fo + int i + 1\<rparr>) = is"
proof -
  let ?m = "length (sm_magic ed)" and ?P = "\<lambda>i. take (length (sm_magic ed)) (drop i buf) = sm_magic ed"
  have m: "0 < ?m" using assms(2) by simp
  have f: "filter ?P [nat (search_start fo ed)..<length buf + 1 - ?m] = i # is"
    using assms(1) by (simp add: hits_def Let_def split: if_splits)
  note i = filter_upt_Cons [OF f]
  have il: "i < length buf" using i(3) m by linarith
  have st: "search_start fo (ed\<lparr>sm_next := fo + int i + 1\<rparr>) = int i + 1"
    using assms(3,4) il to_int_small [of "int i + 1"] by (simp add: search_start_def add.assoc)
  have tl: "to_int (int (length buf)) = int (length buf)" using assms(4) by (intro to_int_small) simp_all
  show ?thesis
  proof (cases "i + 1 = length buf")
    case True
    then have "is = []" using i(1) m by simp
    then show ?thesis using True st tl by (simp add: hits_def)
  next
    case False
    then show ?thesis using st tl i(1) il by (simp add: hits_def Let_def nat_add_distrib)
  qed
qed

section \<open>Rounds\<close>

text \<open>What a search does to an editor: the numbers that belong to its magic number.\<close>

lemma editor_reset_eq: "editor_reset ed = ed\<lparr>ed_data := (case op_init ed of None \<Rightarrow> ed_zero ed | Some init \<Rightarrow> snd (init (ed_zero ed)))\<rparr>"
  by (cases "op_init ed") (simp_all add: editor_reset_def editor_init_def case_prod_beta)

lemma editor_reset_frame [simp]:
  "sm_magic (editor_reset ed) = sm_magic ed" "sm_next (editor_reset ed) = sm_next ed" "ie_name (editor_reset ed) = ie_name ed"
  "search_start fo (editor_reset ed) = search_start fo ed" "hits fo buf (editor_reset ed) = hits fo buf ed"
proof -
  show "sm_magic (editor_reset ed) = sm_magic ed" "sm_next (editor_reset ed) = sm_next ed" "ie_name (editor_reset ed) = ie_name ed"
    by (simp_all add: editor_reset_eq)
  then show "search_start fo (editor_reset ed) = search_start fo ed" "hits fo buf (editor_reset ed) = hits fo buf ed"
    by (simp_all add: search_start_def hits_def)
qed

lemma detect_at_editor: "detect_at fd off ed imgs s = Ok (ed', imgs', s') \<Longrightarrow> ed' = editor_reset ed"
  by (auto simp: detect_at_def Let_def cbind_eq_Ok split: if_splits option.splits prod.splits)

definition next_ok :: "int \<Rightarrow> 'p editor \<Rightarrow> bool" where
  "next_ok fo ed \<longleftrightarrow> sm_next ed = 0 \<or> fo \<le> sm_next ed \<and> sm_next ed < fo + 2 ^ 31"

lemma next_ok_reset [simp]: "next_ok fo (editor_reset ed) = next_ok fo ed"
  by (simp add: next_ok_def)

definition searched :: "int \<Rightarrow> bytes \<Rightarrow> 'p editor \<Rightarrow> 'p editor \<Rightarrow> bool" where
  "searched fo buf ed ed' \<longleftrightarrow>
     sm_magic ed' = sm_magic ed \<and> ie_name ed' = ie_name ed \<and>
     (sm_magic ed \<noteq> [] \<longrightarrow> hits fo buf ed' = List.tl (hits fo buf ed) \<and> (next_ok fo ed \<longrightarrow> next_ok fo ed') \<and>
       (hits fo buf ed = [] \<longrightarrow> next_ok fo ed \<longrightarrow> buf \<noteq> [] \<longrightarrow> fo + int (length buf) \<le> sm_next ed'))"

lemma search_magic_searched:
  assumes "sm_magic ed \<noteq> []" "0 \<le> fo" "length buf < 2 ^ 31" "search_magic fo buf ed = (r, nxt)"
  shows "searched fo buf ed (ed\<lparr>sm_next := nxt\<rparr>)" "r = None \<longleftrightarrow> hits fo buf ed = []"
proof -
  have tl: "to_int (int (length buf)) = int (length buf)" using assms(3) by (intro to_int_small) simp_all
  show "r = None \<longleftrightarrow> hits fo buf ed = []" using assms(4) by (auto simp: search_magic_hits split: list.splits)
  show "searched fo buf ed (ed\<lparr>sm_next := nxt\<rparr>)"
  proof (cases "hits fo buf ed")
    case (Cons i "is")
    then have nxt: "nxt = fo + int i + 1" using assms(4) by (simp add: search_magic_hits)
    have "i < length buf" using hits_range(2) [of i fo buf ed] Cons assms(1) by (cases "sm_magic ed") auto
    then show ?thesis using hits_next [OF Cons assms(1-3)] Cons nxt assms(3) by (simp add: searched_def next_ok_def)
  next
    case Nil
    let ?b = "search_start fo ed"
    have st: "?b = sm_next ed - fo" if "sm_next ed \<noteq> 0" "next_ok fo ed"
      using that to_int_small [of "sm_next ed - fo"] by (simp add: search_start_def next_ok_def)
    show ?thesis
    proof (cases "?b < 0 \<or> ?b \<ge> int (length buf)")
      case True
      then have "nxt = sm_next ed" using assms(4) Nil tl by (simp add: search_magic_hits)
      moreover have "fo + int (length buf) \<le> sm_next ed" if "next_ok fo ed" "buf \<noteq> []"
      proof -
        have "sm_next ed \<noteq> 0" using True that(2) by (auto simp: search_start_def)
        then show ?thesis using st [OF _ that(1)] True that(1) by (auto simp: next_ok_def)
      qed
      ultimately show ?thesis using Nil by (simp add: searched_def)
    next
      case False
      then have nxt: "nxt = fo + int (length buf)" using assms(4) Nil tl by (simp add: search_magic_hits)
      have len: "0 < length buf" using False by (cases buf) auto
      have "fo + int (length buf) \<noteq> 0" using len assms(2) by linarith
      then have "search_start fo (ed\<lparr>sm_next := nxt\<rparr>) = int (length buf)"
        using nxt tl by (simp add: search_start_def)
      then show ?thesis using Nil nxt assms(3) tl by (simp add: searched_def hits_def next_ok_def)
    qed
  qed
qed

definition silent_mbr :: "'p editor \<Rightarrow> bool" where
  "silent_mbr ed \<longleftrightarrow> (ie_name ed = ''mbr'' \<longrightarrow> sm_magic ed = [])"

lemma searched_reset: "searched fo buf ed ed' \<Longrightarrow> searched fo buf ed (editor_reset ed')"
  by (simp add: searched_def)

lemma search_editor_searched:
  assumes "search_editor fd fo buf ed st = Ok (ed', st')" "silent_mbr ed" "0 \<le> fo" "length buf < 2 ^ 31"
  shows "searched fo buf ed ed'" "ss_ready st' \<longleftrightarrow> ss_ready st \<or> sm_magic ed \<noteq> [] \<and> hits fo buf ed \<noteq> []"
proof -
  have both: "searched fo buf ed ed' \<and> (ss_ready st' \<longleftrightarrow> ss_ready st \<or> sm_magic ed \<noteq> [] \<and> hits fo buf ed \<noteq> [])"
  proof (cases "\<not> ss_offset0_searched st \<and> fo = 0 \<and> ie_name ed = ''mbr''")
    case True
    then show ?thesis
      using assms(1,2) detect_at_editor [of fd 0 ed "ss_imgs st" "ss_sys st"]
      by (auto simp: search_editor_def cbind_eq_Ok silent_mbr_def searched_def)
  next
    case False
    show ?thesis
    proof (cases "sm_magic ed = []")
      case True
      then show ?thesis using assms(1) False by (auto simp: search_editor_def searched_def)
    next
      case ne: False
      obtain r nxt where sm: "search_magic fo buf ed = (r, nxt)" by (cases "search_magic fo buf ed")
      note sr = search_magic_searched [OF ne assms(3,4) sm]
      show ?thesis
      proof (cases r)
        case None
        then show ?thesis using assms(1) False ne sm sr by (auto simp: search_editor_def)
      next
        case (Some i)
        obtain len s1 where fl: "filelength fd (ss_sys st) = (len, s1)" by (cases "filelength fd (ss_sys st)")
        show ?thesis
        proof (cases "fo + int i - int (sm_offset ed) + to_int (int (header_size ed)) > len")
          case True
          then show ?thesis using assms(1) False ne sm sr Some fl by (auto simp: search_editor_def Let_def)
        next
          case hdr: False
          obtain imgs s2 where "detect_at fd (fo + int i - int (sm_offset ed)) (ed\<lparr>sm_next := nxt\<rparr>) (ss_imgs st) s1 = Ok (ed', imgs, s2)"
            "ss_ready st'"
            using assms(1) False ne sm Some fl hdr by (auto simp: search_editor_def Let_def cbind_eq_Ok)
          then show ?thesis using detect_at_editor searched_reset [OF sr(1)] sr(2) Some ne by (metis option.distinct(1))
        qed
      qed
    qed
  qed
  show "searched fo buf ed ed'" "ss_ready st' \<longleftrightarrow> ss_ready st \<or> sm_magic ed \<noteq> [] \<and> hits fo buf ed \<noteq> []" using both by simp_all
qed

lemma search_round_searched:
  "search_round fd fo buf eds st = Ok (eds', st') \<Longrightarrow> \<forall>ed\<in>set eds. silent_mbr ed \<Longrightarrow> 0 \<le> fo \<Longrightarrow> length buf < 2 ^ 31 \<Longrightarrow>
    list_all2 (searched fo buf) eds eds' \<and>
    (ss_ready st' \<longleftrightarrow> ss_ready st \<or> (\<exists>ed\<in>set eds. sm_magic ed \<noteq> [] \<and> hits fo buf ed \<noteq> []))"
proof (induction eds arbitrary: st eds')
  case (Cons ed eds)
  obtain ed1 st1 eds1 where 1: "search_editor fd fo buf ed st = Ok (ed1, st1)" "search_round fd fo buf eds st1 = Ok (eds1, st')" "eds' = ed1 # eds1"
    using Cons.prems(1) by (auto simp: cbind_eq_Ok)
  show ?case
    using search_editor_searched [OF 1(1)] Cons.IH [OF 1(2)] Cons.prems(2-4) 1(3) by auto
qed simp

text \<open>How many places are left for all editors.\<close>

definition hits_of :: "int \<Rightarrow> bytes \<Rightarrow> 'p editor \<Rightarrow> nat" where
  "hits_of fo buf ed = (if sm_magic ed = [] then 0 else length (hits fo buf ed))"

definition hits_left :: "int \<Rightarrow> bytes \<Rightarrow> 'p editor list \<Rightarrow> nat" where
  "hits_left fo buf eds = sum_list (map (hits_of fo buf) eds)"

lemma hits_of_searched:
  "searched fo buf ed ed' \<Longrightarrow> hits_of fo buf ed' \<le> hits_of fo buf ed"
  "searched fo buf ed ed' \<Longrightarrow> sm_magic ed \<noteq> [] \<Longrightarrow> hits fo buf ed \<noteq> [] \<Longrightarrow> hits_of fo buf ed' < hits_of fo buf ed"
  by (auto simp: searched_def hits_of_def)

lemma hits_left_le: "list_all2 (searched fo buf) eds eds' \<Longrightarrow> hits_left fo buf eds' \<le> hits_left fo buf eds"
  by (induction rule: list_all2_induct) (auto simp: hits_left_def intro!: add_le_mono hits_of_searched(1))

lemma hits_left_less:
  "list_all2 (searched fo buf) eds eds' \<Longrightarrow> \<exists>ed\<in>set eds. sm_magic ed \<noteq> [] \<and> hits fo buf ed \<noteq> [] \<Longrightarrow>
    hits_left fo buf eds' < hits_left fo buf eds"
proof (induction rule: list_all2_induct)
  case (Cons ed eds ed' eds')
  show ?case
  proof (cases "sm_magic ed \<noteq> [] \<and> hits fo buf ed \<noteq> []")
    case True
    then show ?thesis using hits_of_searched(2) [OF Cons.hyps(1)] hits_left_le [OF Cons.hyps(2)] by (simp add: hits_left_def)
  next
    case False
    then show ?thesis using Cons.IH Cons.prems hits_of_searched(1) [OF Cons.hyps(1)] by (auto simp: hits_left_def intro: add_le_less_mono)
  qed
qed simp

lemma silent_mbr_searched: "list_all2 (searched fo buf) eds eds' \<Longrightarrow> \<forall>ed\<in>set eds. silent_mbr ed \<Longrightarrow> \<forall>ed\<in>set eds'. silent_mbr ed"
  by (induction rule: list_all2_induct) (auto simp: searched_def silent_mbr_def)

lemma next_ok_searched:
  "list_all2 (searched fo buf) eds eds' \<Longrightarrow> \<forall>ed\<in>set eds. sm_magic ed \<noteq> [] \<longrightarrow> next_ok fo ed \<Longrightarrow> \<forall>ed\<in>set eds'. sm_magic ed \<noteq> [] \<longrightarrow> next_ok fo ed"
  by (induction rule: list_all2_induct) (auto simp: searched_def)

text \<open>No place is left, and the search of the next buffer starts behind this one.\<close>

definition search_done :: "int \<Rightarrow> bytes \<Rightarrow> bytes list \<Rightarrow> 'p editor list \<Rightarrow> bool" where
  "search_done fo buf magics eds \<longleftrightarrow> map sm_magic eds = magics \<and>
     (\<forall>ed\<in>set eds. sm_magic ed \<noteq> [] \<longrightarrow> hits fo buf ed = [] \<and> next_ok fo ed \<and> (buf \<noteq> [] \<longrightarrow> fo + int (length buf) \<le> sm_next ed))"

lemma searched_done:
  "list_all2 (searched fo buf) eds eds' \<Longrightarrow> \<forall>ed\<in>set eds. sm_magic ed \<noteq> [] \<longrightarrow> hits fo buf ed = [] \<and> next_ok fo ed \<Longrightarrow>
    search_done fo buf (map sm_magic eds) eds'"
  by (induction rule: list_all2_induct) (auto simp: searched_def search_done_def)

lemma search_rounds_ends:
  assumes "0 \<le> fo" "length buf < 2 ^ 31"
  shows "\<forall>ed\<in>set eds. silent_mbr ed \<Longrightarrow> \<forall>ed\<in>set eds. sm_magic ed \<noteq> [] \<longrightarrow> next_ok fo ed \<Longrightarrow>
    \<exists>r. search_rounds fd fo buf eds st = Some r \<and> (\<forall>eds' st'. r = Ok (eds', st') \<longrightarrow> search_done fo buf (map sm_magic eds) eds')"
proof (induction "hits_left fo buf eds" arbitrary: eds st rule: less_induct)
  case less
  show ?case
  proof (cases "search_round fd fo buf eds (st\<lparr>ss_ready := False\<rparr>)")
    case (Ok r)
    obtain eds1 st1 where r: "r = (eds1, st1)" by (cases r)
    have rd: "list_all2 (searched fo buf) eds eds1" "ss_ready st1 \<longleftrightarrow> (\<exists>ed\<in>set eds. sm_magic ed \<noteq> [] \<and> hits fo buf ed \<noteq> [])"
      using search_round_searched [of fd fo buf eds _ eds1 st1] Ok r less.prems(1) assms by auto
    have mm: "map sm_magic eds1 = map sm_magic eds"
      using rd(1) by (induction rule: list_all2_induct) (auto simp: searched_def)
    show ?thesis
    proof (cases "ss_ready st1")
      case True
      then have lt: "hits_left fo buf eds1 < hits_left fo buf eds" using hits_left_less [OF rd(1)] rd(2) by simp
      have "search_rounds fd fo buf eds st = search_rounds fd fo buf eds1 st1"
        by (subst search_rounds.simps) (simp add: Ok r True)
      then show ?thesis
        using less.hyps [OF lt silent_mbr_searched [OF rd(1) less.prems(1)] next_ok_searched [OF rd(1) less.prems(2)], of st1]
        unfolding mm by (simp only:)
    next
      case False
      have "search_done fo buf (map sm_magic eds) eds1"
        by (rule searched_done [OF rd(1)]) (use False rd(2) less.prems(2) in blast)
      moreover have "search_rounds fd fo buf eds st = Some (Ok (eds1, st1))"
        by (subst search_rounds.simps) (simp add: Ok r False)
      ultimately show ?thesis by simp
    qed
  qed (subst search_rounds.simps, simp)+
qed

text \<open>C13: the search of a buffer ends, whatever the detectors do, and misses no magic number that lies in it: each editor is
  offered the first of the places that are left, the others are left behind it, and at the end none is left for any editor.\<close>

theorem search_buf_complete:
  fixes eds :: "'p editor list"
  assumes "0 \<le> fo" "length buf < 2 ^ 31" "\<forall>ed\<in>set eds. silent_mbr ed" "\<forall>ed\<in>set eds. sm_magic ed \<noteq> [] \<longrightarrow> next_ok fo ed"
  shows "(\<exists>r. imgeditor_search_buf fd fo buf eds s = Some r \<and>
      (\<forall>eds' imgs log s'. r = Ok (eds', imgs, log, s') \<longrightarrow> search_done fo buf (map sm_magic eds) eds')) \<and>
    (\<forall>ed :: 'p editor. sm_magic ed \<noteq> [] \<longrightarrow>
      (case hits fo buf ed of
         [] \<Rightarrow> fst (search_magic fo buf ed) = None
       | i # is \<Rightarrow> search_magic fo buf ed = (Some i, fo + int i + 1) \<and> hits fo buf (ed\<lparr>sm_next := fo + int i + 1\<rparr>) = is))"
proof -
  let ?st = "\<lparr>ss_ready = False, ss_offset0_searched = False, ss_imgs = [], ss_log = [], ss_sys = s\<rparr>"
  obtain r where r: "search_rounds fd fo buf eds ?st = Some r" "\<forall>eds' st'. r = Ok (eds', st') \<longrightarrow> search_done fo buf (map sm_magic eds) eds'"
    using search_rounds_ends [OF assms(1,2) assms(3,4), of fd ?st] by blast
  have "\<exists>r. imgeditor_search_buf fd fo buf eds s = Some r \<and>
      (\<forall>eds' imgs log s'. r = Ok (eds', imgs, log, s') \<longrightarrow> search_done fo buf (map sm_magic eds) eds')"
    using r by (auto simp: imgeditor_search_buf_def cbind_eq_Ok)
  moreover have "case hits fo buf ed of
         [] \<Rightarrow> fst (search_magic fo buf ed) = None
       | i # is \<Rightarrow> search_magic fo buf ed = (Some i, fo + int i + 1) \<and> hits fo buf (ed\<lparr>sm_next := fo + int i + 1\<rparr>) = is"
    if "sm_magic ed \<noteq> []" for ed :: "'p editor"
    using hits_next [OF _ that assms(1,2)] by (auto simp: search_magic_hits split: list.splits)
  ultimately show ?thesis by blast
qed

text \<open>C37: a magic number that lies across the end of a buffer is never offered: the next buffer starts 1024 bytes before the end
  of the one before, but the search in it goes on behind that end.\<close>

theorem search_misses_straddling:
  assumes "imgeditor_search_buf fd fo buf eds s = Some (Ok (eds', imgs, log, s'))" "0 \<le> fo" "1024 < length buf" "length buf < 2 ^ 30"
    and "\<forall>ed\<in>set eds. silent_mbr ed" "\<forall>ed\<in>set eds. sm_magic ed \<noteq> [] \<longrightarrow> next_ok fo ed"
    and "ed \<in> set eds" "ed' \<in> set eds'" "sm_magic ed' = sm_magic ed" "sm_magic ed \<noteq> []"
    and "a < fo + int (length buf)" "fo + int (length buf) < a + int (length (sm_magic ed))"
  shows "(\<forall>i\<in>set (hits fo buf ed). fo + int i \<noteq> a) \<and>
    (\<forall>i\<in>set (hits (fo + int (length buf) - 1024) buf' ed'). fo + int (length buf) - 1024 + int i \<noteq> a)"
proof -
  let ?st = "\<lparr>ss_ready = False, ss_offset0_searched = False, ss_imgs = [], ss_log = [], ss_sys = s\<rparr>"
  have len: "length buf < 2 ^ 31" "buf \<noteq> []" using assms(3,4) by auto
  obtain st' where "search_rounds fd fo buf eds ?st = Some (Ok (eds', st'))"
    using assms(1) by (auto simp: imgeditor_search_buf_def cbind_eq_Ok)
  then have "search_done fo buf (map sm_magic eds) eds'"
    using search_rounds_ends [OF assms(2) len(1) assms(5,6), of fd ?st] by auto
  then have nxt: "fo + int (length buf) \<le> sm_next ed'" "sm_next ed' < fo + 2 ^ 31"
    using assms(2,8-10) len(2) by (auto simp: search_done_def next_ok_def)
  let ?fo = "fo + int (length buf) - 1024"
  have "search_start ?fo ed' \<ge> 1024"
  proof (cases "sm_next ed' - ?fo < 2 ^ 31")
    case True
    then have "search_start ?fo ed' = sm_next ed' - ?fo"
      using nxt assms(2,3) to_int_small [of "sm_next ed' - ?fo"] by (simp add: search_start_def)
    then show ?thesis using nxt by simp
  next
    case False
    then show ?thesis using nxt assms(3) by simp
  qed
  then have "\<forall>i\<in>set (hits ?fo buf' ed'). fo + int (length buf) \<le> ?fo + int i"
    using hits_range(1) [of _ ?fo buf' ed'] by fastforce
  moreover have "\<forall>i\<in>set (hits fo buf ed). int i + int (length (sm_magic ed)) \<le> int (length buf)"
    using hits_range(2) [of _ fo buf ed] by fastforce
  ultimately show ?thesis using assms(11,12) by fastforce
qed

section \<open>Windows\<close>

lemma editor_reset_ops [simp]: "op_detect (editor_reset ed) = op_detect ed" "op_summary (editor_reset ed) = op_summary ed"
  by (simp_all add: editor_reset_eq)

lemma detect_at_window:
  assumes "detect_at fd off ed imgs s = Ok (ed', imgs', s')" "vfps_ok s" "sys_ok s" "ofd_of s fd = Some d"
    and "op_detect ed = Some (\<lambda>p force vfd s. Ok (if filestart vfd s = w then 0 else -1, p, s))" "op_summary ed = None"
  shows "imgs' = imgs @ (if w = filestart fd s + off then [\<lparr>il_name = ie_name ed, il_offset = off, il_summary = []\<rparr>] else [])"
proof -
  obtain vfd s1 where dup: "virtual_file_dup fd off s = Ok (vfd, s1)"
    using assms(1) by (cases "virtual_file_dup fd off s") (auto simp: detect_at_def)
  have d: "d < length (open_files s)" using sys_ok_ofd [OF assms(3,4)] .
  obtain i where a: "i < length (vfps (gd s))" "ofd_of s vfd = None" "0 \<le> vfd" "ofd_of s1 vfd = Some d"
      "\<And>x. x \<noteq> vfd \<Longrightarrow> ofd_of s1 x = ofd_of s x"
    and v: "vfps (gd s1) = (vfps (gd s))[i := \<lparr>vf_fd = vfd, start_offset = off + filestart fd s,
         total_length = int (length (content s d)) - (off + filestart fd s), used = True\<rparr>]"
    using virtual_file_dup_steps [OF dup assms(4) d] by metis
  have "ofd_of s fd' \<noteq> None \<Longrightarrow> ofd_of s1 fd' \<noteq> None" for fd' using a(4,5) by (cases "fd' = vfd") auto
  then have ok: "vfps_ok s1" using vfps_ok_add [OF assms(2) a(1) v _ _ a(2)] a(4) by simp
  have "virtual_file_get vfd s1 = Some i" using vfps_ok_get [OF ok, of i] a(1) v by simp
  then have "filestart vfd s1 = filestart fd s + off" using a(1) v by (simp add: filestart_def)
  then show ?thesis
    using assms(1,5,6) dup a(3) by (auto simp: detect_at_def editor_summary_def editor_reset_eq)
qed

text \<open>C39: what the search does with the first magic number that is left in a buffer, wherever the buffer starts in the file. The image
  would start at the place of the number in the file less the offset of the number in the image. The detector looks at
  the window that starts at this place plus the start of the descriptor, and only when the header of the image ends
  within the length of the descriptor, which both are as if the place were one behind its start. So a search from an
  offset looks at windows that start too far by that offset, and not at all at images in the last bytes of the file. The detector of the
  statement accepts exactly the window that starts at \<open>w\<close>; an image is recorded for it or nothing is.\<close>

theorem search_adds_offset:
  assumes "search_editor fd fo buf ed st = Ok (ed', st')" "s = ss_sys st" "place = fo + int i - int (sm_offset ed)"
    and "vfps_ok s" "sys_ok s" "ofd_of s fd = Some d" "filelength fd s = (len, s)"
    and "ie_name ed \<noteq> ''mbr''" "sm_magic ed \<noteq> []" "hits fo buf ed = i # rest"
    and "op_detect ed = Some (\<lambda>p force fd s. Ok (if filestart fd s = w then 0 else -1, p, s))" "op_summary ed = None"
  shows "ss_imgs st' = ss_imgs st @
    (if place + to_int (int (header_size ed)) \<le> len \<and> w = filestart fd s + place
     then [\<lparr>il_name = ie_name ed, il_offset = place, il_summary = []\<rparr>] else [])"
proof -
  let ?nx = "ed\<lparr>sm_next := fo + int i + 1\<rparr>"
  have sm: "search_magic fo buf ed = (Some i, fo + int i + 1)" using assms(10) by (simp add: search_magic_hits)
  show ?thesis
  proof (cases "place + to_int (int (header_size ed)) \<le> len")
    case False
    then show ?thesis using assms(1,2,7-9) sm by (auto simp: search_editor_def Let_def assms(3))
  next
    case True
    obtain imgs s2 where dt: "detect_at fd place ?nx (ss_imgs st) s = Ok (ed', imgs, s2)" "ss_imgs st' = imgs"
      using True assms(1,2,7-9) sm by (auto simp: search_editor_def Let_def cbind_eq_Ok assms(3))
    have "imgs = ss_imgs st @ (if w = filestart fd s + place then [\<lparr>il_name = ie_name ?nx, il_offset = place, il_summary = []\<rparr>] else [])"
      by (rule detect_at_window [OF dt(1) assms(4-6)]) (simp_all add: assms(11,12))
    then show ?thesis using dt(2) True by simp
  qed
qed

lemma takeWhile_used_less:
  assumes "\<exists>v\<in>set vs. \<not> used v"
  shows "length (takeWhile used vs) < length vs"
  using assms takeWhile_eq_all_conv [of used vs] length_takeWhile_le [of used vs]
  by (metis le_neq_implies_less takeWhile_eq_take take_all order_refl)

section \<open>An example\<close>

definition demo_finder :: "bytes \<Rightarrow> (int \<Rightarrow> sys \<Rightarrow> bool) \<Rightarrow> nat \<Rightarrow> unit editor" where
  "demo_finder magic accept n =
     \<lparr>ie_name = ''x'', descriptor = [], ie_flags = 0, header_size = 1, private_data_size = 0, ed_data = (), ed_zero = (),
      op_init = None, op_detect = Some (\<lambda>p force fd s. Ok (if accept fd s then 0 else -1, p, s)), op_summary = None,
      op_total_size = Some (\<lambda>p fd s. Ok (int n, p, s)), op_list = None, op_pack = None, op_unpack = None, op_unpack2fd = None,
      op_main = None, sm_magic = magic, sm_offset = 0, sm_next = 0\<rparr>"

lemma demo_finder_simps [simp]:
  "ie_name (demo_finder m a n) = ''x''" "sm_magic (demo_finder m a n) = m" "sm_offset (demo_finder m a n) = 0"
  "sm_next (demo_finder m a n) = 0" "header_size (demo_finder m a n) = 1" "op_init (demo_finder m a n) = None"
  "op_summary (demo_finder m a n) = None" "op_detect (demo_finder m a n) = Some (\<lambda>p force fd s. Ok (if a fd s then 0 else -1, p, s))"
  "op_total_size (demo_finder m a n) = Some (\<lambda>p fd s. Ok (int n, p, s))"
  by (simp_all add: demo_finder_def)

theorem search_buf_complete_witness:
  "(\<exists>r. imgeditor_search_buf 0 0 [0, 1, 2, 1, 2] [demo_finder [1, 2] (\<lambda>_ _. True) 2] (demo_sys []) = Some r) \<and>
    search_magic 0 [0, 1, 2, 1, 2] (demo_finder [1, 2] (\<lambda>_ _. True) 2) = (Some 1, 2)"
proof -
  let ?ed = "demo_finder [1, 2] (\<lambda>_ _. True) 2"
  have ti: "to_int 5 = 5" using to_int_small [of 5] by simp
  have h: "hits 0 [0, 1, 2, 1, 2] ?ed = [1, 3]"
    by (simp add: hits_def search_start_def ti Let_def upt_conv_Cons)
  have "(\<exists>r. imgeditor_search_buf 0 0 [0, 1, 2, 1, 2] [?ed] (demo_sys []) = Some r \<and>
      (\<forall>eds' imgs log s'. r = Ok (eds', imgs, log, s') \<longrightarrow> search_done 0 [0, 1, 2, 1, 2] (map sm_magic [?ed]) eds')) \<and>
    (\<forall>ed :: unit editor. sm_magic ed \<noteq> [] \<longrightarrow>
      (case hits 0 [0, 1, 2, 1, 2] ed of
         [] \<Rightarrow> fst (search_magic 0 [0, 1, 2, 1, 2] ed) = None
       | i # is \<Rightarrow> search_magic 0 [0, 1, 2, 1, 2] ed = (Some i, 0 + int i + 1) \<and> hits 0 [0, 1, 2, 1, 2] (ed\<lparr>sm_next := 0 + int i + 1\<rparr>) = is))"
    by (rule search_buf_complete) (simp_all add: silent_mbr_def next_ok_def)
  note c = conjunct1 [OF this] spec [OF conjunct2 [OF this], of ?ed]
  show ?thesis using c(1) c(2) h by auto
qed

theorem search_misses_straddling_witness:
  "let ed = demo_finder [1, 2] (\<lambda>_ _. True) 2; ed' = ed\<lparr>sm_next := 1025\<rparr>; buf' = replicate 1023 0 @ [1, 2]
   in imgeditor_search_buf 0 0 (replicate 1024 0 @ [1]) [ed] (demo_sys []) = Some (Ok ([ed'], [], [], demo_sys [])) \<and>
     take 2 (drop 1023 buf') = sm_magic ed' \<and> (\<forall>i\<in>set (hits 1 buf' ed'). i \<noteq> 1023)"
proof -
  define ed where "ed = demo_finder [1, 2] (\<lambda>_ _. True) 2"
  define buf :: bytes where "buf = replicate 1024 0 @ [1]"
  have len: "length buf = 1025" by (simp add: buf_def)
  have "2 \<notin> set buf" by (simp add: buf_def)
  then have "take (length [1, 2 :: u8]) (drop i buf) \<noteq> [1, 2]" for i by (metis in_set_dropD in_set_takeD list.set_intros)
  then have "filter (\<lambda>i. take (length (sm_magic ed)) (drop i buf) = sm_magic ed) xs = []" for xs
    unfolding ed_def demo_finder_simps filter_empty_conv by blast
  then have h: "hits 0 buf ed = []" by (simp only: hits_def Let_def if_cancel)
  have st: "search_start 0 ed = 0" by (simp add: search_start_def ed_def)
  have "to_int 1025 = 1025" using to_int_small [of 1025] by simp
  then have sm: "search_magic 0 buf ed = (None, 1025)" using h st len by (simp add: search_magic_hits)
  have r: "imgeditor_search_buf 0 0 buf [ed] (demo_sys []) = Some (Ok ([ed\<lparr>sm_next := 1025\<rparr>], [], [], demo_sys []))"
    unfolding imgeditor_search_buf_def
    by (subst search_rounds.simps) (simp add: search_editor_def sm, simp add: ed_def)
  have "\<forall>i\<in>set (hits (0 + int (length buf) - 1024) (replicate 1023 0 @ [1, 2]) (ed\<lparr>sm_next := 1025\<rparr>)). 0 + int (length buf) - 1024 + int i \<noteq> 1024"
    by (rule conjunct2 [OF search_misses_straddling [OF r, where ed = ed and a = 1024]])
      (simp_all add: len, simp_all add: ed_def silent_mbr_def next_ok_def)
  then show ?thesis using r by (simp add: len buf_def ed_def Let_def)
qed

lemma detect_at_Ok:
  assumes "virtual_file_dup fd off s = Ok (vfd, s1)" "op_detect ed = Some (\<lambda>p force fd s. Ok (r fd s, p, s))" "op_summary ed = None"
  shows "\<exists>imgs' s'. detect_at fd off ed imgs s = Ok (editor_reset ed, imgs', s')"
  using assms by (cases "vfd < 0"; cases "r vfd s1 = 0") (simp_all add: detect_at_def editor_summary_def Let_def)

theorem search_adds_offset_witness:
  "\<exists>st ed' st'. filestart 0 (ss_sys st) = 1 \<and> ss_imgs st = [] \<and>
    search_editor 0 0 [7, 8, 9] (demo_finder [8] (\<lambda>fd s. filestart fd s = 2) 1) st = Ok (ed', st') \<and>
    map il_offset (ss_imgs st') = [1]"
proof -
  define ed where "ed = demo_finder [8] (\<lambda>fd s. filestart fd s = 2) 1"
  define s where "s = (demo_sys [7, 8, 9])\<lparr>gd := demo_gd\<lparr>vfps := (vfps demo_gd)[0 := \<lparr>vf_fd = 0, start_offset = 1, total_length = 2, used = True\<rparr>]\<rparr>\<rparr>"
  define st where "st = \<lparr>ss_ready = False, ss_offset0_searched = True, ss_imgs = [], ss_log = [], ss_sys = s\<rparr>"
  have vf: "vfps_ok s"
    by (simp add: s_def vfps_ok_def ofd_of_def demo_sys_def demo_gd_def MAX_VIRTUAL_FILE_def nth_list_update)
  have v0: "vfps (gd s) ! 0 = \<lparr>vf_fd = 0, start_offset = 1, total_length = 2, used = True\<rparr>" "0 < length (vfps (gd s))"
    by (simp_all add: s_def demo_gd_def MAX_VIRTUAL_FILE_def)
  then have "virtual_file_get 0 s = Some 0" using vfps_ok_get [OF vf, of 0] by simp
  then have "filestart 0 s = 1" "filelength 0 s = (2, s)"
    using v0 by (simp_all add: filestart_def filelength_def)
  moreover have "sys_ok s" "ofd_of s 0 = Some 0"
    by (auto simp: s_def sys_ok_def ofd_of_def demo_sys_def)
  ultimately have g: "vfps_ok s" "sys_ok s" "ofd_of s 0 = Some 0" "filestart 0 s = 1" "filelength 0 s = (2, s)"
    using vf by simp_all
  have "1 < length (vfps (gd s))" "\<not> used (vfps (gd s) ! 1)" by (simp_all add: s_def demo_gd_def MAX_VIRTUAL_FILE_def)
  then have "length (takeWhile used (vfps (gd s))) < length (vfps (gd s))" using nth_mem takeWhile_used_less by blast
  then have "\<exists>vfd s1. virtual_file_dup 0 1 s = Ok (vfd, s1)"
    by (simp add: virtual_file_dup_def virtual_file_get_unused_def Let_def case_prod_beta)
  then obtain vfd s1 where dup: "virtual_file_dup 0 1 s = Ok (vfd, s1)" by blast
  have ti: "to_int 3 = 3" "to_int 1 = 1" using to_int_small [of 3] to_int_small [of 1] by simp_all
  then have h: "hits 0 [7, 8, 9] ed = [1]"
    by (simp add: hits_def search_start_def ed_def Let_def upt_conv_Cons)
  have sm: "search_magic 0 [7, 8, 9] ed = (Some 1, 2)" using h by (simp add: search_magic_hits)
  obtain imgs s2 where "detect_at 0 1 (ed\<lparr>sm_next := 2\<rparr>) [] s = Ok (editor_reset (ed\<lparr>sm_next := 2\<rparr>), imgs, s2)"
    using detect_at_Ok [OF dup, of "ed\<lparr>sm_next := 2\<rparr>" "\<lambda>fd s. if filestart fd s = 2 then 0 else -1" "[]"] by (auto simp: ed_def)
  then have "\<exists>ed' st'. search_editor 0 0 [7, 8, 9] ed st = Ok (ed', st')"
    using sm g(5) ti by (simp add: search_editor_def st_def Let_def) (simp add: ed_def)
  then obtain ed' st' where se: "search_editor 0 0 [7, 8, 9] ed st = Ok (ed', st')" by blast
  have "ss_imgs st' = ss_imgs st @
      (if (1 :: int) + to_int (int (header_size ed)) \<le> 2 \<and> (2 :: int) = filestart 0 s + 1
       then [\<lparr>il_name = ie_name ed, il_offset = 1, il_summary = []\<rparr>] else [])"
    by (rule search_adds_offset [OF se _ _ g(1-3) g(5), where i = 1 and rest = "[]"])
      (use h in \<open>simp_all add: st_def, simp_all add: ed_def\<close>)
  then have "map il_offset (ss_imgs st') = [1]" using g(4) ti by (simp add: st_def ed_def)
  moreover have "ss_imgs st = []" "filestart 0 (ss_sys st) = 1" using g(4) by (simp_all add: st_def)
  ultimately show ?thesis using se unfolding ed_def by (intro exI [of _ st] exI [of _ ed'] exI [of _ st'] conjI)
qed

end
