(* ===== verification/MainLaws.thy ===== *)
theory MainLaws
  imports CoreLaws StringLaws
begin

text \<open>The program as a whole: the status it returns, copying the bytes of an image out of a file, and that its search ends.\<close>

section \<open>The status of the program\<close>




lemma virtual_file_open_ok:
  assumes "\<exists>v\<in>set (vfps (gd s)). \<not> used v"
  obtains fd s' where "virtual_file_open (Some i) off s = (fd, s')" "0 \<le> fd"
proof -
  obtain fd s1 where o: "fileopen (Some i) s = (fd, s1)" by (cases "fileopen (Some i) s")
  then have fd: "0 \<le> fd" "gd s1 = gd s" by (auto simp: fileopen_def sys_open_def alloc_fd_def Let_def)
  have "length (takeWhile used (vfps (gd s))) < length (vfps (gd s))" using takeWhile_used_less [OF assms] .
  then obtain k s2 where "virtual_file_get_unused s1 = (Some k, s2)" using fd(2) by (simp add: virtual_file_get_unused_def Let_def)
  then show ?thesis using that o fd(1) by (simp add: virtual_file_open_def Let_def case_prod_beta)
qed

lemma export_vfps [simp]: "vfps (gd (imgeditor_export_registed eds s)) = vfps (gd s)"
proof -
  have "vfps (foldl (\<lambda>g ed. gd_export_imgeditor (imgeditor.truncate ed) g) g eds) = vfps g" for g
    by (induction eds arbitrary: g) (simp_all add: gd_export_imgeditor_def)
  then show ?thesis by (simp add: imgeditor_export_registed_def)
qed

lemma no_dash: "take 1 f \<noteq> ''-'' \<Longrightarrow> take 2 f \<noteq> ''--''"
  by (cases f) auto




section \<open>Copying an image out of a file\<close>

text \<open>A descriptor that is a window into a file.\<close>

definition window_of :: "sys \<Rightarrow> int \<Rightarrow> nat \<Rightarrow> nat \<Rightarrow> bool" where
  "window_of s fd i off \<longleftrightarrow> vfps_ok s \<and> sys_ok s \<and> (\<exists>d. ofd_of s fd = Some d \<and> inode (open_files s ! d) = i) \<and>
     (\<exists>k. virtual_file_get fd s = Some k \<and> start_offset (vfps (gd s) ! k) = int off \<and>
        total_length (vfps (gd s) ! k) = int (length (inodes s ! i)) - int off)"

lemma window_of_simps:
  "window_of s fd i off \<Longrightarrow> filestart fd s = int off"
  "window_of s fd i off \<Longrightarrow> filelength fd s = (int (length (inodes s ! i)) - int off, s)"
  by (auto simp: window_of_def filestart_def filelength_def)

text \<open>Only positions may be different.\<close>

definition same_files :: "sys \<Rightarrow> sys \<Rightarrow> bool" where
  "same_files s s' \<longleftrightarrow> fds s' = fds s \<and> map inode (open_files s') = map inode (open_files s) \<and> inodes s' = inodes s \<and>
     max_io s' = max_io s \<and> gd s' = gd s"

lemma same_files_ofd: "same_files s s' \<Longrightarrow> ofd_of s' fd = ofd_of s fd"
  by (simp add: same_files_def ofd_of_def)

lemma sys_ok_map: "sys_ok s \<longleftrightarrow> 0 < max_io s \<and> (\<forall>d. Some d \<in> set (fds s) \<longrightarrow> d < length (map inode (open_files s))) \<and>
    list_all (\<lambda>i. i < length (inodes s)) (map inode (open_files s))"
  by (simp add: sys_ok_def list.pred_map comp_def)

lemma same_files_ok: "same_files s s' \<Longrightarrow> sys_ok s \<Longrightarrow> sys_ok s'"
  unfolding sys_ok_map same_files_def by simp

lemma same_files_refl [simp]: "same_files s s"
  by (simp add: same_files_def)

lemma map_inode_set_position [simp]: "map inode (open_files (set_position d p s)) = map inode (open_files s)"
  by (rule nth_equalityI) simp_all

lemma same_files_seek: "same_files s (snd (lseek_set fd off s))"
  by (simp add: same_files_def lseek_set_def split: option.split)

lemma window_same:
  assumes "window_of s fd i off" "same_files s s'"
  shows "window_of s' fd i off"
proof -
  have g: "gd s' = gd s" "inodes s' = inodes s" using assms(2) by (simp_all add: same_files_def)
  obtain d where d: "ofd_of s fd = Some d" "inode (open_files s ! d) = i" "d < length (open_files s)"
    using assms(1) by (auto simp: window_of_def sys_ok_ofd)
  have "map inode (open_files s') = map inode (open_files s)" using assms(2) by (simp add: same_files_def)
  then have "inode (open_files s' ! d) = i" using d(2,3) by (metis length_map nth_map)
  moreover have "vfps_ok s'"
    using assms(1) by (intro vfps_ok_same [of s s']) (simp_all add: window_of_def g same_files_ofd [OF assms(2)])
  ultimately show ?thesis
    using assms(1) d(1) g virtual_file_get_gd [OF g(1), of fd] same_files_ofd [OF assms(2), of fd] same_files_ok [OF assms(2)]
    by (auto simp: window_of_def)
qed

lemma window_open:
  assumes "virtual_file_open (Some i) (int off) s = (fd, s')" "0 \<le> fd" "vfps_ok s" "sys_ok s" "i < length (inodes s)"
  shows "window_of s' fd i off \<and> inodes s' = inodes s"
proof -
  have mx: "max_io s' = max_io s"
    using assms(1)
    by (auto simp: virtual_file_open_def fileopen_def sys_open_def alloc_fd_def virtual_file_get_unused_def filelength_no_cache_def
        lseek_end_def lseek_set_def sys_close_def set_vfp_def Let_def split: if_splits option.splits prod.splits)
  show ?thesis
  proof (cases rule: virtual_file_open_steps [OF assms(1), case_names full ok])
    case full
    then show ?thesis using assms(2) by simp
  next
    case (ok k)
    have open': "ofd_of s x \<noteq> None \<Longrightarrow> ofd_of s' x \<noteq> None" for x using ok(2,5) by (cases "x = fd") auto
    have vf: "vfps_ok s'" using vfps_ok_add [OF assms(3) ok(1,10) _ _ ok(2)] ok(4) open' by simp
    have "d < length (open_files s')" if a: "Some d \<in> set (fds s')" for d
    proof -
      obtain x where "x < length (fds s')" "fds s' ! x = Some d" using a by (auto simp: in_set_conv_nth)
      then have "ofd_of s' (int x) = Some d" by (simp add: ofd_of_def)
      then show ?thesis using ok(4,5,8) sys_ok_ofd [OF assms(4), of "int x" d] by (cases "int x = fd") auto
    qed
    moreover have "inode (open_files s' ! e) < length (inodes s')" if "e < length (open_files s')" for e
      using that ok(6-9) assms(5) sys_ok_inode [OF assms(4), of e] by (cases "e = length (open_files s)") auto
    ultimately have so: "sys_ok s'" using mx assms(4) by (simp add: sys_ok_def list_all_length)
    have "virtual_file_get fd s' = Some k" using vfps_ok_get [OF vf, of k] ok(1,10) by simp
    then show ?thesis using vf so ok(1,4,6,7,10) by (auto simp: window_of_def)
  qed
qed

lemma window_wind: "window_of s fd i off \<Longrightarrow> window_of (snd (lseek_set fd p s)) fd i off"
  using window_same same_files_seek by blast

lemma editor_peek_copies:
  assumes "window_of s fd i off" "env_garbage E = Some buf" "env_inode E out = Some j" "j \<noteq> i" "j < length (inodes s)"
  shows "\<exists>s'. editor_peek E fd (int n) out s = (0, s') \<and> inodes s' = (inodes s)[j := take n (drop off (inodes s ! i))]"
proof -
  obtain d where d: "ofd_of s fd = Some d" "inode (open_files s ! d) = i" "d < length (open_files s)"
    using assms(1) by (auto simp: window_of_def sys_ok_ofd)
  have so: "sys_ok s" "vfps_ok s" and fs: "filestart fd s = int off" using assms(1) window_of_simps by (auto simp: window_of_def)
  let ?e = "length (open_files s)"
  define s0 where "s0 = s\<lparr>inodes := (inodes s)[j := []], open_files := open_files s @ [\<lparr>inode = j, position = 0\<rparr>]\<rparr>"
  obtain fo s1 where a: "alloc_fd ?e s0 = (fo, s1)" by fastforce
  note fresh = alloc_fd_fresh [OF a]
  have op: "fileopen_trunc (Some j) s = (fo, s1)" using a by (simp add: fileopen_trunc_def fileopen_def sys_open_def s0_def)
  have of0: "ofd_of s0 x = ofd_of s x" for x by (simp add: s0_def ofd_of_def)
  have ne: "fd \<noteq> fo" using fresh(1) of0 d(1) by auto
  have s1: "open_files s1 = open_files s @ [\<lparr>inode = j, position = 0\<rparr>]" "inodes s1 = (inodes s)[j := []]" "gd s1 = gd s"
    using fresh(5,6,8) by (simp_all add: s0_def)
  have "sys_ok s0" using so(1) assms(5) by (auto simp: sys_ok_def s0_def list_all_length less_Suc_eq nth_append)
  then have ok: "sys_ok s1" using alloc_fd_ok [OF _ _ a] by (simp add: s0_def)
  have of1: "ofd_of s1 fd = Some d" "ofd_of s1 fo = Some ?e" using fresh(2) fresh(4) [OF ne] of0 d(1) by simp_all
  have "virtual_file_get fo s = None"
  proof (cases "virtual_file_get fo s")
    case (Some k)
    then have "ofd_of s fo \<noteq> None" using virtual_file_get_Some [OF Some] so(2) by (auto simp: vfps_ok_def)
    then show ?thesis using fresh(1) of0 by simp
  qed simp
  then have f1: "filestart fd s1 = int off" "filestart fo s1 = 0"
    using fs filestart_gd [OF s1(3)] filestart_plain by simp_all
  have de: "inode (open_files s1 ! d) = i" "inode (open_files s1 ! ?e) = j" "content s1 d = inodes s ! i" "content s1 ?e = []"
      "position (open_files s1 ! ?e) = 0"
    using d(2,3) assms(4,5) s1 by (simp_all add: content_def nth_append)
  let ?data = "take n (drop off (inodes s ! i))"
  obtain q where q: "dd64 (Some buf) fd fo 0 0 n None () s1
      = (length ?data, (), put ?e ?data (set_position d q (set_position ?e 0 s1)))"
    using dd64_copy_put [of fd fo s1 d ?e 0 0 ?data n buf "()"] ofd_of_nonneg [OF of1(1)] fresh(3) ok of1 de assms(4) f1 by auto
  have "overlay [] 0 ?data = ?data" by (simp add: overlay_def)
  moreover have "content (set_position d q (set_position ?e 0 s1)) ?e = []" using de(4) by simp
  moreover have "d \<noteq> ?e" "position (open_files (set_position d q (set_position ?e 0 s1)) ! ?e) = 0" using d(3) s1(1) by simp_all
  ultimately have "inodes (put ?e ?data (set_position d q (set_position ?e 0 s1))) = (inodes s)[j := ?data]"
    using de(2) s1 by (simp add: put_def set_content_def content_def)
  then show ?thesis using q fresh(3) op assms(2,3) by (simp add: editor_peek_def)
qed

text \<open>An editor that accepts what lies at a place of a file, and finds n bytes there, without writing.\<close>

definition measures :: "'p editor \<Rightarrow> nat \<Rightarrow> nat \<Rightarrow> bytes \<Rightarrow> nat \<Rightarrow> bool" where
  "measures ed i off c n \<longleftrightarrow> header_size ed + off \<le> length c \<and>
     (\<exists>detect total. op_detect ed = Some detect \<and> op_total_size ed = Some total \<and>
       (\<forall>p fd s. window_of s fd i off \<and> inodes s ! i = c \<longrightarrow>
         (\<exists>p' s'. detect p True fd s = Ok (0, p', s') \<and> same_files s s') \<and>
         (\<exists>p' s'. total p fd s = Ok (int n, p', s') \<and> same_files s s')))"

lemma get_imgeditor_byname_less: "get_imgeditor_byname ty eds = Some q \<Longrightarrow> q < length eds"
  by (auto simp: get_imgeditor_byname_def Let_def split: if_splits)

lemma choose_input_measures:
  assumes "virtual_file_open (Some i) (int off) s = (fd, s1)" "0 \<le> fd" "vfps_ok s" "sys_ok s" "i < length (inodes s)"
    and "env_inode E f = Some i" "mo_type o1 = Some ty" "mo_action o1 = ACTION_PEEK" "get_imgeditor_byname ty eds = Some q"
    and "measures (eds ! q) i off (inodes s ! i) n"
  shows "\<exists>eds' s'. choose_input E o1 (int off) (Some f) (Some out) eds s = Ok (Run q eds' fd (int n) s') \<and>
    window_of s' fd i off \<and> inodes s' = inodes s"
proof -
  let ?c = "inodes s ! i"
  have w1: "window_of s1 fd i off" "inodes s1 = inodes s" using window_open [OF assms(1-5)] by simp_all
  obtain detect total where ops: "op_detect (eds ! q) = Some detect" "op_total_size (eds ! q) = Some total"
    and h: "header_size (eds ! q) + off \<le> length ?c"
    and runs: "\<And>p fd s. window_of s fd i off \<Longrightarrow> inodes s ! i = ?c \<Longrightarrow>
         (\<exists>p' s'. detect p True fd s = Ok (0, p', s') \<and> same_files s s') \<and> (\<exists>p' s'. total p fd s = Ok (int n, p', s') \<and> same_files s s')"
    using assms(10) unfolding measures_def by blast
  obtain p' s2 where dt: "detect (ed_data (eds ! q)) True fd s1 = Ok (0, p', s2)" "same_files s1 s2"
    using runs [OF w1(1), of "ed_data (eds ! q)"] w1(2) by auto
  have ed: "editor_detect (eds ! q) True fd s1 = Ok (0, (eds ! q)\<lparr>ed_data := p'\<rparr>, s2)"
    using window_of_simps(2) [OF w1(1)] h w1(2) ops(1) dt(1) by (simp add: editor_detect_def)
  have w2: "window_of s2 fd i off" "inodes s2 = inodes s" using window_same [OF w1(1) dt(2)] dt(2) w1(2) by (simp_all add: same_files_def)
  have fs2: "filestart fd s2 = int off" using window_of_simps(1) [OF w2(1)] .
  define s3 where "s3 = snd (lseek_set fd (int off) s2)"
  have w3: "window_of s3 fd i off" "inodes s3 = inodes s" using window_wind [OF w2(1)] w2(2) by (simp_all add: s3_def lseek_frame)
  obtain p'' s4 where tt: "total p' fd s3 = Ok (int n, p'', s4)" "same_files s3 s4" using runs [OF w3(1)] w3(2) by fastforce
  have w4: "window_of s4 fd i off" "inodes s4 = inodes s" using window_same [OF w3(1) tt(2)] tt(2) w3(2) by (simp_all add: same_files_def)
  have w5: "window_of (snd (lseek_set fd (int off) s4)) fd i off" "inodes (snd (lseek_set fd (int off) s4)) = inodes s"
    using window_wind [OF w4(1)] w4(2) by (simp_all add: lseek_frame)
  show ?thesis
    using assms(1,2,6-9) ed get_imgeditor_byname_less [OF assms(9)] ops(2) fs2 tt(1) w5 window_of_simps(1) [OF w4(1)]
    by (simp add: choose_input_def s3_def [symmetric] Let_def)
qed

lemma export_frame [simp]:
  "inodes (imgeditor_export_registed eds s) = inodes s" "sys_ok (imgeditor_export_registed eds s) = sys_ok s"
  by (simp_all add: imgeditor_export_registed_def sys_ok_def)

lemma vfps_ok_vfps: "vfps (gd s') = vfps (gd s) \<Longrightarrow> fds s' = fds s \<Longrightarrow> vfps_ok s' = vfps_ok s"
  by (simp add: vfps_ok_def ofd_of_def)

lemma export_vfps_ok [simp]: "vfps_ok (imgeditor_export_registed eds s) = vfps_ok s"
  by (rule vfps_ok_vfps) (simp_all, simp add: imgeditor_export_registed_def)

lemma main_done_inodes [simp]: "inodes (main_done fd s) = inodes s"
  by (simp add: main_done_def virtual_file_close_def set_vfp_def Let_def split: option.split)

lemma main_dispatch_peek:
  assumes "vfps_ok s" "sys_ok s" "\<exists>v\<in>set (vfps (gd s)). \<not> used v" "env_garbage E = Some buf" "i \<noteq> j"
    and "env_inode E f = Some i" "env_inode E out = Some j" "i < length (inodes s)" "j < length (inodes s)"
    and "get_imgeditor_byname ty eds = Some q" "measures (eds ! q) i off (inodes s ! i) n"
    and o1: "mo_type o1 = Some ty" "mo_action o1 = ACTION_PEEK" "\<not> mo_search_mode o1" "mo_offset_sector o1 = 0"
      "sint (mo_offset o1) = int off" "mo_origin_file o1 = Some f"
  shows "\<exists>s'. main_dispatch E mem args (Some out) o1 eds s = Some (Ok (0, [], s')) \<and>
    inodes s' = (inodes s)[j := take n (drop off (inodes s ! i))]"
proof -
  let ?s = "imgeditor_export_registed eds s"
  have x: "\<exists>v\<in>set (vfps (gd ?s)). \<not> used v" using assms(3) by simp
  obtain fd s1 where op: "virtual_file_open (Some i) (int off) ?s = (fd, s1)" "0 \<le> fd" using virtual_file_open_ok [OF x] by blast
  obtain eds' s2 where ch: "choose_input E o1 (int off) (Some f) (Some out) eds ?s = Ok (Run q eds' fd (int n) s2)"
      "window_of s2 fd i off" "inodes s2 = inodes s"
    using choose_input_measures [OF op _ _ _ assms(6) o1(1,2) assms(10), where n = n and out = out] assms(1,2,8,11) by auto
  obtain s3 where pk: "editor_peek E fd (int n) out s2 = (0, s3)" "inodes s3 = (inodes s)[j := take n (drop off (inodes s ! i))]"
    using editor_peek_copies [OF ch(2) assms(4,7), of n] assms(5,9) ch(3) by auto
  have "main_dispatch E mem args (Some out) o1 eds s = Some (Ok (0, [], main_done fd s3))"
    using o1 ch(1) pk(1) by (simp add: main_dispatch_def run_action_def)
  then show ?thesis using pk(2) by simp
qed

text \<open>C12: \<open>imgeditor --type ty --offset t --peek f out\<close> copies the image out of the file: when the editor of that type accepts
  what lies at the offset and finds n bytes there, the program ends with status 0, \<open>out\<close> has the n bytes of \<open>f\<close> from the
  offset on, and no other file is changed.\<close>

theorem main_peek_copies:
  assumes "vfps_ok s" "sys_ok s" "\<exists>v\<in>set (vfps (gd s)). \<not> used v" "plugins pp = []" "env_garbage E = Some buf" "i \<noteq> j"
    and "env_inode E f = Some i" "env_inode E out = Some j" "i < length (inodes s)" "j < length (inodes s)"
    and "get_imgeditor_byname ty eds = Some q" "measures (eds ! q) i off (inodes s ! i) n"
    and "strict_strtoul t 0 None = (w, 0)" "sint w = int off"
    and "''--'' \<notin> {prog, ty, t, f}" "take 1 out \<noteq> ''-''"
  shows "\<exists>s'. imgeditor_main E mem pp plugins [prog, ''--type'', ty, ''--offset'', t, ''--peek'', f, out] eds s = Some (Ok (0, [], s')) \<and>
    inodes s' = (inodes s)[j := take n (drop off (inodes s ! i))]"
proof -
  let ?opts = "[''--type'', ty, ''--offset'', t, ''--peek'', f, out]"
  have out: "out \<noteq> ''--''" "take 2 out \<noteq> ''--''" using assms(16) no_dash [OF assms(16)] by auto
  have lo: "find_long imgeditor_options ''offset'' = Some (go ''offset'' True ARG_OFFSET)"
    "find_long imgeditor_options ''type'' = Some (go ''type'' True ARG_TYPE)"
    "find_long imgeditor_options ''peek'' = Some (go ''peek'' True OPT_PEEK)"
    by (simp_all add: find_long_def imgeditor_options_def go_def)
  have g: "go_has_arg (go n b v) = b" "go_val (go n b v) = v" for n b v by (simp_all add: go_def)
  have ev: "fst (getopt_args ''hvs'' imgeditor_options ?opts) = [(ARG_TYPE, Some ty), (ARG_OFFSET, Some t), (OPT_PEEK, Some f)]"
    "snd (snd (getopt_args ''hvs'' imgeditor_options ?opts)) = [out]"
    using assms(16) out by (simp_all add: getopt_long1_def lo g Let_def)
  have n: "main_argc (prog # ?opts) = 8" using assms(15) out by (auto simp: main_argc_def)
  let ?o = "(main_opts0 pp)\<lparr>mo_type := Some ty, mo_offset := w, mo_ret := 0, mo_origin_file := Some f, mo_action := ACTION_PEEK\<rparr>"
  have mo: "main_options [(ARG_TYPE, Some ty), (ARG_OFFSET, Some t), (OPT_PEEK, Some f)] (main_opts0 pp) = Inr ?o"
    using assms(13) by (simp add: main_option_def arg_to_ull_def ARG_OFFSET_def ARG_TYPE_def ARG_SECTOR_def ARG_SECTOR_SIZE_def
        OPT_V_def ARG_VERBOSE_def ARG_PLUGIN_def ARG_DISABLE_PLUGIN_def OPT_PACK_def OPT_UNPACK_def OPT_PEEK_def main_opts0_def Let_def)
  let ?s = "s\<lparr>gd := (gd s)\<lparr>verbose_level := verbose_level (gd s) + 0\<rparr>\<rparr>"
  have s: "vfps_ok ?s" "sys_ok ?s" "\<exists>v\<in>set (vfps (gd ?s)). \<not> used v" "inodes ?s = inodes s"
    using assms(1-3) vfps_ok_vfps [of ?s s] by (simp_all add: sys_ok_def)
  have "imgeditor_main E mem pp plugins (prog # ?opts) eds s = main_dispatch E mem [] (Some out) ?o eds ?s"
    using ev mo assms(4) by (simp add: imgeditor_main_def n main_opts0_def Let_def case_prod_beta del: getopt_args.simps)
  then show ?thesis
    using main_dispatch_peek [OF s(1-3) assms(5-8), of ty eds q off n ?o mem "[]"] assms(9-12,14) s(4) by (simp add: main_opts0_def)
qed

section \<open>An example\<close>

definition demo_env :: core_env where
  "demo_env = \<lparr>env_garbage = Some (\<lambda>_. 0), env_inode = (\<lambda>f. if f = ''f'' then Some 0 else if f = ''o'' then Some 1 else None),
     env_tmp_name = [], env_tmp = None\<rparr>"

lemma demo_sys_unused: "\<exists>v\<in>set (vfps (gd (demo_sys c))). \<not> used v"
  by (simp add: demo_sys_def demo_gd_def MAX_VIRTUAL_FILE_def)

lemma strtoul_one: "strict_strtoul ''1'' 0 None = (1, 0)"
proof -
  have "dec_string 1 = ''1''" by (simp add: dec_string.simps char_of_def bit_0)
  then show ?thesis using strict_strtoul_dec [of 1 0 "CHR ''K''"] by (simp add: is_digit_in_def digit_value_def)
qed


theorem main_peek_copies_witness:
  "\<exists>s'. imgeditor_main demo_env True [] (\<lambda>_. []) [''p'', ''--type'', ''x'', ''--offset'', ''1'', ''--peek'', ''f'', ''o'']
      [demo_finder [] (\<lambda>_ _. True) 2] (demo_sys [7, 8, 9]) = Some (Ok (0, [], s')) \<and> inodes s' = [[7, 8, 9], [8, 9]]"
proof -
  let ?ed = "demo_finder [] (\<lambda>_ _. True) 2"
  have c: "inodes (demo_sys [7, 8, 9]) = [[7, 8, 9], [1, 2, 3]]" by (simp add: demo_sys_def)
  have "measures ?ed 0 1 [7, 8, 9] 2" by (auto simp: measures_def)
  then show ?thesis
    using main_peek_copies [where eds = "[?ed]" and plugins = "\<lambda>_. []" and pp = "[]" and E = demo_env and f = "''f''" and out = "''o''"
        and i = 0 and j = 1 and s = "demo_sys [7, 8, 9]" and prog = "''p''" and t = "''1''" and w = 1 and mem = True and ty = "''x''" and q = 0
        and n = 2 and off = 1 and buf = "\<lambda>_. 0", OF demo_sys_vfps demo_sys_ok(1) demo_sys_unused]
      strtoul_one c
    by (simp add: demo_env_def get_imgeditor_byname_def)
qed

section \<open>The search of a file ends\<close>

text \<open>Descriptors that are open stay open, on files with the same bytes.\<close>

definition keeps_open :: "sys \<Rightarrow> sys \<Rightarrow> bool" where
  "keeps_open s s' \<longleftrightarrow> (sys_ok s \<longrightarrow> sys_ok s') \<and>
     (\<forall>fd d. ofd_of s fd = Some d \<longrightarrow> ofd_of s' fd = Some d \<and> content s' d = content s d)"

lemma keeps_open_refl [simp]: "keeps_open s s"
  by (simp add: keeps_open_def)

lemma keeps_open_trans: "keeps_open s s' \<Longrightarrow> keeps_open s' s'' \<Longrightarrow> keeps_open s s''"
  unfolding keeps_open_def by metis

lemma keeps_open_position [simp]: "keeps_open s (set_position d p s)"
  by (simp add: keeps_open_def)

lemma keeps_open_seek [simp]: "keeps_open s (snd (lseek_set fd p s))"
  by (simp add: lseek_set_def split: option.split)

lemma keeps_open_read: "sys_read fd n s = (r, data, s') \<Longrightarrow> keeps_open s s'"
  by (auto simp: sys_read_def Let_def split: option.splits)

lemma keeps_open_filelength: "filelength fd s = (len, s') \<Longrightarrow> keeps_open s s'"
  by (auto simp: filelength_def lseek_end_def lseek_set_def Let_def split: option.splits prod.splits intro: keeps_open_trans)

text \<open>An editor whose functions keep that.\<close>

definition keeps_files :: "'p editor \<Rightarrow> bool" where
  "keeps_files ed \<longleftrightarrow>
     (\<forall>detect p force fd s r p' s'. op_detect ed = Some detect \<and> detect p force fd s = Ok (r, p', s') \<longrightarrow> keeps_open s s') \<and>
     (\<forall>summary p fd n s r txt p' s'. op_summary ed = Some summary \<and> summary p fd n s = Ok (r, txt, p', s') \<longrightarrow> keeps_open s s')"

lemma keeps_files_ops: "op_detect ed' = op_detect ed \<Longrightarrow> op_summary ed' = op_summary ed \<Longrightarrow> keeps_files ed' = keeps_files ed"
  by (simp add: keeps_files_def)

lemma editor_summary_keeps: "keeps_files ed \<Longrightarrow> editor_summary ed vfd p s = Ok (txt, s') \<Longrightarrow> keeps_open s s'"
  by (auto simp: editor_summary_def keeps_files_def cbind_eq_Ok split: option.splits)

lemma close_keeps:
  assumes "ofd_of s fd = None" "keeps_open s s1"
  shows "keeps_open s (snd (virtual_file_close fd s1))"
proof -
  have c: "ofd_of (sys_close fd s1) x = ofd_of s1 x" if "x \<noteq> fd" for x using that by (rule ofd_of_close)
  have "set (fds (sys_close fd s1)) \<subseteq> insert None (set (fds s1))"
    by (simp add: sys_close_def set_update_subset_insert subset_insertI)
  then have "sys_ok s1 \<Longrightarrow> sys_ok (sys_close fd s1)" by (auto simp: sys_ok_def sys_close_def split: if_splits)
  moreover have "ofd_of (sys_close fd s1) x = Some d \<and> content (sys_close fd s1) d = content s d" if "ofd_of s x = Some d" for x d
    using that assms c [of x] by (cases "x = fd") (auto simp: keeps_open_def content_def)
  ultimately have "keeps_open s (sys_close fd s1)" using assms(2) by (simp add: keeps_open_def)
  moreover have "keeps_open s (set_vfp i v s') = keeps_open s s'" for i v s'
    by (simp add: keeps_open_def sys_ok_def set_vfp_def ofd_of_def content_def)
  ultimately show ?thesis using assms(2) by (simp add: virtual_file_close_def split: option.split)
qed

lemma detect_at_keeps:
  assumes "keeps_files ed" "detect_at fd off ed imgs s = Ok (ed', imgs', s')" "ofd_of s fd = Some d" "sys_ok s"
  shows "keeps_open s s'"
proof -
  obtain vfd s1 where dup: "virtual_file_dup fd off s = Ok (vfd, s1)"
    using assms(2) by (cases "virtual_file_dup fd off s") (auto simp: detect_at_def)
  obtain i where v: "ofd_of s vfd = None" "0 \<le> vfd" "ofd_of s1 vfd = Some d" "\<And>x. x \<noteq> vfd \<Longrightarrow> ofd_of s1 x = ofd_of s x"
      "content s1 = content s" "sys_ok s \<Longrightarrow> sys_ok s1"
    using virtual_file_dup_steps [OF dup assms(3) sys_ok_ofd [OF assms(4,3)]] by metis
  have k1: "keeps_open s s1" using v by (auto simp: keeps_open_def) (metis option.distinct(1))
  obtain s3 where s3: "keeps_open s1 s3" "s' = snd (virtual_file_close vfd s3)"
  proof -
    obtain detect ret p s2 imgs2 s3 where 1: "op_detect ed = Some detect"
        "detect (ed_data (editor_reset ed)) False vfd s1 = Ok (ret, p, s2)"
        "(if ret = 0 then cbind (editor_summary ed vfd p s2) (\<lambda>(txt, s3).
            Ok (imgs @ [\<lparr>il_name = ie_name ed, il_offset = off, il_summary = txt\<rparr>], s3)) else Ok (imgs, s2)) = Ok (imgs2, s3)"
        "s' = snd (virtual_file_close vfd s3)"
      using assms(2) dup v(2) by (auto simp: detect_at_def Let_def cbind_eq_Ok split: option.splits)
    have "keeps_open s1 s2" using assms(1) 1(1,2) unfolding keeps_files_def by blast
    moreover have "keeps_open s2 s3"
      using 1(3) editor_summary_keeps [OF assms(1)] by (auto simp: cbind_eq_Ok split: if_splits)
    ultimately show ?thesis using that 1(4) keeps_open_trans by blast
  qed
  show ?thesis unfolding s3(2) using close_keeps [OF v(1)] keeps_open_trans [OF k1 s3(1)] by blast
qed

definition same_ops :: "'p editor \<Rightarrow> 'p editor \<Rightarrow> bool" where
  "same_ops ed ed' \<longleftrightarrow> op_detect ed' = op_detect ed \<and> op_summary ed' = op_summary ed"

lemma search_editor_keeps:
  assumes "keeps_files ed" "search_editor fd fo buf ed st = Ok (ed', st')" "ofd_of (ss_sys st) fd = Some d" "sys_ok (ss_sys st)"
  shows "keeps_open (ss_sys st) (ss_sys st') \<and> same_ops ed ed'"
proof (cases "\<not> ss_offset0_searched st \<and> fo = 0 \<and> ie_name ed = ''mbr''")
  case True
  then obtain imgs s' where "detect_at fd 0 ed (ss_imgs st) (ss_sys st) = Ok (ed', imgs, s')" "ss_sys st' = s'"
    using assms(2) by (auto simp: search_editor_def cbind_eq_Ok)
  then show ?thesis using detect_at_keeps [OF assms(1) _ assms(3,4)] detect_at_editor by (fastforce simp: same_ops_def)
next
  case False
  show ?thesis
  proof (cases "sm_magic ed = []")
    case True
    then show ?thesis using assms(2) False by (auto simp: search_editor_def same_ops_def)
  next
    case ne: False
    obtain r nxt where sm: "search_magic fo buf ed = (r, nxt)" by (cases "search_magic fo buf ed")
    show ?thesis
    proof (cases r)
      case None
      then show ?thesis using assms(2) False ne sm by (auto simp: search_editor_def same_ops_def)
    next
      case (Some i)
      obtain len s1 where fl: "filelength fd (ss_sys st) = (len, s1)" by (cases "filelength fd (ss_sys st)")
      note k1 = keeps_open_filelength [OF fl]
      have o1: "ofd_of s1 fd = Some d" "sys_ok s1" using k1 assms(3,4) by (simp_all add: keeps_open_def)
      show ?thesis
      proof (cases "fo + int i - int (sm_offset ed) + to_int (int (header_size ed)) > len")
        case True
        then show ?thesis using assms(2) False ne sm Some fl k1 by (auto simp: search_editor_def Let_def same_ops_def)
      next
        case hdr: False
        obtain imgs s2 where dt: "detect_at fd (fo + int i - int (sm_offset ed)) (ed\<lparr>sm_next := nxt\<rparr>) (ss_imgs st) s1 = Ok (ed', imgs, s2)"
            "ss_sys st' = s2"
          using assms(2) False ne sm Some fl hdr by (auto simp: search_editor_def Let_def cbind_eq_Ok)
        have "keeps_files (ed\<lparr>sm_next := nxt\<rparr>)" using assms(1) by (simp add: keeps_files_def)
        then have "keeps_open s1 s2" using detect_at_keeps dt(1) o1 by blast
        then have "keeps_open (ss_sys st) (ss_sys st')" using k1 dt(2) keeps_open_trans by blast
        moreover have "same_ops ed ed'" using detect_at_editor [OF dt(1)] by (simp add: same_ops_def)
        ultimately show ?thesis by simp
      qed
    qed
  qed
qed

lemma search_round_keeps:
  "search_round fd fo buf eds st = Ok (eds', st') \<Longrightarrow> \<forall>ed\<in>set eds. keeps_files ed \<Longrightarrow> ofd_of (ss_sys st) fd = Some d \<Longrightarrow> sys_ok (ss_sys st) \<Longrightarrow>
    keeps_open (ss_sys st) (ss_sys st') \<and> list_all2 same_ops eds eds'"
proof (induction eds arbitrary: st eds')
  case (Cons ed eds)
  obtain ed1 st1 eds1 where 1: "search_editor fd fo buf ed st = Ok (ed1, st1)" "search_round fd fo buf eds st1 = Ok (eds1, st')" "eds' = ed1 # eds1"
    using Cons.prems(1) by (auto simp: cbind_eq_Ok)
  have k: "keeps_open (ss_sys st) (ss_sys st1)" "same_ops ed ed1"
    using search_editor_keeps [OF _ 1(1) Cons.prems(3,4)] Cons.prems(2) by simp_all
  have "keeps_open (ss_sys st1) (ss_sys st') \<and> list_all2 same_ops eds eds1"
    using Cons.IH [OF 1(2)] Cons.prems(2-4) k(1) by (simp add: keeps_open_def)
  then show ?case using k(2) keeps_open_trans [OF k(1)] unfolding 1(3) by simp
qed simp

lemma keeps_files_same_ops: "list_all2 same_ops eds eds' \<Longrightarrow> \<forall>ed\<in>set eds. keeps_files ed \<Longrightarrow> \<forall>ed\<in>set eds'. keeps_files ed"
  by (induction rule: list_all2_induct) (auto simp: same_ops_def dest: keeps_files_ops)

definition rounds_keep :: "nat \<Rightarrow> int \<Rightarrow> int \<Rightarrow> bytes \<Rightarrow> 'p editor list \<Rightarrow> search_state \<Rightarrow> ('p editor list \<times> search_state) cres \<Rightarrow> bool" where
  "rounds_keep d fd fo buf eds st r \<longleftrightarrow>
     (\<forall>eds' st'. r = Ok (eds', st') \<longrightarrow> (\<forall>ed\<in>set eds. keeps_files ed \<and> silent_mbr ed) \<longrightarrow> ofd_of (ss_sys st) fd = Some d \<longrightarrow>
       sys_ok (ss_sys st) \<longrightarrow> 0 \<le> fo \<longrightarrow> length buf < 2 ^ 31 \<longrightarrow>
       keeps_open (ss_sys st) (ss_sys st') \<and> (\<forall>ed\<in>set eds'. keeps_files ed \<and> silent_mbr ed))"

lemma rounds_keepD:
  assumes "rounds_keep d fd fo buf eds st (Ok (eds', st'))" "\<forall>ed\<in>set eds. keeps_files ed \<and> silent_mbr ed"
    "ofd_of (ss_sys st) fd = Some d" "sys_ok (ss_sys st)" "0 \<le> fo" "length buf < 2 ^ 31"
  shows "keeps_open (ss_sys st) (ss_sys st') \<and> (\<forall>ed\<in>set eds'. keeps_files ed \<and> silent_mbr ed)"
  using assms unfolding rounds_keep_def by blast

lemma search_rounds_keeps:
  assumes "search_rounds fd fo buf eds st = Some r"
  shows "rounds_keep d fd fo buf eds st r"
proof (rule search_rounds.raw_induct [OF _ assms])
  fix rec :: "int \<Rightarrow> int \<Rightarrow> bytes \<Rightarrow> 'a editor list \<Rightarrow> search_state \<Rightarrow> ('a editor list \<times> search_state) cres option"
    and fd fo buf eds st r
  assume IH: "\<And>fd fo buf eds st r. rec fd fo buf eds st = Some r \<Longrightarrow> rounds_keep d fd fo buf eds st r"
    and eq: "(case search_round fd fo buf eds (st\<lparr>ss_ready := False\<rparr>) of
        Ok (eds', st') \<Rightarrow> if ss_ready st' then rec fd fo buf eds' st' else Some (Ok (eds', st'))
      | Oob \<Rightarrow> Some Oob | NoFuel \<Rightarrow> Some NoFuel) = Some r"
  show "rounds_keep d fd fo buf eds st r"
    unfolding rounds_keep_def
  proof (intro allI impI)
    fix eds' st'
    assume a: "r = Ok (eds', st')" "\<forall>ed\<in>set eds. keeps_files ed \<and> silent_mbr ed" "ofd_of (ss_sys st) fd = Some d"
      "sys_ok (ss_sys st)" "0 \<le> fo" "length buf < 2 ^ 31"
    obtain eds1 st1 where rd: "search_round fd fo buf eds (st\<lparr>ss_ready := False\<rparr>) = Ok (eds1, st1)"
      and res: "(if ss_ready st1 then rec fd fo buf eds1 st1 else Some (Ok (eds1, st1))) = Some (Ok (eds', st'))"
      using eq a(1) by (auto split: cres.splits)
    have k: "keeps_open (ss_sys st) (ss_sys st1)" "list_all2 same_ops eds eds1"
      using search_round_keeps [OF rd] a by simp_all
    have "list_all2 (searched fo buf) eds eds1"
      using search_round_searched [OF rd] a by simp
    then have e: "\<forall>ed\<in>set eds1. keeps_files ed \<and> silent_mbr ed"
      using keeps_files_same_ops [OF k(2)] silent_mbr_searched a(2) by blast
    show "keeps_open (ss_sys st) (ss_sys st') \<and> (\<forall>ed\<in>set eds'. keeps_files ed \<and> silent_mbr ed)"
    proof (cases "ss_ready st1")
      case True
      then have "rec fd fo buf eds1 st1 = Some (Ok (eds', st'))" using res by simp
      then have "rounds_keep d fd fo buf eds1 st1 (Ok (eds', st'))" by (rule IH)
      moreover have "ofd_of (ss_sys st1) fd = Some d" "sys_ok (ss_sys st1)" using a(3,4) k(1) by (simp_all add: keeps_open_def)
      ultimately have "keeps_open (ss_sys st1) (ss_sys st') \<and> (\<forall>ed\<in>set eds'. keeps_files ed \<and> silent_mbr ed)"
        using rounds_keepD [OF _ e] a(5,6) by blast
      then show ?thesis using keeps_open_trans [OF k(1)] by blast
    next
      case False
      then show ?thesis using res k(1) e by simp
    qed
  qed
qed

text \<open>One buffer: the search comes back, with what it needs for the next one.\<close>

definition ready_for :: "int \<Rightarrow> 'p editor list \<Rightarrow> bool" where
  "ready_for fo eds \<longleftrightarrow> (\<forall>ed\<in>set eds. keeps_files ed \<and> silent_mbr ed \<and> (sm_magic ed \<noteq> [] \<longrightarrow> next_ok fo ed))"

lemma search_buf_ready:
  assumes "ready_for fo eds" "ofd_of s fd = Some d" "sys_ok s" "0 \<le> fo" "buf \<noteq> []" "length buf < 2 ^ 31"
  obtains r where "imgeditor_search_buf fd fo buf eds s = Some r"
    "\<And>eds' imgs log s'. r = Ok (eds', imgs, log, s') \<Longrightarrow> keeps_open s s' \<and> (1024 \<le> length buf \<longrightarrow> ready_for (fo + int (length buf) - 1024) eds')"
proof -
  let ?st = "\<lparr>ss_ready = False, ss_offset0_searched = False, ss_imgs = [], ss_log = [], ss_sys = s\<rparr>"
  have p: "\<forall>ed\<in>set eds. silent_mbr ed" "\<forall>ed\<in>set eds. sm_magic ed \<noteq> [] \<longrightarrow> next_ok fo ed" "\<forall>ed\<in>set eds. keeps_files ed \<and> silent_mbr ed"
    using assms(1) by (auto simp: ready_for_def)
  obtain r where r: "search_rounds fd fo buf eds ?st = Some r" "\<forall>eds' st'. r = Ok (eds', st') \<longrightarrow> search_done fo buf (map sm_magic eds) eds'"
    using search_rounds_ends [OF assms(4,6) p(1,2), of fd ?st] by blast
  have k: "keeps_open s (ss_sys st') \<and> (\<forall>ed\<in>set eds'. keeps_files ed \<and> silent_mbr ed)" if "r = Ok (eds', st')" for eds' st'
    using rounds_keepD [OF search_rounds_keeps [OF r(1) [unfolded that]] p(3)] assms(2-4,6) by simp
  have rd: "ready_for (fo + int (length buf) - 1024) eds'" if "r = Ok (eds', st')" "1024 \<le> length buf" for eds' st'
  proof -
    have "search_done fo buf (map sm_magic eds) eds'" using r(2) that(1) by blast
    then have "sm_magic ed \<noteq> [] \<longrightarrow> next_ok (fo + int (length buf) - 1024) ed" if "ed \<in> set eds'" for ed
      using that assms(4,5) \<open>1024 \<le> length buf\<close> by (fastforce simp: search_done_def next_ok_def)
    then show ?thesis using k [OF that(1)] by (simp add: ready_for_def)
  qed
  show ?thesis
    by (rule that [of "cbind r (\<lambda>(eds', st). Ok (eds', ss_imgs st, ss_log st, ss_sys st))"])
      (use r(1) k rd in \<open>auto simp: imgeditor_search_buf_def cbind_eq_Ok\<close>)
qed

lemma search_foreach_ends:
  assumes "0 \<le> off"
  shows "ofd_of s fd = Some d \<Longrightarrow> sys_ok s \<Longrightarrow> ready_for (if off > 1024 then off - 1024 else off) eds \<Longrightarrow>
    \<exists>r. search_foreach_loop fd off count txt eds s = Some r"
  using assms
proof (induction "nat (int (length (content s d)) + 1024 - off)" arbitrary: off count "txt" eds s rule: less_induct)
  case less
  define off1 where "off1 = (if off > 1024 then off - 1024 else off)"
  have off1: "0 \<le> off1" "off \<le> off1 + 1024" using less.prems(4) by (simp_all add: off1_def)
  define s1 where "s1 = set_position d (nat off1) s"
  have d: "d < length (open_files s)" using sys_ok_ofd [OF less.prems(2,1)] .
  have sk: "snd (lseek_set fd off1 s) = s1" using less.prems(1) off1 by (simp add: lseek_set_def s1_def)
  obtain loaded buf s2 where rd: "sys_read fd BUF4M_SZ s1 = (loaded, buf, s2)" by (cases "sys_read fd BUF4M_SZ s1") auto
  have o1: "ofd_of s1 fd = Some d" using less.prems(1) by (simp add: s1_def)
  have b: "loaded = int (length buf)" "length buf \<le> BUF4M_SZ" "off1 + loaded \<le> max off1 (int (length (content s d)))"
    using rd o1 d off1 by (auto simp: sys_read_def Let_def s1_def)
  have k2: "keeps_open s s2" using keeps_open_trans [OF _ keeps_open_read [OF rd]] by (simp add: s1_def)
  have o2: "ofd_of s2 fd = Some d" "sys_ok s2" using k2 less.prems(1,2) by (simp_all add: keeps_open_def)
  have unf: "search_foreach_loop fd off count txt eds s =
    (if loaded \<le> 0 then Some (Ok (count, txt, eds, s2))
     else case imgeditor_search_buf fd off1 buf eds s2 of
         None \<Rightarrow> None
       | Some r \<Rightarrow>
           (case r of
              Ok (eds', imgs, log, s3) \<Rightarrow>
                let title = (if count = 0 \<and> imgs \<noteq> []
                      then pad_right 20 ''NAME'' @ '' '' @ pad_right 25 ''OFFSET'' @ '' '' @ pad_right 25 ''SECTOR'' @ [newline] else []);
                    txt' = txt @ log @ title @ concat (map (print_img_location s3) (img_locations_sorted imgs));
                    count' = count + length imgs
                in if loaded = int BUF4M_SZ then search_foreach_loop fd (off1 + loaded) count' txt' eds' s3
                   else Some (Ok (count', txt', eds', s3))
            | Oob \<Rightarrow> Some Oob
            | NoFuel \<Rightarrow> Some NoFuel))"
    by (subst search_foreach_loop.simps) (simp only: off1_def [symmetric] Let_def sk rd prod.case)
  show ?case
  proof (cases "loaded \<le> 0")
    case False
    have bb: "buf \<noteq> []" "length buf < 2 ^ 31" using False b(1,2) by (auto simp: BUF4M_SZ_def)
    obtain r where r: "imgeditor_search_buf fd off1 buf eds s2 = Some r"
      "\<And>eds' imgs log s'. r = Ok (eds', imgs, log, s') \<Longrightarrow> keeps_open s2 s' \<and> (1024 \<le> length buf \<longrightarrow> ready_for (off1 + int (length buf) - 1024) eds')"
      using search_buf_ready [OF less.prems(3) [folded off1_def] o2 off1(1) bb] by blast
    have again: "\<exists>r. search_foreach_loop fd (off1 + loaded) count' txt' eds' s3 = Some r"
      if full: "loaded = int BUF4M_SZ" and ok: "r = Ok (eds', imgs, log, s3)" for eds' imgs log s3 count' txt'
    proof -
      have k3: "keeps_open s s3" using r(2) [OF ok] keeps_open_trans [OF k2] by blast
      have o3: "ofd_of s3 fd = Some d" "sys_ok s3" "content s3 d = content s d" using k3 less.prems(1,2) by (simp_all add: keeps_open_def)
      have far: "1024 < loaded" using full by (simp add: BUF4M_SZ_def)
      have "off1 + loaded \<le> int (length (content s d))" using b(3) far by linarith
      then have lt: "nat (int (length (content s3 d)) + 1024 - (off1 + loaded)) < nat (int (length (content s d)) + 1024 - off)"
        using far off1(2) o3(3) by simp
      have "ready_for (off1 + loaded - 1024) eds'" using r(2) [OF ok] b(1) far by simp
      moreover have "1024 < off1 + loaded" using far off1(1) by linarith
      ultimately show ?thesis using less.hyps [OF lt o3(1,2)] by simp
    qed
    show ?thesis
      unfolding unf r(1) using False again by (cases r) (auto simp: Let_def)
  qed (simp add: unf)
qed

text \<open>C14: the search of a file ends: for every file, every offset and every list of editors that leave the files that are open
  as they are, the search comes back.\<close>

theorem imgeditor_search_ends:
  assumes "\<forall>ed\<in>set eds. keeps_files ed \<and> silent_mbr ed \<and> sm_next ed = 0" "0 \<le> off" "vfps_ok s" "sys_ok s"
    and "\<forall>i. file = Some i \<longrightarrow> i < length (inodes s)"
  shows "\<exists>r. imgeditor_search mem file off eds s = Some r"
proof -
  obtain fd s1 where op: "virtual_file_open file off s = (fd, s1)" by (cases "virtual_file_open file off s")
  show ?thesis
  proof (cases "0 \<le> fd")
    case True
    obtain i where i: "file = Some i" using op True by (cases "file") (auto simp: virtual_file_open_def fileopen_def sys_open_def)
    have w: "window_of s1 fd i (nat off)" using window_open [of i "nat off" s fd s1] op True i assms(2-5) by simp
    then obtain d where d: "ofd_of s1 fd = Some d" "sys_ok s1" by (auto simp: window_of_def)
    obtain len where fl: "filelength fd s1 = (len, s1)" using window_of_simps(2) [OF w] by simp
    have fs: "filestart fd s1 = off" using window_of_simps(1) [OF w] assms(2) by simp
    have "ready_for (if off > 1024 then off - 1024 else off) eds" using assms(1) by (simp add: ready_for_def next_ok_def)
    then obtain r where "search_foreach_loop fd off 0 [] eds s1 = Some r" using search_foreach_ends [OF assms(2) d] by blast
    then show ?thesis using op True fl fs by (simp add: imgeditor_search_def imgeditor_search_foreach_def)
  qed (simp add: imgeditor_search_def op)
qed

theorem imgeditor_search_ends_witness:
  "\<exists>r. imgeditor_search True (Some 0) 1 [demo_finder [8] (\<lambda>_ _. True) 1] (demo_sys [7, 8, 9]) = Some r"
  by (rule imgeditor_search_ends [OF _ _ demo_sys_vfps demo_sys_ok(1)])
    (auto simp: keeps_files_def silent_mbr_def demo_sys_def)

end
