(* ===== verification/Spec2Isabelle.thy ===== *)
theory Spec2Isabelle
  imports Bitmask CrcValues Lists Rc4 StringLaws ExiniLaws FileLaws MbrLaws XoptLaws SparseLaws UenvLaws StructureLaws GptLaws HashLaws BootimgLaws FdtLaws DtimgLaws MainLaws
begin

text \<open>
  imgeditor looks at binary images of firmware and disks: it finds them in a larger file, lists them, copies them out, takes them
  apart and puts them together. A core (main.c, misc.c) keeps a list of editors, one per format. An editor is a structure of
  functions over private data (imgeditor.h); the core finds the editor that accepts a file and calls the function of the action
  that was asked for. All editors work on virtual files (virtual\_file.c), windows into a file that start at an offset, copy with
  dd.c, and share global data (gd.c) in which the partitions that some of them find are registered (disk\_partition.c).

  \<^bold>\<open>Theories and sources\<close>

  A theory X holds the definitions, the theory XLaws what is proved of them (Bitmask, Lists and Rc4 hold both).

  \<^item> Prelude: types of words and bytes, the conversions of C between integers, results that can go wrong, lemmas and two collections
    of facts that all share, and the interface \<open>byte_stream\<close> of a checksum that is fed in pieces.
  \<^item> Bitmask (bitmask.c, bitmask.h), Lists (list\_head.h), Crc (libs/crc, crc32.c), Rc4 (rc4.c), Strings (string\_helper.c,
    string\_helper.h, xstring.c, keymap.c, \<open>smart_format_size\<close> of misc.c), Xopt (libs/libxopt), Exini (exini.c), Json (json\_helper.c),
    Structure (structure.c, hexdump\_printf.c), Hash (libs/hash): the libraries.
  \<^item> Files: the system calls, virtual\_file.c, dd.c, disk\_partition.c, gd.c. TransferLaws: what copying and hashing a file have
    in common in the packers.
  \<^item> Mbr (disk/mbr.c), Gpt (disk/gpt.c), Sparse (android/android\_sparse.c), Bootimg (android/android\_bootimg.c), Dtimg
    (android/dtimg.c), Uenv (u-boot/uenv.c), Fdt (fdt/fdt.c): the editors, each with its private data as a record and one definition
    per function of the C file, under its name.
  \<^item> Core (main.c and the rest of misc.c): registration, the search for magic numbers, the calls of one editor by another,
    and the program from its arguments to its status. CoreLaws holds the search, MainLaws the program.

  \<^bold>\<open>How the code is read\<close>

  Integers have the width of the code, as words where it wraps; conversions go through the functions of Prelude. The result type
  \<open>cres\<close> has \<open>Ok\<close> for a run that C defines, \<open>Oob\<close> for an access outside its memory or through a null pointer, and \<open>NoFuel\<close>.
  An error that the code reports is its return value. The state of the system (\<open>sys\<close>) has descriptors, open file
  descriptions with their positions, which \<open>dup\<close> shares, contents of files, the number of bytes that one transfer moves, and the
  global data; every operation takes it and returns it. Memory that the code does not clear (the buffer of \<open>dd64\<close>, arrays
  on the stack) is an argument, and so is whether an allocation succeeds, where the code looks at it. What is printed is returned.
  Linked lists are a heap of links in Lists, where the operations are shown to be those on sequences; everywhere else they are
  sequences. A pointer into a tree or a list is the path or the place it stands for.

  cJSON is a submodule that is not in the repository: its functions are the parameter \<open>cjson\<close> of Json, with the documented
  laws as hypotheses where they are needed, and a concrete instance in the witnesses. The names of files are a parameter that
  gives the inode behind a name. \<open>getopt_long\<close>, the number parsers and the string functions of the C library are defined from the
  standard.

  \<^bold>\<open>What is proved\<close>

  \<^item> Round trips: an image that a packer writes is accepted by its detector, with its parts at their places and its checksums right
    (sparse images, boot images, device tree tables, GUID partition tables, u-boot environments), and expanding or listing it gives
    back what was packed; a flattened device tree is read back as the tree; an ini file and a table of structure fields are read
    back as they were saved.
  \<^item> Equivalences: the table-driven CRCs are the bitwise shift registers, the hashes fed in any pieces are the padding and the
    block function over the whole message, the replacement in a buffer is the textbook one, list operations are those on sequences.
  \<^item> The file layer: a read hides short transfers, a copy moves exactly the bytes of the range, a virtual file is a window, the
    table of virtual files keeps its invariant.
  \<^item> Searches and lookups: the search for images ends and offers every magic number of a buffer; the registered
    partition that an address lies in, the first device tree node with a phandle, the labels of symbols, the options of a command line.
  \<^item> The program: \<open>--peek\<close> copies the image out.
  \<^item> Where the code does not do what it means to, a theorem says what it does: chains of boot records that never end or overrun the array, reads
    behind the data of an overlay, the value that most entries share, magic numbers across two buffers, an offset that is added twice, a status
    that hides a failure.

  \<^bold>\<open>Loops\<close>

  Loops are recursions on their data, or functions with a measure. Fuel is used where the code has a loop that its data may keep from
  ending: \<open>bitmask_foreach\<close> (enough is one more than the number of bits, which is proved), the traversal of a linked list
  (one more than its length, proved), \<open>string_replace_loop\<close> (one round per character, proved), and the chain of extended boot
  records (the length of the chain; when the records lead back to each other, one more than the free
  places if each holds a logical partition, and no fuel is enough if none does: both are a theorem). The two
  loops of the search are partial functions whose result is \<open>None\<close> when they do not end; both are proved to end, the one over the
  file for editors that leave the open files as they are.

  \<^bold>\<open>What is not modelled\<close>

  The file systems (fs/ext2.c, fs/f2fs.c, fs/xfs.c, fs/ubi.c, fs/squashfs.c): they read large on-disk structures of other
  projects and were left for later. libs/minilzo is a copy of another project, which ubi.c uses. Not part of any model either: loading plugins
  (\<open>dlopen\<close>), the shared memory of gd.c, texts on the error output, usage messages, access modes and devices that fail, the
  local time that one printer asks for, reading and writing JSON text (cJSON), the variant of SHA-384/512 for 32 bit
  machines, and the tests.
\<close>

end
